(* ===== verification/KL_Prelude.thy ===== *)
theory KL_Prelude
  imports Main "HOL-Library.Char_ord" "HOL-Library.List_Lexorder"
begin

text \<open>
  The prelude of the development: what every component uses of Go and of its standard
  library, and the lemmas and lemma collections the component theories share.

  A Go \<open>string\<close> is a sequence of bytes, and so is HOL's \<^typ>\<open>string\<close> (a list of 8-bit
  characters), so \<open>len\<close> is \<^const>\<open>length\<close> and Go's string order is the lexicographic order
  of \<^theory_text>\<open>List_Lexorder\<close> over \<^theory_text>\<open>Char_ord\<close>.  The functions below model the parts of
  \<open>strings\<close>, \<open>strconv\<close>, \<open>sort\<close>, \<open>unicode/utf8\<close> and \<open>time\<close> the program calls, on bytes,
  invalid UTF-8 included.  A fallible Go function returns a value of the sum type
  \<open>'e + 'a\<close>: \<^term>\<open>Inl e\<close> for a non-nil error and \<^term>\<open>Inr v\<close> for a result.
\<close>

named_theorems go_str \<open>facts about the string functions of the standard library\<close>
named_theorems go_time \<open>facts about instants, durations and dates\<close>
named_theorems go_list \<open>facts about loops over slices and maps\<close>

lemma find_SomeD [go_list]: "find P xs = Some x \<Longrightarrow> x \<in> set xs \<and> P x"
  by (induction xs) (auto split: if_splits)

lemma find_by_key:
  "distinct (map key xs) \<Longrightarrow> x \<in> set xs \<Longrightarrow> find (\<lambda>y. key y = key x) xs = Some x"
proof (induction xs)
  case Nil
  then show ?case by simp
next
  case (Cons z zs)
  show ?case
  proof (cases "key z = key x")
    case True
    with Cons.prems have "z = x" by (auto dest: inj_onD [of key "set (z # zs)"] simp: distinct_map)
    then show ?thesis by simp
  next
    case False
    with Cons show ?thesis by auto
  qed
qed

section \<open>Prefixes, suffixes, search\<close>

definition has_prefix :: "string \<Rightarrow> string \<Rightarrow> bool" where
  "has_prefix s p \<longleftrightarrow> take (length p) s = p"

definition has_suffix :: "string \<Rightarrow> string \<Rightarrow> bool" where
  "has_suffix s p \<longleftrightarrow> length p \<le> length s \<and> drop (length s - length p) s = p"

lemma has_prefix_iff [go_str]: "has_prefix s p \<longleftrightarrow> (\<exists>r. s = p @ r)"
  unfolding has_prefix_def by (metis append_eq_conv_conj append_take_drop_id)

lemma has_suffix_iff [go_str]: "has_suffix s p \<longleftrightarrow> (\<exists>r. s = r @ p)"
proof
  assume "has_suffix s p"
  then show "\<exists>r. s = r @ p"
    unfolding has_suffix_def by (metis append_take_drop_id)
next
  assume "\<exists>r. s = r @ p"
  then show "has_suffix s p" by (auto simp: has_suffix_def)
qed

text \<open>\<open>strings.Index\<close>: the first position of a substring.\<close>

fun index_of :: "string \<Rightarrow> string \<Rightarrow> nat option" where
  "index_of [] p = (if p = [] then Some 0 else None)"
| "index_of (c # s) p =
     (if has_prefix (c # s) p then Some 0 else map_option Suc (index_of s p))"

definition contains_str :: "string \<Rightarrow> string \<Rightarrow> bool" where
  "contains_str s p \<longleftrightarrow> index_of s p \<noteq> None"

lemma index_of_split: "index_of s p = Some n \<Longrightarrow> s = take n s @ p @ drop (n + length p) s"
proof (induction s arbitrary: n)
  case Nil
  then show ?case by (auto split: if_splits)
next
  case (Cons c s)
  show ?case
  proof (cases "has_prefix (c # s) p")
    case True
    with Cons.prems have "n = 0" by simp
    with True show ?thesis by (auto simp: has_prefix_iff)
  next
    case False
    with Cons.prems obtain m where "index_of s p = Some m" "n = Suc m" by auto
    with Cons.IH [of m] show ?thesis by simp
  qed
qed

lemma index_of_append: "index_of (r @ p @ t) p \<noteq> None"
proof (induction r)
  case Nil
  have "has_prefix (p @ t) p" by (simp add: has_prefix_def)
  then show ?case by (cases "p @ t") auto
next
  case (Cons c r)
  then show ?case by auto
qed

lemma contains_str_iff [go_str]: "contains_str s p \<longleftrightarrow> (\<exists>r t. s = r @ p @ t)"
proof
  assume "contains_str s p"
  then obtain n where "index_of s p = Some n" by (auto simp: contains_str_def)
  then have "s = take n s @ p @ drop (n + length p) s" by (rule index_of_split)
  then show "\<exists>r t. s = r @ p @ t" by blast
next
  assume "\<exists>r t. s = r @ p @ t"
  then show "contains_str s p" using index_of_append by (auto simp: contains_str_def)
qed

text \<open>\<open>strings.Cut\<close>: around the first occurrence of the separator.\<close>

definition cut :: "string \<Rightarrow> string \<Rightarrow> string \<times> string \<times> bool" where
  "cut s p = (case index_of s p of
      None \<Rightarrow> (s, [], False)
    | Some n \<Rightarrow> (take n s, drop (n + length p) s, True))"

lemma index_of_byte: "c \<notin> set a \<Longrightarrow> index_of (a @ c # b) [c] = Some (length a)"
  by (induction a) (auto simp: has_prefix_def)

lemma cut_at_byte: "c \<notin> set a \<Longrightarrow> cut (a @ c # b) [c] = (a, b, True)"
  by (simp add: cut_def index_of_byte)

text \<open>\<open>strings.Split\<close> on a separator of one byte: always at least one piece.\<close>

fun split_on :: "char \<Rightarrow> string \<Rightarrow> string list" where
  "split_on c [] = [[]]"
| "split_on c (x # xs) =
     (if x = c then [] # split_on c xs
      else (case split_on c xs of [] \<Rightarrow> [[x]] | y # ys \<Rightarrow> (x # y) # ys))"

lemma split_on_not_Nil [simp]: "split_on c s \<noteq> []"
  by (induction s) (auto split: list.splits)

text \<open>\<open>strings.Join\<close> and \<open>strings.ReplaceAll\<close> of a single byte.\<close>

fun join :: "string \<Rightarrow> string list \<Rightarrow> string" where
  "join sep [] = []"
| "join sep [x] = x"
| "join sep (x # y # ys) = x @ sep @ join sep (y # ys)"

definition replace_byte :: "char \<Rightarrow> string \<Rightarrow> string \<Rightarrow> string" where
  "replace_byte c new s = concat (map (\<lambda>x. if x = c then new else [x]) s)"

lemma join_split_on: "join [c] (split_on c s) = s"
proof (induction s)
  case Nil
  then show ?case by simp
next
  case (Cons x xs)
  then show ?case
    by (cases "split_on c xs"; cases "tl (split_on c xs)")
      (auto split: list.splits)
qed

section \<open>White space\<close>

text \<open>
  \<open>unicode.IsSpace\<close> by the UTF-8 encodings of its code points.  Every encoding starts with
  a byte that is never a continuation byte, so an occurrence in a string is always one
  decoded rune, whatever surrounds it.
\<close>

definition space_seqs :: "string list" where
  "space_seqs =
    [[CHR 0x20], [CHR 0x09], [CHR 0x0A], [CHR 0x0B], [CHR 0x0C], [CHR 0x0D],
     [CHR 0xC2, CHR 0x85], [CHR 0xC2, CHR 0xA0],
     [CHR 0xE1, CHR 0x9A, CHR 0x80],
     [CHR 0xE2, CHR 0x80, CHR 0x80], [CHR 0xE2, CHR 0x80, CHR 0x81],
     [CHR 0xE2, CHR 0x80, CHR 0x82], [CHR 0xE2, CHR 0x80, CHR 0x83],
     [CHR 0xE2, CHR 0x80, CHR 0x84], [CHR 0xE2, CHR 0x80, CHR 0x85],
     [CHR 0xE2, CHR 0x80, CHR 0x86], [CHR 0xE2, CHR 0x80, CHR 0x87],
     [CHR 0xE2, CHR 0x80, CHR 0x88], [CHR 0xE2, CHR 0x80, CHR 0x89],
     [CHR 0xE2, CHR 0x80, CHR 0x8A], [CHR 0xE2, CHR 0x80, CHR 0xA8],
     [CHR 0xE2, CHR 0x80, CHR 0xA9], [CHR 0xE2, CHR 0x80, CHR 0xAF],
     [CHR 0xE2, CHR 0x81, CHR 0x9F], [CHR 0xE3, CHR 0x80, CHR 0x80]]"

definition lead_space :: "string \<Rightarrow> nat" where
  "lead_space s = (case find (has_prefix s) space_seqs of None \<Rightarrow> 0 | Some q \<Rightarrow> length q)"

definition trail_space :: "string \<Rightarrow> nat" where
  "trail_space s = (case find (has_suffix s) space_seqs of None \<Rightarrow> 0 | Some q \<Rightarrow> length q)"

lemma space_seqs_not_Nil: "[] \<notin> set space_seqs"
  by (simp add: space_seqs_def)

lemma lead_space_0 [go_str]: "lead_space s = 0 \<longleftrightarrow> (\<forall>q \<in> set space_seqs. \<not> has_prefix s q)"
proof (cases "find (has_prefix s) space_seqs")
  case None
  then have "\<forall>q \<in> set space_seqs. \<not> has_prefix s q" by (auto simp: find_None_iff)
  with None show ?thesis by (simp add: lead_space_def)
next
  case (Some q)
  then have "q \<in> set space_seqs" "has_prefix s q"
    by (auto simp: find_Some_iff)
  moreover from this have "q \<noteq> []" using space_seqs_not_Nil by auto
  ultimately show ?thesis using Some by (auto simp: lead_space_def)
qed

lemma trail_space_0 [go_str]: "trail_space s = 0 \<longleftrightarrow> (\<forall>q \<in> set space_seqs. \<not> has_suffix s q)"
proof (cases "find (has_suffix s) space_seqs")
  case None
  then have "\<forall>q \<in> set space_seqs. \<not> has_suffix s q" by (auto simp: find_None_iff)
  with None show ?thesis by (simp add: trail_space_def)
next
  case (Some q)
  then have "q \<in> set space_seqs" "has_suffix s q"
    by (auto simp: find_Some_iff)
  moreover from this have "q \<noteq> []" using space_seqs_not_Nil by auto
  ultimately show ?thesis using Some by (auto simp: trail_space_def)
qed

lemma lead_space_Nil [simp]: "lead_space [] = 0"
  using space_seqs_not_Nil by (auto simp: lead_space_0 has_prefix_def)

lemma trail_space_Nil [simp]: "trail_space [] = 0"
  using space_seqs_not_Nil by (auto simp: trail_space_0 has_suffix_def)

function trim_left :: "string \<Rightarrow> string" where
  "trim_left s = (if lead_space s = 0 then s else trim_left (drop (lead_space s) s))"
  by pat_completeness auto
termination
proof (relation "measure length")
  fix s :: string
  assume "lead_space s \<noteq> 0"
  moreover from this have "s \<noteq> []" by auto
  ultimately show "(drop (lead_space s) s, s) \<in> measure length" by simp
qed simp

function trim_right :: "string \<Rightarrow> string" where
  "trim_right s =
     (if trail_space s = 0 then s else trim_right (take (length s - trail_space s) s))"
  by pat_completeness auto
termination
proof (relation "measure length")
  fix s :: string
  assume "trail_space s \<noteq> 0"
  moreover from this have "s \<noteq> []" by auto
  ultimately show "(take (length s - trail_space s) s, s) \<in> measure length" by simp
qed simp

declare trim_left.simps [simp del] trim_right.simps [simp del]

text \<open>\<open>strings.TrimSpace\<close>.\<close>

definition trim_space :: "string \<Rightarrow> string" where
  "trim_space s = trim_right (trim_left s)"

definition trimmed :: "string \<Rightarrow> bool" where
  "trimmed s \<longleftrightarrow> lead_space s = 0 \<and> trail_space s = 0"

lemma trim_left_lead: "lead_space (trim_left s) = 0"
proof (induction s rule: trim_left.induct)
  case (1 s)
  then show ?case by (cases "lead_space s = 0") (simp_all add: trim_left.simps [of s])
qed

lemma trim_right_trail: "trail_space (trim_right s) = 0"
proof (induction s rule: trim_right.induct)
  case (1 s)
  then show ?case by (cases "trail_space s = 0") (simp_all add: trim_right.simps [of s])
qed

lemma trim_right_prefix: "\<exists>n. trim_right s = take n s"
proof (induction s rule: trim_right.induct)
  case (1 s)
  show ?case
  proof (cases "trail_space s = 0")
    case True
    then show ?thesis by (auto simp: trim_right.simps [of s] intro: exI [of _ "length s"])
  next
    case False
    with "1.IH" show ?thesis by (auto simp: trim_right.simps [of s])
  qed
qed

lemma trim_left_suffix: "\<exists>n. trim_left s = drop n s"
proof (induction s rule: trim_left.induct)
  case (1 s)
  show ?case
  proof (cases "lead_space s = 0")
    case True
    then show ?thesis by (auto simp: trim_left.simps [of s] intro: exI [of _ 0])
  next
    case False
    with "1.IH" show ?thesis by (auto simp: trim_left.simps [of s])
  qed
qed

lemma lead_space_take: "lead_space s = 0 \<Longrightarrow> lead_space (take n s) = 0"
  unfolding lead_space_0 has_prefix_iff by (metis append.assoc append_take_drop_id)

lemma trim_space_trimmed [go_str]: "trimmed (trim_space s)"
proof -
  obtain n where "trim_right (trim_left s) = take n (trim_left s)"
    using trim_right_prefix by blast
  then show ?thesis
    using trim_right_trail [of "trim_left s"] lead_space_take [OF trim_left_lead, of n s]
    by (simp add: trimmed_def trim_space_def)
qed

lemma trim_space_id [go_str]: "trimmed s \<Longrightarrow> trim_space s = s"
  by (simp add: trimmed_def trim_space_def trim_left.simps [of s] trim_right.simps [of s])

lemma trim_space_idem [simp, go_str]: "trim_space (trim_space s) = trim_space s"
  by (rule trim_space_id) (rule trim_space_trimmed)

lemma trim_space_Nil [simp, go_str]: "trim_space [] = []"
  by (rule trim_space_id) (simp add: trimmed_def)

lemma trim_space_length [go_str]: "length (trim_space s) \<le> length s"
proof -
  obtain n where "trim_left s = drop n s" using trim_left_suffix by blast
  moreover obtain m where "trim_right (trim_left s) = take m (trim_left s)"
    using trim_right_prefix by blast
  ultimately show ?thesis by (simp add: trim_space_def)
qed

lemma trim_space_subset [go_str]: "set (trim_space s) \<subseteq> set s"
proof -
  obtain n where "trim_left s = drop n s" using trim_left_suffix by blast
  moreover obtain m where "trim_right (trim_left s) = take m (trim_left s)"
    using trim_right_prefix by blast
  ultimately show ?thesis
    by (simp add: trim_space_def) (meson set_drop_subset set_take_subset subset_trans)
qed

lemma trim_right_Nil: "trim_right s = [] \<Longrightarrow> s = [] \<or> lead_space s \<noteq> 0"
proof (induction s rule: trim_right.induct)
  case (1 s)
  show ?case
  proof (cases "trail_space s = 0")
    case True
    with "1.prems" show ?thesis by (simp add: trim_right.simps [of s])
  next
    case False
    let ?t = "take (length s - trail_space s) s"
    have "trim_right ?t = []" using "1.prems" False by (simp add: trim_right.simps [of s])
    then have "?t = [] \<or> lead_space ?t \<noteq> 0" using "1.IH" False by blast
    then show ?thesis
    proof
      assume "?t = []"
      with False have le: "length s \<le> trail_space s" by (cases "s = []") auto
      from False obtain q where q: "q \<in> set space_seqs" "has_suffix s q" "trail_space s = length q"
        by (auto simp: trail_space_def dest: find_SomeD split: option.splits)
      with le have sq: "s = q" by (auto simp: has_suffix_iff)
      have "has_prefix s q" unfolding sq by (simp add: has_prefix_def)
      then have "lead_space s \<noteq> 0" using q(1) lead_space_0 by blast
      then show ?thesis ..
    next
      assume "lead_space ?t \<noteq> 0"
      then show ?thesis using lead_space_take [of s "length s - trail_space s"] by metis
    qed
  qed
qed

text \<open>A byte that begins no white space is not white space, and neither is one that ends none.\<close>

lemma lead_space_hd:
  assumes "list_all (\<lambda>q. hd q \<noteq> c) space_seqs"
  shows "lead_space (c # s) = 0"
  unfolding lead_space_0
proof (intro ballI notI)
  fix q assume q: "q \<in> set space_seqs" and "has_prefix (c # s) q"
  then obtain r where "c # s = q @ r" by (auto simp: has_prefix_iff)
  moreover have "q \<noteq> []" using q space_seqs_not_Nil by auto
  ultimately have "hd q = c" by (metis hd_append2 list.sel(1))
  with assms q show False by (auto simp: list_all_iff)
qed

lemma trail_space_last:
  assumes "list_all (\<lambda>q. last q \<noteq> c) space_seqs"
  shows "trail_space (s @ [c]) = 0"
  unfolding trail_space_0
proof (intro ballI notI)
  fix q assume q: "q \<in> set space_seqs" and "has_suffix (s @ [c]) q"
  then obtain r where "s @ [c] = r @ q" by (auto simp: has_suffix_iff)
  with q space_seqs_not_Nil have "last q = c" by (metis last_appendR last_snoc)
  with assms q show False by (auto simp: list_all_iff)
qed

lemma trim_space_nonempty [go_str]: "s \<noteq> [] \<Longrightarrow> lead_space s = 0 \<Longrightarrow> trim_space s \<noteq> []"
  using trim_right_Nil [of s] by (auto simp: trim_space_def trim_left.simps [of s])

lemma trim_space_ascii_free [go_str]:
  "(\<forall>c \<in> set s. \<forall>q \<in> set space_seqs. hd q \<noteq> c \<and> last q \<noteq> c) \<Longrightarrow> trim_space s = s"
proof (rule trim_space_id)
  assume *: "\<forall>c \<in> set s. \<forall>q \<in> set space_seqs. hd q \<noteq> c \<and> last q \<noteq> c"
  have "\<not> has_prefix s q \<and> \<not> has_suffix s q" if "q \<in> set space_seqs" for q
  proof -
    have "q \<noteq> []" using that space_seqs_not_Nil by auto
    then have "hd q \<in> set q" "last q \<in> set q" by simp_all
    with * that show ?thesis by (fastforce simp: has_prefix_iff has_suffix_iff)
  qed
  then show "trimmed s" by (simp add: trimmed_def lead_space_0 trail_space_0)
qed

text \<open>
  \<open>strings.FieldsFunc\<close> with \<open>unicode.IsSpace\<close>, and with a predicate on single ASCII bytes
  (an ASCII byte is never part of a longer encoding).  Empty fields are dropped.
\<close>

function fields_space :: "string \<Rightarrow> string \<Rightarrow> string list" where
  "fields_space acc s =
     (if s = [] then (if acc = [] then [] else [acc])
      else if lead_space s = 0 then fields_space (acc @ [hd s]) (tl s)
      else (if acc = [] then [] else [acc]) @ fields_space [] (drop (lead_space s) s))"
  by pat_completeness auto
termination
  by (relation "measure (\<lambda>(acc, s). length s)") auto

declare fields_space.simps [simp del]

fun fields_bytes :: "(char \<Rightarrow> bool) \<Rightarrow> string \<Rightarrow> string \<Rightarrow> string list" where
  "fields_bytes sep acc [] = (if acc = [] then [] else [acc])"
| "fields_bytes sep acc (c # s) =
     (if sep c then (if acc = [] then [] else [acc]) @ fields_bytes sep [] s
      else fields_bytes sep (acc @ [c]) s)"

lemma fields_bytes_not_Nil [go_str]: "x \<in> set (fields_bytes sep acc s) \<Longrightarrow> x \<noteq> []"
  by (induction sep acc s rule: fields_bytes.induct) (auto split: if_splits)

lemma fields_bytes_sep [go_str]:
  "x \<in> set (fields_bytes sep acc s) \<Longrightarrow> \<forall>c \<in> set acc. \<not> sep c \<Longrightarrow> c \<in> set x \<Longrightarrow> \<not> sep c"
  by (induction sep acc s rule: fields_bytes.induct) (auto split: if_splits)

section \<open>Letter case\<close>

text \<open>
  \<open>strings.ToLower\<close> maps an all-ASCII string byte by byte and any other string through the
  Unicode tables, which are data of the Go distribution: the argument \<open>uni\<close> stands for that
  second path wherever a definition calls \<open>ToLower\<close>.
\<close>

definition is_ascii :: "string \<Rightarrow> bool" where
  "is_ascii s \<longleftrightarrow> list_all (\<lambda>c. of_char c < (128 :: nat)) s"

definition ascii_lower_char :: "char \<Rightarrow> char" where
  "ascii_lower_char c =
     (if 65 \<le> (of_char c :: nat) \<and> (of_char c :: nat) \<le> 90 then char_of ((of_char c :: nat) + 32)
      else c)"

definition to_lower :: "(string \<Rightarrow> string) \<Rightarrow> string \<Rightarrow> string" where
  "to_lower uni s = (if is_ascii s then map ascii_lower_char s else uni s)"

lemma ascii_lower_char_idem [simp]: "ascii_lower_char (ascii_lower_char c) = ascii_lower_char c"
  by (simp add: ascii_lower_char_def)

lemma ascii_lower_char_ascii: "of_char c < (128::nat) \<Longrightarrow> of_char (ascii_lower_char c) < (128::nat)"
  by (simp add: ascii_lower_char_def)

lemma to_lower_idem [go_str]: "is_ascii s \<Longrightarrow> to_lower uni (to_lower uni s) = to_lower uni s"
  by (auto simp: to_lower_def is_ascii_def list_all_iff ascii_lower_char_ascii)

section \<open>Decimal numbers\<close>

text \<open>\<open>strconv.Itoa\<close>, and \<open>%d\<close>.\<close>

fun digits_of :: "nat \<Rightarrow> string" where
  "digits_of n =
     (if n < 10 then [char_of (48 + n)] else digits_of (n div 10) @ [char_of (48 + n mod 10)])"

declare digits_of.simps [simp del]

definition itoa :: "int \<Rightarrow> string" where
  "itoa n = (if n < 0 then CHR ''-'' # digits_of (nat (- n)) else digits_of (nat n))"

definition is_digit :: "char \<Rightarrow> bool" where
  "is_digit c \<longleftrightarrow> 48 \<le> (of_char c :: nat) \<and> (of_char c :: nat) \<le> 57"

definition digit_val :: "char \<Rightarrow> nat" where
  "digit_val c = of_char c - 48"

definition nat_of_digits :: "string \<Rightarrow> nat" where
  "nat_of_digits s = foldl (\<lambda>n c. 10 * n + digit_val c) 0 s"

lemma digits_of_digit: "c \<in> set (digits_of n) \<Longrightarrow> is_digit c"
proof (induction n rule: digits_of.induct)
  case (1 n)
  show ?case
  proof (cases "n < 10")
    case True
    with "1.prems" show ?thesis by (auto simp: digits_of.simps [of n] is_digit_def)
  next
    case False
    have "n mod 10 < 10" by simp
    then have "is_digit (char_of (48 + n mod 10))"
      by (simp add: is_digit_def)
    with False 1 show ?thesis by (auto simp: digits_of.simps [of n])
  qed
qed

lemma digits_of_not_Nil [simp]: "digits_of n \<noteq> []"
  by (simp add: digits_of.simps [of n])

lemma nat_of_digits_snoc: "nat_of_digits (s @ [c]) = 10 * nat_of_digits s + digit_val c"
  by (simp add: nat_of_digits_def)

lemma nat_of_digits_digits_of [go_str]: "nat_of_digits (digits_of n) = n"
proof (induction n rule: digits_of.induct)
  case (1 n)
  show ?case
  proof (cases "n < 10")
    case True
    then show ?thesis
      by (simp add: digits_of.simps [of n] nat_of_digits_def digit_val_def)
  next
    case False
    have "n mod 10 < 10" by simp
    then have "digit_val (char_of (48 + n mod 10)) = n mod 10"
      by (simp add: digit_val_def)
    with False 1 show ?thesis
      by (simp add: digits_of.simps [of n] nat_of_digits_snoc)
  qed
qed

lemma digits_of_inj [go_str]: "digits_of m = digits_of n \<longleftrightarrow> m = n"
  by (metis nat_of_digits_digits_of)

lemma minus_not_digits: "digits_of n \<noteq> CHR ''-'' # s"
proof
  assume "digits_of n = CHR ''-'' # s"
  then have "is_digit CHR ''-''" using digits_of_digit [of "CHR ''-''" n] by simp
  then show False by (simp add: is_digit_def)
qed

definition int_of_decimal :: "string \<Rightarrow> int" where
  "int_of_decimal s = (case s of
      [] \<Rightarrow> 0
    | c # t \<Rightarrow> if c = CHR ''-'' then - int (nat_of_digits t) else int (nat_of_digits s))"

lemma int_of_decimal_itoa [go_str]: "int_of_decimal (itoa n) = n"
proof (cases "n < 0")
  case True
  then show ?thesis by (simp add: itoa_def int_of_decimal_def nat_of_digits_digits_of)
next
  case False
  moreover obtain c t where "digits_of (nat n) = c # t" by (cases "digits_of (nat n)") auto
  moreover from this have "c \<noteq> CHR ''-''" using minus_not_digits [of "nat n" t] by auto
  ultimately show ?thesis
    using nat_of_digits_digits_of [of "nat n"] by (simp add: itoa_def int_of_decimal_def)
qed

lemma itoa_inj [go_str]: "itoa m = itoa n \<longleftrightarrow> m = n"
  by (metis int_of_decimal_itoa)

text \<open>\<open>%0wd\<close>: zero-padded to a width.\<close>

definition pad_left :: "nat \<Rightarrow> string \<Rightarrow> string" where
  "pad_left w s = replicate (w - length s) (CHR ''0'') @ s"

section \<open>UTF-8\<close>

text \<open>
  \<open>utf8.DecodeRuneInString\<close>: the code point and the number of bytes it took; an invalid
  byte is the replacement character of width one.
\<close>

definition byte_in :: "nat \<Rightarrow> nat \<Rightarrow> char \<Rightarrow> bool" where
  "byte_in lo hi c \<longleftrightarrow> lo \<le> of_char c \<and> of_char c \<le> hi"

definition cont_bits :: "char \<Rightarrow> nat" where
  "cont_bits c = of_char c mod 64"

fun decode_rune :: "string \<Rightarrow> nat \<times> nat" where
  "decode_rune [] = (65533, 0)"
| "decode_rune (a # s) =
     (let n = (of_char a :: nat) in
      if n < 128 then (n, 1)
      else if n < 194 then (65533, 1)
      else if n < 224 then
        (case s of b # _ \<Rightarrow>
           if byte_in 128 191 b then ((n - 192) * 64 + cont_bits b, 2) else (65533, 1)
         | [] \<Rightarrow> (65533, 1))
      else if n < 240 then
        (case s of b # c # _ \<Rightarrow>
           if byte_in (if n = 224 then 160 else 128) (if n = 237 then 159 else 191) b
              \<and> byte_in 128 191 c
           then ((n - 224) * 4096 + cont_bits b * 64 + cont_bits c, 3) else (65533, 1)
         | _ \<Rightarrow> (65533, 1))
      else if n < 245 then
        (case s of b # c # d # _ \<Rightarrow>
           if byte_in (if n = 240 then 144 else 128) (if n = 244 then 143 else 191) b
              \<and> byte_in 128 191 c \<and> byte_in 128 191 d
           then ((n - 240) * 262144 + cont_bits b * 4096 + cont_bits c * 64 + cont_bits d, 4)
           else (65533, 1)
         | _ \<Rightarrow> (65533, 1))
      else (65533, 1))"

lemma decode_rune_width: "s \<noteq> [] \<Longrightarrow> 0 < snd (decode_rune s)"
  by (cases s) (simp_all add: Let_def split: list.split)

text \<open>The runes of a string, as \<open>[]rune(s)\<close> and \<open>for _, r := range s\<close> see them.\<close>

function runes :: "string \<Rightarrow> nat list" where
  "runes s = (if s = [] then []
     else fst (decode_rune s) # runes (drop (snd (decode_rune s)) s))"
  by pat_completeness auto
termination
  by (relation "measure length") (auto simp: decode_rune_width)

declare runes.simps [simp del] decode_rune.simps [simp del]

lemma runes_length [go_str]: "length (runes s) \<le> length s"
proof (induction s rule: runes.induct)
  case (1 s)
  show ?case
  proof (cases "s = []")
    case True
    then show ?thesis by (simp add: runes.simps)
  next
    case False
    then have "0 < snd (decode_rune s)" by (rule decode_rune_width)
    moreover have "0 < length s" using False by simp
    moreover have "length (runes (drop (snd (decode_rune s)) s)) \<le> length s - snd (decode_rune s)"
      using "1.IH" False by simp
    ultimately have "Suc (length (runes (drop (snd (decode_rune s)) s))) \<le> length s" by linarith
    with False show ?thesis by (simp add: runes.simps [of s])
  qed
qed

section \<open>Loops over slices\<close>

text \<open>
  \<open>keep_first seen xs\<close> is the shape of every loop that skips what a \<open>seen\<close> set already
  holds and appends what it does not.
\<close>

fun keep_first :: "'a list \<Rightarrow> 'a list \<Rightarrow> 'a list" where
  "keep_first seen [] = []"
| "keep_first seen (x # xs) =
     (if x \<in> set seen then keep_first seen xs else x # keep_first (x # seen) xs)"

lemma set_keep_first [simp, go_list]: "set (keep_first seen xs) = set xs - set seen"
  by (induction seen xs rule: keep_first.induct) auto

lemma distinct_keep_first [simp, go_list]: "distinct (keep_first seen xs)"
  by (induction seen xs rule: keep_first.induct) auto

lemma keep_first_id [go_list]:
  "distinct xs \<Longrightarrow> set xs \<inter> set seen = {} \<Longrightarrow> keep_first seen xs = xs"
  by (induction seen xs rule: keep_first.induct) auto

lemma length_keep_first [go_list]: "length (keep_first seen xs) \<le> length xs"
  by (induction seen xs rule: keep_first.induct) auto

text \<open>A loop that stops at the first error, as an early \<open>return err\<close> does.\<close>

fun map_res :: "('a \<Rightarrow> 'e + 'b) \<Rightarrow> 'a list \<Rightarrow> 'e + 'b list" where
  "map_res f [] = Inr []"
| "map_res f (x # xs) =
     (case f x of Inl e \<Rightarrow> Inl e
      | Inr y \<Rightarrow> (case map_res f xs of Inl e \<Rightarrow> Inl e | Inr ys \<Rightarrow> Inr (y # ys)))"

fun first_error :: "('a \<Rightarrow> 'e option) \<Rightarrow> 'a list \<Rightarrow> 'e option" where
  "first_error f [] = None"
| "first_error f (x # xs) = (case f x of Some e \<Rightarrow> Some e | None \<Rightarrow> first_error f xs)"

lemma first_error_None [go_list]: "first_error f xs = None \<longleftrightarrow> (\<forall>x \<in> set xs. f x = None)"
  by (induction xs) (auto split: option.splits)

lemma first_error_Some [go_list]: "first_error f xs = Some e \<Longrightarrow> \<exists>x \<in> set xs. f x = Some e"
  by (induction xs) (auto split: option.splits)

text \<open>A loop that threads a state and stops at the first error.\<close>

fun fold_res :: "('a \<Rightarrow> 's \<Rightarrow> 'e + 's) \<Rightarrow> 'a list \<Rightarrow> 's \<Rightarrow> 'e + 's" where
  "fold_res f [] st = Inr st"
| "fold_res f (x # xs) st = (case f x st of Inl e \<Rightarrow> Inl e | Inr st' \<Rightarrow> fold_res f xs st')"

lemma map_sum_Inr: "map_sum f g x = Inr y \<longleftrightarrow> (\<exists>z. x = Inr z \<and> y = g z)"
  by (cases x) auto

lemma fold_res_append [go_list]:
  "fold_res f (xs @ ys) st =
     (case fold_res f xs st of Inl e \<Rightarrow> Inl e | Inr st' \<Rightarrow> fold_res f ys st')"
  by (induction xs arbitrary: st) (auto split: sum.splits)

lemma fold_res_inv [go_list]:
  assumes "fold_res f xs st = Inr st'" and "P st"
    and "\<And>x s s'. x \<in> set xs \<Longrightarrow> P s \<Longrightarrow> f x s = Inr s' \<Longrightarrow> P s'"
  shows "P st'"
  using assms
proof (induction xs arbitrary: st)
  case Nil
  then show ?case by simp
next
  case (Cons x xs)
  then obtain s where s: "f x st = Inr s" "fold_res f xs s = Inr st'" by (auto split: sum.splits)
  with Cons.prems have "P s" by auto
  with s(2) show ?case by (rule Cons.IH) (use Cons.prems(3) in auto)
qed

text \<open>
  A validation loop over rows with a key each, which reports the row's own problems and a
  key it has already seen: the contract such a loop satisfies, and what an empty report means.
\<close>

locale seen_loop =
  fixes check :: "'k list \<Rightarrow> 'a list \<Rightarrow> 'p list"
    and key :: "'a \<Rightarrow> 'k"
    and row_ok :: "'a \<Rightarrow> bool"
  assumes check_Nil: "check seen [] = []"
    and check_Cons: "check seen (x # xs) = [] \<longleftrightarrow>
      row_ok x \<and> key x \<notin> set seen \<and> check (key x # seen) xs = []"
begin

lemma check_seen:
  "check seen xs = [] \<longleftrightarrow>
     (\<forall>x \<in> set xs. row_ok x) \<and> distinct (map key xs) \<and> key ` set xs \<inter> set seen = {}"
  by (induction xs arbitrary: seen) (auto simp: check_Nil check_Cons)

lemma check_all: "check [] xs = [] \<longleftrightarrow> (\<forall>x \<in> set xs. row_ok x) \<and> distinct (map key xs)"
  by (simp add: check_seen)

end

lemma sort_strings_unique [go_list]:
  fixes xs ys :: "'a :: linorder list"
  assumes "distinct xs" "distinct ys" "set xs = set ys"
  shows "sort xs = sort ys"
  using assms by (intro sorted_distinct_set_unique) auto

text \<open>
  A transition system with a predicate that holds at the start and that every step keeps: it
  holds in every state the steps reach.
\<close>

locale transition_invariant =
  fixes start :: "'s \<Rightarrow> bool"
    and step :: "'s \<Rightarrow> 's \<Rightarrow> bool"
    and inv :: "'s \<Rightarrow> bool"
  assumes inv_start: "start s \<Longrightarrow> inv s"
    and inv_step: "inv s \<Longrightarrow> step s s' \<Longrightarrow> inv s'"
begin

lemma inv_steps: "step\<^sup>*\<^sup>* s s' \<Longrightarrow> inv s \<Longrightarrow> inv s'"
  by (induction rule: rtranclp_induct) (auto intro: inv_step)

lemma inv_reachable: "start s \<Longrightarrow> step\<^sup>*\<^sup>* s s' \<Longrightarrow> inv s'"
  by (blast intro: inv_steps inv_start)

end

text \<open>
  A refinement: read through \<open>abs\<close>, every step of the detailed system is some steps of the
  abstract one (none, when the step does not show there).
\<close>

locale refinement = transition_invariant start step inv
  for start :: "'s \<Rightarrow> bool" and step :: "'s \<Rightarrow> 's \<Rightarrow> bool" and inv :: "'s \<Rightarrow> bool" +
  fixes abs_of :: "'s \<Rightarrow> 'a"
    and abs_step :: "'a \<Rightarrow> 'a \<Rightarrow> bool"
  assumes simulates: "inv s \<Longrightarrow> step s s' \<Longrightarrow> abs_step\<^sup>*\<^sup>* (abs_of s) (abs_of s')"
begin

lemma simulates_steps: "step\<^sup>*\<^sup>* s s' \<Longrightarrow> inv s \<Longrightarrow> abs_step\<^sup>*\<^sup>* (abs_of s) (abs_of s')"
proof (induction rule: rtranclp_induct)
  case base
  then show ?case by simp
next
  case (step t u)
  then have "inv t" by (blast intro: inv_steps)
  with step show ?case by (blast intro: simulates rtranclp_trans)
qed

end

end
