(* ===== verification/Go_Regexp.thy ===== *)
theory Go_Regexp
  imports KL_Prelude
begin

text \<open>
  The part of package \<open>regexp\<close> the program uses: leftmost-first matching over the runes of a
  string, capturing one group, with \<open>\b\<close> as the boundary of ASCII words.  A string is cut
  into cells, a rune with the bytes it was decoded from, so that what a replacement copies
  is the original bytes, invalid ones included.
\<close>

type_synonym cell = "nat \<times> string"

function cells :: "string \<Rightarrow> cell list" where
  "cells s = (if s = [] then []
     else (fst (decode_rune s), take (snd (decode_rune s)) s)
          # cells (drop (snd (decode_rune s)) s))"
  by pat_completeness auto
termination
  by (relation "measure length") (auto simp: decode_rune_width)

declare cells.simps [simp del]

lemma cells_ascii: "of_char a < (128 :: nat) \<Longrightarrow> cells (a # s) = (of_char a, [a]) # cells s"
  by (subst cells.simps) (simp add: decode_rune.simps)

definition uncells :: "cell list \<Rightarrow> string" where
  "uncells cs = concat (map snd cs)"

lemma uncells_cells [simp]: "uncells (cells s) = s"
proof (induction s rule: cells.induct)
  case (1 s)
  then show ?case
    by (cases "s = []") (simp_all add: cells.simps [of s] cells.simps [of "[]"] uncells_def)
qed

lemma uncells_append [simp]: "uncells (xs @ ys) = uncells xs @ uncells ys"
  by (simp add: uncells_def)

text \<open>
  A class is a list of ranges of runes, or its complement; \<open>Star True\<close> is greedy and
  \<open>Star False\<close> is not; \<open>Group\<close> is the first capturing group.
\<close>

datatype regexp =
    Cls bool "(nat \<times> nat) list"
  | WordB
  | Eps
  | Seq regexp regexp
  | Alt regexp regexp
  | Star bool regexp
  | Group regexp

definition in_class :: "bool \<Rightarrow> (nat \<times> nat) list \<Rightarrow> nat \<Rightarrow> bool" where
  "in_class neg ranges r \<longleftrightarrow> list_ex (\<lambda>(lo, hi). lo \<le> r \<and> r \<le> hi) ranges \<noteq> neg"

definition word_rune :: "nat \<Rightarrow> bool" where
  "word_rune r \<longleftrightarrow> 48 \<le> r \<and> r \<le> 57 \<or> 65 \<le> r \<and> r \<le> 90 \<or> r = 95 \<or> 97 \<le> r \<and> r \<le> 122"

definition word_at :: "nat list \<Rightarrow> nat \<Rightarrow> bool" where
  "word_at w n \<longleftrightarrow> n < length w \<and> word_rune (w ! n)"

definition word_boundary :: "nat list \<Rightarrow> nat \<Rightarrow> bool" where
  "word_boundary w n \<longleftrightarrow> (0 < n \<and> word_at w (n - 1)) \<noteq> word_at w n"

text \<open>
  The ends a match starting at \<open>n\<close> can have, in the order a backtracking search would find
  them, each with the span of the group.  A repetition that consumes nothing ends it.
\<close>

function ends :: "nat list \<Rightarrow> regexp \<Rightarrow> nat \<Rightarrow> (nat \<times> (nat \<times> nat) option) list" where
  "ends w (Cls neg ranges) n =
     (if n < length w \<and> in_class neg ranges (w ! n) then [(Suc n, None)] else [])"
| "ends w WordB n = (if word_boundary w n then [(n, None)] else [])"
| "ends w Eps n = [(n, None)]"
| "ends w (Seq a b) n =
     concat (map (\<lambda>(k, g). map (\<lambda>(l, h). (l, if h = None then g else h)) (ends w b k)) (ends w a n))"
| "ends w (Alt a b) n = ends w a n @ ends w b n"
| "ends w (Star greedy a) n =
     (let more = concat (map (\<lambda>(k, g). if n < k \<and> k \<le> length w
                  then map (\<lambda>(l, h). (l, if h = None then g else h)) (ends w (Star greedy a) k)
                  else []) (ends w a n))
      in if greedy then more @ [(n, None)] else (n, None) # more)"
| "ends w (Group a) n = map (\<lambda>(k, _). (k, Some (n, k))) (ends w a n)"
  by pat_completeness auto
termination
  by (relation "measures [\<lambda>(w, r, n). size r, \<lambda>(w, r, n). length w - n]") auto

text \<open>Bounded repetitions and literals.\<close>

fun copies :: "nat \<Rightarrow> regexp \<Rightarrow> regexp" where
  "copies 0 a = Eps"
| "copies (Suc k) a = Seq a (copies k a)"

fun upto_copies :: "nat \<Rightarrow> regexp \<Rightarrow> regexp" where
  "upto_copies 0 a = Eps"
| "upto_copies (Suc k) a = Alt (Seq a (upto_copies k a)) Eps"

definition at_least :: "nat \<Rightarrow> regexp \<Rightarrow> regexp" where
  "at_least k a = Seq (copies k a) (Star True a)"

definition between :: "nat \<Rightarrow> nat \<Rightarrow> regexp \<Rightarrow> regexp" where
  "between lo hi a = Seq (copies lo a) (upto_copies (hi - lo) a)"

definition optional :: "regexp \<Rightarrow> regexp" where
  "optional a = Alt a Eps"

fun seqs :: "regexp list \<Rightarrow> regexp" where
  "seqs [] = Eps"
| "seqs [a] = a"
| "seqs (a # b # as) = Seq a (seqs (b # as))"

fun alts :: "regexp list \<Rightarrow> regexp" where
  "alts [] = Cls False []"
| "alts [a] = a"
| "alts (a # b # as) = Alt a (alts (b # as))"

definition one_rune :: "char \<Rightarrow> (nat \<times> nat)" where
  "one_rune c = (of_char c, of_char c)"

definition rune_range :: "char \<Rightarrow> char \<Rightarrow> (nat \<times> nat)" where
  "rune_range a b = (of_char a, of_char b)"

definition lit :: "string \<Rightarrow> regexp" where
  "lit s = seqs (map (\<lambda>c. Cls False [one_rune c]) s)"

text \<open>
  Under \<open>(?i)\<close> a letter stands for its two cases; \<open>s\<close> also for the long s (U+017F) and \<open>k\<close>
  for the Kelvin sign (U+212A), which fold to them.
\<close>

definition fold_char :: "char \<Rightarrow> (nat \<times> nat) list" where
  "fold_char c =
     (let n = of_char (ascii_lower_char c) in
      if 97 \<le> n \<and> n \<le> 122
      then [(n, n), (n - 32, n - 32)]
           @ (if n = 115 then [(383, 383)] else if n = 107 then [(8490, 8490)] else [])
      else [(n, n)])"

definition lit_fold :: "string \<Rightarrow> regexp" where
  "lit_fold s = seqs (map (\<lambda>c. Cls False (fold_char c)) s)"

definition fold_letters :: "(nat \<times> nat) list" where
  "fold_letters = [(65, 90), (97, 122), (383, 383), (8490, 8490)]"

definition space_class :: "(nat \<times> nat) list" where
  "space_class = [(9, 10), (12, 13), (32, 32)]"

section \<open>Search and replacement\<close>

text \<open>The leftmost match at or after a position: its start, end and group.\<close>

function find_from :: "nat list \<Rightarrow> regexp \<Rightarrow> nat \<Rightarrow> (nat \<times> nat \<times> (nat \<times> nat) option) option" where
  "find_from w r n =
     (let found = ends w r n in
      if found \<noteq> [] then Some (n, hd found)
      else if n < length w then find_from w r (Suc n) else None)"
  by pat_completeness auto
termination
  by (relation "measure (\<lambda>(w, r, n). length w - n)") auto

declare find_from.simps [simp del]

text \<open>\<open>FindStringSubmatch\<close>, the first group, and \<open>MatchString\<close>.\<close>

definition submatch1 :: "regexp \<Rightarrow> string \<Rightarrow> string option" where
  "submatch1 r s =
     (let cs = cells s in
      case find_from (map fst cs) r 0 of
        None \<Rightarrow> None
      | Some (_, _, None) \<Rightarrow> Some []
      | Some (_, _, Some (a, b)) \<Rightarrow> Some (uncells (take (b - a) (drop a cs))))"

definition match_string :: "regexp \<Rightarrow> string \<Rightarrow> bool" where
  "match_string r s \<longleftrightarrow> find_from (map fst (cells s)) r 0 \<noteq> None"

text \<open>
  The segments of a string around its successive matches, as \<open>ReplaceAllStringFunc\<close> finds
  them.  A match of no runes is one the program's patterns never make, and ends the search.
\<close>

datatype segment = Kept string | Matched string

function segments :: "cell list \<Rightarrow> regexp \<Rightarrow> nat \<Rightarrow> segment list" where
  "segments cs r n =
     (case find_from (map fst cs) r n of
        None \<Rightarrow> [Kept (uncells (drop n cs))]
      | Some (a, b, _) \<Rightarrow>
          if n \<le> a \<and> a < b \<and> b \<le> length cs
          then Kept (uncells (take (a - n) (drop n cs)))
               # Matched (uncells (take (b - a) (drop a cs))) # segments cs r b
          else [Kept (uncells (drop n cs))])"
  by pat_completeness auto
termination
  by (relation "measure (\<lambda>(cs, r, n). length cs - n)") auto

declare segments.simps [simp del]

definition split_matches :: "regexp \<Rightarrow> string \<Rightarrow> segment list" where
  "split_matches r s = segments (cells s) r 0"

fun segment_text :: "segment \<Rightarrow> string" where
  "segment_text (Kept s) = s"
| "segment_text (Matched s) = s"

lemma segments_text: "n \<le> length cs \<Longrightarrow> concat (map segment_text (segments cs r n)) = uncells (drop n cs)"
proof (induction cs r n rule: segments.induct)
  case (1 cs r n)
  show ?case
  proof (cases "find_from (map fst cs) r n")
    case None
    then show ?thesis by (simp add: segments.simps [of cs r n])
  next
    case (Some m)
    obtain a b g where m: "m = (a, b, g)" by (cases m)
    show ?thesis
    proof (cases "n \<le> a \<and> a < b \<and> b \<le> length cs")
      case False
      have "segments cs r n = [Kept (uncells (drop n cs))]"
        by (subst segments.simps) (simp add: Some m if_not_P [OF False])
      then show ?thesis by simp
    next
      case True
      then have ih: "concat (map segment_text (segments cs r b)) = uncells (drop b cs)"
        using "1.IH" [OF Some m [symmetric] refl True] by simp
      have "drop n cs = take (a - n) (drop n cs) @ drop a cs"
        using True by (metis append_take_drop_id drop_drop le_add_diff_inverse2)
      moreover have "drop a cs = take (b - a) (drop a cs) @ drop b cs"
        using True by (metis append_take_drop_id drop_drop le_add_diff_inverse2 less_imp_le)
      ultimately have "uncells (drop n cs)
          = uncells (take (a - n) (drop n cs)) @ uncells (take (b - a) (drop a cs)) @ uncells (drop b cs)"
        by (metis uncells_append)
      with Some m True ih show ?thesis by (simp add: segments.simps [of cs r n])
    qed
  qed
qed

lemma split_matches_text [simp, go_str]: "concat (map segment_text (split_matches r s)) = s"
  by (simp add: split_matches_def segments_text)

end
