(* ===== verification/Go_Time.thy ===== *)
theory Go_Time
  imports KL_Prelude
begin

text \<open>
  Instants, durations and calendar dates of Go's package \<open>time\<close>, as the program uses them.

  An instant is a number of nanoseconds since the Unix epoch, a duration a number of
  nanoseconds in the range of \<open>int64\<close>: \<open>Time.Sub\<close> saturates there.  A value that came out of
  Postgres as a \<open>date\<close> is its calendar triple, which is all \<open>Time.Date()\<close> reads of it.
\<close>

type_synonym instant = int
type_synonym duration = int

definition max_duration :: duration where "max_duration = 9223372036854775807"
definition min_duration :: duration where "min_duration = - 9223372036854775808"

definition second :: duration where "second = 1000000000"
definition minute :: duration where "minute = 60 * second"
definition hour :: duration where "hour = 60 * minute"
definition day_ns :: duration where "day_ns = 24 * hour"

lemmas time_units = second_def minute_def hour_def day_ns_def

text \<open>\<open>time.Time{}\<close>, midnight on the first of January of the year one, and \<open>IsZero\<close>.\<close>

definition zero_time :: instant where "zero_time = - 62135596800 * second"

definition is_zero_time :: "instant \<Rightarrow> bool" where
  "is_zero_time t \<longleftrightarrow> t = zero_time"

definition clamp_duration :: "int \<Rightarrow> duration" where
  "clamp_duration d = max min_duration (min max_duration d)"

definition time_sub :: "instant \<Rightarrow> instant \<Rightarrow> duration" where
  "time_sub t u = clamp_duration (t - u)"

text \<open>
  \<open>int(d.Hours() / 24)\<close>: the whole days of a duration, truncated towards zero.  For the
  durations it is applied to (differences of two midnights, or the saturated extremes) the
  floating-point quotient is exact or far from an integer, so truncation is exact.
\<close>

definition whole_days :: "duration \<Rightarrow> int" where
  "whole_days d = sgn d * (\<bar>d\<bar> div day_ns)"

definition max_days :: int where "max_days = 106751"

lemma whole_days_midnights [go_time]:
  "whole_days (clamp_duration (n * day_ns)) = max (- max_days) (min max_days n)"
proof -
  consider "n < - 106751" | "- 106751 \<le> n \<and> n < 0" | "0 \<le> n \<and> n \<le> 106751" | "106751 < n" by linarith
  then show ?thesis
  proof cases
    case 1
    then have "clamp_duration (n * day_ns) = min_duration"
      by (simp add: clamp_duration_def time_units max_duration_def min_duration_def)
    with 1 show ?thesis by (simp add: whole_days_def time_units min_duration_def max_days_def)
  next
    case 2
    then have "clamp_duration (n * day_ns) = n * day_ns"
      by (simp add: clamp_duration_def time_units max_duration_def min_duration_def)
    with 2 show ?thesis by (simp add: whole_days_def time_units max_days_def sgn_mult abs_mult)
  next
    case 3
    then have "clamp_duration (n * day_ns) = n * day_ns"
      by (simp add: clamp_duration_def time_units max_duration_def min_duration_def)
    with 3 show ?thesis by (simp add: whole_days_def time_units max_days_def sgn_if)
  next
    case 4
    then have "clamp_duration (n * day_ns) = max_duration"
      by (simp add: clamp_duration_def time_units max_duration_def min_duration_def)
    with 4 show ?thesis by (simp add: whole_days_def time_units max_duration_def max_days_def)
  qed
qed

section \<open>Calendar dates\<close>

record date =
  year_of :: int
  month_of :: int
  day_of :: int

text \<open>
  The number of days since 1 January 1970 of a date of the proleptic Gregorian calendar,
  which is what \<open>time.Date(y, m, d, 0, 0, 0, 0, time.UTC)\<close> denotes, and its inverse, the
  calendar triple of \<open>t.UTC().Date()\<close>.  Years start in March in the arithmetic.
\<close>

definition day_number :: "date \<Rightarrow> int" where
  "day_number d =
     (let m = month_of d;
          y = (if m \<le> 2 then year_of d - 1 else year_of d);
          era = y div 400;
          yoe = y - era * 400;
          doy = (153 * (if m > 2 then m - 3 else m + 9) + 2) div 5 + day_of d - 1;
          doe = yoe * 365 + yoe div 4 - yoe div 100 + doy
      in era * 146097 + doe - 719468)"

definition date_of_day :: "int \<Rightarrow> date" where
  "date_of_day n =
     (let z = n + 719468;
          era = z div 146097;
          doe = z - era * 146097;
          yoe = (doe - doe div 1460 + doe div 36524 - doe div 146096) div 365;
          doy = doe - (365 * yoe + yoe div 4 - yoe div 100);
          mp = (5 * doy + 2) div 153;
          d = doy - (153 * mp + 2) div 5 + 1;
          m = (if mp < 10 then mp + 3 else mp - 9);
          y = yoe + era * 400
      in \<lparr>year_of = (if m \<le> 2 then y + 1 else y), month_of = m, day_of = d\<rparr>)"

definition utc_day :: "instant \<Rightarrow> int" where
  "utc_day t = t div day_ns"

definition utc_date :: "instant \<Rightarrow> date" where
  "utc_date t = date_of_day (utc_day t)"

text \<open>\<open>t.AddDate(0, 0, n)\<close> on a date.\<close>

definition add_days :: "date \<Rightarrow> int \<Rightarrow> date" where
  "add_days d n = date_of_day (day_number d + n)"

section \<open>Rendering\<close>

text \<open>\<open>%0wd\<close> counts the sign in the width; \<open>Time.Format\<close> does not.\<close>

definition fmt_0d :: "nat \<Rightarrow> int \<Rightarrow> string" where
  "fmt_0d w n =
     (if n < 0 then CHR ''-'' # pad_left (w - 1) (digits_of (nat (- n)))
      else pad_left w (digits_of (nat n)))"

definition fmt_time_field :: "nat \<Rightarrow> int \<Rightarrow> string" where
  "fmt_time_field w n =
     (if n < 0 then CHR ''-'' # pad_left w (digits_of (nat (- n)))
      else pad_left w (digits_of (nat n)))"

definition date_only :: "instant \<Rightarrow> string" where
  "date_only t =
     (let d = utc_date t
      in fmt_time_field 4 (year_of d) @ ''-'' @ fmt_time_field 2 (month_of d) @ ''-''
         @ fmt_time_field 2 (day_of d))"

definition rfc3339_utc :: "instant \<Rightarrow> string" where
  "rfc3339_utc t =
     (let s = (t mod day_ns) div second
      in date_only t @ ''T'' @ fmt_time_field 2 (s div 3600) @ '':''
         @ fmt_time_field 2 ((s div 60) mod 60) @ '':'' @ fmt_time_field 2 (s mod 60) @ ''Z'')"

end
