(* ===== verification/Go_Encoding.thy ===== *)
theory Go_Encoding
  imports KL_Prelude
begin

text \<open>
  \<open>encoding/hex\<close> and \<open>base64.RawURLEncoding\<close> on bytes.  Decoding base64 skips line ends and
  does not look at the unused bits of the last character, as the library does not.
\<close>

section \<open>Hexadecimal\<close>

definition hex_digit :: "nat \<Rightarrow> char" where
  "hex_digit n = (if n < 10 then char_of (48 + n) else char_of (87 + n))"

definition hex_value :: "char \<Rightarrow> nat option" where
  "hex_value c =
     (let n = of_char c :: nat in
      if 48 \<le> n \<and> n \<le> 57 then Some (n - 48)
      else if 97 \<le> n \<and> n \<le> 102 then Some (n - 87)
      else if 65 \<le> n \<and> n \<le> 70 then Some (n - 55)
      else None)"

definition hex_encode :: "string \<Rightarrow> string" where
  "hex_encode s = concat (map (\<lambda>c. [hex_digit (of_char c div 16), hex_digit (of_char c mod 16)]) s)"

fun hex_decode :: "string \<Rightarrow> string option" where
  "hex_decode [] = Some []"
| "hex_decode [c] = None"
| "hex_decode (a # b # s) =
     (case (hex_value a, hex_value b, hex_decode s) of
        (Some x, Some y, Some t) \<Rightarrow> Some (char_of (16 * x + y) # t)
      | _ \<Rightarrow> None)"

lemma hex_value_digit: "n < 16 \<Longrightarrow> hex_value (hex_digit n) = Some n"
  by (simp add: hex_value_def hex_digit_def Let_def)

lemma length_hex_encode [simp]: "length (hex_encode s) = 2 * length s"
  by (induction s) (simp_all add: hex_encode_def)

lemma of_char_less [simp]: "of_char c < (256 :: nat)"
proof -
  have "(of_char c :: nat) \<in> {0..<256}" using range_nat_of_char by blast
  then show ?thesis by simp
qed

lemma hex_decode_encode [simp]: "hex_decode (hex_encode s) = Some s"
proof (induction s)
  case Nil
  then show ?case by (simp add: hex_encode_def)
next
  case (Cons c s)
  have "of_char c div 16 < (16 :: nat)" using of_char_less [of c] by (simp only: less_mult_imp_div_less)
  moreover have "of_char c mod 16 < (16 :: nat)" by simp
  ultimately show ?case using Cons
    by (simp add: hex_encode_def hex_value_digit)
qed

lemma hex_digit_char: "n < 16 \<Longrightarrow> CHR ''_'' \<noteq> hex_digit n"
  using hex_value_digit [of n] by (auto simp: hex_value_def Let_def dest: sym)

lemma hex_encode_no_underscore: "CHR ''_'' \<notin> set (hex_encode s)"
proof (induction s)
  case Nil
  then show ?case by (simp add: hex_encode_def)
next
  case (Cons c s)
  have "of_char c div 16 < (16 :: nat)" using of_char_less [of c] by (simp only: less_mult_imp_div_less)
  moreover have "of_char c mod 16 < (16 :: nat)" by simp
  ultimately have "CHR ''_'' \<noteq> hex_digit (of_char c div 16)" "CHR ''_'' \<noteq> hex_digit (of_char c mod 16)"
    by (simp_all add: hex_digit_char)
  with Cons show ?case by (simp add: hex_encode_def)
qed

section \<open>Base64, the URL alphabet without padding\<close>

definition b64_char :: "nat \<Rightarrow> char" where
  "b64_char n =
     (if n < 26 then char_of (65 + n) else if n < 52 then char_of (71 + n)
      else if n < 62 then char_of (n - 4) else if n = 62 then CHR ''-'' else CHR ''_'')"

definition b64_value :: "char \<Rightarrow> nat option" where
  "b64_value c =
     (let n = of_char c :: nat in
      if 65 \<le> n \<and> n \<le> 90 then Some (n - 65)
      else if 97 \<le> n \<and> n \<le> 122 then Some (n - 71)
      else if 48 \<le> n \<and> n \<le> 57 then Some (n + 4)
      else if c = CHR ''-'' then Some 62
      else if c = CHR ''_'' then Some 63
      else None)"

fun b64_encode :: "string \<Rightarrow> string" where
  "b64_encode [] = []"
| "b64_encode [a] = [b64_char (of_char a div 4), b64_char (of_char a mod 4 * 16)]"
| "b64_encode [a, b] =
     [b64_char (of_char a div 4), b64_char (of_char a mod 4 * 16 + of_char b div 16),
      b64_char (of_char b mod 16 * 4)]"
| "b64_encode (a # b # c # s) =
     b64_char (of_char a div 4) # b64_char (of_char a mod 4 * 16 + of_char b div 16)
     # b64_char (of_char b mod 16 * 4 + of_char c div 64) # b64_char (of_char c mod 64)
     # b64_encode s"

fun b64_quads :: "nat list \<Rightarrow> string option" where
  "b64_quads [] = Some []"
| "b64_quads [v] = None"
| "b64_quads [v, w] = Some [char_of (v * 4 + w div 16)]"
| "b64_quads [v, w, x] = Some [char_of (v * 4 + w div 16), char_of (w mod 16 * 16 + x div 4)]"
| "b64_quads (v # w # x # y # vs) =
     map_option (\<lambda>t. char_of (v * 4 + w div 16) # char_of (w mod 16 * 16 + x div 4)
       # char_of (x mod 4 * 64 + y) # t) (b64_quads vs)"

fun b64_values :: "string \<Rightarrow> nat list option" where
  "b64_values [] = Some []"
| "b64_values (c # s) =
     (case (b64_value c, b64_values s) of (Some v, Some vs) \<Rightarrow> Some (v # vs) | _ \<Rightarrow> None)"

definition b64_decode :: "string \<Rightarrow> string option" where
  "b64_decode s =
     (case b64_values (filter (\<lambda>c. c \<noteq> CHR 0x0A \<and> c \<noteq> CHR 0x0D) s) of
        None \<Rightarrow> None | Some vs \<Rightarrow> b64_quads vs)"

lemma b64_value_char: "n < 64 \<Longrightarrow> b64_value (b64_char n) = Some n"
  by (auto simp: b64_value_def b64_char_def Let_def)

lemma b64_char_line: "n < 64 \<Longrightarrow> b64_char n \<noteq> CHR 0x0A \<and> b64_char n \<noteq> CHR 0x0D"
  using b64_value_char [of n] by (auto simp: b64_value_def Let_def)

definition b64_nums :: "string \<Rightarrow> nat list" where
  "b64_nums s = map (\<lambda>c. the (b64_value c)) (b64_encode s)"

lemma length_b64_encode: "length (b64_encode s) = (length s * 4 + 2) div 3"
  by (induction s rule: b64_encode.induct) simp_all

lemma div4_less: "of_char c div 4 < (64 :: nat)"
  using of_char_less [of c] by (simp only: less_mult_imp_div_less)

lemma mod4_16: "of_char a mod 4 * 16 + of_char b div 16 < (64 :: nat)"
proof -
  have "of_char b div 16 < (16 :: nat)" using of_char_less [of b] by (simp only: less_mult_imp_div_less)
  moreover have "of_char a mod 4 \<le> (3 :: nat)" by (simp add: less_Suc_eq_le [symmetric])
  ultimately show ?thesis by linarith
qed

lemma mod16_4: "of_char b mod 16 * 4 + of_char c div 64 < (64 :: nat)"
proof -
  have "of_char c div 64 < (4 :: nat)" using of_char_less [of c] by (simp only: less_mult_imp_div_less)
  moreover have "of_char b mod 16 \<le> (15 :: nat)" by (simp add: less_Suc_eq_le [symmetric])
  ultimately show ?thesis by linarith
qed

lemma mod4_16': "of_char a mod 4 * 16 < (64 :: nat)" 
  using mod4_16 [of a "CHR 0x00"] by simp

lemma mod16_4': "of_char b mod 16 * 4 < (64 :: nat)" 
  using mod16_4 [of b "CHR 0x00"] by simp

lemma b64_recombine:
  "a div 4 * 4 + (a mod 4 * 16 + b div 16) div 16 = a" if "b < 256" for a b :: nat
  using that by (simp add: div_mult_mod_eq less_mult_imp_div_less)

lemma b64_recombine2:
  "(a mod 4 * 16 + b div 16) mod 16 * 16 + (b mod 16 * 4 + c div 64) div 4 = b"
  if "b < 256" "c < 256" for a b c :: nat
proof -
  have "b div 16 < 16" "c div 64 < 4" using that by (simp_all only: less_mult_imp_div_less)
  then show ?thesis by simp
qed

lemma b64_recombine3: "(b mod 16 * 4 + c div 64) mod 4 * 64 + c mod 64 = c" if "c < 256" for b c :: nat
proof -
  have "c div 64 < 4" using that by (simp only: less_mult_imp_div_less)
  then show ?thesis by simp
qed

lemmas b64_bounds = div4_less mod4_16 mod16_4 mod4_16' mod16_4'

lemma b64_values_encode: "\<exists>vs. b64_values (b64_encode s) = Some vs \<and> b64_quads vs = Some s"
proof (induction s rule: b64_encode.induct)
  case 1
  then show ?case by simp
next
  case (2 a)
  have "of_char a div 4 * 4 + of_char a mod 4 * 16 div 16 = (of_char a :: nat)"
    using b64_recombine [of 0 "of_char a"] by simp
  then show ?case by (simp add: b64_value_char b64_bounds)
next
  case (3 a b)
  then show ?case
    using b64_recombine [of "of_char b" "of_char a"] b64_recombine2 [of "of_char b" 0 "of_char a"]
    by (simp add: b64_value_char b64_bounds)
next
  case (4 a b c s)
  then obtain vs where "b64_values (b64_encode s) = Some vs" "b64_quads vs = Some s" by blast
  then show ?case
    using b64_recombine [of "of_char b" "of_char a"] b64_recombine2 [of "of_char b" "of_char c" "of_char a"]
      b64_recombine3 [of "of_char c" "of_char b"]
    by (simp add: b64_value_char b64_bounds)
qed

lemma b64_encode_chars: "set (b64_encode s) \<subseteq> b64_char ` {n. n < 64}"
proof (induction s rule: b64_encode.induct)
  case (4 a b c s)
  have "of_char c mod 64 < (64 :: nat)" by simp
  with 4 show ?case by (simp only: b64_encode.simps list.set insert_subset) (simp add: b64_bounds)
qed (simp_all add: b64_bounds)

lemma b64_decode_encode [simp]: "b64_decode (b64_encode s) = Some s"
proof -
  have "c \<noteq> CHR 0x0A \<and> c \<noteq> CHR 0x0D" if c: "c \<in> set (b64_encode s)" for c
  proof -
    from c obtain n where "n < 64" and eq: "c = b64_char n" using b64_encode_chars [of s] by auto
    from b64_char_line [OF this(1)] show ?thesis unfolding eq .
  qed
  then have "filter (\<lambda>c. c \<noteq> CHR 0x0A \<and> c \<noteq> CHR 0x0D) (b64_encode s) = b64_encode s"
    by (intro filter_True ballI)
  then show ?thesis using b64_values_encode [of s] by (auto simp: b64_decode_def)
qed

end
