(* ===== verification/Notify_Domain.thy ===== *)
theory Notify_Domain
  imports Go_Regexp Go_Time Go_Encoding
begin

text \<open>
  Messages and who hears about a finding (\<open>internal/domain/notify\<close>): the invitation and the
  finding notification as they are rendered (\<open>notify.go\<close>, \<open>preferences.go\<close>), the words a draft may
  put in one (\<open>draft.go\<close>), the channel a person is reached on (\<open>channels.go\<close>), their severity
  floor and quiet hours (\<open>preferences.go\<close>), and the code that proves a chat (\<open>verification.go\<close>).

  \<open>url.Parse\<close>, \<open>time.LoadLocation\<close>, SHA-256 and the wall clock of a zone are arguments.
\<close>

section \<open>Messages\<close>

record message =
  ms_kind :: string
  ms_channel :: string
  ms_email :: string
  ms_chat :: string
  ms_subject :: string
  ms_text :: string
  ms_html :: string

definition KindInvitation :: string where "KindInvitation = ''invitation''"
definition KindTelegramVerification :: string where "KindTelegramVerification = ''telegram_verification''"
definition ChannelEmail :: string where "ChannelEmail = ''email''"
definition ChannelTelegram :: string where "ChannelTelegram = ''telegram''"

definition trim_right_slashes :: "string \<Rightarrow> string" where
  "trim_right_slashes s = rev (dropWhile (\<lambda>c. c = CHR ''/'') (rev s))"

definition invitation_link :: "string \<Rightarrow> string \<Rightarrow> string" where
  "invitation_link base token = trim_right_slashes base @ ''/invite/'' @ token"

text \<open>The scheme and the host \<open>url.Parse\<close> reads, or nothing.\<close>

definition valid_base_url :: "(string \<Rightarrow> (string \<times> string) option) \<Rightarrow> string \<Rightarrow> bool" where
  "valid_base_url parse raw =
     (case parse raw of
        None \<Rightarrow> False
      | Some (scheme, host) \<Rightarrow> (scheme = ''http'' \<or> scheme = ''https'') \<and> host \<noteq> '''')"

definition newline :: string where "newline = [CHR 0x0A]"

definition or_else :: "string \<Rightarrow> string \<Rightarrow> string" where
  "or_else org fallback = (if trim_space org = '''' then fallback else trim_space org)"

definition invitation :: "string \<Rightarrow> string \<Rightarrow> string \<Rightarrow> int \<Rightarrow> message" where
  "invitation email org_name link days =
     (let org = or_else org_name ''an organisation''
      in \<lparr>ms_kind = KindInvitation, ms_channel = '''', ms_email = email, ms_chat = '''',
          ms_subject = ''You have been invited to join '' @ org @ '' on Kindlast'',
          ms_text = join newline
            [''You have been invited to join '' @ org @ '' on Kindlast, a compliance'',
             ''workspace for GDPR and the EU AI Act.'',
             '''',
             ''Open this link to accept:'',
             link,
             '''',
             ''The link expires in '' @ itoa days @ '' days and can be used once.'',
             '''',
             ''If you were not expecting this invitation you can ignore this message.'',
             ''Nothing happens until the link is opened.''],
          ms_html = ''''\<rparr>)"

section \<open>The words of a draft\<close>

definition MaxDraftSubject :: nat where "MaxDraftSubject = 120"
definition MaxDraftBody :: nat where "MaxDraftBody = 700"

text \<open>The three patterns, all under \<open>(?i)\<close>.\<close>

definition digit_class :: "(nat \<times> nat) list" where
  "digit_class = [rune_range CHR ''0'' CHR ''9'']"

definition scheme_link :: regexp where
  "scheme_link =
     seqs [WordB, Cls False fold_letters,
           between 1 31 (Cls False (fold_letters @ digit_class
             @ [one_rune CHR ''+'', one_rune CHR ''.'', one_rune CHR ''-''])),
           lit ''://'']"

definition contact_link :: regexp where
  "contact_link = seqs [WordB, alts [lit_fold ''mailto'', lit_fold ''tel'', lit_fold ''sms''], lit '':'']"

definition address_pattern :: regexp where
  "address_pattern =
     seqs [at_least 1 (Cls True (space_class @ map one_rune ''@<>()[]'')),
           lit ''@'',
           at_least 1 (Cls False (fold_letters @ digit_class @ [one_rune CHR ''.'', one_rune CHR ''-''])),
           lit ''.'',
           at_least 2 (Cls False fold_letters)]"

datatype draft_half = DraftSubject | DraftBody

datatype draft_error =
    NoSubject | NoBody
  | SubjectTooLong nat | BodyTooLong nat
  | ControlCharacter draft_half nat
  | HasLink draft_half
  | HasAddress draft_half
  | HasDash draft_half

definition control_rune :: "nat \<Rightarrow> bool" where
  "control_rune r \<longleftrightarrow> r < 32 \<or> r = 127"

definition dash_rune :: "nat \<Rightarrow> bool" where
  "dash_rune r \<longleftrightarrow> r = 8212 \<or> r = 8211"

definition check_half :: "draft_half \<times> string \<Rightarrow> draft_error option" where
  "check_half half =
     (case half of (name, s) \<Rightarrow>
       (case find control_rune (runes s) of
          Some r \<Rightarrow> Some (ControlCharacter name r)
        | None \<Rightarrow>
            if match_string scheme_link s \<or> match_string contact_link s then Some (HasLink name)
            else if match_string address_pattern s then Some (HasAddress name)
            else if list_ex dash_rune (runes s) then Some (HasDash name)
            else None))"

definition acceptable_draft :: "string \<Rightarrow> string \<Rightarrow> draft_error option" where
  "acceptable_draft subject body =
     (if trim_space subject = '''' then Some NoSubject
      else if trim_space body = '''' then Some NoBody
      else if length subject > MaxDraftSubject then Some (SubjectTooLong (length subject))
      else if length body > MaxDraftBody then Some (BodyTooLong (length body))
      else first_error check_half [(DraftSubject, subject), (DraftBody, body)])"

section \<open>Channels\<close>

definition valid_channel :: "string \<Rightarrow> bool" where
  "valid_channel v \<longleftrightarrow> v = ChannelEmail \<or> v = ChannelTelegram"

record route =
  rt_channel :: string
  rt_to :: string
  rt_fallback :: string
  rt_reason :: string

definition deliverable :: "route \<Rightarrow> bool" where
  "deliverable r \<longleftrightarrow> rt_channel r \<noteq> '''' \<and> rt_to r \<noteq> ''''"

definition with_fallback :: "string \<Rightarrow> string \<Rightarrow> route" where
  "with_fallback email why =
     (if email = '''' then \<lparr>rt_channel = '''', rt_to = '''', rt_fallback = '''',
        rt_reason = why @ '', and there is no address to fall back to''\<rparr>
      else \<lparr>rt_channel = ChannelEmail, rt_to = email, rt_fallback = why, rt_reason = ''''\<rparr>)"

definition route_for :: "string \<Rightarrow> string \<Rightarrow> string \<Rightarrow> bool \<Rightarrow> route" where
  "route_for chosen email chat verified =
     (if chosen = ChannelTelegram then
        if chat \<noteq> '''' \<and> verified
        then \<lparr>rt_channel = ChannelTelegram, rt_to = chat, rt_fallback = '''', rt_reason = ''''\<rparr>
        else if chat \<noteq> ''''
        then with_fallback email ''the Telegram chat is linked but not verified, so it is not delivered to''
        else with_fallback email ''no Telegram chat is linked, so there is nothing to deliver to''
      else if email \<noteq> ''''
      then \<lparr>rt_channel = ChannelEmail, rt_to = email, rt_fallback = '''', rt_reason = ''''\<rparr>
      else \<lparr>rt_channel = '''', rt_to = '''', rt_fallback = '''',
            rt_reason = ''this person has no address and no verified chat''\<rparr>)"

datatype pref_error = BadSeverity | BadZone string | BadClock string string | HalfWindow | BadChannel | BadEmail

definition normalise_channel :: "string \<Rightarrow> pref_error + string" where
  "normalise_channel v =
     (if v = '''' then Inr ChannelEmail else if \<not> valid_channel v then Inl BadChannel else Inr v)"

definition MaxChatIDLength :: nat where "MaxChatIDLength = 32"

definition valid_chat_id :: "string \<Rightarrow> bool" where
  "valid_chat_id raw =
     (if raw = '''' \<or> length raw > MaxChatIDLength then False
      else let digits = (if hd raw = CHR ''-'' then tl raw else raw)
           in if digits = '''' then False else list_all is_digit digits)"

section \<open>Preferences\<close>

definition SeverityLow :: string where "SeverityLow = ''low''"
definition SeverityMedium :: string where "SeverityMedium = ''medium''"
definition SeverityHigh :: string where "SeverityHigh = ''high''"
definition SeverityCritical :: string where "SeverityCritical = ''critical''"

definition severity_rank :: "string \<Rightarrow> int option" where
  "severity_rank = map_of [(SeverityLow, 1), (SeverityMedium, 2), (SeverityHigh, 3), (SeverityCritical, 4)]"

definition valid_severity :: "string \<Rightarrow> bool" where
  "valid_severity v \<longleftrightarrow> severity_rank v \<noteq> None"

definition meets_severity :: "string \<Rightarrow> string \<Rightarrow> bool" where
  "meets_severity found floor =
     (case severity_rank found of
        None \<Rightarrow> True
      | Some f \<Rightarrow> (case severity_rank floor of None \<Rightarrow> True | Some w \<Rightarrow> f \<ge> w))"

record preferences =
  pf_email :: string
  pf_min_severity :: string
  pf_weekly :: bool
  pf_deadlines :: bool
  pf_timezone :: string
  pf_quiet_start :: string
  pf_quiet_end :: string
  pf_channel :: string

definition DefaultTimezone :: string where "DefaultTimezone = ''Europe/Tallinn''"

definition default_preferences :: preferences where
  "default_preferences =
     \<lparr>pf_email = '''', pf_min_severity = SeverityMedium, pf_weekly = True, pf_deadlines = True,
      pf_timezone = DefaultTimezone, pf_quiet_start = '''', pf_quiet_end = '''', pf_channel = ChannelEmail\<rparr>"

text \<open>
  \<open>time.Parse("15:04", s)\<close>: an hour of one or two digits below 24, a colon, a minute of exactly
  two below 60, and nothing after it.
\<close>

fun parse_clock :: "string \<Rightarrow> (nat \<times> nat) option" where
  "parse_clock (a # b # c # d # e # r) =
     (if is_digit a \<and> is_digit b \<and> c = CHR '':'' \<and> is_digit d \<and> is_digit e \<and> r = []
         \<and> digit_val a * 10 + digit_val b < 24 \<and> digit_val d * 10 + digit_val e < 60
      then Some (digit_val a * 10 + digit_val b, digit_val d * 10 + digit_val e) else None)"
| "parse_clock [a, b, c, d] =
     (if is_digit a \<and> b = CHR '':'' \<and> is_digit c \<and> is_digit d \<and> digit_val c * 10 + digit_val d < 60
      then Some (digit_val a, digit_val c * 10 + digit_val d) else None)"
| "parse_clock _ = None"

definition normalise_clock :: "string \<Rightarrow> string \<Rightarrow> pref_error + string" where
  "normalise_clock field v =
     (if trim_space v = '''' then Inr ''''
      else if parse_clock (trim_space v) = None then Inl (BadClock field (trim_space v))
      else Inr (trim_space v))"

definition normalise :: "(string \<Rightarrow> bool) \<Rightarrow> preferences \<Rightarrow> pref_error + preferences" where
  "normalise known_zone p =
     (let sev = (if pf_min_severity p = '''' then SeverityMedium else pf_min_severity p);
          zone = (if trim_space (pf_timezone p) = '''' then DefaultTimezone else trim_space (pf_timezone p));
          email = trim_space (pf_email p)
      in if \<not> valid_severity sev then Inl BadSeverity
         else if \<not> known_zone zone then Inl (BadZone zone)
         else (case normalise_clock ''quiet_hours_start'' (pf_quiet_start p) of
             Inl e \<Rightarrow> Inl e
           | Inr start \<Rightarrow> (case normalise_clock ''quiet_hours_end'' (pf_quiet_end p) of
               Inl e \<Rightarrow> Inl e
             | Inr stop \<Rightarrow>
                 if (start = '''') \<noteq> (stop = '''') then Inl HalfWindow
                 else (case normalise_channel (trim_space (pf_channel p)) of
                     Inl e \<Rightarrow> Inl e
                   | Inr channel \<Rightarrow>
                       if email \<noteq> '''' \<and> \<not> contains_str email ''@'' then Inl BadEmail
                       else Inr \<lparr>pf_email = email, pf_min_severity = sev, pf_weekly = pf_weekly p,
                                 pf_deadlines = pf_deadlines p, pf_timezone = zone,
                                 pf_quiet_start = start, pf_quiet_end = stop, pf_channel = channel\<rparr>))))"

section \<open>Quiet hours\<close>

text \<open>
  A \<open>time.Time\<close> in a location: its instant and what the wall shows.  A \<open>zone\<close> reads the wall of
  an instant and, for \<open>time.Date\<close>, the instant of a wall time; the seconds of the argument are 0.
\<close>

record wall =
  wl_day :: int
  wl_hour :: nat
  wl_minute :: nat

record zone =
  zn_wall :: "instant \<Rightarrow> wall"
  zn_date :: "int \<Rightarrow> nat \<Rightarrow> nat \<Rightarrow> instant"

definition in_quiet_hours :: "zone \<Rightarrow> instant \<Rightarrow> string \<Rightarrow> string \<Rightarrow> bool" where
  "in_quiet_hours z now start stop =
     (if start = '''' \<or> stop = '''' then False
      else case parse_clock start of
        None \<Rightarrow> False
      | Some (fh, fm) \<Rightarrow> (case parse_clock stop of
            None \<Rightarrow> False
          | Some (th, tm) \<Rightarrow>
              let w = zn_wall z now; minutes = wl_hour w * 60 + wl_minute w;
                  from_min = fh * 60 + fm; to_min = th * 60 + tm
              in if from_min = to_min then False
                 else if from_min < to_min then minutes \<ge> from_min \<and> minutes < to_min
                 else minutes \<ge> from_min \<or> minutes < to_min))"

text \<open>\<open>AddDate(0, 0, 1)\<close> reads the candidate's own wall and asks for the same time a day on.\<close>

definition add_day :: "zone \<Rightarrow> instant \<Rightarrow> instant" where
  "add_day z t = (let w = zn_wall z t in zn_date z (wl_day w + 1) (wl_hour w) (wl_minute w))"

definition quiet_hours_end :: "zone \<Rightarrow> instant \<Rightarrow> string \<Rightarrow> string \<Rightarrow> instant option" where
  "quiet_hours_end z now start stop =
     (if \<not> in_quiet_hours z now start stop then None
      else case parse_clock stop of
        None \<Rightarrow> None
      | Some (th, tm) \<Rightarrow>
          let candidate = zn_date z (wl_day (zn_wall z now)) th tm
          in Some (if \<not> now < candidate then add_day z candidate else candidate))"

datatype notify_decision = Send | HoldUntil instant | Skip string string

definition notify_decide :: "string \<Rightarrow> string \<Rightarrow> zone \<Rightarrow> instant \<Rightarrow> string \<Rightarrow> string \<Rightarrow> notify_decision" where
  "notify_decide severity floor z now start stop =
     (if \<not> meets_severity severity floor then Skip severity floor
      else case quiet_hours_end z now start stop of Some t \<Rightarrow> HoldUntil t | None \<Rightarrow> Send)"

definition should_notify :: "string \<Rightarrow> string \<Rightarrow> zone \<Rightarrow> instant \<Rightarrow> string \<Rightarrow> string \<Rightarrow> bool" where
  "should_notify severity floor z now start stop = (notify_decide severity floor z now start stop = Send)"

section \<open>The doorbell\<close>

record doorbell =
  db_email :: string
  db_org :: string
  db_severity :: string
  db_finding_url :: string
  db_unsubscribe_url :: string
  db_approve_url :: string
  db_drafted_subject :: string
  db_drafted_body :: string

definition drafted :: "doorbell \<Rightarrow> bool" where
  "drafted d \<longleftrightarrow> db_drafted_subject d \<noteq> '''' \<and> db_drafted_body d \<noteq> ''''"

definition doorbell_lines :: "doorbell \<Rightarrow> string list" where
  "doorbell_lines d =
     ['''', ''Open it here to read what was found and decide what to do:'', db_finding_url d]
     @ (if db_approve_url d \<noteq> '''' then
         ['''', ''If you already know this one should be approved, you can approve it'',
          ''from the link below without signing in. It works once, it expires'',
          ''within the hour, and the audit trail will record that you approved'',
          ''it from an email without reading the finding first:'', db_approve_url d] else [])
     @ ['''', ''You are receiving this because you are a member of this organisation and'',
        ''your notification settings include findings at this severity.'', '''',
        ''To stop receiving these, use this link:'', db_unsubscribe_url d]"

definition finding_notification :: "doorbell \<Rightarrow> message" where
  "finding_notification d =
     (let org = or_else (db_org d) ''your organisation'';
          subject = (if drafted d then db_drafted_subject d
            else ''A '' @ db_severity d @ '' compliance finding needs attention in '' @ org);
          opening = (if drafted d then db_drafted_body d
            else ''Kindlast has raised a '' @ db_severity d @ '' finding for '' @ org @ ''.'')
      in \<lparr>ms_kind = '''', ms_channel = '''', ms_email = db_email d, ms_chat = '''', ms_subject = subject,
          ms_text = join newline (opening # doorbell_lines d), ms_html = ''''\<rparr>)"

section \<open>Proving a chat\<close>

definition VerificationCodeDigits :: nat where "VerificationCodeDigits = 6"
definition VerificationCodeLifetime :: duration where "VerificationCodeLifetime = 10 * minute"
definition MaxVerificationAttempts :: int where "MaxVerificationAttempts = 5"

text \<open>The random number below the limit is the argument.\<close>

definition new_verification_code :: "nat \<Rightarrow> string" where
  "new_verification_code n = pad_left VerificationCodeDigits (itoa (int n))"

definition hash_verification_code :: "(string \<Rightarrow> string) \<Rightarrow> string \<Rightarrow> string" where
  "hash_verification_code sha code = hex_encode (sha code)"

definition verification_code_matches :: "(string \<Rightarrow> string) \<Rightarrow> string \<Rightarrow> string \<Rightarrow> bool" where
  "verification_code_matches sha code stored =
     (if code = '''' \<or> stored = '''' then False else hash_verification_code sha code = stored)"

definition telegram_verification :: "string \<Rightarrow> string \<Rightarrow> string \<Rightarrow> message" where
  "telegram_verification code org_name chat =
     (let org = or_else org_name ''an organisation''
      in \<lparr>ms_kind = KindTelegramVerification, ms_channel = ChannelTelegram, ms_email = '''', ms_chat = chat,
          ms_subject = ''Kindlast verification code'',
          ms_text = join newline
            [''Your Kindlast verification code is '' @ code,
             '''',
             ''Somebody is linking this chat to '' @ org @ '' on Kindlast, a compliance'',
             ''workspace for GDPR and the EU AI Act, so that finding notifications'',
             ''arrive here instead of by email.'',
             '''',
             ''Type the code into the settings page to finish. It expires in '' @ itoa 10 @ '' minutes.'',
             '''',
             ''If you did not start this, ignore this message. The code is no use to'',
             ''anybody who is not already signed in, and nothing is linked until it'',
             ''is typed in.''],
          ms_html = ''''\<rparr>)"

end
