(* ===== verification/Org_Access.thy ===== *)
theory Org_Access
  imports Notify_Domain
begin

text \<open>
  Who belongs to an organisation (\<open>internal/domain/org\<close>, and the membership half of
  \<open>internal/store/postgres\<close>): the roles and the last-owner rule of \<open>members.go\<close>, the plan and
  the name of a personal organisation of \<open>provision.go\<close>, the tables the store writes
  (organisations, memberships, invitations, identities and the audit rows of all of them), and
  the store's operations of \<open>members.go\<close>, \<open>org.go\<close> and \<open>tenant.go\<close>, with the row-level
  policies and constraints of migrations 00002 to 00005, 00033 and 00038 written into each
  statement.

  What the code takes from elsewhere is in a record \<open>pg_env\<close>: how the database and the uuid
  package read an identifier, which byte strings the database takes as text, its \<open>lower\<close>, the
  slug it derives from a name, and SHA-256.
\<close>

section \<open>Roles and the last owner\<close>

definition RoleOwner :: string where "RoleOwner = ''owner''"
definition RoleMember :: string where "RoleMember = ''member''"
definition RoleViewer :: string where "RoleViewer = ''viewer''"

definition valid_role :: "string \<Rightarrow> bool" where
  "valid_role r \<longleftrightarrow> r = RoleOwner \<or> r = RoleMember \<or> r = RoleViewer"

record member =
  mem_user :: string
  mem_role :: string
  mem_name :: string
  mem_email :: string
  mem_joined :: instant

text \<open>The counting loop of \<open>WouldLeaveNoOwner\<close>: owners seen, and owners the change affects.\<close>

fun count_owners :: "string \<Rightarrow> member list \<Rightarrow> nat \<Rightarrow> nat \<Rightarrow> nat \<times> nat" where
  "count_owners u [] owners affected = (owners, affected)"
| "count_owners u (m # ms) owners affected =
     (if mem_role m \<noteq> RoleOwner then count_owners u ms owners affected
      else count_owners u ms (owners + 1) (if mem_user m = u then affected + 1 else affected))"

definition would_leave_no_owner :: "member list \<Rightarrow> string \<Rightarrow> string \<Rightarrow> bool" where
  "would_leave_no_owner ms u new_role =
     (if new_role = RoleOwner then False
      else let (owners, affected) = count_owners u ms 0 0
           in if affected = 0 then False else owners - affected = 0)"

section \<open>A personal organisation and its name\<close>

record subject_claims =
  sj_issuer :: string
  sj_subject :: string
  sj_email :: string
  sj_name :: string
  sj_verified :: bool

record org_membership =
  om_org :: string
  om_name :: string
  om_slug :: string
  om_role :: string

record org_plan =
  pl_create :: bool
  pl_name :: string
  pl_role :: string

text \<open>\<open>clean\<close>: fields of Unicode white space, one space between, at most 60 bytes.\<close>

definition clean :: "string \<Rightarrow> string" where
  "clean v =
     (let name = join '' '' (fields_space [] v)
      in if length name > 60 then trim_space (take 60 name) else name)"

text \<open>
  \<open>strings.Map\<close> with the separators of an address turned into spaces.  A byte that is not
  UTF-8 reads as the replacement character and is written back as its encoding.
\<close>

definition replacement_rune :: string where "replacement_rune = [CHR 0xEF, CHR 0xBF, CHR 0xBD]"

definition map_piece :: "string \<Rightarrow> string" where
  "map_piece s =
     (case decode_rune s of (r, w) \<Rightarrow>
        if r = 65533 \<and> w = 1 then replacement_rune
        else if take w s \<in> {''.'', ''_'', ''-''} then '' ''
        else take w s)"

function map_separators :: "string \<Rightarrow> string" where
  "map_separators s =
     (if s = [] then [] else map_piece s @ map_separators (drop (snd (decode_rune s)) s))"
  by pat_completeness auto
termination
  by (relation "measure length") (auto simp: decode_rune_width)

declare map_separators.simps [simp del]

definition email_local_part :: "string \<Rightarrow> string" where
  "email_local_part email =
     (case cut email ''@'' of (local_part, _, found) \<Rightarrow>
        if \<not> found then ''''
        else map_separators (fst (cut local_part ''+'')))"

definition personal_organisation_name :: "subject_claims \<Rightarrow> string" where
  "personal_organisation_name s =
     (if clean (sj_name s) \<noteq> '''' then clean (sj_name s)
      else if clean (email_local_part (sj_email s)) \<noteq> '''' then clean (email_local_part (sj_email s))
      else if clean (sj_subject s) \<noteq> '''' then clean (sj_subject s)
      else ''Personal organisation'')"

definition plan_for :: "subject_claims \<Rightarrow> org_membership list \<Rightarrow> org_plan" where
  "plan_for s existing =
     (if existing \<noteq> [] then \<lparr>pl_create = False, pl_name = '''', pl_role = ''''\<rparr>
      else \<lparr>pl_create = True, pl_name = personal_organisation_name s, pl_role = RoleOwner\<rparr>)"

section \<open>The tables\<close>

record org_row =
  or_id :: string
  or_name :: string
  or_slug :: string
  or_personal :: "string option"
  or_at :: instant

record member_row =
  mr_org :: string
  mr_user :: string
  mr_role :: string
  mr_at :: instant

record invite_row =
  inv_id :: string
  inv_org :: string
  inv_email :: string
  inv_role :: string
  inv_hash :: string
  inv_by :: string
  inv_expires :: instant
  inv_accepted :: "(instant \<times> string) option"

record identity_row =
  idn_user :: string
  idn_issuer :: string
  idn_subject :: string
  idn_email :: "string option"
  idn_name :: "string option"
  idn_verified :: bool

record access_audit =
  ax_org :: string
  ax_user :: string
  ax_role :: "string option"
  ax_action :: string
  ax_table :: string
  ax_target :: "string option"
  ax_before :: "(string \<times> string) list option"
  ax_after :: "(string \<times> string) list option"
  ax_at :: instant

record subscription_row =
  sub_org :: string
  sub_plan :: string
  sub_status :: string

record outbox_row =
  ob_id :: string
  ob_org :: string
  ob_kind :: string
  ob_channel :: string
  ob_email :: string
  ob_chat :: string
  ob_subject :: string
  ob_text :: string
  ob_html :: "string option"
  ob_status :: string
  ob_attempts :: int
  ob_error :: "string option"
  ob_created :: instant
  ob_sent :: "instant option"
  ob_redacted :: "instant option"

record access_db =
  ac_orgs :: "org_row list"
  ac_members :: "member_row list"
  ac_invites :: "invite_row list"
  ac_identities :: "identity_row list"
  ac_audit :: "access_audit list"
  ac_subs :: "subscription_row list"
  ac_outbox :: "outbox_row list"

text \<open>What the database, the uuid package and the hash answer.\<close>

record pg_env =
  pg_uuid :: "string \<Rightarrow> string option"
  go_uuid :: "string \<Rightarrow> string option"
  pg_text :: "string \<Rightarrow> bool"
  pg_lower :: "string \<Rightarrow> string"
  org_slug :: "string \<Rightarrow> nat \<Rightarrow> string"
  sha256 :: "string \<Rightarrow> string"

text \<open>A request's transaction: the two settings of the session, the role read when it began, the clock.\<close>

record tenant =
  tn_user :: string
  tn_org :: string
  tn_role :: string
  tn_now :: instant

datatype store_fault = NoSuchMember | InvitationNotUsable | NoFreeSlug | StoreFailed

section \<open>Policies\<close>

definition role_in :: "access_db \<Rightarrow> string \<Rightarrow> string \<Rightarrow> string option" where
  "role_in db org user =
     map_option mr_role (find (\<lambda>m. mr_org m = org \<and> mr_user m = user) (ac_members db))"

text \<open>The two-setting policy every table here has: the active organisation, by a member of it.\<close>

definition member_of :: "access_db \<Rightarrow> tenant \<Rightarrow> bool" where
  "member_of a t \<longleftrightarrow> role_in a (tn_org t) (tn_user t) \<noteq> None"

definition sees_org :: "access_db \<Rightarrow> tenant \<Rightarrow> string \<Rightarrow> bool" where
  "sees_org a t org \<longleftrightarrow> org = tn_org t \<and> member_of a t"

definition member_count :: "access_db \<Rightarrow> string \<Rightarrow> nat" where
  "member_count db org = length (filter (\<lambda>m. mr_org m = org) (ac_members db))"

text \<open>\<open>audit_log_insert_org\<close>: a row of the active organisation, by a member of it.\<close>

record audit_entry =
  ae_action :: string
  ae_table :: string
  ae_target :: "string option"
  ae_before :: "(string \<times> string) list option"
  ae_after :: "(string \<times> string) list option"

definition audit_of :: "tenant \<Rightarrow> access_db \<Rightarrow> audit_entry \<Rightarrow> access_audit" where
  "audit_of t db e =
     \<lparr>ax_org = tn_org t, ax_user = tn_user t, ax_role = role_in db (tn_org t) (tn_user t),
      ax_action = ae_action e, ax_table = ae_table e, ax_target = ae_target e,
      ax_before = ae_before e, ax_after = ae_after e, ax_at = tn_now t\<rparr>"

definition record_change :: "tenant \<Rightarrow> audit_entry \<Rightarrow> access_db \<Rightarrow> store_fault + access_db" where
  "record_change t e db =
     (if role_in db (tn_org t) (tn_user t) = None then Inl StoreFailed
      else Inr (db\<lparr>ac_audit := ac_audit db @ [audit_of t db e]\<rparr>))"

section \<open>Reading members\<close>

definition identity_of :: "access_db \<Rightarrow> string \<Rightarrow> identity_row option" where
  "identity_of db user = find (\<lambda>i. idn_user i = user) (ac_identities db)"

definition scan_member :: "access_db \<Rightarrow> member_row \<Rightarrow> member" where
  "scan_member db m =
     (case identity_of db (mr_user m) of
        None \<Rightarrow> \<lparr>mem_user = mr_user m, mem_role = mr_role m, mem_name = '''', mem_email = '''', mem_joined = mr_at m\<rparr>
      | Some i \<Rightarrow> \<lparr>mem_user = mr_user m, mem_role = mr_role m,
                   mem_name = (case idn_name i of None \<Rightarrow> '''' | Some n \<Rightarrow> n),
                   mem_email = (case idn_email i of None \<Rightarrow> '''' | Some e \<Rightarrow> e),
                   mem_joined = mr_at m\<rparr>)"

definition sees_membership :: "tenant \<Rightarrow> access_db \<Rightarrow> member_row \<Rightarrow> bool" where
  "sees_membership t db m \<longleftrightarrow> mr_user m = tn_user t \<or> role_in db (mr_org m) (tn_user t) \<noteq> None"

definition members :: "tenant \<Rightarrow> access_db \<Rightarrow> member list" where
  "members t db =
     map (scan_member db)
       (sort_key mr_at (sort_key mr_user
          (filter (\<lambda>m. sees_membership t db m \<and> mr_org m = tn_org t) (ac_members db))))"

text \<open>The subject's own rows, joined with the organisations they name.\<close>

definition org_of :: "access_db \<Rightarrow> string \<Rightarrow> org_row option" where
  "org_of db i = find (\<lambda>r. or_id r = i) (ac_orgs db)"

definition joined_row :: "access_db \<Rightarrow> org_row \<Rightarrow> string \<Rightarrow> org_membership list" where
  "joined_row db r user =
     (case role_in db (or_id r) user of
        None \<Rightarrow> []
      | Some role \<Rightarrow> [\<lparr>om_org = or_id r, om_name = or_name r, om_slug = or_slug r, om_role = role\<rparr>])"

definition memberships :: "tenant \<Rightarrow> access_db \<Rightarrow> org_membership list" where
  "memberships t db =
     concat (map (\<lambda>r. joined_row db r (tn_user t))
       (sort_key or_at (sort_key or_id (ac_orgs db))))"

definition subscription_plan :: "tenant \<Rightarrow> access_db \<Rightarrow> string" where
  "subscription_plan t db =
     (case find (\<lambda>s. sub_org s = tn_org t \<and> sub_status s = ''active''
                    \<and> role_in db (tn_org t) (tn_user t) \<noteq> None) (ac_subs db) of
        None \<Rightarrow> ''free'' | Some s \<Rightarrow> sub_plan s)"

section \<open>Opening a transaction\<close>

text \<open>\<open>BeginTenant\<close> for a subject already mapped to its uuid: the role is read here, once.\<close>

definition noOrganisation :: string where
  "noOrganisation = ''00000000-0000-0000-0000-000000000000''"

datatype open_fault = NotAMember

definition default_membership :: "string \<Rightarrow> access_db \<Rightarrow> (string \<times> string) option" where
  "default_membership user db =
     (case sort_key mr_at (sort_key mr_org (filter (\<lambda>m. mr_user m = user) (ac_members db))) of
        [] \<Rightarrow> None | m # _ \<Rightarrow> Some (mr_org m, mr_role m))"

definition resolve_membership ::
  "pg_env \<Rightarrow> string \<Rightarrow> string \<Rightarrow> access_db \<Rightarrow> open_fault + (string \<times> string)" where
  "resolve_membership E user requested db =
     (if requested = '''' then
        Inr (case default_membership user db of None \<Rightarrow> (noOrganisation, '''') | Some m \<Rightarrow> m)
      else (case go_uuid E requested of
          None \<Rightarrow> Inl NotAMember
        | Some org \<Rightarrow> (case role_in db org user of
              None \<Rightarrow> Inl NotAMember
            | Some role \<Rightarrow> Inr (org, role))))"

definition begin_tenant ::
  "pg_env \<Rightarrow> string \<Rightarrow> string \<Rightarrow> instant \<Rightarrow> access_db \<Rightarrow> open_fault + tenant" where
  "begin_tenant E user requested now db =
     (case resolve_membership E user requested db of
        Inl e \<Rightarrow> Inl e
      | Inr (org, role) \<Rightarrow> Inr \<lparr>tn_user = user, tn_org = org, tn_role = role, tn_now = now\<rparr>)"

definition use_organisation :: "string \<Rightarrow> tenant \<Rightarrow> tenant" where
  "use_organisation org t = t\<lparr>tn_org := org\<rparr>"

section \<open>Creating organisations\<close>

text \<open>
  One attempt at a slug, and the loop both creations share: a slug that is taken tries the next
  number, twenty-five times; anything else ends it.
\<close>

datatype attempt = SlugTaken | InsertRefused | AlreadyThere | Inserted access_db

definition maxSlugAttempts :: nat where "maxSlugAttempts = 25"

fun slug_loop :: "(nat \<Rightarrow> attempt) \<Rightarrow> nat list \<Rightarrow> store_fault + (access_db option)" where
  "slug_loop insert_with [] = Inl NoFreeSlug"
| "slug_loop insert_with (n # ns) =
     (case insert_with n of
        SlugTaken \<Rightarrow> slug_loop insert_with ns
      | InsertRefused \<Rightarrow> Inl StoreFailed
      | AlreadyThere \<Rightarrow> Inr None
      | Inserted db \<Rightarrow> Inr (Some db))"

definition ordinals :: "nat list" where "ordinals = [1..<maxSlugAttempts + 1]"

text \<open>
  The insert itself: a name the database does not take as text is refused before anything, the
  personal owner's conflict does nothing, then the primary key and the slug are checked.
\<close>

definition insert_org ::
  "pg_env \<Rightarrow> string \<Rightarrow> string \<Rightarrow> string option \<Rightarrow> instant \<Rightarrow> access_db \<Rightarrow> nat \<Rightarrow> attempt" where
  "insert_org E oid name personal now db ordinal =
     (if \<not> pg_text E name then InsertRefused
      else if personal \<noteq> None \<and> list_ex (\<lambda>r. or_personal r = personal) (ac_orgs db) then AlreadyThere
      else if list_ex (\<lambda>r. or_id r = oid) (ac_orgs db) then InsertRefused
      else if list_ex (\<lambda>r. or_slug r = org_slug E name ordinal) (ac_orgs db) then SlugTaken
      else Inserted (db\<lparr>ac_orgs := ac_orgs db
             @ [\<lparr>or_id = oid, or_name = name, or_slug = org_slug E name ordinal,
                 or_personal = personal, or_at = now\<rparr>]\<rparr>))"

definition insert_named_organisation ::
  "pg_env \<Rightarrow> tenant \<Rightarrow> string \<Rightarrow> string \<Rightarrow> access_db \<Rightarrow> store_fault + access_db" where
  "insert_named_organisation E t oid name db =
     (case slug_loop (insert_org E oid name None (tn_now t) db) ordinals of
        Inl e \<Rightarrow> Inl e | Inr None \<Rightarrow> Inl StoreFailed | Inr (Some db') \<Rightarrow> Inr db')"

definition insert_organisation ::
  "pg_env \<Rightarrow> tenant \<Rightarrow> string \<Rightarrow> org_plan \<Rightarrow> access_db \<Rightarrow> store_fault + (access_db option)" where
  "insert_organisation E t oid plan db =
     slug_loop (insert_org E oid (pl_name plan) (Some (tn_user t)) (tn_now t) db) ordinals"

text \<open>
  \<open>memberships_insert_owner_or_bootstrap\<close>, the primary key and the check on the role: an owner
  adds anybody, and a person may make themselves owner of an organisation with no members.
\<close>

definition insert_membership :: "tenant \<Rightarrow> string \<Rightarrow> string \<Rightarrow> access_db \<Rightarrow> store_fault + access_db" where
  "insert_membership t org role db =
     (if \<not> (role_in db org (tn_user t) = Some RoleOwner
           \<or> (role = RoleOwner \<and> member_count db org = 0)) then Inl StoreFailed
      else if \<not> valid_role role \<or> role_in db org (tn_user t) \<noteq> None then Inl StoreFailed
      else Inr (db\<lparr>ac_members := ac_members db
             @ [\<lparr>mr_org = org, mr_user = tn_user t, mr_role = role, mr_at = tn_now t\<rparr>]\<rparr>))"

definition create_organisation ::
  "pg_env \<Rightarrow> tenant \<Rightarrow> string \<Rightarrow> string \<Rightarrow> access_db \<Rightarrow> store_fault + (org_membership \<times> access_db)" where
  "create_organisation E t oid name db =
     (case insert_named_organisation E t oid name db of
        Inl e \<Rightarrow> Inl e
      | Inr db1 \<Rightarrow> (case insert_membership t oid RoleOwner db1 of
            Inl e \<Rightarrow> Inl e
          | Inr db2 \<Rightarrow> (case org_of db2 oid of
                None \<Rightarrow> Inl StoreFailed
              | Some r \<Rightarrow> Inr (\<lparr>om_org = or_id r, om_name = or_name r, om_slug = or_slug r,
                                om_role = RoleOwner\<rparr>, db2))))"

text \<open>
  \<open>ProvisionPersonalOrganisation\<close>.  The membership insert does nothing on a conflict, which a
  row of the same organisation and person would be; the policy is checked either way.
\<close>

definition provision_personal ::
  "pg_env \<Rightarrow> tenant \<Rightarrow> string \<Rightarrow> org_plan \<Rightarrow> access_db \<Rightarrow> store_fault + (bool \<times> access_db)" where
  "provision_personal E t oid plan db =
     (case insert_organisation E t oid plan db of
        Inl e \<Rightarrow> Inl e
      | Inr None \<Rightarrow> Inr (False, db)
      | Inr (Some db1) \<Rightarrow> (case insert_membership t oid (pl_role plan) db1 of
            Inl e \<Rightarrow> Inl e | Inr db2 \<Rightarrow> Inr (True, db2)))"

text \<open>\<open>RenamePersonalOrganisation\<close>: one statement, under \<open>organisations_update_owner\<close>.\<close>

definition renames_personal :: "tenant \<Rightarrow> access_db \<Rightarrow> string \<Rightarrow> org_row \<Rightarrow> bool" where
  "renames_personal t db current r \<longleftrightarrow>
     or_personal r = Some (tn_user t) \<and> or_name r = current
     \<and> role_in db (or_id r) (tn_user t) = Some RoleOwner"

definition rename_personal ::
  "pg_env \<Rightarrow> tenant \<Rightarrow> string \<Rightarrow> string \<Rightarrow> access_db \<Rightarrow> store_fault + (bool \<times> access_db)" where
  "rename_personal E t current new db =
     (if \<not> pg_text E new \<or> \<not> pg_text E current then Inl StoreFailed
      else Inr (list_ex (renames_personal t db current) (ac_orgs db),
        db\<lparr>ac_orgs := map (\<lambda>r. if renames_personal t db current r then r\<lparr>or_name := new\<rparr> else r) (ac_orgs db)\<rparr>))"

text \<open>\<open>RenameOrganisation\<close>: the audit row says what the name was, and is written when it moved.\<close>

definition ActionRenameOrganisation :: string where "ActionRenameOrganisation = ''rename_organisation''"
definition ActionInviteMember :: string where "ActionInviteMember = ''invite_member''"
definition ActionChangeMemberRole :: string where "ActionChangeMemberRole = ''change_member_role''"
definition ActionRemoveMember :: string where "ActionRemoveMember = ''remove_member''"
definition ActionAcceptInvitation :: string where "ActionAcceptInvitation = ''accept_invitation''"

definition rename_organisation ::
  "pg_env \<Rightarrow> tenant \<Rightarrow> string \<Rightarrow> access_db \<Rightarrow> store_fault + (org_membership \<times> access_db)" where
  "rename_organisation E t name db =
     (if \<not> pg_text E name then Inl StoreFailed
      else case org_of db (tn_org t) of
        None \<Rightarrow> Inl NoSuchMember
      | Some r \<Rightarrow>
          if role_in db (tn_org t) (tn_user t) \<noteq> Some RoleOwner then Inl NoSuchMember
          else let db1 = db\<lparr>ac_orgs := map (\<lambda>r. if or_id r = tn_org t then r\<lparr>or_name := name\<rparr> else r) (ac_orgs db)\<rparr>;
                   answer = \<lparr>om_org = or_id r, om_name = name, om_slug = or_slug r, om_role = tn_role t\<rparr>
               in if or_name r = name then Inr (answer, db1)
                  else (case record_change t
                      \<lparr>ae_action = ActionRenameOrganisation, ae_table = ''organisations'',
                       ae_target = go_uuid E (tn_org t), ae_before = Some [(''name'', or_name r)],
                       ae_after = Some [(''name'', name)]\<rparr> db1 of
                    Inl e \<Rightarrow> Inl e | Inr db2 \<Rightarrow> Inr (answer, db2)))"

section \<open>Changing memberships\<close>

text \<open>
  \<open>select role ... for update\<close>: the lock makes the update policy apply to the read, so the row
  is there only for an owner.  The id the caller sent is read by the database as a uuid.
\<close>

definition locked_role :: "tenant \<Rightarrow> string \<Rightarrow> access_db \<Rightarrow> string option" where
  "locked_role t u db =
     (if role_in db (tn_org t) (tn_user t) = Some RoleOwner then role_in db (tn_org t) u else None)"

definition set_member_role ::
  "pg_env \<Rightarrow> tenant \<Rightarrow> string \<Rightarrow> string \<Rightarrow> access_db \<Rightarrow> store_fault + access_db" where
  "set_member_role E t user role db =
     (case pg_uuid E user of
        None \<Rightarrow> Inl StoreFailed
      | Some u \<Rightarrow> (case locked_role t u db of
            None \<Rightarrow> Inl NoSuchMember
          | Some previous \<Rightarrow>
              if \<not> valid_role role then Inl StoreFailed
              else record_change t
                \<lparr>ae_action = ActionChangeMemberRole, ae_table = ''memberships'', ae_target = go_uuid E user,
                 ae_before = Some [(''role'', previous)], ae_after = Some [(''role'', role)]\<rparr>
                (db\<lparr>ac_members := map (\<lambda>m. if mr_org m = tn_org t \<and> mr_user m = u then m\<lparr>mr_role := role\<rparr> else m)
                                    (ac_members db)\<rparr>)))"

definition remove_member :: "pg_env \<Rightarrow> tenant \<Rightarrow> string \<Rightarrow> access_db \<Rightarrow> store_fault + access_db" where
  "remove_member E t user db =
     (case pg_uuid E user of
        None \<Rightarrow> Inl StoreFailed
      | Some u \<Rightarrow> (case locked_role t u db of
            None \<Rightarrow> Inl NoSuchMember
          | Some previous \<Rightarrow> (case record_change t
                \<lparr>ae_action = ActionRemoveMember, ae_table = ''memberships'', ae_target = go_uuid E user,
                 ae_before = Some [(''role'', previous)], ae_after = None\<rparr> db of
              Inl e \<Rightarrow> Inl e
            | Inr db1 \<Rightarrow> Inr (db1\<lparr>ac_members :=
                filter (\<lambda>m. \<not> (mr_org m = tn_org t \<and> mr_user m = u)) (ac_members db1)\<rparr>))))"

section \<open>Invitations\<close>

definition InvitationLifetime :: duration where "InvitationLifetime = 7 * 24 * hour"

definition hash_invitation_token :: "pg_env \<Rightarrow> string \<Rightarrow> string" where
  "hash_invitation_token E token = hex_encode (sha256 E token)"

definition create_invitation ::
  "pg_env \<Rightarrow> tenant \<Rightarrow> string \<Rightarrow> string \<Rightarrow> string \<Rightarrow> string \<Rightarrow> access_db
     \<Rightarrow> store_fault + (invite_row \<times> access_db)" where
  "create_invitation E t iid email role token db =
     (if \<not> pg_text E email \<or> role_in db (tn_org t) (tn_user t) \<noteq> Some RoleOwner \<or> \<not> valid_role role
         \<or> list_ex (\<lambda>i. inv_id i = iid \<or> inv_hash i = hash_invitation_token E token) (ac_invites db)
      then Inl StoreFailed
      else let i = \<lparr>inv_id = iid, inv_org = tn_org t, inv_email = email, inv_role = role,
                    inv_hash = hash_invitation_token E token, inv_by = tn_user t,
                    inv_expires = tn_now t + InvitationLifetime, inv_accepted = None\<rparr>
           in (case record_change t
                 \<lparr>ae_action = ActionInviteMember, ae_table = ''invitations'', ae_target = go_uuid E iid,
                  ae_before = None, ae_after = Some [(''email'', email), (''role'', role)]\<rparr>
                 (db\<lparr>ac_invites := ac_invites db @ [i]\<rparr>) of
               Inl e \<Rightarrow> Inl e | Inr db1 \<Rightarrow> Inr (i, db1)))"

text \<open>\<open>btrim\<close> takes spaces only.\<close>

definition btrim_space :: "string \<Rightarrow> string" where
  "btrim_space s = rev (dropWhile (\<lambda>c. c = CHR '' '') (rev (dropWhile (\<lambda>c. c = CHR '' '') s)))"

text \<open>The definer function \<open>accept_invitation\<close> as migration 00038 left it.\<close>

definition usable :: "pg_env \<Rightarrow> string \<Rightarrow> string \<Rightarrow> instant \<Rightarrow> invite_row \<Rightarrow> bool" where
  "usable E h email now i \<longleftrightarrow>
     inv_hash i = h \<and> inv_accepted i = None \<and> now < inv_expires i
     \<and> pg_lower E (inv_email i) = pg_lower E (btrim_space email)"

definition join_once :: "invite_row \<Rightarrow> string \<Rightarrow> instant \<Rightarrow> access_db \<Rightarrow> access_db" where
  "join_once i user now db =
     (if role_in db (inv_org i) user = None
      then db\<lparr>ac_members := ac_members db
             @ [\<lparr>mr_org = inv_org i, mr_user = user, mr_role = inv_role i, mr_at = now\<rparr>]\<rparr>
      else db)"

definition redeem :: "pg_env \<Rightarrow> tenant \<Rightarrow> string \<Rightarrow> string \<Rightarrow> access_db \<Rightarrow> (string \<times> access_db) option" where
  "redeem E t h email db =
     (if btrim_space email = '''' then None
      else case find (usable E h email (tn_now t)) (ac_invites db) of
        None \<Rightarrow> None
      | Some i \<Rightarrow>
          let db1 = join_once i (tn_user t) (tn_now t) db;
              row = \<lparr>ax_org = inv_org i, ax_user = tn_user t, ax_role = role_in db1 (inv_org i) (tn_user t),
                     ax_action = ActionAcceptInvitation, ax_table = ''invitations'', ax_target = Some (inv_id i),
                     ax_before = None, ax_after = Some [(''role'', inv_role i)], ax_at = tn_now t\<rparr>
          in Some (inv_org i, db1\<lparr>ac_audit := ac_audit db1 @ [row],
               ac_invites := map (\<lambda>j. if inv_id j = inv_id i then j\<lparr>inv_accepted := Some (tn_now t, tn_user t)\<rparr> else j)
                               (ac_invites db1)\<rparr>))"

definition accept_invitation ::
  "pg_env \<Rightarrow> tenant \<Rightarrow> string \<Rightarrow> string \<Rightarrow> access_db \<Rightarrow> store_fault + (org_membership \<times> access_db)" where
  "accept_invitation E t token email db =
     (if token = '''' \<or> email = '''' then Inl InvitationNotUsable
      else if \<not> pg_text E email then Inl StoreFailed
      else case redeem E t (hash_invitation_token E token) email db of
        None \<Rightarrow> Inl InvitationNotUsable
      | Some (org, db') \<Rightarrow> (case org_of db' org of
            None \<Rightarrow> Inl StoreFailed
          | Some r \<Rightarrow> (case role_in db' org (tn_user t) of
                None \<Rightarrow> Inl StoreFailed
              | Some role \<Rightarrow> Inr (\<lparr>om_org = org, om_name = or_name r, om_slug = or_slug r, om_role = role\<rparr>, db'))))"

section \<open>The outbox\<close>

text \<open>
  \<open>EnqueueMessage\<close>, under \<open>transactional_outbox_insert_owner\<close> and the constraints on a message's
  kind, its channel and the recipient its channel needs.
\<close>

definition enqueue_message ::
  "tenant \<Rightarrow> string \<Rightarrow> message \<Rightarrow> access_db \<Rightarrow> store_fault + access_db" where
  "enqueue_message t oid msg db =
     (let channel = (if ms_channel msg = '''' then ChannelEmail else ms_channel msg)
      in if role_in db (tn_org t) (tn_user t) \<noteq> Some RoleOwner
           \<or> ms_kind msg \<notin> {KindInvitation, KindTelegramVerification}
           \<or> \<not> (channel = ChannelEmail \<and> ms_chat msg = '''' \<or> channel = ChannelTelegram \<and> ms_chat msg \<noteq> '''')
           \<or> list_ex (\<lambda>r. ob_id r = oid) (ac_outbox db)
         then Inl StoreFailed
         else Inr (db\<lparr>ac_outbox := ac_outbox db
           @ [\<lparr>ob_id = oid, ob_org = tn_org t, ob_kind = ms_kind msg, ob_channel = channel,
               ob_email = ms_email msg, ob_chat = ms_chat msg, ob_subject = ms_subject msg,
               ob_text = ms_text msg, ob_html = (if ms_html msg = '''' then None else Some (ms_html msg)),
               ob_status = ''pending'', ob_attempts = 0, ob_error = None, ob_created = tn_now t,
               ob_sent = None, ob_redacted = None\<rparr>]\<rparr>))"

text \<open>\<open>OrganisationName\<close>: through the policy that shows an organisation to its members.\<close>

definition organisation_name :: "tenant \<Rightarrow> access_db \<Rightarrow> store_fault + string" where
  "organisation_name t db =
     (case org_of db (tn_org t) of
        None \<Rightarrow> Inl StoreFailed
      | Some r \<Rightarrow> if role_in db (tn_org t) (tn_user t) \<noteq> None \<or> or_personal r = Some (tn_user t)
                  then Inr (or_name r) else Inl StoreFailed)"

section \<open>Identities\<close>

text \<open>
  \<open>RecordIdentity\<close>: an upsert that keeps what an absent claim does not say, and moves the
  verified flag only with an address.  One issuer's subject belongs to one user.
\<close>

definition null_if_empty :: "string \<Rightarrow> string option" where
  "null_if_empty s = (if s = '''' then None else Some s)"

definition coalesce_opt :: "'a option \<Rightarrow> 'a option \<Rightarrow> 'a option" where
  "coalesce_opt a b = (case a of None \<Rightarrow> b | Some _ \<Rightarrow> a)"

definition merge_identity :: "subject_claims \<Rightarrow> identity_row \<Rightarrow> identity_row" where
  "merge_identity s i =
     i\<lparr>idn_email := coalesce_opt (null_if_empty (sj_email s)) (idn_email i),
       idn_name := coalesce_opt (null_if_empty (sj_name s)) (idn_name i),
       idn_verified := (if null_if_empty (sj_email s) \<noteq> None then sj_verified s else idn_verified i)\<rparr>"

definition record_identity ::
  "pg_env \<Rightarrow> tenant \<Rightarrow> subject_claims \<Rightarrow> access_db \<Rightarrow> store_fault + access_db" where
  "record_identity E t s db =
     (if \<not> list_all (pg_text E) [sj_issuer s, sj_subject s, sj_email s, sj_name s] then Inl StoreFailed
      else if identity_of db (tn_user t) \<noteq> None then
        Inr (db\<lparr>ac_identities :=
          map (\<lambda>i. if idn_user i = tn_user t then merge_identity s i else i) (ac_identities db)\<rparr>)
      else if list_ex (\<lambda>i. idn_issuer i = sj_issuer s \<and> idn_subject i = sj_subject s) (ac_identities db)
      then Inl StoreFailed
      else Inr (db\<lparr>ac_identities := ac_identities db
             @ [\<lparr>idn_user = tn_user t, idn_issuer = sj_issuer s, idn_subject = sj_subject s,
                 idn_email = null_if_empty (sj_email s), idn_name = null_if_empty (sj_name s),
                 idn_verified = (sj_verified s \<and> null_if_empty (sj_email s) \<noteq> None)\<rparr>]\<rparr>))"

end
