(* ===== verification/Net_IP.thy ===== *)
theory Net_IP
  imports KL_Prelude "HOL-Library.Word"
begin

text \<open>
  The address predicates of package \<open>net\<close> the two outbound guards use, on the bytes of a
  \<open>net.IP\<close>: four, or sixteen with the IPv4-mapped form read as IPv4.
\<close>

unbundle bit_operations_syntax

type_synonym ip = "8 word list"

definition v4_mapped_prefix :: ip where
  "v4_mapped_prefix = [0, 0, 0, 0, 0, 0, 0, 0, 0, 0, 0xFF, 0xFF]"

definition to4 :: "ip \<Rightarrow> ip option" where
  "to4 a = (if length a = 4 then Some a
     else if length a = 16 \<and> take 12 a = v4_mapped_prefix then Some (drop 12 a) else None)"

definition is_loopback :: "ip \<Rightarrow> bool" where
  "is_loopback a = (case to4 a of Some b \<Rightarrow> b ! 0 = 127 | None \<Rightarrow> a = replicate 15 0 @ [1])"

definition is_private :: "ip \<Rightarrow> bool" where
  "is_private a = (case to4 a of
      Some b \<Rightarrow> b ! 0 = 10 \<or> b ! 0 = 172 \<and> b ! 1 AND 0xF0 = 16 \<or> b ! 0 = 192 \<and> b ! 1 = 168
    | None \<Rightarrow> length a = 16 \<and> a ! 0 AND 0xFE = 0xFC)"

definition is_unspecified :: "ip \<Rightarrow> bool" where
  "is_unspecified a \<longleftrightarrow> to4 a = Some (replicate 4 0) \<or> a = replicate 16 0"

definition is_multicast :: "ip \<Rightarrow> bool" where
  "is_multicast a = (case to4 a of
      Some b \<Rightarrow> b ! 0 AND 0xF0 = 0xE0
    | None \<Rightarrow> length a = 16 \<and> a ! 0 = 0xFF)"

definition is_interface_local_multicast :: "ip \<Rightarrow> bool" where
  "is_interface_local_multicast a \<longleftrightarrow> length a = 16 \<and> a ! 0 = 0xFF \<and> a ! 1 AND 0x0F = 1"

definition is_link_local_multicast :: "ip \<Rightarrow> bool" where
  "is_link_local_multicast a = (case to4 a of
      Some b \<Rightarrow> b ! 0 = 224 \<and> b ! 1 = 0 \<and> b ! 2 = 0
    | None \<Rightarrow> length a = 16 \<and> a ! 0 = 0xFF \<and> a ! 1 AND 0x0F = 2)"

definition is_link_local_unicast :: "ip \<Rightarrow> bool" where
  "is_link_local_unicast a = (case to4 a of
      Some b \<Rightarrow> b ! 0 = 169 \<and> b ! 1 = 254
    | None \<Rightarrow> length a = 16 \<and> a ! 0 = 0xFE \<and> a ! 1 AND 0xC0 = 0x80)"

lemmas ip_defs = is_loopback_def is_private_def is_unspecified_def is_multicast_def
  is_interface_local_multicast_def is_link_local_multicast_def is_link_local_unicast_def

lemma to4_v4 [simp]: "length a = 4 \<Longrightarrow> to4 a = Some a"
  by (simp add: to4_def)

lemma to4_mapped [simp]: "length a = 4 \<Longrightarrow> to4 (v4_mapped_prefix @ a) = Some a"
  by (simp add: to4_def v4_mapped_prefix_def)

text \<open>
  An outbound guard: a check every address of an answer must pass before one of them is
  dialled, whatever the answer's order.
\<close>

locale address_guard =
  fixes refuse :: "ip \<Rightarrow> 'e option"
    and admit :: "ip list \<Rightarrow> 'e option"
  assumes admit_None: "admit ips = None \<longleftrightarrow> (\<forall>a \<in> set ips. refuse a = None)"
begin

lemma one_bad_refuses: "a \<in> set ips \<Longrightarrow> refuse a \<noteq> None \<Longrightarrow> admit ips \<noteq> None"
  by (simp add: admit_None) blast

lemma admit_subset: "set js \<subseteq> set ips \<Longrightarrow> admit ips = None \<Longrightarrow> admit js = None"
  by (auto simp: admit_None)

lemma order_irrelevant: "set js = set ips \<Longrightarrow> admit ips = None \<longleftrightarrow> admit js = None"
  by (auto simp: admit_None)

end

end
