(* ===== verification/Egress.thy ===== *)
theory Egress
  imports Net_IP
begin

text \<open>
  The egress allow-list of the gateway (\<open>apps/workers/internal/egress/egress.go\<close>): what a
  setting parses to, which hosts it permits, what \<open>Check\<close> refuses before anything is sent,
  and the dialer, which resolves a name once, checks every address of the answer and only
  then connects to one of those addresses.

  \<open>url.Parse\<close>, \<open>net.SplitHostPort\<close>, \<open>net.ParseIP\<close>, the resolver and the connection itself
  are arguments, so what is proved holds however a URL is read and whatever a name resolves to.
\<close>

record allow_list =
  al_hosts :: "string list"
  al_suffixes :: "string list"
  al_private :: bool

record url =
  url_scheme :: string
  url_hostname :: string

datatype egress_error =
    NotAUrl
  | BadScheme string
  | NoHost
  | HostNotAllowed string
  | Unresolved string
  | ResolvedToNothing string
  | LinkLocal ip
  | Multicast ip
  | Loopback ip
  | Private ip
  | Unspecified ip

definition parse_entry :: "(string \<Rightarrow> string) \<Rightarrow> string \<Rightarrow> allow_list \<Rightarrow> allow_list" where
  "parse_entry uni raw l =
     (let entry = to_lower uni (trim_space raw) in
      if entry = [] then l
      else if has_prefix entry ''.'' then l\<lparr>al_suffixes := al_suffixes l @ [entry]\<rparr>
      else l\<lparr>al_hosts := al_hosts l @ [entry]\<rparr>)"

definition parse_allow :: "(string \<Rightarrow> string) \<Rightarrow> string \<Rightarrow> bool \<Rightarrow> allow_list" where
  "parse_allow uni setting private =
     fold (parse_entry uni) (split_on CHR '','' setting)
       \<lparr>al_hosts = [], al_suffixes = [], al_private = private\<rparr>"

definition al_empty :: "allow_list \<Rightarrow> bool" where
  "al_empty a \<longleftrightarrow> al_hosts a = [] \<and> al_suffixes a = []"

definition permits :: "(string \<Rightarrow> string) \<Rightarrow> allow_list \<Rightarrow> string \<Rightarrow> bool" where
  "permits uni a host =
     (let h = to_lower uni (trim_space host) in
      h \<noteq> [] \<and> (h \<in> set (al_hosts a) \<or> list_ex (has_suffix h) (al_suffixes a)))"

definition check_endpoint ::
  "(string \<Rightarrow> string) \<Rightarrow> (string \<Rightarrow> url option) \<Rightarrow> allow_list \<Rightarrow> string \<Rightarrow> egress_error option" where
  "check_endpoint uni parse_url a endpoint =
     (case parse_url (trim_space endpoint) of
        None \<Rightarrow> Some NotAUrl
      | Some u \<Rightarrow>
          if url_scheme u \<noteq> ''http'' \<and> url_scheme u \<noteq> ''https'' then Some (BadScheme (url_scheme u))
          else if url_hostname u = [] then Some NoHost
          else if \<not> permits uni a (url_hostname u) then Some (HostNotAllowed (url_hostname u))
          else None)"

section \<open>The dialer\<close>

definition check_address :: "allow_list \<Rightarrow> ip \<Rightarrow> egress_error option" where
  "check_address a addr =
     (if is_link_local_unicast addr \<or> is_link_local_multicast addr then Some (LinkLocal addr)
      else if is_interface_local_multicast addr \<or> is_multicast addr then Some (Multicast addr)
      else if al_private a then None
      else if is_loopback addr then Some (Loopback addr)
      else if is_private addr then Some (Private addr)
      else if is_unspecified addr then Some (Unspecified addr)
      else None)"

definition resolve_host ::
  "(string \<Rightarrow> ip option) \<Rightarrow> (string \<Rightarrow> ip list option) \<Rightarrow> string \<Rightarrow> egress_error + ip list" where
  "resolve_host parse_ip resolve host =
     (case parse_ip host of
        Some addr \<Rightarrow> Inr [addr]
      | None \<Rightarrow> (case resolve host of
            None \<Rightarrow> Inl (Unresolved host)
          | Some [] \<Rightarrow> Inl (ResolvedToNothing host)
          | Some addrs \<Rightarrow> Inr addrs))"

text \<open>The addresses a dial connects to, in order, and the one that answered.\<close>

fun try_connect :: "(ip \<Rightarrow> bool) \<Rightarrow> ip list \<Rightarrow> ip list \<times> ip option" where
  "try_connect connects [] = ([], None)"
| "try_connect connects (addr # addrs) =
     (if connects addr then ([addr], Some addr)
      else (let (tried, conn) = try_connect connects addrs in (addr # tried, conn)))"

datatype dial_error = Refused egress_error | ConnectFailed

definition dial ::
  "(string \<Rightarrow> string) \<Rightarrow> (string \<Rightarrow> (string \<times> string) option) \<Rightarrow> (string \<Rightarrow> ip option) \<Rightarrow>
   (string \<Rightarrow> ip list option) \<Rightarrow> (ip \<Rightarrow> string \<Rightarrow> bool) \<Rightarrow> allow_list \<Rightarrow> string \<Rightarrow>
   ip list \<times> (dial_error + ip)" where
  "dial uni split_host_port parse_ip resolve connects a address =
     (case split_host_port address of
        None \<Rightarrow> ([], Inl (Refused (HostNotAllowed address)))
      | Some (host, port) \<Rightarrow>
          if \<not> permits uni a host then ([], Inl (Refused (HostNotAllowed host)))
          else (case resolve_host parse_ip resolve host of
              Inl e \<Rightarrow> ([], Inl (Refused e))
            | Inr addrs \<Rightarrow>
                (case first_error (check_address a) addrs of
                   Some e \<Rightarrow> ([], Inl (Refused e))
                 | None \<Rightarrow>
                     (let (tried, conn) = try_connect (\<lambda>addr. connects addr port) addrs in
                      (tried, case conn of Some addr \<Rightarrow> Inr addr | None \<Rightarrow> Inl ConnectFailed)))))"

interpretation egress_guard: address_guard "check_address a" "first_error (check_address a)"
  for a
  by unfold_locales (rule first_error_None)

section \<open>What is permitted\<close>

lemma fold_parse_entry:
  "fold (parse_entry uni) raws l =
     l\<lparr>al_hosts := al_hosts l @ filter (\<lambda>e. e \<noteq> [] \<and> \<not> has_prefix e ''.'') (map (to_lower uni \<circ> trim_space) raws),
       al_suffixes := al_suffixes l @ filter (\<lambda>e. e \<noteq> [] \<and> has_prefix e ''.'') (map (to_lower uni \<circ> trim_space) raws)\<rparr>"
proof (induction raws arbitrary: l)
  case Nil
  then show ?case by simp
next
  case (Cons r raws)
  have "\<not> has_prefix [] ''.''" by (simp add: has_prefix_def)
  with Cons show ?case by (simp add: parse_entry_def Let_def)
qed

definition entries :: "(string \<Rightarrow> string) \<Rightarrow> string \<Rightarrow> string list" where
  "entries uni setting = filter (\<lambda>e. e \<noteq> []) (map (to_lower uni \<circ> trim_space) (split_on CHR '','' setting))"

lemma parse_allow_fields:
  "al_hosts (parse_allow uni setting pr) = filter (\<lambda>e. \<not> has_prefix e ''.'') (entries uni setting)"
  "al_suffixes (parse_allow uni setting pr) = filter (\<lambda>e. has_prefix e ''.'') (entries uni setting)"
  "al_private (parse_allow uni setting pr) = pr"
  by (simp_all add: parse_allow_def fold_parse_entry entries_def conj_commute)

lemma suffix_not_bare:
  "has_prefix e ''.'' \<Longrightarrow> h = tl e \<Longrightarrow> \<not> has_suffix h e"
  by (cases e) (auto simp: has_suffix_def has_prefix_def)

lemma try_connect_tried: "set (fst (try_connect c addrs)) \<subseteq> set addrs"
  by (induction addrs) (auto simp: case_prod_beta Let_def)

lemma try_connect_conn:
  "snd (try_connect c addrs) = Some x \<Longrightarrow> x \<in> set (fst (try_connect c addrs)) \<and> c x"
  by (induction addrs) (auto simp: case_prod_beta Let_def split: if_splits)

lemma resolve_host_not_Nil: "resolve_host pi rs host = Inr addrs \<Longrightarrow> addrs \<noteq> []"
  by (auto simp: resolve_host_def split: option.splits list.splits)

lemma check_address_no_link_local:
  "check_address a addr = None \<Longrightarrow> \<not> is_link_local_unicast addr \<and> \<not> is_link_local_multicast addr \<and> \<not> is_multicast addr"
  by (auto simp: check_address_def split: if_splits)

lemma check_address_hosted:
  "\<not> al_private a \<Longrightarrow> check_address a addr = None \<Longrightarrow>
     \<not> is_loopback addr \<and> \<not> is_private addr \<and> \<not> is_unspecified addr"
  by (auto simp: check_address_def split: if_splits)

lemma dial_tried:
  assumes "addr \<in> set (fst (dial uni shp pi rs c a address))"
  obtains host port addrs where
    "shp address = Some (host, port)" "permits uni a host" "resolve_host pi rs host = Inr addrs"
    "addr \<in> set addrs" "\<forall>b \<in> set addrs. check_address a b = None"
proof -
  from assms obtain host port where hp: "shp address = Some (host, port)" "permits uni a host"
    by (auto simp: dial_def split: option.splits if_splits)
  with assms obtain addrs where rs: "resolve_host pi rs host = Inr addrs"
    by (auto simp: dial_def split: sum.splits)
  with hp assms have ok: "first_error (check_address a) addrs = None"
    by (auto simp: dial_def split: option.splits)
  with hp rs assms have "addr \<in> set (fst (try_connect (\<lambda>b. c b port) addrs))"
    by (simp add: dial_def case_prod_beta Let_def)
  then have "addr \<in> set addrs" using try_connect_tried by blast
  with hp rs ok show thesis by (intro that) (simp_all add: first_error_None)
qed

section \<open>Claims\<close>

text \<open>
  C27: The dialer touches no address it should not: every address it connects to came from the one
  answer for a permitted host, every address of that answer passed the check, none is
  link-local or multicast even where private destinations are allowed, and where they are not
  none is loopback, private or unspecified.
\<close>

theorem dial_only_checked_addresses:
  assumes "addr \<in> set (fst (dial uni shp pi rs c a address))"
  shows "(\<exists>host port addrs. shp address = Some (host, port) \<and> permits uni a host
      \<and> resolve_host pi rs host = Inr addrs \<and> addr \<in> set addrs
      \<and> first_error (check_address a) addrs = None)
    \<and> \<not> is_link_local_unicast addr \<and> \<not> is_link_local_multicast addr \<and> \<not> is_multicast addr
    \<and> (al_private a \<or> \<not> (is_loopback addr \<or> is_private addr \<or> is_unspecified addr))"
proof -
  obtain host port addrs where d: "shp address = Some (host, port)" "permits uni a host"
    "resolve_host pi rs host = Inr addrs" "addr \<in> set addrs" "\<forall>b \<in> set addrs. check_address a b = None"
    using dial_tried [OF assms] by blast
  then have "check_address a addr = None" "first_error (check_address a) addrs = None"
    by (simp_all add: egress_guard.admit_None)
  with d show ?thesis
    using check_address_no_link_local [of a addr] check_address_hosted [of a addr] by blast
qed

definition example_allow :: allow_list where
  "example_allow = parse_allow id ''mcp.example.com, .example.org'' False"

theorem dial_only_checked_addresses_witness:
  "fst (dial id (\<lambda>_. Some (''mcp.example.com'', ''443'')) (\<lambda>_. None)
     (\<lambda>_. Some [[93, 184, 216, 34]]) (\<lambda>_ _. True) example_allow ''mcp.example.com:443'') = [[93, 184, 216, 34]]
   \<and> \<not> is_private [93, 184, 216, 34]"
proof -
  let ?d = "dial id (\<lambda>_. Some (''mcp.example.com'', ''443'')) (\<lambda>_. None)
     (\<lambda>_. Some [[93, 184, 216, 34]]) (\<lambda>_ _. True) example_allow ''mcp.example.com:443''"
  have t: "fst ?d = [[93, 184, 216, 34]]" by code_simp
  have p: "\<not> al_private example_allow" by (simp add: example_allow_def parse_allow_fields)
  have "[93, 184, 216, 34] \<in> set (fst ?d)" unfolding t by simp
  from dial_only_checked_addresses [OF this] p t show ?thesis by blast
qed

text \<open>
  An allow-list permits a host exactly when the setting names it, or names a suffix with a
  leading dot that the host ends in; a suffix never permits the bare domain, and a setting of
  blanks and commas permits nothing.
\<close>

theorem permits_exactly_the_setting:
  "permits uni (parse_allow uni setting pr) host \<longleftrightarrow>
     (let h = to_lower uni (trim_space host) in
      h \<noteq> [] \<and> (\<exists>e \<in> set (entries uni setting).
        if has_prefix e ''.'' then has_suffix h e \<and> h \<noteq> tl e else h = e))"
proof -
  have "(\<exists>e \<in> set (entries uni setting). if has_prefix e ''.'' then has_suffix h e \<and> h \<noteq> tl e else h = e)
      \<longleftrightarrow> h \<in> set (al_hosts (parse_allow uni setting pr))
        \<or> list_ex (has_suffix h) (al_suffixes (parse_allow uni setting pr))" for h
    using suffix_not_bare [of _ h] by (auto simp: parse_allow_fields list_ex_iff)
  then show ?thesis by (simp add: permits_def Let_def)
qed

end
