(* ===== verification/Keyring.thy ===== *)
theory Keyring
  imports Go_Encoding "HOL-Library.AList"
begin

text \<open>
  The sealing of a customer's third-party credential (\<open>internal/secrets/secrets.go\<close>): the keys a
  deployment is configured with, sealing with the primary one and opening with whichever key a
  row names.

  AES-256-GCM is a record of two functions of the key, the nonce, the text and the associated
  data; \<open>gcm_ok\<close> states what its documentation promises of them.  A key is its 32 bytes.
\<close>

section \<open>Reading a key\<close>

datatype ring_key_error = NoColon | EmptyKeyId | NotBase64 | KeyLength nat

text \<open>\<open>base64.StdEncoding\<close> and \<open>base64.RawStdEncoding\<close>, by the URL alphabet.\<close>

definition std_byte :: "char \<Rightarrow> char" where
  "std_byte c = (if c = CHR ''+'' then CHR ''-'' else if c = CHR ''/'' then CHR ''_''
     else if c = CHR ''-'' \<or> c = CHR ''_'' then CHR ''!'' else c)"

definition raw_std_decode :: "string \<Rightarrow> string option" where
  "raw_std_decode s = b64_decode (map std_byte s)"

definition std_decode :: "string \<Rightarrow> string option" where
  "std_decode s =
     (let t = filter (\<lambda>c. c \<noteq> CHR 0x0A \<and> c \<noteq> CHR 0x0D) s;
          body = takeWhile (\<lambda>c. c \<noteq> CHR ''='') t; pad = dropWhile (\<lambda>c. c \<noteq> CHR ''='') t
      in if pad = replicate ((4 - length body mod 4) mod 4) CHR ''='' then raw_std_decode body else None)"

definition decode_key :: "string \<Rightarrow> string option" where
  "decode_key encoded = (case std_decode encoded of Some key \<Rightarrow> Some key | None \<Rightarrow> raw_std_decode encoded)"

definition parse_ring_key :: "string \<Rightarrow> ring_key_error + string \<times> string" where
  "parse_ring_key entry =
     (case cut (trim_space entry) '':'' of (before, after, found) \<Rightarrow>
        if \<not> found then Inl NoColon
        else if trim_space before = '''' then Inl EmptyKeyId
        else (case decode_key (trim_space after) of
            None \<Rightarrow> Inl NotBase64
          | Some key \<Rightarrow> if length key \<noteq> 32 then Inl (KeyLength (length key))
                        else Inr (trim_space before, key)))"

section \<open>The keys of a deployment\<close>

record keyring =
  rg_primary :: string
  rg_keys :: "(string \<times> string) list"

datatype ring_error = BadPrimary ring_key_error | BadRetired ring_key_error | ListedTwice string

fun add_retired :: "string list \<Rightarrow> keyring \<Rightarrow> ring_error + keyring" where
  "add_retired [] ring = Inr ring"
| "add_retired (entry # entries) ring =
     (if trim_space entry = '''' then add_retired entries ring
      else (case parse_ring_key entry of
          Inl e \<Rightarrow> Inl (BadRetired e)
        | Inr (kid, key) \<Rightarrow>
            if kid = rg_primary ring then Inl (ListedTwice kid)
            else add_retired entries (ring\<lparr>rg_keys := AList.update kid key (rg_keys ring)\<rparr>)))"

definition new_keyring :: "string \<Rightarrow> string list \<Rightarrow> ring_error + keyring" where
  "new_keyring primary retired =
     (if trim_space primary = '''' then Inr \<lparr>rg_primary = '''', rg_keys = []\<rparr>
      else (case parse_ring_key primary of
          Inl e \<Rightarrow> Inl (BadPrimary e)
        | Inr (kid, key) \<Rightarrow> add_retired retired \<lparr>rg_primary = kid, rg_keys = [(kid, key)]\<rparr>))"

definition ring_configured :: "keyring \<Rightarrow> bool" where
  "ring_configured ring \<longleftrightarrow> rg_primary ring \<noteq> ''''"

section \<open>Sealing and opening\<close>

record gcm =
  gcm_seal :: "string \<Rightarrow> string \<Rightarrow> string \<Rightarrow> string \<Rightarrow> string"
  gcm_open :: "string \<Rightarrow> string \<Rightarrow> string \<Rightarrow> string \<Rightarrow> string option"

definition nonce_size :: nat where "nonce_size = 12"

datatype secret_error = NoSealingKey | CannotOpen

text \<open>\<open>Seal\<close>: the random nonce is an argument.\<close>

definition seal_credential :: "gcm \<Rightarrow> keyring \<Rightarrow> string \<Rightarrow> string \<Rightarrow> string \<Rightarrow> secret_error + string \<times> string" where
  "seal_credential G ring nonce plaintext associated =
     (if \<not> ring_configured ring then Inl NoSealingKey
      else (case map_of (rg_keys ring) (rg_primary ring) of
          None \<Rightarrow> Inl NoSealingKey
        | Some key \<Rightarrow> Inr (nonce @ gcm_seal G key nonce plaintext associated, rg_primary ring)))"

definition open_credential :: "gcm \<Rightarrow> keyring \<Rightarrow> string \<Rightarrow> string \<Rightarrow> string \<Rightarrow> secret_error + string" where
  "open_credential G ring sealed kid associated =
     (if rg_keys ring = [] then Inl NoSealingKey
      else (case map_of (rg_keys ring) kid of
          None \<Rightarrow> Inl CannotOpen
        | Some key \<Rightarrow>
            if length sealed < nonce_size then Inl CannotOpen
            else (case gcm_open G key (take nonce_size sealed) (drop nonce_size sealed) associated of
                None \<Rightarrow> Inl CannotOpen | Some plaintext \<Rightarrow> Inr plaintext)))"

text \<open>What the cipher's documentation promises: it opens what it sealed, and nothing under other data.\<close>

definition gcm_ok :: "gcm \<Rightarrow> bool" where
  "gcm_ok G \<longleftrightarrow> (\<forall>key nonce p a. gcm_open G key nonce (gcm_seal G key nonce p a) a = Some p)
     \<and> (\<forall>key nonce p a b. a \<noteq> b \<longrightarrow> gcm_open G key nonce (gcm_seal G key nonce p a) b = None)"

section \<open>Which key a row's id names\<close>

definition entry_id :: "string \<Rightarrow> string option" where
  "entry_id entry = (case parse_ring_key entry of Inl _ \<Rightarrow> None | Inr (kid, _) \<Rightarrow> Some kid)"

lemma add_retired_primary: "add_retired es ring = Inr ring' \<Longrightarrow> rg_primary ring' = rg_primary ring"
  by (induction es ring rule: add_retired.induct) (auto split: if_splits sum.splits)

lemma add_retired_keeps:
  assumes "add_retired es ring = Inr ring'" and "\<forall>e \<in> set es. entry_id e \<noteq> Some kid"
  shows "map_of (rg_keys ring') kid = map_of (rg_keys ring) kid"
  using assms
proof (induction es ring rule: add_retired.induct)
  case (1 ring)
  then show ?case by simp
next
  case (2 e es ring)
  show ?case
  proof (cases "trim_space e = ''''")
    case True
    with 2 show ?thesis by simp
  next
    case False
    with 2 obtain k key where pk: "parse_ring_key e = Inr (k, key)" "k \<noteq> rg_primary ring"
      and rest: "add_retired es (ring\<lparr>rg_keys := AList.update k key (rg_keys ring)\<rparr>) = Inr ring'"
      by (auto split: sum.splits if_splits)
    from 2 pk have "k \<noteq> kid" by (auto simp: entry_id_def)
    with 2(2) [OF False pk(1) refl pk(2) rest] 2 show ?thesis by (simp add: update_conv')
  qed
qed

text \<open>Entries before and after one that is parsed: its key is what the id names, unless a later entry has the id.\<close>

lemma add_retired_append:
  "add_retired (xs @ ys) ring =
     (case add_retired xs ring of Inl e \<Rightarrow> Inl e | Inr ring1 \<Rightarrow> add_retired ys ring1)"
  by (induction xs ring rule: add_retired.induct) (auto split: sum.splits)

lemma blank_entry [simp]: "trim_space e = '''' \<Longrightarrow> parse_ring_key e = Inl NoColon"
  by (simp add: parse_ring_key_def cut_def)

lemma retired_key:
  assumes ring: "new_keyring primary (xs @ e # ys) = Inr ring"
    and primary: "trim_space primary \<noteq> ''''"
    and e: "parse_ring_key e = Inr (kid, key)" and later: "\<forall>y \<in> set ys. entry_id y \<noteq> Some kid"
  shows "map_of (rg_keys ring) kid = Some key"
proof -
  have blank: "trim_space e \<noteq> ''''" using e blank_entry by fastforce
  from ring primary obtain k0 key0 where "parse_ring_key primary = Inr (k0, key0)"
    "add_retired (xs @ e # ys) \<lparr>rg_primary = k0, rg_keys = [(k0, key0)]\<rparr> = Inr ring"
    by (auto simp: new_keyring_def split: sum.splits)
  then obtain r1 where "add_retired (e # ys) r1 = Inr ring" by (auto simp: add_retired_append split: sum.splits)
  with e blank have "add_retired ys (r1\<lparr>rg_keys := AList.update kid key (rg_keys r1)\<rparr>) = Inr ring"
    by (auto split: if_splits)
  from add_retired_keeps [OF this later] show ?thesis by (simp add: update_conv')
qed

lemma primary_key:
  assumes "new_keyring primary retired = Inr ring" and "parse_ring_key primary = Inr (kid, key)"
  shows "rg_primary ring = kid \<and> map_of (rg_keys ring) kid = Some key"
proof -
  have "trim_space primary \<noteq> ''''" using assms(2) blank_entry by fastforce
  with assms have add: "add_retired retired \<lparr>rg_primary = kid, rg_keys = [(kid, key)]\<rparr> = Inr ring"
    by (simp add: new_keyring_def)
  have "map_of (rg_keys ring') (rg_primary ring') = map_of (rg_keys r) (rg_primary r)"
    if "add_retired es r = Inr ring'" for es r ring'
    using that by (induction es r rule: add_retired.induct) (auto simp: update_conv' split: if_splits sum.splits)
  from this [OF add] add_retired_primary [OF add] show ?thesis by simp
qed

text \<open>
  C14: a credential sealed under the primary key opens, for its own connection and no other, under
  every later configuration that lists that key as retired, as long as no later retired entry
  reuses its id.
\<close>

theorem rotated_key_still_opens:
  assumes G: "gcm_ok G" and nonce: "length nonce = nonce_size"
    and old: "new_keyring e retired = Inr ring"
    and sealed: "seal_credential G ring nonce plaintext connection = Inr (sealed, kid)"
    and new: "new_keyring primary (xs @ e # ys) = Inr ring'" and primary: "trim_space primary \<noteq> ''''"
    and later: "\<forall>y \<in> set ys. entry_id y \<noteq> Some kid"
  shows "open_credential G ring' sealed kid connection = Inr plaintext
    \<and> (\<forall>other. other \<noteq> connection \<longrightarrow> open_credential G ring' sealed kid other = Inl CannotOpen)"
proof -
  from sealed have conf: "rg_primary ring \<noteq> ''''" by (auto simp: seal_credential_def ring_configured_def split: if_splits)
  have "trim_space e \<noteq> ''''"
    using old conf by (auto simp: new_keyring_def)
  with old obtain k key where pk: "parse_ring_key e = Inr (k, key)"
    by (auto simp: new_keyring_def split: sum.splits)
  from primary_key [OF old pk] sealed conf have kid: "kid = k"
    and sealed_is: "sealed = nonce @ gcm_seal G key nonce plaintext connection"
    by (auto simp: seal_credential_def ring_configured_def)
  from retired_key [OF new primary pk] later kid have key: "map_of (rg_keys ring') kid = Some key" by simp
  then have "rg_keys ring' \<noteq> []" by auto
  with key nonce G show ?thesis by (simp add: open_credential_def sealed_is gcm_ok_def)
qed

section \<open>An instance of the cipher, and two deployments\<close>

text \<open>A stand-in with the promised behaviour: the associated data, written so that none is a prefix of another.\<close>

definition marked :: "string \<Rightarrow> string" where
  "marked a = replicate (length a) CHR 0x01 @ CHR 0x00 # a"

definition stand_in :: gcm where
  "stand_in = \<lparr>gcm_seal = \<lambda>key nonce p a. marked key @ marked a @ p,
     gcm_open = \<lambda>key nonce c a. if has_prefix c (marked key @ marked a)
       then Some (drop (length (marked key @ marked a)) c) else None\<rparr>"

lemma replicate_stops:
  "replicate n (x :: char) @ y # s = replicate m x @ y # t \<Longrightarrow> x \<noteq> y \<Longrightarrow> n = m \<and> s = t"
proof (induction n arbitrary: m)
  case 0
  then show ?case by (cases m) auto
next
  case (Suc n)
  then show ?case by (cases m) auto
qed

lemma marked_prefix: "marked a @ p = marked b @ r \<Longrightarrow> a = b"
proof -
  assume "marked a @ p = marked b @ r"
  then have "replicate (length a) CHR 0x01 @ CHR 0x00 # (a @ p) = replicate (length b) CHR 0x01 @ CHR 0x00 # (b @ r)"
    by (simp add: marked_def)
  from replicate_stops [OF this] have "length a = length b" "a @ p = b @ r" by simp_all
  then show "a = b" by auto
qed

lemma stand_in_ok: "gcm_ok stand_in"
proof -
  have "has_prefix (marked k @ marked a @ p) (marked k @ marked b) \<Longrightarrow> a = b" for a b k p
    using marked_prefix by (auto simp: has_prefix_iff)
  moreover have "has_prefix (marked k @ marked a @ p) (marked k @ marked a)" for k a p
    by (auto simp: has_prefix_iff)
  ultimately show ?thesis unfolding gcm_ok_def stand_in_def by auto
qed

lemma stand_in_other_key:
  "k \<noteq> k2 \<Longrightarrow> gcm_open stand_in k2 nonce (gcm_seal stand_in k nonce p a) a = None"
  using marked_prefix by (fastforce simp: stand_in_def has_prefix_iff)

definition key_a :: string where "key_a = ''a:'' @ replicate 43 CHR ''A'' @ ''=''"
definition key_a2 :: string where "key_a2 = ''a:'' @ replicate 42 CHR ''A'' @ ''E=''"
definition key_b :: string where "key_b = ''b:'' @ replicate 43 CHR ''A'' @ ''=''"

lemma example_keys:
  "parse_ring_key key_a = Inr (''a'', replicate 32 CHR 0x00)"
  "parse_ring_key key_a2 = Inr (''a'', replicate 31 CHR 0x00 @ [CHR 0x01])"
  "parse_ring_key key_b = Inr (''b'', replicate 32 CHR 0x00)"
  by code_simp+

lemma ring_trim: "trim_space key_a \<noteq> ''''" "trim_space key_b \<noteq> ''''" "trim_space key_a2 \<noteq> ''''"
  using blank_entry [of key_a] blank_entry [of key_b] blank_entry [of key_a2] by (auto simp: example_keys)

theorem rotated_key_still_opens_witness:
  "\<exists>ring'. new_keyring key_b ([] @ key_a # []) = Inr ring'
     \<and> open_credential stand_in ring' (replicate 12 CHR ''n'' @ gcm_seal stand_in (replicate 32 CHR 0x00)
           (replicate 12 CHR ''n'') ''token'' ''c1'') ''a'' ''c1'' = Inr ''token''"
proof -
  let ?n = "replicate 12 CHR ''n''"
  obtain ring' where r: "new_keyring key_b ([] @ key_a # []) = Inr ring'"
    by (simp add: new_keyring_def example_keys ring_trim)
  have "new_keyring key_a [] = Inr \<lparr>rg_primary = ''a'', rg_keys = [(''a'', replicate 32 CHR 0x00)]\<rparr>"
    by (simp add: new_keyring_def example_keys ring_trim)
  from rotated_key_still_opens [OF stand_in_ok _ this _ r ring_trim(2), of ?n "''token''" "''c1''"] r
  show ?thesis by (simp add: nonce_size_def seal_credential_def ring_configured_def)
qed

text \<open>
  two retired entries may carry one id, and then the configuration is accepted and a credential
  sealed under the first of them no longer opens, although its key is listed.
\<close>

theorem retired_twice_loses_the_first:
  assumes ring: "new_keyring primary (xs @ e # ys @ e2 # zs) = Inr ring" and primary: "trim_space primary \<noteq> ''''"
    and e: "parse_ring_key e = Inr (kid, key)" and e2: "parse_ring_key e2 = Inr (kid, key2)"
    and later: "\<forall>z \<in> set zs. entry_id z \<noteq> Some kid"
    and wrong: "gcm_open G key2 nonce (gcm_seal G key nonce plaintext connection) connection = None"
    and nonce: "length nonce = nonce_size"
  shows "open_credential G ring (nonce @ gcm_seal G key nonce plaintext connection) kid connection = Inl CannotOpen"
proof -
  have "new_keyring primary ((xs @ e # ys) @ e2 # zs) = Inr ring" using ring by simp
  from retired_key [OF this primary e2 later] have key: "map_of (rg_keys ring) kid = Some key2" .
  then have "rg_keys ring \<noteq> []" by auto
  with key nonce wrong show ?thesis by (simp add: open_credential_def)
qed

theorem retired_twice_loses_the_first_witness:
  "\<exists>ring. new_keyring key_b ([] @ key_a # [] @ key_a2 # []) = Inr ring
     \<and> open_credential stand_in ring (replicate 12 CHR ''n'' @ gcm_seal stand_in (replicate 32 CHR 0x00)
           (replicate 12 CHR ''n'') ''token'' ''c1'') ''a'' ''c1'' = Inl CannotOpen"
proof -
  obtain ring where r: "new_keyring key_b ([] @ key_a # [] @ key_a2 # []) = Inr ring"
    by (simp add: new_keyring_def example_keys ring_trim)
  have diff: "replicate 32 CHR 0x00 \<noteq> replicate 31 CHR 0x00 @ [CHR 0x01]" by code_simp
  from retired_twice_loses_the_first [OF r ring_trim(2) example_keys(1) example_keys(2) _
      stand_in_other_key [OF diff], of "replicate 12 CHR ''n''" "''token''" "''c1''"] r
  show ?thesis by (simp add: nonce_size_def)
qed

end
