(* ===== verification/Integrations.thy ===== *)
theory Integrations
  imports Org_Access Egress Keyring
begin

text \<open>
  Connections to a customer's systems (\<open>internal/domain/integrations\<close>,
  \<open>store/postgres/integrations.go\<close> and the handlers of \<open>service/integrations\<close> that connect, grant,
  revoke and list), over the tables of migration 00025 with their checks, unique constraints and
  row-level policies.

  A Go slice that may be nil is an option: what the driver sends for it, the casts the database
  has, and its readings of an identifier and of JSON are the record \<open>integ_env\<close>.  Ids the
  database or the service mints are arguments.
\<close>

section \<open>The domain\<close>

definition KindMCP :: string where "KindMCP = ''mcp''"
definition StatusActive :: string where "StatusActive = ''active''"
definition StatusRevoked :: string where "StatusRevoked = ''revoked''"
definition OutcomeSucceeded :: string where "OutcomeSucceeded = ''succeeded''"
definition OutcomeRefused :: string where "OutcomeRefused = ''refused''"
definition OutcomeFailed :: string where "OutcomeFailed = ''failed''"

record itool =
  it_name :: string
  it_desc :: string
  it_writes :: bool
  it_granted :: bool

record connection =
  cn_id :: string
  cn_kind :: string
  cn_name :: string
  cn_endpoint :: string
  cn_status :: string
  cn_created :: instant
  cn_revoked :: "instant option"
  cn_tools :: "itool list"
  cn_consented_at :: "instant option"
  cn_consented_by :: string

record fetch =
  ft_id :: string
  ft_conn :: string
  ft_conn_name :: string
  ft_tool :: string
  ft_outcome :: string
  ft_detail :: string
  ft_requested :: instant
  ft_finished :: instant
  ft_evidence :: string
  ft_redactions :: int
  ft_by :: string

datatype invalid_why = NoAddress | AddressNotUrl | AddressScheme | AddressNoHost | NameMissing | NameTooLong
  | NotOffered string | ToolNameless | NothingOffered | WrongKind

datatype integ_fault = NoConnection | ConnRevoked | InvalidConn invalid_why | StoreBroken | NoKeyToSeal

definition validate_endpoint :: "(string \<Rightarrow> url option) \<Rightarrow> string \<Rightarrow> invalid_why option" where
  "validate_endpoint parse endpoint =
     (if trim_space endpoint = '''' then Some NoAddress
      else (case parse (trim_space endpoint) of
          None \<Rightarrow> Some AddressNotUrl
        | Some u \<Rightarrow>
            if url_scheme u \<noteq> ''http'' \<and> url_scheme u \<noteq> ''https'' then Some AddressScheme
            else if url_hostname u = '''' then Some AddressNoHost
            else None))"

definition validate_display_name :: "string \<Rightarrow> invalid_why option" where
  "validate_display_name name =
     (if trim_space name = '''' then Some NameMissing
      else if length (trim_space name) > 120 then Some NameTooLong
      else None)"

definition wanted_names :: "string list \<Rightarrow> string list" where
  "wanted_names granted = filter (\<lambda>n. n \<noteq> '''') (map trim_space granted)"

definition resolve_grants :: "itool list \<Rightarrow> string list \<Rightarrow> invalid_why + itool list" where
  "resolve_grants offered granted =
     (case find (\<lambda>n. n \<notin> it_name ` set offered) (wanted_names granted) of
        Some n \<Rightarrow> Inl (NotOffered n)
      | None \<Rightarrow> Inr (map (\<lambda>t. t\<lparr>it_granted := it_name t \<in> set (wanted_names granted)\<rparr>) offered))"

text \<open>A slice built by appending to a nil one: nil when nothing was appended.\<close>

definition appended :: "'a list \<Rightarrow> 'a list option" where
  "appended xs = (if xs = [] then None else Some xs)"

definition items :: "'a list option \<Rightarrow> 'a list" where
  "items s = (case s of None \<Rightarrow> [] | Some xs \<Rightarrow> xs)"

definition write_grants :: "itool list \<Rightarrow> string list option" where
  "write_grants tools = appended (map it_name (filter (\<lambda>t. it_granted t \<and> it_writes t) tools))"

definition granted_names :: "itool list \<Rightarrow> string list option" where
  "granted_names tools = appended (map it_name (filter it_granted tools))"

definition find_tool :: "itool list \<Rightarrow> string \<Rightarrow> itool option" where
  "find_tool tools name = find (\<lambda>t. it_name t = name) tools"

lemma items_appended [simp]: "items (appended xs) = xs"
  by (simp add: items_def appended_def)

section \<open>The tables\<close>

record integration_row =
  in_id :: string
  in_org :: string
  in_kind :: string
  in_name :: string
  in_endpoint :: string
  in_sealed :: "(string \<times> string) option"
  in_status :: string
  in_created_by :: "string option"
  in_at :: instant
  in_revoked :: "(instant \<times> string option) option"

record tool_row =
  tr_org :: string
  tr_conn :: string
  tr_name :: string
  tr_desc :: string
  tr_writes :: bool
  tr_granted :: "(instant \<times> string option) option"

record consent_row =
  cs_org :: string
  cs_conn :: string
  cs_by :: string
  cs_at :: instant
  cs_endpoint :: string
  cs_offered :: "itool list"
  cs_granted :: "string list"

record fetch_row =
  fr_id :: string
  fr_org :: string
  fr_conn :: string
  fr_tool :: string
  fr_args :: string
  fr_requested :: instant
  fr_finished :: instant
  fr_outcome :: string
  fr_detail :: "string option"
  fr_evidence :: "string option"
  fr_redactions :: int
  fr_by :: "string option"

record evidence_row =
  ev_id :: string
  ev_org :: string
  ev_conn :: string
  ev_observed :: instant
  ev_fetched :: instant
  ev_kind :: string
  ev_body :: string
  ev_hash :: string
  ev_superseded :: bool

record ask_row =
  ak_id :: string
  ak_org :: string
  ak_conn :: string
  ak_tool :: string
  ak_reason :: string
  ak_at :: instant

record fetch_db =
  fd_integrations :: "integration_row list"
  fd_tools :: "tool_row list"
  fd_consents :: "consent_row list"
  fd_fetches :: "fetch_row list"
  fd_evidence :: "evidence_row list"
  fd_asks :: "ask_row list"

record integ_env =
  ie_pg :: pg_env
  ie_array :: "string list option \<Rightarrow> string list option"
  ie_cast :: "string \<Rightarrow> string \<Rightarrow> bool"
  ie_jsonb :: "string \<Rightarrow> bool"
  ie_json :: "string \<Rightarrow> bool"
  ie_collate :: "string \<Rightarrow> string"
  ie_url :: "string \<Rightarrow> url option"

definition not_blank :: "string \<Rightarrow> bool" where
  "not_blank s \<longleftrightarrow> list_ex (\<lambda>c. c \<noteq> CHR '' '') s"

text \<open>The row \<open>order by t desc limit 1\<close> answers; of rows with one instant, the one written last.\<close>

definition newest_row :: "('a \<Rightarrow> instant) \<Rightarrow> 'a list \<Rightarrow> 'a option" where
  "newest_row at xs = fold (\<lambda>x b. case b of None \<Rightarrow> Some x | Some y \<Rightarrow> if at y \<le> at x then Some x else b) xs None"

section \<open>Reading a connection\<close>

definition scan_tool :: "tool_row \<Rightarrow> itool" where
  "scan_tool r = \<lparr>it_name = tr_name r, it_desc = tr_desc r, it_writes = tr_writes r, it_granted = tr_granted r \<noteq> None\<rparr>"

definition tools_of :: "integ_env \<Rightarrow> access_db \<Rightarrow> tenant \<Rightarrow> string \<Rightarrow> fetch_db \<Rightarrow> itool list" where
  "tools_of V a t i db =
     map scan_tool (sort_key (\<lambda>r. ie_collate V (tr_name r))
       (filter (\<lambda>r. tr_conn r = i \<and> sees_org a t (tr_org r)) (fd_tools db)))"

definition latest_consent :: "access_db \<Rightarrow> tenant \<Rightarrow> string \<Rightarrow> fetch_db \<Rightarrow> consent_row option" where
  "latest_consent a t i db = newest_row cs_at (filter (\<lambda>c. cs_conn c = i \<and> sees_org a t (cs_org c)) (fd_consents db))"

definition scan_connection :: "integ_env \<Rightarrow> access_db \<Rightarrow> tenant \<Rightarrow> fetch_db \<Rightarrow> integration_row \<Rightarrow> connection" where
  "scan_connection V a t db r =
     \<lparr>cn_id = in_id r, cn_kind = in_kind r, cn_name = in_name r, cn_endpoint = in_endpoint r,
      cn_status = in_status r, cn_created = in_at r, cn_revoked = map_option fst (in_revoked r),
      cn_tools = tools_of V a t (in_id r) db,
      cn_consented_at = map_option cs_at (latest_consent a t (in_id r) db),
      cn_consented_by = (case latest_consent a t (in_id r) db of None \<Rightarrow> '''' | Some c \<Rightarrow> cs_by c)\<rparr>"

definition connections :: "integ_env \<Rightarrow> access_db \<Rightarrow> tenant \<Rightarrow> fetch_db \<Rightarrow> connection list" where
  "connections V a t db =
     map (scan_connection V a t db) (sort_key (\<lambda>r. - in_at r)
       (filter (\<lambda>r. sees_org a t (in_org r)) (fd_integrations db)))"

definition visible_row :: "integ_env \<Rightarrow> access_db \<Rightarrow> tenant \<Rightarrow> string \<Rightarrow> fetch_db \<Rightarrow> integ_fault + integration_row" where
  "visible_row V a t cid db =
     (case pg_uuid (ie_pg V) cid of
        None \<Rightarrow> Inl StoreBroken
      | Some i \<Rightarrow> (case find (\<lambda>r. in_id r = i \<and> sees_org a t (in_org r)) (fd_integrations db) of
            None \<Rightarrow> Inl NoConnection
          | Some r \<Rightarrow> Inr r))"

definition connection_read :: "integ_env \<Rightarrow> access_db \<Rightarrow> tenant \<Rightarrow> string \<Rightarrow> fetch_db \<Rightarrow> integ_fault + connection" where
  "connection_read V a t cid db = map_sum id (scan_connection V a t db) (visible_row V a t cid db)"

definition sealed_credential ::
  "integ_env \<Rightarrow> access_db \<Rightarrow> tenant \<Rightarrow> string \<Rightarrow> fetch_db \<Rightarrow> integ_fault + string \<times> (string \<times> string) option" where
  "sealed_credential V a t cid db =
     (case visible_row V a t cid db of
        Inl e \<Rightarrow> Inl e
      | Inr r \<Rightarrow> if in_status r \<noteq> StatusActive then Inl ConnRevoked else Inr (in_endpoint r, in_sealed r))"

section \<open>Creating, granting, revoking\<close>

text \<open>\<open>nullif($n, '')::uuid\<close>: null, an identifier, or a statement that fails.\<close>

definition by_column :: "integ_env \<Rightarrow> string \<Rightarrow> string option option" where
  "by_column V by = (if by = '''' then Some None else map_option Some (pg_uuid (ie_pg V) by))"

definition insert_tool :: "integ_env \<Rightarrow> tenant \<Rightarrow> string \<Rightarrow> string \<Rightarrow> itool \<Rightarrow> fetch_db \<Rightarrow> integ_fault + fetch_db" where
  "insert_tool V t i by tool db =
     (case by_column V by of
        None \<Rightarrow> Inl StoreBroken
      | Some who \<Rightarrow>
          if \<not> pg_text (ie_pg V) (it_name tool) \<or> \<not> pg_text (ie_pg V) (it_desc tool) then Inl StoreBroken
          else if \<not> not_blank (it_name tool) then Inl StoreBroken
          else if list_ex (\<lambda>r. tr_conn r = i \<and> tr_name r = it_name tool) (fd_tools db) then Inl StoreBroken
          else Inr (db\<lparr>fd_tools := fd_tools db
                 @ [\<lparr>tr_org = tn_org t, tr_conn = i, tr_name = it_name tool, tr_desc = it_desc tool,
                     tr_writes = it_writes tool, tr_granted = (if it_granted tool then Some (tn_now t, who) else None)\<rparr>]\<rparr>))"

definition record_consent ::
  "integ_env \<Rightarrow> tenant \<Rightarrow> string \<Rightarrow> string \<Rightarrow> itool list \<Rightarrow> string \<Rightarrow> fetch_db \<Rightarrow> integ_fault + fetch_db" where
  "record_consent V t i endpoint tools by db =
     (case (pg_uuid (ie_pg V) by, ie_array V (granted_names tools)) of
        (Some who, Some names) \<Rightarrow>
          Inr (db\<lparr>fd_consents := fd_consents db
             @ [\<lparr>cs_org = tn_org t, cs_conn = i, cs_by = who, cs_at = tn_now t, cs_endpoint = endpoint,
                 cs_offered = tools, cs_granted = names\<rparr>]\<rparr>)
      | _ \<Rightarrow> Inl StoreBroken)"

definition insert_integration ::
  "integ_env \<Rightarrow> access_db \<Rightarrow> tenant \<Rightarrow> string \<Rightarrow> string \<Rightarrow> string \<Rightarrow> string \<Rightarrow> (string \<times> string) option
     \<Rightarrow> string \<Rightarrow> fetch_db \<Rightarrow> integ_fault + fetch_db" where
  "insert_integration V a t i kind name endpoint sealed by db =
     (case by_column V by of
        None \<Rightarrow> Inl StoreBroken
      | Some who \<Rightarrow>
          if \<not> member_of a t then Inl StoreBroken
          else if \<not> pg_text (ie_pg V) name \<or> \<not> pg_text (ie_pg V) endpoint then Inl StoreBroken
          else if kind \<noteq> KindMCP \<or> \<not> not_blank name then Inl StoreBroken
          else if \<not> has_prefix endpoint ''http://'' \<and> \<not> has_prefix endpoint ''https://'' then Inl StoreBroken
          else if list_ex (\<lambda>r. in_id r = i \<or> in_org r = tn_org t \<and> in_name r = name) (fd_integrations db)
          then Inl StoreBroken
          else Inr (db\<lparr>fd_integrations := fd_integrations db
                 @ [\<lparr>in_id = i, in_org = tn_org t, in_kind = kind, in_name = name, in_endpoint = endpoint,
                     in_sealed = sealed, in_status = StatusActive, in_created_by = who, in_at = tn_now t,
                     in_revoked = None\<rparr>]\<rparr>))"

definition create_connection ::
  "integ_env \<Rightarrow> access_db \<Rightarrow> tenant \<Rightarrow> string \<Rightarrow> string \<Rightarrow> string \<Rightarrow> string \<Rightarrow> (string \<times> string) option
     \<Rightarrow> itool list \<Rightarrow> string \<Rightarrow> fetch_db \<Rightarrow> integ_fault + connection \<times> fetch_db" where
  "create_connection V a t i kind name endpoint sealed tools by db =
     (case insert_integration V a t i kind name endpoint sealed by db of
        Inl e \<Rightarrow> Inl e
      | Inr db1 \<Rightarrow> (case fold_res (insert_tool V t i by) tools db1 of
          Inl e \<Rightarrow> Inl e
        | Inr db2 \<Rightarrow> (case record_consent V t i endpoint tools by db2 of
            Inl e \<Rightarrow> Inl e
          | Inr db3 \<Rightarrow> map_sum id (\<lambda>c. (c, db3)) (connection_read V a t i db3))))"

definition set_grant :: "tenant \<Rightarrow> string \<Rightarrow> string option \<Rightarrow> itool \<Rightarrow> tool_row \<Rightarrow> tool_row" where
  "set_grant t i who tool r =
     (if tr_conn r = i \<and> tr_name r = it_name tool \<and> tr_org r = tn_org t
      then r\<lparr>tr_granted := (if it_granted tool then Some (tn_now t, who) else None)\<rparr> else r)"

definition set_grants ::
  "integ_env \<Rightarrow> access_db \<Rightarrow> tenant \<Rightarrow> string \<Rightarrow> string list \<Rightarrow> string \<Rightarrow> fetch_db \<Rightarrow> integ_fault + connection \<times> fetch_db" where
  "set_grants V a t cid granted by db =
     (case connection_read V a t cid db of
        Inl e \<Rightarrow> Inl e
      | Inr c \<Rightarrow>
          if cn_status c \<noteq> StatusActive then Inl ConnRevoked
          else (case resolve_grants (cn_tools c) granted of
              Inl why \<Rightarrow> Inl (InvalidConn why)
            | Inr resolved \<Rightarrow> (case by_column V by of
                None \<Rightarrow> Inl StoreBroken
              | Some who \<Rightarrow>
                  (case record_consent V t (cn_id c) (cn_endpoint c) resolved by
                      (db\<lparr>fd_tools := fold (\<lambda>tool. map (set_grant t (cn_id c) who tool)) resolved (fd_tools db)\<rparr>) of
                    Inl e \<Rightarrow> Inl e
                  | Inr db2 \<Rightarrow> map_sum id (\<lambda>c'. (c', db2)) (connection_read V a t cid db2)))))"

definition revoke_connection ::
  "integ_env \<Rightarrow> access_db \<Rightarrow> tenant \<Rightarrow> string \<Rightarrow> string \<Rightarrow> fetch_db \<Rightarrow> integ_fault + connection \<times> fetch_db" where
  "revoke_connection V a t cid by db =
     (case (pg_uuid (ie_pg V) cid, by_column V by) of
        (Some i, Some who) \<Rightarrow>
          (let db1 = db\<lparr>fd_integrations := map (\<lambda>r. if in_id r = i \<and> in_status r = StatusActive \<and> sees_org a t (in_org r)
                 then r\<lparr>in_status := StatusRevoked, in_revoked := Some (tn_now t, who)\<rparr> else r) (fd_integrations db)\<rparr>
           in map_sum id (\<lambda>c. (c, db1)) (connection_read V a t cid db1))
      | _ \<Rightarrow> Inl StoreBroken)"

section \<open>The fetch log\<close>

definition effective_fetch_page_size :: "int \<Rightarrow> nat" where
  "effective_fetch_page_size requested = (if requested \<le> 0 \<or> requested > 200 then 50 else nat requested)"

definition scan_fetch :: "fetch_db \<Rightarrow> fetch_row \<Rightarrow> fetch" where
  "scan_fetch db f =
     \<lparr>ft_id = fr_id f, ft_conn = fr_conn f,
      ft_conn_name = (case find (\<lambda>r. in_id r = fr_conn f) (fd_integrations db) of None \<Rightarrow> '''' | Some r \<Rightarrow> in_name r),
      ft_tool = fr_tool f, ft_outcome = fr_outcome f,
      ft_detail = (case fr_detail f of None \<Rightarrow> '''' | Some d \<Rightarrow> d), ft_requested = fr_requested f,
      ft_finished = fr_finished f, ft_evidence = (case fr_evidence f of None \<Rightarrow> '''' | Some e \<Rightarrow> e),
      ft_redactions = fr_redactions f, ft_by = (case fr_by f of None \<Rightarrow> '''' | Some b \<Rightarrow> b)\<rparr>"

text \<open>The rows of the join the policies show, of one connection or of all, before an instant or all.\<close>

definition log_of :: "access_db \<Rightarrow> tenant \<Rightarrow> string option \<Rightarrow> instant option \<Rightarrow> fetch_db \<Rightarrow> fetch_row list" where
  "log_of a t conn before db =
     filter (\<lambda>f. sees_org a t (fr_org f)
         \<and> list_ex (\<lambda>r. in_id r = fr_conn f \<and> sees_org a t (in_org r)) (fd_integrations db)
         \<and> (case conn of None \<Rightarrow> True | Some i \<Rightarrow> fr_conn f = i)
         \<and> (case before of None \<Rightarrow> True | Some at \<Rightarrow> fr_requested f < at)) (fd_fetches db)"

definition fetches ::
  "integ_env \<Rightarrow> access_db \<Rightarrow> tenant \<Rightarrow> string \<Rightarrow> int \<Rightarrow> instant option \<Rightarrow> fetch_db \<Rightarrow> integ_fault + fetch list" where
  "fetches V a t cid page before db =
     (case by_column V cid of
        None \<Rightarrow> Inl StoreBroken
      | Some conn \<Rightarrow> Inr (map (scan_fetch db) (take (effective_fetch_page_size page)
            (sort_key (\<lambda>f. - fr_requested f) (log_of a t conn before db)))))"

definition fetch_row_ok :: "integ_env \<Rightarrow> fetch_row \<Rightarrow> bool" where
  "fetch_row_ok V f \<longleftrightarrow> pg_text (ie_pg V) (fr_tool f) \<and> not_blank (fr_tool f) \<and> ie_jsonb V (fr_args f)
     \<and> fr_outcome f \<in> {OutcomeSucceeded, OutcomeRefused, OutcomeFailed}
     \<and> (case fr_detail f of None \<Rightarrow> fr_outcome f = OutcomeSucceeded
         | Some d \<Rightarrow> pg_text (ie_pg V) d \<and> (fr_outcome f = OutcomeSucceeded \<or> not_blank d))
     \<and> (fr_evidence f = None \<or> fr_outcome f = OutcomeSucceeded) \<and> fr_redactions f \<ge> 0"

text \<open>\<open>recordFetch\<close>, with the row it reads back: the newest of the connection.\<close>

definition record_fetch ::
  "integ_env \<Rightarrow> access_db \<Rightarrow> tenant \<Rightarrow> string \<Rightarrow> string \<Rightarrow> string \<Rightarrow> string \<Rightarrow> string \<Rightarrow> string \<Rightarrow> string option
     \<Rightarrow> int \<Rightarrow> instant \<Rightarrow> string \<Rightarrow> fetch_db \<Rightarrow> integ_fault + fetch \<times> fetch_db" where
  "record_fetch V a t fid cid tool args outcome detail evidence redacted requested by db =
     (case (pg_uuid (ie_pg V) cid, by_column V by) of
        (Some i, Some who) \<Rightarrow>
          (let f = \<lparr>fr_id = fid, fr_org = tn_org t, fr_conn = i, fr_tool = tool,
                 fr_args = (if args = '''' then ''{}'' else args), fr_requested = requested, fr_finished = tn_now t,
                 fr_outcome = outcome, fr_detail = (if detail = '''' then None else Some detail),
                 fr_evidence = evidence, fr_redactions = redacted, fr_by = who\<rparr>;
               db1 = db\<lparr>fd_fetches := fd_fetches db @ [f]\<rparr>
           in if \<not> member_of a t \<or> \<not> fetch_row_ok V f
                 \<or> \<not> list_ex (\<lambda>r. in_id r = i) (fd_integrations db) then Inl StoreBroken
              else (case fetches V a t cid 1 None db1 of
                  Inr (x # _) \<Rightarrow> Inr (x, db1)
                | _ \<Rightarrow> Inr (\<lparr>ft_id = fid, ft_conn = cid, ft_conn_name = '''', ft_tool = tool, ft_outcome = outcome,
                           ft_detail = detail, ft_requested = requested, ft_finished = zero_time,
                           ft_evidence = (case evidence of None \<Rightarrow> '''' | Some e \<Rightarrow> e), ft_redactions = redacted,
                           ft_by = ''''\<rparr>, db1)))
      | _ \<Rightarrow> Inl StoreBroken)"

definition record_refusal ::
  "integ_env \<Rightarrow> access_db \<Rightarrow> tenant \<Rightarrow> string \<Rightarrow> string \<Rightarrow> string \<Rightarrow> string \<Rightarrow> string \<Rightarrow> string
     \<Rightarrow> instant \<Rightarrow> string \<Rightarrow> fetch_db \<Rightarrow> integ_fault + fetch \<times> fetch_db" where
  "record_refusal V a t fid cid tool args outcome detail requested by db =
     record_fetch V a t fid cid tool args outcome detail None 0 requested by db"

text \<open>
  \<open>RecordObservation\<close>.  Its insert writes the content through one placeholder twice: once as
  jsonb, which gives the placeholder its type, and once cast from that type to bytea.
\<close>

definition record_observation ::
  "integ_env \<Rightarrow> access_db \<Rightarrow> tenant \<Rightarrow> string \<Rightarrow> string \<Rightarrow> string \<Rightarrow> string \<Rightarrow> string \<Rightarrow> string \<Rightarrow> int
     \<Rightarrow> instant \<Rightarrow> instant \<Rightarrow> string \<Rightarrow> fetch_db \<Rightarrow> integ_fault + fetch \<times> fetch_db" where
  "record_observation V a t eid fid cid tool args content redacted observed requested by db =
     (case pg_uuid (ie_pg V) cid of
        None \<Rightarrow> Inl StoreBroken
      | Some i \<Rightarrow>
          if \<not> ie_cast V ''jsonb'' ''bytea'' then Inl StoreBroken
          else if \<not> member_of a t \<or> \<not> ie_jsonb V content \<or> \<not> pg_text (ie_pg V) tool
             \<or> \<not> list_ex (\<lambda>r. in_id r = i) (fd_integrations db) then Inl StoreBroken
          else record_fetch V a t fid cid tool args OutcomeSucceeded '''' (Some eid) redacted requested by
            (db\<lparr>fd_evidence := fd_evidence db
               @ [\<lparr>ev_id = eid, ev_org = tn_org t, ev_conn = i, ev_observed = observed, ev_fetched = tn_now t,
                   ev_kind = ''integration.'' @ tool, ev_body = content, ev_hash = sha256 (ie_pg V) content,
                   ev_superseded = False\<rparr>]\<rparr>))"

section \<open>The handlers\<close>

datatype conn_kind = Mcp | Unspecified

definition require_kind :: "conn_kind \<Rightarrow> integ_fault option" where
  "require_kind k = (if k = Mcp then None else Some (InvalidConn WrongKind))"

record connect_request =
  cq_kind :: conn_kind
  cq_name :: string
  cq_endpoint :: string
  cq_credential :: string
  cq_offered :: "itool list"
  cq_granted :: "string list"

definition seal_call :: "gcm \<Rightarrow> keyring \<Rightarrow> string \<Rightarrow> string \<Rightarrow> string \<Rightarrow> integ_fault + (string \<times> string) option" where
  "seal_call G ring nonce credential i =
     (if trim_space credential = '''' then Inr None
      else if \<not> ring_configured ring then Inl NoKeyToSeal
      else (case seal_credential G ring nonce credential i of
          Inl _ \<Rightarrow> Inl StoreBroken | Inr sealed \<Rightarrow> Inr (Some sealed)))"

text \<open>The tools of a request: its names are checked, its \<open>granted\<close> flags are not read.\<close>

definition offered_tools :: "itool list \<Rightarrow> integ_fault + itool list" where
  "offered_tools ts =
     (if list_ex (\<lambda>tool. trim_space (it_name tool) = '''') ts then Inl (InvalidConn ToolNameless)
      else if ts = [] then Inl (InvalidConn NothingOffered)
      else Inr (map (\<lambda>tool. tool\<lparr>it_granted := False\<rparr>) ts))"

definition first_fault :: "integ_fault option list \<Rightarrow> integ_fault option" where
  "first_fault fs = first_error (\<lambda>f. f) fs"

definition connect_call ::
  "integ_env \<Rightarrow> gcm \<Rightarrow> keyring \<Rightarrow> access_db \<Rightarrow> tenant \<Rightarrow> string \<Rightarrow> string \<Rightarrow> connect_request \<Rightarrow> fetch_db
     \<Rightarrow> integ_fault + connection \<times> fetch_db" where
  "connect_call V G ring a t i nonce q db =
     (case first_fault [require_kind (cq_kind q), map_option InvalidConn (validate_display_name (cq_name q)),
          map_option InvalidConn (validate_endpoint (ie_url V) (cq_endpoint q))] of
        Some e \<Rightarrow> Inl e
      | None \<Rightarrow> (case offered_tools (cq_offered q) of
          Inl e \<Rightarrow> Inl e
        | Inr offered \<Rightarrow> (case resolve_grants offered (cq_granted q) of
            Inl why \<Rightarrow> Inl (InvalidConn why)
          | Inr tools \<Rightarrow> (case seal_call G ring nonce (cq_credential q) i of
              Inl e \<Rightarrow> Inl e
            | Inr sealed \<Rightarrow> create_connection V a t i KindMCP (trim_space (cq_name q)) (trim_space (cq_endpoint q))
                  sealed tools (tn_user t) db))))"

definition update_grants_call ::
  "integ_env \<Rightarrow> access_db \<Rightarrow> tenant \<Rightarrow> string \<Rightarrow> string list \<Rightarrow> fetch_db \<Rightarrow> integ_fault + connection \<times> fetch_db" where
  "update_grants_call V a t cid granted db = set_grants V a t cid granted (tn_user t) db"

definition revoke_call ::
  "integ_env \<Rightarrow> access_db \<Rightarrow> tenant \<Rightarrow> string \<Rightarrow> fetch_db \<Rightarrow> integ_fault + connection \<times> fetch_db" where
  "revoke_call V a t cid db = revoke_connection V a t cid (tn_user t) db"

text \<open>\<open>ListFetches\<close>: the token is the time of the last row of a full page.\<close>

definition list_fetches_call ::
  "integ_env \<Rightarrow> access_db \<Rightarrow> tenant \<Rightarrow> string \<Rightarrow> int \<Rightarrow> instant option \<Rightarrow> fetch_db
     \<Rightarrow> integ_fault + fetch list \<times> instant option" where
  "list_fetches_call V a t cid page before db =
     (case fetches V a t cid page before db of
        Inl e \<Rightarrow> Inl e
      | Inr fs \<Rightarrow> Inr (fs, if length fs = effective_fetch_page_size page \<and> fs \<noteq> [] then Some (ft_requested (last fs)) else None))"

end
