(* ===== verification/Json_Value.thy ===== *)
theory Json_Value
  imports KL_Prelude
begin

text \<open>
  Decoded JSON, and what \<open>encoding/json\<close> does when it decodes a value into a Go variable.
  A number keeps its literal, because decoding it into an integer depends on its spelling.
  \<open>null\<close> decodes into any variable without an error and leaves it at its zero value.
\<close>

datatype json =
    JNull
  | JBool bool
  | JNum string
  | JStr string
  | JArr "json list"
  | JObj "(string \<times> json) list"

text \<open>
  A text handed to \<open>json.Valid\<close> and \<open>json.Unmarshal\<close>: not JSON at all, JSON that does not
  decode (a number outside the range of a float), or JSON with its decoded value.
\<close>

datatype json_text = NotJson | Undecodable | Decoded json

fun last_wins :: "('k \<times> 'v) list \<Rightarrow> ('k \<times> 'v) list" where
  "last_wins [] = []"
| "last_wins ((k, v) # kvs) =
     (if k \<in> fst ` set kvs then last_wins kvs else (k, v) # last_wins kvs)"

fun unmarshal_string :: "json \<Rightarrow> string option" where
  "unmarshal_string JNull = Some []"
| "unmarshal_string (JStr s) = Some s"
| "unmarshal_string _ = None"

fun unmarshal_bool :: "json \<Rightarrow> bool option" where
  "unmarshal_bool JNull = Some False"
| "unmarshal_bool (JBool b) = Some b"
| "unmarshal_bool _ = None"

fun all_some :: "'a option list \<Rightarrow> 'a list option" where
  "all_some [] = Some []"
| "all_some (x # xs) =
     (case x of None \<Rightarrow> None
      | Some y \<Rightarrow> (case all_some xs of None \<Rightarrow> None | Some ys \<Rightarrow> Some (y # ys)))"

fun unmarshal_strings :: "json \<Rightarrow> string list option" where
  "unmarshal_strings JNull = Some []"
| "unmarshal_strings (JArr xs) = all_some (map unmarshal_string xs)"
| "unmarshal_strings _ = None"

text \<open>Into \<open>map[string]json.RawMessage\<close>: of a repeated key the last value is kept.\<close>

fun unmarshal_object :: "json \<Rightarrow> (string \<times> json) list option" where
  "unmarshal_object JNull = Some []"
| "unmarshal_object (JObj kvs) = Some (last_wins kvs)"
| "unmarshal_object _ = None"

fun unmarshal_bools :: "json \<Rightarrow> (string \<times> bool) list option" where
  "unmarshal_bools JNull = Some []"
| "unmarshal_bools (JObj kvs) =
     (case all_some (map (unmarshal_bool \<circ> snd) kvs) of None \<Rightarrow> None
      | Some bs \<Rightarrow> Some (last_wins (zip (map fst kvs) bs)))"
| "unmarshal_bools _ = None"

lemma set_last_wins: "set (last_wins kvs) \<subseteq> set kvs"
  by (induction kvs rule: last_wins.induct) auto

lemma keys_last_wins [simp]: "fst ` set (last_wins kvs) = fst ` set kvs"
  by (induction kvs rule: last_wins.induct) (auto simp: image_iff)

lemma distinct_last_wins [simp]: "distinct (map fst (last_wins kvs))"
proof (induction kvs rule: last_wins.induct)
  case 1
  then show ?case by simp
next
  case (2 k v kvs)
  have "set (map fst (last_wins kvs)) = fst ` set kvs" by simp
  with 2 show ?case by simp
qed

lemma last_wins_id: "distinct (map fst kvs) \<Longrightarrow> last_wins kvs = kvs"
  by (induction kvs rule: last_wins.induct) (auto simp: image_iff)

lemma all_some_map [simp]: "all_some (map Some ys) = Some ys"
  by (induction ys) simp_all

lemma all_some_SomeD: "all_some xs = Some ys \<Longrightarrow> xs = map Some ys"
  by (induction xs arbitrary: ys) (auto split: option.splits)

lemma all_some_Some: "all_some xs = Some ys \<longleftrightarrow> xs = map Some ys"
  by (auto dest: all_some_SomeD)

lemma all_some_None: "all_some xs = None \<longleftrightarrow> None \<in> set xs"
  by (induction xs) (auto split: option.splits)

end
