(* ===== verification/Tool_Policy.thy ===== *)
theory Tool_Policy
  imports Json_Value
begin

text \<open>
  Whether one tool call is permitted on one connection
  (\<open>apps/workers/internal/toolpolicy/toolpolicy.go\<close>).  A refusal is a value; \<open>nil\<close> is
  \<^term>\<open>None\<close>.
\<close>

datatype policy_refusal =
    NoToolNamed
  | ToolNotGranted string
  | WriteNotGranted string

record tool_policy =
  granted :: "string list"
  write_granted :: "string list"

fun contains :: "string list \<Rightarrow> string \<Rightarrow> bool" where
  "contains [] want \<longleftrightarrow> False"
| "contains (item # items) want \<longleftrightarrow> item = want \<or> contains items want"

lemma contains_iff [simp]: "contains xs want \<longleftrightarrow> want \<in> set xs"
  by (induction xs) auto

definition decide :: "tool_policy \<Rightarrow> string \<Rightarrow> bool \<Rightarrow> bool \<Rightarrow> policy_refusal option" where
  "decide policy tool caller_says_writes endpoint_says_writes =
     (let name = trim_space tool in
      if name = [] then Some NoToolNamed
      else if \<not> contains (granted policy) name then Some (ToolNotGranted name)
      else if \<not> (caller_says_writes \<or> endpoint_says_writes) then None
      else if \<not> contains (write_granted policy) name then Some (WriteNotGranted name)
      else None)"

text \<open>\<open>annotations["readOnlyHint"]\<close> of a nil or decoded \<open>map[string]any\<close>.\<close>

definition reads_only :: "(string \<times> json) list option \<Rightarrow> bool" where
  "reads_only annotations =
     (case annotations of
        None \<Rightarrow> False
      | Some kvs \<Rightarrow> (case map_of kvs ''readOnlyHint'' of Some (JBool b) \<Rightarrow> b | _ \<Rightarrow> False))"

lemma decide_None:
  "decide p tool c e = None \<longleftrightarrow>
     trim_space tool \<noteq> [] \<and> trim_space tool \<in> set (granted p)
     \<and> (c \<or> e \<longrightarrow> trim_space tool \<in> set (write_granted p))"
  by (auto simp: decide_def Let_def)

lemma decide_read_first: "decide p tool c e = None \<Longrightarrow> decide p tool c False = None"
  by (auto simp: decide_None)

lemma reads_only_iff:
  "reads_only a \<longleftrightarrow> (\<exists>kvs. a = Some kvs \<and> map_of kvs ''readOnlyHint'' = Some (JBool True))"
  by (auto simp: reads_only_def split: option.splits json.splits)

end
