(* ===== verification/Rate_Limit.thy ===== *)
theory Rate_Limit
  imports Complex_Main Go_Time
begin

text \<open>
  The token bucket per organisation (\<open>apps/workers/internal/ratelimit/ratelimit.go\<close>).  Token
  counts and rates are rational numbers where the code has \<open>float64\<close>: rounding is not
  modelled.  The clock is an argument of every call.
\<close>

record bucket =
  tokens :: rat
  last_seen :: instant

record limiter =
  burst :: rat
  refill :: rat
  buckets :: "string \<Rightarrow> bucket option"

definition seconds :: "duration \<Rightarrow> rat" where
  "seconds d = of_int d / 1000000000"

definition new_limiter :: "int \<Rightarrow> duration \<Rightarrow> limiter" where
  "new_limiter b window =
     (let b' = (if b < 0 then 0 else b);
          w = (if window \<le> 0 then minute else window)
      in \<lparr>burst = of_int b', refill = of_int b' / seconds w, buckets = (\<lambda>_. None)\<rparr>)"

text \<open>The bucket of a key as \<open>Allow\<close> sees it before it spends: created full, then refilled.\<close>

definition current_bucket :: "limiter \<Rightarrow> string \<Rightarrow> instant \<Rightarrow> bucket" where
  "current_bucket l key t =
     (let b = (case buckets l key of None \<Rightarrow> \<lparr>tokens = burst l, last_seen = t\<rparr> | Some b \<Rightarrow> b);
          elapsed = seconds (time_sub t (last_seen b))
      in if elapsed > 0
         then \<lparr>tokens = min (burst l) (tokens b + elapsed * refill l), last_seen = t\<rparr>
         else b)"

text \<open>\<open>Allow\<close>: \<^term>\<open>None\<close> for nil, or the \<open>RetryAfter\<close> of \<open>ErrLimited\<close>.\<close>

definition allow :: "string \<Rightarrow> instant \<Rightarrow> limiter \<Rightarrow> duration option \<times> limiter" where
  "allow key t l =
     (let b = current_bucket l key t in
      if tokens b < 1
      then (Some (if refill l > 0 then \<lfloor>(1 - tokens b) / refill l * 1000000000\<rfloor> else 0),
            l\<lparr>buckets := (buckets l)(key \<mapsto> b)\<rparr>)
      else (None, l\<lparr>buckets := (buckets l)(key \<mapsto> b\<lparr>tokens := tokens b - 1\<rparr>)\<rparr>))"

text \<open>A sequence of calls, whatever the keys: which were let through, and the limiter after.\<close>

fun allow_all :: "(string \<times> instant) list \<Rightarrow> limiter \<Rightarrow> (string \<times> bool) list \<times> limiter" where
  "allow_all [] l = ([], l)"
| "allow_all ((key, t) # calls) l =
     (let (r, l') = allow key t l; (rs, l'') = allow_all calls l'
      in ((key, r = None) # rs, l''))"

definition let_through :: "string \<Rightarrow> (string \<times> instant) list \<Rightarrow> limiter \<Rightarrow> nat" where
  "let_through key calls l = length (filter (\<lambda>r. r = (key, True)) (fst (allow_all calls l)))"

section \<open>The bucket's invariant\<close>

definition limiter_ok :: "limiter \<Rightarrow> bool" where
  "limiter_ok l \<longleftrightarrow> 0 \<le> burst l \<and> 0 \<le> refill l
     \<and> (\<forall>key b. buckets l key = Some b \<longrightarrow> 0 \<le> tokens b \<and> tokens b \<le> burst l)"

lemma new_limiter_ok: "limiter_ok (new_limiter b w)"
  by (simp add: limiter_ok_def new_limiter_def Let_def seconds_def minute_def second_def)

lemma current_bucket_bounds:
  assumes "limiter_ok l"
  shows "0 \<le> tokens (current_bucket l key t) \<and> tokens (current_bucket l key t) \<le> burst l"
proof (cases "buckets l key")
  case None
  with assms show ?thesis
    by (simp add: current_bucket_def limiter_ok_def time_sub_def clamp_duration_def
        min_duration_def max_duration_def seconds_def)
next
  case (Some b)
  with assms have "0 \<le> tokens b" "tokens b \<le> burst l" "0 \<le> refill l" "0 \<le> burst l"
    by (auto simp: limiter_ok_def)
  then show ?thesis using Some by (simp add: current_bucket_def Let_def)
qed

lemma allow_ok: "limiter_ok l \<Longrightarrow> limiter_ok (snd (allow key t l))"
  using current_bucket_bounds [of l key t] by (auto simp: allow_def Let_def limiter_ok_def)

lemma allow_params [simp]:
  "burst (snd (allow key t l)) = burst l" "refill (snd (allow key t l)) = refill l"
  by (simp_all add: allow_def Let_def)

lemma allow_other: "k \<noteq> key \<Longrightarrow> buckets (snd (allow key t l)) k = buckets l k"
  by (simp add: allow_def Let_def)

lemma allow_same:
  "buckets (snd (allow key t l)) key = Some (let b = current_bucket l key t in
     if tokens b < 1 then b else b\<lparr>tokens := tokens b - 1\<rparr>)"
  by (simp add: allow_def Let_def)

lemma allow_result: "fst (allow key t l) = None \<longleftrightarrow> 1 \<le> tokens (current_bucket l key t)"
  by (simp add: allow_def Let_def not_less)

lemma current_bucket_cong:
  "burst l = burst m \<Longrightarrow> refill l = refill m \<Longrightarrow> buckets l key = buckets m key \<Longrightarrow>
     current_bucket l key t = current_bucket m key t"
  unfolding current_bucket_def by (cases "buckets m key") (simp_all add: Let_def)

lemma allow_cong:
  "burst l = burst m \<Longrightarrow> refill l = refill m \<Longrightarrow> buckets l key = buckets m key \<Longrightarrow>
     fst (allow key t l) = fst (allow key t m)
     \<and> buckets (snd (allow key t l)) key = buckets (snd (allow key t m)) key"
  using current_bucket_cong [of l m key t] by (simp add: allow_def Let_def)

section \<open>Isolation and the rate\<close>

text \<open>What a key gets depends on its own calls only.\<close>

lemma allow_all_projection:
  "burst l = burst m \<Longrightarrow> refill l = refill m \<Longrightarrow> buckets l key = buckets m key \<Longrightarrow>
     let_through key calls l = let_through key (filter (\<lambda>c. fst c = key) calls) m"
proof (induction calls arbitrary: l m)
  case Nil
  then show ?case by (simp add: let_through_def)
next
  case (Cons c calls)
  obtain k t where c: "c = (k, t)" by (cases c)
  show ?case
  proof (cases "k = key")
    case False
    with Cons.prems have "let_through key calls (snd (allow k t l))
        = let_through key (filter (\<lambda>c. fst c = key) calls) m"
      by (intro Cons.IH) (simp_all add: allow_other)
    with False show ?thesis by (simp add: c let_through_def case_prod_beta Let_def)
  next
    case True
    from allow_cong [OF Cons.prems, of t]
    have "let_through key calls (snd (allow k t l))
        = let_through key (filter (\<lambda>c. fst c = key) calls) (snd (allow k t m))"
      using True Cons.prems by (intro Cons.IH) simp_all
    with True allow_cong [OF Cons.prems, of t] show ?thesis
      by (simp add: c let_through_def case_prod_beta Let_def)
  qed
qed

lemma seconds_mono: "d \<le> e \<Longrightarrow> seconds d \<le> seconds e"
  by (simp add: seconds_def divide_right_mono)

lemma seconds_diff: "seconds (a - b) = seconds a - seconds b"
  by (simp add: seconds_def diff_divide_distrib)

lemma time_sub_le: "0 < time_sub t u \<Longrightarrow> time_sub t u \<le> t - u \<and> u < t"
  by (auto simp: time_sub_def clamp_duration_def min_duration_def max_duration_def)

lemma seconds_pos: "0 < seconds d \<longleftrightarrow> 0 < d"
  by (simp add: seconds_def)

lemma current_bucket_grows:
  assumes "limiter_ok l" and "buckets l key = Some b"
  shows "tokens (current_bucket l key t) \<le> tokens b
      + refill l * seconds (last_seen (current_bucket l key t) - last_seen b)"
    and "last_seen (current_bucket l key t) \<le> max (last_seen b) t"
    and "last_seen b \<le> last_seen (current_bucket l key t)"
proof -
  have r: "0 \<le> refill l" using assms(1) by (simp add: limiter_ok_def)
  show "tokens (current_bucket l key t) \<le> tokens b
      + refill l * seconds (last_seen (current_bucket l key t) - last_seen b)"
  proof (cases "0 < time_sub t (last_seen b)")
    case True
    then have "seconds (time_sub t (last_seen b)) \<le> seconds (t - last_seen b)"
      using time_sub_le seconds_mono by blast
    with r have "seconds (time_sub t (last_seen b)) * refill l \<le> refill l * seconds (t - last_seen b)"
      by (metis mult.commute mult_left_mono)
    with True assms(2) show ?thesis
      by (simp add: current_bucket_def Let_def seconds_pos min.coboundedI2)
  next
    case False
    with assms(2) show ?thesis by (simp add: current_bucket_def Let_def seconds_pos seconds_def)
  qed
  show "last_seen (current_bucket l key t) \<le> max (last_seen b) t"
    and "last_seen b \<le> last_seen (current_bucket l key t)"
    using assms(2) time_sub_le [of t "last_seen b"]
    by (auto simp: current_bucket_def Let_def seconds_pos)
qed

text \<open>The potential: what was let through plus what is left never exceeds what came in.\<close>

lemma let_through_potential:
  assumes "limiter_ok l" and "buckets l key = Some b" and "\<forall>c \<in> set calls. fst c = key"
    and "\<forall>c \<in> set calls. snd c \<le> e" and "last_seen b \<le> e"
  shows "of_nat (let_through key calls l) \<le> tokens b + refill l * seconds (e - last_seen b)"
  using assms
proof (induction calls arbitrary: l b)
  case Nil
  then have "0 \<le> refill l * seconds (e - last_seen b)" "0 \<le> tokens b"
    by (simp_all add: limiter_ok_def seconds_def)
  then show ?case by (simp add: let_through_def)
next
  case (Cons c calls)
  obtain t where c: "c = (key, t)" using Cons.prems(3) by (cases c) auto
  let ?b = "current_bucket l key t" and ?l = "snd (allow key t l)"
  define b' where "b' = (if tokens ?b < 1 then ?b else ?b\<lparr>tokens := tokens ?b - 1\<rparr>)"
  then have b': "buckets ?l key = Some b'" "last_seen b' = last_seen ?b"
      "tokens b' = (if 1 \<le> tokens ?b then tokens ?b - 1 else tokens ?b)"
    by (simp_all add: allow_same Let_def)
  have le: "last_seen ?b \<le> e" using current_bucket_grows(2) [OF Cons.prems(1,2), of t] Cons.prems(4,5) c by auto
  have "of_nat (let_through key calls ?l) \<le> tokens b' + refill ?l * seconds (e - last_seen b')"
    by (rule Cons.IH [OF allow_ok [OF Cons.prems(1)] b'(1)]) (use Cons.prems b' le in auto)
  moreover have "let_through key (c # calls) l
      = (if 1 \<le> tokens ?b then 1 else 0) + let_through key calls ?l"
    by (simp add: c let_through_def case_prod_beta Let_def allow_result)
  ultimately have "of_nat (let_through key (c # calls) l) \<le> tokens ?b + refill l * seconds (e - last_seen ?b)"
    using b' by (auto split: if_splits)
  also have "\<dots> \<le> tokens b + refill l * seconds (last_seen ?b - last_seen b) + refill l * seconds (e - last_seen ?b)"
    using current_bucket_grows(1) [OF Cons.prems(1,2), of t] by simp
  also have "\<dots> = tokens b + refill l * seconds (e - last_seen b)"
    by (simp add: seconds_diff algebra_simps)
  finally show ?case .
qed

lemma let_through_fresh:
  assumes "limiter_ok l" and "buckets l key = None" and "\<forall>c \<in> set calls. fst c = key"
    and "calls \<noteq> []" and "\<forall>c \<in> set calls. snd c \<le> e"
  shows "of_nat (let_through key calls l) \<le> burst l + refill l * seconds (e - snd (hd calls))"
proof -
  let ?t = "snd (hd calls)"
  let ?b = "\<lparr>tokens = burst l, last_seen = ?t\<rparr>"
  let ?l = "l\<lparr>buckets := (buckets l)(key \<mapsto> ?b)\<rparr>"
  have ok: "limiter_ok ?l" using assms(1) by (simp add: limiter_ok_def)
  have "of_nat (let_through key calls ?l) \<le> tokens ?b + refill ?l * seconds (e - last_seen ?b)"
    by (rule let_through_potential [OF ok]) (use assms in auto)
  moreover have "let_through key calls l = let_through key calls ?l"
  proof -
    obtain t cs where c: "calls = (key, t) # cs" using assms(3,4) by (cases calls) auto
    then have "allow key t l = (fst (allow key t ?l), snd (allow key t ?l))"
      using assms(2) by (simp add: allow_def current_bucket_def Let_def)
    then show ?thesis by (simp add: c let_through_def case_prod_beta Let_def)
  qed
  ultimately show ?thesis by simp
qed

section \<open>Claims\<close>

text \<open>
  A limiter bounds each organisation on its own: whatever the other organisations do and in
  whatever order the clock is read, the calls let through for one key are at most the burst
  plus what is refilled between its first call and its latest.
\<close>

theorem rate_bounded_per_key:
  assumes "0 \<le> b" and "0 < w" and "own = filter (\<lambda>c. fst c = key) calls" and "own \<noteq> []"
    and "\<forall>c \<in> set own. snd c \<le> e"
  shows "of_nat (let_through key calls (new_limiter b w))
    \<le> of_int b * (1 + seconds (e - snd (hd own)) / seconds w)"
proof -
  let ?l = "new_limiter b w"
  have "let_through key calls ?l = let_through key own ?l"
    unfolding assms(3) by (rule allow_all_projection) simp_all
  moreover have "of_nat (let_through key own ?l) \<le> burst ?l + refill ?l * seconds (e - snd (hd own))"
    by (rule let_through_fresh [OF new_limiter_ok]) (use assms in \<open>auto simp: new_limiter_def Let_def\<close>)
  moreover have "burst ?l = of_int b" "refill ?l = of_int b / seconds w"
    using assms(1,2) by (simp_all add: new_limiter_def Let_def)
  ultimately show ?thesis by (simp add: distrib_left)
qed

theorem rate_bounded_per_key_witness:
  "let calls = [(''a'', 0), (''b'', 0), (''a'', 0), (''a'', 0)]
   in let_through ''a'' calls (new_limiter 2 minute) = 2
      \<and> of_nat (let_through ''a'' calls (new_limiter 2 minute)) \<le> (2 :: rat) * (1 + seconds 0 / seconds minute)"
proof -
  let ?calls = "[(''a'', 0), (''b'', 0), (''a'', 0), (''a'', 0 :: instant)]"
  have n: "let_through ''a'' ?calls (new_limiter 2 minute) = 2"
    by (simp add: let_through_def allow_def current_bucket_def new_limiter_def Let_def time_units
        seconds_def time_sub_def clamp_duration_def min_duration_def max_duration_def)
  show ?thesis
    using rate_bounded_per_key [of 2 minute _ "''a''" ?calls 0, OF _ _ refl] n
    by (simp add: time_units Let_def)
qed

text \<open>
  A limited caller that waits longer than the wait it was told is let through, unless
  somebody else spent the tokens in between: the refusal's \<open>RetryAfter\<close> is long enough.
\<close>

theorem retry_after_suffices:
  assumes "limiter_ok l" and "1 \<le> burst l" and "0 < refill l"
    and "\<forall>b. buckets l key = Some b \<longrightarrow> last_seen b \<le> t"
    and "fst (allow key t l) = Some w" and "w < max_duration" and "t + w < u"
  shows "fst (allow key u (snd (allow key t l))) = None"
proof -
  let ?b = "current_bucket l key t" and ?m = "snd (allow key t l)"
  have low: "tokens ?b < 1" and w: "w = \<lfloor>(1 - tokens ?b) / refill l * 1000000000\<rfloor>"
    using assms(3,5) by (auto simp: allow_def Let_def split: if_splits)
  have m: "buckets ?m key = Some ?b" using low by (simp add: allow_same Let_def)
  have last: "last_seen ?b = t"
  proof (cases "buckets l key")
    case None
    then show ?thesis by (simp add: current_bucket_def Let_def)
  next
    case (Some b)
    with assms(4) have "last_seen b \<le> t" by simp
    with Some show ?thesis
      by (auto simp: current_bucket_def Let_def seconds_pos time_sub_def clamp_duration_def
          min_duration_def max_duration_def)
  qed
  have pos: "0 \<le> (1 - tokens ?b) / refill l * 1000000000" using low assms(3) by simp
  then have w0: "0 \<le> w" using w by simp
  have el: "w + 1 \<le> time_sub u t"
    using assms(6,7) w0 by (simp add: time_sub_def clamp_duration_def min_duration_def max_duration_def)
  have "(1 - tokens ?b) / refill l * 1000000000 < of_int (w + 1)"
    unfolding w by linarith
  then have "(1 - tokens ?b) / refill l < seconds (w + 1)"
    by (simp add: seconds_def pos_less_divide_eq)
  also have "\<dots> \<le> seconds (time_sub u t)" using el by (rule seconds_mono)
  finally have "1 - tokens ?b < seconds (time_sub u t) * refill l"
    using assms(3) by (simp add: pos_divide_less_eq)
  moreover have "0 < seconds (time_sub u t)" using el w0 by (simp add: seconds_pos)
  ultimately have "1 \<le> tokens (current_bucket ?m key u)"
    using assms(2) m last by (simp add: current_bucket_def [of ?m] Let_def)
  then show ?thesis by (simp add: allow_result)
qed

theorem retry_after_suffices_witness:
  "let l = snd (allow ''a'' 0 (new_limiter 1 minute))
   in fst (allow ''a'' 0 l) = Some minute \<and> fst (allow ''a'' (minute + 1) (snd (allow ''a'' 0 l))) = None"
proof -
  let ?l = "snd (allow ''a'' 0 (new_limiter 1 minute))"
  note ev = allow_def current_bucket_def new_limiter_def Let_def time_units
        seconds_def time_sub_def clamp_duration_def min_duration_def max_duration_def
  have "fst (allow ''a'' 0 ?l) = Some minute" by (simp add: ev)
  moreover have "limiter_ok ?l" by (intro allow_ok new_limiter_ok)
  moreover have "\<forall>b. buckets ?l ''a'' = Some b \<longrightarrow> last_seen b \<le> 0" by (simp add: ev)
  moreover have "1 \<le> burst ?l" "0 < refill ?l" by (simp_all add: ev)
  ultimately show ?thesis
    using retry_after_suffices [of ?l "''a''" 0 minute "minute + 1"]
    by (simp add: Let_def time_units max_duration_def)
qed

end
