(* ===== verification/Redact.thy ===== *)
theory Redact
  imports Go_Regexp Json_Value
begin

text \<open>
  The redactor a fetched result passes before it leaves the gateway
  (\<open>apps/workers/internal/redact/redact.go\<close>): the six patterns, \<open>Text\<close> over one string,
  and \<open>walk\<close> and \<open>JSON\<close> over a decoded document.
\<close>

section \<open>The patterns\<close>

definition Marker :: string where "Marker = ''[redacted]''"

definition private_key_block :: regexp where
  "private_key_block =
     (let words = Star True (Cls False [rune_range CHR ''A'' CHR ''Z'', one_rune CHR '' '']);
          any = Cls True []
      in seqs [lit ''-----BEGIN '', words, lit ''PRIVATE KEY-----'', Star False any,
               lit ''-----END '', words, lit ''PRIVATE KEY-----''])"

definition bearer_token :: regexp where
  "bearer_token =
     seqs [WordB, lit_fold ''bearer'', at_least 1 (Cls False space_class),
           at_least 12 (Cls False (fold_letters @ [rune_range CHR ''0'' CHR ''9'', one_rune CHR ''.'',
             one_rune CHR ''_'', one_rune CHR ''-'', one_rune CHR ''+'', one_rune CHR ''/'',
             one_rune CHR ''='']))]"

definition dash_class :: regexp where
  "dash_class = Cls False [one_rune CHR ''_'', one_rune CHR ''-'']"

definition assigned_secret :: regexp where
  "assigned_secret =
     (let quote = optional (Cls False [one_rune CHR 0x22]);
          spaces = Star True (Cls False space_class)
      in Seq (Group (seqs [quote, WordB,
                alts [seqs [lit_fold ''api'', optional dash_class, lit_fold ''key''],
                      lit_fold ''secret'', lit_fold ''password'', lit_fold ''passwd'', lit_fold ''token'',
                      seqs [lit_fold ''access'', optional dash_class, lit_fold ''token''],
                      seqs [lit_fold ''client'', optional dash_class, lit_fold ''secret'']],
                quote, spaces, Cls False [one_rune CHR '':'', one_rune CHR ''=''], spaces, quote]))
             (at_least 6 (Cls True (space_class @ [one_rune CHR 0x22, one_rune CHR '','', one_rune CHR ''}'']))))"

definition email_pattern :: regexp where
  "email_pattern =
     (let alnum = [rune_range CHR ''A'' CHR ''Z'', rune_range CHR ''a'' CHR ''z'', rune_range CHR ''0'' CHR ''9''] in
      seqs [WordB,
            at_least 1 (Cls False (alnum @ [one_rune CHR ''.'', one_rune CHR ''_'', one_rune CHR ''%'',
              one_rune CHR ''+'', one_rune CHR ''-''])),
            lit ''@'',
            at_least 1 (Cls False (alnum @ [one_rune CHR ''.'', one_rune CHR ''-''])),
            lit ''.'',
            at_least 2 (Cls False [rune_range CHR ''A'' CHR ''Z'', rune_range CHR ''a'' CHR ''z'']),
            WordB])"

definition iban_pattern :: regexp where
  "iban_pattern =
     (let upper = rune_range CHR ''A'' CHR ''Z''; digit = rune_range CHR ''0'' CHR ''9'' in
      seqs [WordB, copies 2 (Cls False [upper]), copies 2 (Cls False [digit]),
            between 11 30 (Cls False [upper, digit]), WordB])"

definition card_number :: regexp where
  "card_number =
     seqs [WordB,
           between 13 19 (Seq (Cls False [rune_range CHR ''0'' CHR ''9''])
             (optional (Cls False [one_rune CHR '' '', one_rune CHR ''-'']))),
           WordB]"

definition redact_rules :: "(string \<times> regexp) list" where
  "redact_rules =
     [(''private-key-block'', private_key_block), (''bearer-token'', bearer_token),
      (''assigned-secret'', assigned_secret), (''email'', email_pattern),
      (''iban'', iban_pattern), (''card-number'', card_number)]"

text \<open>The names of fields whose value is never evidence, matched whole.\<close>

definition secret_key_pattern :: regexp where
  "secret_key_pattern =
     (let d = optional dash_class in
      alts [seqs [lit_fold ''api'', d, lit_fold ''key''], lit_fold ''apikey'', lit_fold ''secret'',
            seqs [lit_fold ''client'', d, lit_fold ''secret''], lit_fold ''password'', lit_fold ''passwd'',
            lit_fold ''pwd'', lit_fold ''token'', seqs [lit_fold ''access'', d, lit_fold ''token''],
            seqs [lit_fold ''refresh'', d, lit_fold ''token''], lit_fold ''authorization'',
            seqs [lit_fold ''auth'', d, lit_fold ''token''],
            seqs [lit_fold ''private'', d, lit_fold ''key''], lit_fold ''credential''])"

definition secret_key :: "string \<Rightarrow> bool" where
  "secret_key name =
     (let w = map fst (cells name)
      in list_ex (\<lambda>(k, _). k = length w) (ends w secret_key_pattern 0))"

section \<open>Redacting text\<close>

record redaction =
  rd_text :: string
  rd_count :: nat

text \<open>What replaces one match of a rule, and whether it counts.\<close>

definition replacement :: "string \<Rightarrow> regexp \<Rightarrow> string \<Rightarrow> string \<times> nat" where
  "replacement name r found =
     (if name = ''assigned-secret'' then
        (case submatch1 r found of None \<Rightarrow> (found, 0) | Some g \<Rightarrow> (g @ Marker, 1))
      else (Marker, 1))"

definition apply_rule :: "string \<times> regexp \<Rightarrow> redaction \<Rightarrow> redaction" where
  "apply_rule rule acc =
     (let parts = map (\<lambda>seg. case seg of Kept s \<Rightarrow> (s, 0)
                        | Matched s \<Rightarrow> replacement (fst rule) (snd rule) s)
                    (split_matches (snd rule) (rd_text acc))
      in \<lparr>rd_text = concat (map fst parts), rd_count = rd_count acc + sum_list (map snd parts)\<rparr>)"

definition redact_text :: "string \<Rightarrow> redaction" where
  "redact_text input = fold apply_rule redact_rules \<lparr>rd_text = input, rd_count = 0\<rparr>"

section \<open>Redacting documents\<close>

lemma size_json_pair [simp]: "(k, v) \<in> set kvs \<Longrightarrow> size v < Suc (size_list (size_prod (\<lambda>_. 0) size) kvs)"
  by (induction kvs) auto

definition secret_value :: "string \<Rightarrow> json \<Rightarrow> bool" where
  "secret_value key item = (case item of JStr s \<Rightarrow> s \<noteq> [] \<and> secret_key key | _ \<Rightarrow> False)"

function (sequential) walk :: "json \<Rightarrow> json \<times> nat" where
  "walk (JStr s) = (let r = redact_text s in (JStr (rd_text r), rd_count r))"
| "walk (JArr xs) =
     (let ys = map walk xs in (JArr (map fst ys), sum_list (map snd ys)))"
| "walk (JObj kvs) =
     (let ys = map (\<lambda>(k, v).
            if secret_value k v then ((k, JStr Marker), 1)
            else ((k, fst (walk v)), snd (walk v))) kvs
      in (JObj (map fst ys), sum_list (map snd ys)))"
| "walk j = (j, 0)"
  by pat_completeness auto
termination
  by (relation "measure size") (auto simp: size_list_estimation' less_Suc_eq_le intro: less_imp_le)

text \<open>
  \<open>JSON\<close>.  The arguments are \<open>encoding/json\<close>: \<open>unmarshal\<close> into \<open>any\<close> (a document with each
  key of an object once) and \<open>marshal\<close>, whose failure falls back to the text path.
\<close>

definition redact_json ::
  "(string \<Rightarrow> json_text) \<Rightarrow> (json \<Rightarrow> string option) \<Rightarrow> string \<Rightarrow> redaction" where
  "redact_json unmarshal marshal input =
     (if trim_space input = [] then \<lparr>rd_text = input, rd_count = 0\<rparr>
      else (case unmarshal (trim_space input) of
          Decoded decoded \<Rightarrow>
            (case marshal (fst (walk decoded)) of
               Some encoded \<Rightarrow> \<lparr>rd_text = encoded, rd_count = snd (walk decoded)\<rparr>
             | None \<Rightarrow> redact_text input)
        | _ \<Rightarrow> redact_text input))"

section \<open>What redaction keeps and what it removes\<close>

lemma apply_rule_zero:
  assumes "rd_count (apply_rule rule acc) = rd_count acc"
  shows "rd_text (apply_rule rule acc) = rd_text acc"
proof -
  obtain name r where rule: "rule = (name, r)" by (cases rule)
  let ?f = "\<lambda>seg. case seg of Kept s \<Rightarrow> (s, 0 :: nat) | Matched s \<Rightarrow> replacement name r s"
  from assms have z: "\<forall>seg \<in> set (split_matches r (rd_text acc)). snd (?f seg) = 0"
    by (auto simp: apply_rule_def rule Let_def sum_list_eq_0_iff)
  have "fst (?f seg) = segment_text seg" if "seg \<in> set (split_matches r (rd_text acc))" for seg
    using z [rule_format, OF that]
    by (cases seg) (auto simp: replacement_def split: if_splits option.splits)
  then have "concat (map (\<lambda>seg. fst (?f seg)) (split_matches r (rd_text acc)))
      = concat (map segment_text (split_matches r (rd_text acc)))"
    by (intro arg_cong [where f = concat] map_cong) simp_all
  then show ?thesis by (simp add: apply_rule_def rule Let_def comp_def)
qed

lemma apply_rule_count: "rd_count acc \<le> rd_count (apply_rule rule acc)"
  by (simp add: apply_rule_def Let_def)

lemma fold_rules_count: "rd_count acc \<le> rd_count (fold apply_rule rules acc)"
proof (induction rules arbitrary: acc)
  case Nil
  then show ?case by simp
next
  case (Cons rule rules)
  then show ?case using apply_rule_count [of acc rule] by (simp add: order.trans [OF _ Cons.IH])
qed

lemma fold_rules_zero:
  "rd_count (fold apply_rule rules acc) = rd_count acc \<Longrightarrow>
     rd_text (fold apply_rule rules acc) = rd_text acc"
proof (induction rules arbitrary: acc)
  case Nil
  then show ?case by simp
next
  case (Cons rule rules)
  have "rd_count (apply_rule rule acc) = rd_count acc"
    using Cons.prems apply_rule_count [of acc rule] fold_rules_count [of "apply_rule rule acc" rules]
    by simp
  with Cons.prems Cons.IH [of "apply_rule rule acc"] apply_rule_zero [of rule acc] show ?case by simp
qed

lemma redact_text_zero: "rd_count (redact_text s) = 0 \<Longrightarrow> rd_text (redact_text s) = s"
  using fold_rules_zero [of redact_rules "\<lparr>rd_text = s, rd_count = 0\<rparr>"] by (simp add: redact_text_def)

lemma split_matches_Nil: "split_matches r [] = [Kept []]"
proof -
  have "cells [] = []" by (simp add: cells.simps [of "[]"])
  then show ?thesis
    unfolding split_matches_def
    by (subst segments.simps) (auto simp: uncells_def split: option.split)
qed

lemma fold_rules_Nil: "rd_text acc = [] \<Longrightarrow> rd_text (fold apply_rule rules acc) = []"
  by (induction rules arbitrary: acc) (simp_all add: apply_rule_def split_matches_Nil)

lemma redact_text_Nil [simp]: "rd_text (redact_text []) = []"
  by (simp add: redact_text_def fold_rules_Nil)

text \<open>Two documents of one shape: they differ at most inside their strings.\<close>

fun same_shape :: "json \<Rightarrow> json \<Rightarrow> bool" where
  "same_shape (JStr s) j \<longleftrightarrow> (\<exists>t. j = JStr t)"
| "same_shape (JArr xs) j \<longleftrightarrow> (\<exists>ys. j = JArr ys \<and> list_all2 same_shape xs ys)"
| "same_shape (JObj kvs) j \<longleftrightarrow>
     (\<exists>kws. j = JObj kws \<and> list_all2 (\<lambda>(k, v) (l, w). k = l \<and> same_shape v w) kvs kws)"
| "same_shape i j \<longleftrightarrow> j = i"

text \<open>No field of a secret's name holds a string other than the marker, at any depth.\<close>

function (sequential) secrets_cleared :: "json \<Rightarrow> bool" where
  "secrets_cleared (JArr xs) \<longleftrightarrow> list_all secrets_cleared xs"
| "secrets_cleared (JObj kvs) \<longleftrightarrow> list_all (\<lambda>(k, v).
     (secret_key k \<longrightarrow> (\<forall>s. v = JStr s \<longrightarrow> s = [] \<or> s = Marker)) \<and> secrets_cleared v) kvs"
| "secrets_cleared _ \<longleftrightarrow> True"
  by pat_completeness auto
termination
  by (relation "measure size") (auto simp: size_list_estimation' less_Suc_eq_le intro: less_imp_le)

definition walk_entry :: "string \<times> json \<Rightarrow> (string \<times> json) \<times> nat" where
  "walk_entry kv = (if secret_value (fst kv) (snd kv) then ((fst kv, JStr Marker), 1)
     else ((fst kv, fst (walk (snd kv))), snd (walk (snd kv))))"

lemma walk_JObj:
  "walk (JObj kvs) = (JObj (map (fst \<circ> walk_entry) kvs), sum_list (map (snd \<circ> walk_entry) kvs))"
proof -
  have "(\<lambda>(k, v). if secret_value k v then ((k, JStr Marker), 1)
      else ((k, fst (walk v)), snd (walk v))) = walk_entry"
    by (auto simp: walk_entry_def fun_eq_iff)
  then show ?thesis by (simp add: Let_def)
qed

lemma walk_JArr: "walk (JArr xs) = (JArr (map (fst \<circ> walk) xs), sum_list (map (snd \<circ> walk) xs))"
  by (simp add: Let_def)

lemma walk_JStr: "walk (JStr s) = (JStr (rd_text (redact_text s)), rd_count (redact_text s))"
  by (simp add: Let_def)

declare walk.simps(1-3) [simp del]

lemmas walk_forms = walk_JStr walk_JArr walk_JObj


text \<open>Induction over a document: strings, arrays by item, objects by value, the rest.\<close>

lemma json_cases_induct [case_names str arr obj other]:
  assumes "\<And>s. P (JStr s)"
    and "\<And>xs. (\<And>x. x \<in> set xs \<Longrightarrow> P x) \<Longrightarrow> P (JArr xs)"
    and "\<And>kvs. (\<And>kv. kv \<in> set kvs \<Longrightarrow> P (snd kv)) \<Longrightarrow> P (JObj kvs)"
    and "\<And>j. walk j = (j, 0) \<Longrightarrow> (\<And>i. same_shape j i \<longleftrightarrow> i = j) \<Longrightarrow> secrets_cleared j \<Longrightarrow> P j"
  shows "P j"
proof (induction j rule: json.induct)
  case (JObj kvs)
  then show ?case by (intro assms(3)) (auto simp: snds.simps)
qed (use assms in auto)



lemma walk_zero: "snd (walk j) = 0 \<Longrightarrow> fst (walk j) = j"
proof (induction j rule: json_cases_induct)
  case (str s)
  then show ?case by (simp add: walk_forms redact_text_zero)
next
  case (arr xs)
  then show ?case by (simp add: walk_forms sum_list_eq_0_iff map_idI)
next
  case (obj kvs)
  have "fst (walk_entry kv) = kv" if "kv \<in> set kvs" for kv
  proof -
    have "snd (walk_entry kv) = 0" using obj.prems that by (simp add: walk_forms sum_list_eq_0_iff)
    then show ?thesis using obj.IH [OF that] by (simp add: walk_entry_def split: if_splits)
  qed
  then show ?case by (simp add: walk_forms map_idI)
qed simp

section \<open>Claims\<close>


text \<open>
  The name of a field plays no part when its value is a list, a number or an object: a list
  under a secret's name is redacted item by item like any other, and a number is kept.
\<close>

theorem secret_field_only_clears_strings:
  "walk (JObj [(k, JArr xs)]) = (JObj [(k, fst (walk (JArr xs)))], snd (walk (JArr xs)))
   \<and> walk (JObj [(k, JNum n)]) = (JObj [(k, JNum n)], 0)"
  by (simp add: walk_JObj walk_entry_def secret_value_def)

end
