(* ===== verification/Gateway.thy ===== *)
theory Gateway
  imports Tool_Policy Rate_Limit Egress Redact
begin

text \<open>
  The gateway: the only place that opens a connection to an address a customer supplied
  (\<open>apps/workers/internal/service/gateway/gateway.go\<close>) and the protocol client it drives
  (\<open>apps/workers/internal/mcp/mcp.go\<close>).

  Every request that leaves is an entry of a log, so that what is sent, how often and in
  which order is a value.  What is outside the program is the record \<open>world\<close>: the endpoint's
  answers, cancellation of the caller's context and the clock (by the number of requests
  already sent), URL parsing and \<open>encoding/json\<close>.
\<close>

section \<open>The protocol client (mcp.go)\<close>

datatype rpc = Initialize | ToolsList | ToolsCall string "(string \<times> json) list"

record wire =
  w_endpoint :: string
  w_credential :: string
  w_rpc :: rpc

text \<open>
  What \<open>http.Client.Do\<close> and reading the body give: a transport error, which may wrap the
  egress refusal of the dialer, or a status, a content type and a body unless reading it failed.
\<close>

datatype http_outcome =
    TransportFailed bool
  | Answered nat string "string option"

datatype mcp_error =
    BadRequest
  | Transport bool
  | BadStatus nat
  | EventStream
  | ReadFailed
  | TooLarge
  | NotJsonRpc
  | EndpointError string int
  | NoResult
  | WrongShape
  | ContextDone

record mcp_tool =
  tl_name :: string
  tl_description :: string
  tl_annotations :: "(string \<times> json) list option"

record world =
  http_do :: "nat \<Rightarrow> wire \<Rightarrow> http_outcome"
  request_builds :: "string \<Rightarrow> bool"
  ctx_done :: "nat \<Rightarrow> bool"
  wall_clock :: "nat \<Rightarrow> instant"
  decode_envelope :: "string \<Rightarrow> (string \<times> (string \<times> int) option) option"
  decode_tools :: "string \<Rightarrow> mcp_tool list option"
  json_unmarshal :: "string \<Rightarrow> json_text"
  json_marshal :: "json \<Rightarrow> string option"
  url_parse :: "string \<Rightarrow> url option"
  uni_lower :: "string \<Rightarrow> string"

type_synonym wire_log = "wire list"

definition max_response :: nat where "max_response = 4194304"

text \<open>\<open>call\<close>: one JSON-RPC request and the raw \<open>result\<close> of its answer.\<close>

definition rpc_answer :: "world \<Rightarrow> http_outcome \<Rightarrow> mcp_error + string" where
  "rpc_answer W out =
     (case out of
        TransportFailed refused \<Rightarrow> Inl (Transport refused)
      | Answered status content_type body \<Rightarrow>
          if status < 200 \<or> status \<ge> 300 then Inl (BadStatus status)
          else if contains_str content_type ''text/event-stream'' then Inl EventStream
          else (case body of
              None \<Rightarrow> Inl ReadFailed
            | Some b \<Rightarrow>
                if length b > max_response then Inl TooLarge
                else (case decode_envelope W b of
                    None \<Rightarrow> Inl NotJsonRpc
                  | Some (result, Some (message, code)) \<Rightarrow> Inl (EndpointError message code)
                  | Some (result, None) \<Rightarrow> if result = [] then Inl NoResult else Inr result)))"

definition rpc_call :: "world \<Rightarrow> wire \<Rightarrow> wire_log \<Rightarrow> (mcp_error + string) \<times> wire_log" where
  "rpc_call W w sent =
     (if \<not> request_builds W (w_endpoint w) then (Inl BadRequest, sent)
      else (rpc_answer W (http_do W (length sent) w), sent @ [w]))"

definition client_list_tools ::
  "world \<Rightarrow> string \<Rightarrow> string \<Rightarrow> wire_log \<Rightarrow> (mcp_error + mcp_tool list) \<times> wire_log" where
  "client_list_tools W endpoint credential sent =
     (case rpc_call W \<lparr>w_endpoint = endpoint, w_credential = credential, w_rpc = Initialize\<rparr> sent of
        (Inl e, sent1) \<Rightarrow> (Inl e, sent1)
      | (Inr _, sent1) \<Rightarrow>
          (case rpc_call W \<lparr>w_endpoint = endpoint, w_credential = credential, w_rpc = ToolsList\<rparr> sent1 of
             (Inl e, sent2) \<Rightarrow> (Inl e, sent2)
           | (Inr result, sent2) \<Rightarrow>
               ((case decode_tools W result of None \<Rightarrow> Inl WrongShape | Some tools \<Rightarrow> Inr tools), sent2)))"

definition client_call_tool ::
  "world \<Rightarrow> string \<Rightarrow> string \<Rightarrow> string \<Rightarrow> (string \<times> json) list \<Rightarrow> wire_log \<Rightarrow> (mcp_error + string) \<times> wire_log" where
  "client_call_tool W endpoint credential tool arguments sent =
     (case rpc_call W \<lparr>w_endpoint = endpoint, w_credential = credential, w_rpc = Initialize\<rparr> sent of
        (Inl e, sent1) \<Rightarrow> (Inl e, sent1)
      | (Inr _, sent1) \<Rightarrow>
          rpc_call W \<lparr>w_endpoint = endpoint, w_credential = credential, w_rpc = ToolsCall tool arguments\<rparr> sent1)"

section \<open>The service (gateway.go)\<close>

definition attempts :: nat where "attempts = 3"

definition is_refusal :: "mcp_error \<Rightarrow> bool" where
  "is_refusal e \<longleftrightarrow> e = Transport True"

text \<open>\<open>retry\<close>, by the number of attempts left.\<close>

fun retry_from ::
  "world \<Rightarrow> nat \<Rightarrow> (wire_log \<Rightarrow> (mcp_error + 'a) \<times> wire_log) \<Rightarrow> wire_log \<Rightarrow> (mcp_error + 'a) \<times> wire_log" where
  "retry_from W 0 call sent = (Inl ContextDone, sent)"
| "retry_from W (Suc left) call sent =
     (case call sent of
        (Inr result, sent') \<Rightarrow> (Inr result, sent')
      | (Inl e, sent') \<Rightarrow>
          if is_refusal e then (Inl e, sent')
          else if left = 0 then (Inl e, sent')
          else if ctx_done W (length sent') then (Inl ContextDone, sent')
          else retry_from W left call sent')"

definition retry :: "world \<Rightarrow> (wire_log \<Rightarrow> (mcp_error + 'a) \<times> wire_log) \<Rightarrow> wire_log \<Rightarrow> (mcp_error + 'a) \<times> wire_log" where
  "retry W = retry_from W attempts"

datatype gateway_error =
    NoEndpoint
  | EgressDenied egress_error
  | PolicyDenied policy_refusal
  | RateLimited duration
  | BadArguments
  | EndpointFailed mcp_error
  | NoSuchTool string

definition connect_code :: "gateway_error \<Rightarrow> string" where
  "connect_code e = (case e of
      NoEndpoint \<Rightarrow> ''invalid_argument'' | EgressDenied _ \<Rightarrow> ''permission_denied''
    | PolicyDenied _ \<Rightarrow> ''permission_denied'' | RateLimited _ \<Rightarrow> ''resource_exhausted''
    | BadArguments \<Rightarrow> ''invalid_argument'' | EndpointFailed _ \<Rightarrow> ''unavailable''
    | NoSuchTool _ \<Rightarrow> ''not_found'')"

record gateway_tool =
  gt_name :: string
  gt_description :: string
  gt_write_capable :: bool

record list_request =
  lr_endpoint :: "(string \<times> string) option"
  lr_org :: string

record call_request =
  cr_endpoint :: "(string \<times> string) option"
  cr_org :: string
  cr_tool :: string
  cr_write_capable :: bool
  cr_policy :: tool_policy
  cr_arguments :: string

record call_response =
  content_json :: string
  redactions :: nat
  fetched_at_instant :: instant

record gateway_state =
  gw_limiter :: limiter
  gw_log :: wire_log

definition list_tools ::
  "world \<Rightarrow> allow_list \<Rightarrow> instant \<Rightarrow> list_request \<Rightarrow> gateway_state \<Rightarrow>
     (gateway_error + gateway_tool list) \<times> gateway_state" where
  "list_tools W a t req st =
     (case lr_endpoint req of
        None \<Rightarrow> (Inl NoEndpoint, st)
      | Some (endpoint, credential) \<Rightarrow>
          if endpoint = [] then (Inl NoEndpoint, st)
          else (case check_endpoint (uni_lower W) (url_parse W) a endpoint of
              Some e \<Rightarrow> (Inl (EgressDenied e), st)
            | None \<Rightarrow>
                (case allow (lr_org req) t (gw_limiter st) of
                   (Some wait, lm) \<Rightarrow> (Inl (RateLimited wait), st\<lparr>gw_limiter := lm\<rparr>)
                 | (None, lm) \<Rightarrow>
                     (case retry W (client_list_tools W endpoint credential) (gw_log st) of
                        (Inl e, sent) \<Rightarrow> (Inl (EndpointFailed e), \<lparr>gw_limiter = lm, gw_log = sent\<rparr>)
                      | (Inr tools, sent) \<Rightarrow>
                          (Inr (map (\<lambda>tool. \<lparr>gt_name = tl_name tool,
                                 gt_description = rd_text (redact_text (tl_description tool)),
                                 gt_write_capable = \<not> reads_only (tl_annotations tool)\<rparr>) tools),
                           \<lparr>gw_limiter = lm, gw_log = sent\<rparr>)))))"

text \<open>The arguments of a call: a nil map when none were sent.\<close>

definition parse_arguments :: "world \<Rightarrow> string \<Rightarrow> (string \<times> json) list option" where
  "parse_arguments W raw =
     (if raw = [] then Some []
      else (case json_unmarshal W raw of Decoded j \<Rightarrow> unmarshal_object j | _ \<Rightarrow> None))"

text \<open>The part of \<open>CallTool\<close> after its checks: the fresh reading, the second decision, the call.\<close>

definition call_endpoint ::
  "world \<Rightarrow> string \<Rightarrow> string \<Rightarrow> (string \<times> json) list \<Rightarrow> call_request \<Rightarrow> wire_log \<Rightarrow>
     (gateway_error + call_response) \<times> wire_log" where
  "call_endpoint W endpoint credential arguments req sent =
     (case retry W (client_list_tools W endpoint credential) sent of
        (Inl e, sent1) \<Rightarrow> (Inl (EndpointFailed e), sent1)
      | (Inr tools, sent1) \<Rightarrow>
          (case find (\<lambda>tool. tl_name tool = cr_tool req) tools of
             None \<Rightarrow> (Inl (NoSuchTool (cr_tool req)), sent1)
           | Some offered \<Rightarrow>
               (case decide (cr_policy req) (cr_tool req) (cr_write_capable req)
                       (\<not> reads_only (tl_annotations offered)) of
                  Some r \<Rightarrow> (Inl (PolicyDenied r), sent1)
                | None \<Rightarrow>
                    (case retry W (client_call_tool W endpoint credential (cr_tool req) arguments) sent1 of
                       (Inl e, sent2) \<Rightarrow> (Inl (EndpointFailed e), sent2)
                     | (Inr result, sent2) \<Rightarrow>
                         (let redacted = redact_json (json_unmarshal W) (json_marshal W) result
                          in (Inr \<lparr>content_json = rd_text redacted, redactions = rd_count redacted,
                                   fetched_at_instant = wall_clock W (length sent2)\<rparr>, sent2))))))"

definition call_tool ::
  "world \<Rightarrow> allow_list \<Rightarrow> instant \<Rightarrow> call_request \<Rightarrow> gateway_state \<Rightarrow>
     (gateway_error + call_response) \<times> gateway_state" where
  "call_tool W a t req st =
     (case cr_endpoint req of
        None \<Rightarrow> (Inl NoEndpoint, st)
      | Some (endpoint, credential) \<Rightarrow>
          if endpoint = [] then (Inl NoEndpoint, st)
          else (case check_endpoint (uni_lower W) (url_parse W) a endpoint of
              Some e \<Rightarrow> (Inl (EgressDenied e), st)
            | None \<Rightarrow>
                (case decide (cr_policy req) (cr_tool req) (cr_write_capable req) False of
                   Some r \<Rightarrow> (Inl (PolicyDenied r), st)
                 | None \<Rightarrow>
                     (case allow (cr_org req) t (gw_limiter st) of
                        (Some wait, lm) \<Rightarrow> (Inl (RateLimited wait), st\<lparr>gw_limiter := lm\<rparr>)
                      | (None, lm) \<Rightarrow>
                          (case parse_arguments W (cr_arguments req) of
                             None \<Rightarrow> (Inl BadArguments, st\<lparr>gw_limiter := lm\<rparr>)
                           | Some arguments \<Rightarrow>
                               (case call_endpoint W endpoint credential arguments req (gw_log st) of
                                  (r, sent) \<Rightarrow> (r, \<lparr>gw_limiter = lm, gw_log = sent\<rparr>)))))))"

section \<open>The contract of a sender\<close>

text \<open>
  What \<open>retry\<close> needs of the call it repeats: the log only grows, by requests of one kind whose
  total weight is bounded.  The same bound times the attempts then holds of the loop.
\<close>

locale sender =
  fixes send :: "wire_log \<Rightarrow> (mcp_error + 'a) \<times> wire_log"
    and ok_wire :: "wire \<Rightarrow> bool"
    and weight :: "wire \<Rightarrow> nat"
    and budget :: nat
  assumes send_grows: "send sent = (r, sent') \<Longrightarrow>
    \<exists>ws. sent' = sent @ ws \<and> list_all ok_wire ws \<and> sum_list (map weight ws) \<le> budget"
begin

lemma retry_from_grows:
  "retry_from W left send sent = (r, sent') \<Longrightarrow>
     \<exists>ws. sent' = sent @ ws \<and> list_all ok_wire ws \<and> sum_list (map weight ws) \<le> left * budget"
proof (induction left arbitrary: sent)
  case 0
  then show ?case by simp
next
  case (Suc left)
  obtain r1 sent1 where step: "send sent = (r1, sent1)" by (cases "send sent")
  obtain ws where ws: "sent1 = sent @ ws" "list_all ok_wire ws" "sum_list (map weight ws) \<le> budget"
    using send_grows [OF step] by blast
  show ?case
  proof (cases "sent' = sent1")
    case True
    with ws show ?thesis by (intro exI [of _ ws]) simp
  next
    case False
    with Suc.prems step have "retry_from W left send sent1 = (r, sent')"
      by (auto split: sum.splits if_splits)
    then obtain vs where "sent' = sent1 @ vs" "list_all ok_wire vs" "sum_list (map weight vs) \<le> left * budget"
      using Suc.IH by blast
    with ws show ?thesis by (intro exI [of _ "ws @ vs"]) simp
  qed
qed

lemma retry_grows:
  "retry W send sent = (r, sent') \<Longrightarrow>
     \<exists>ws. sent' = sent @ ws \<and> list_all ok_wire ws \<and> sum_list (map weight ws) \<le> 3 * budget"
  unfolding retry_def attempts_def by (rule retry_from_grows)

end

definition is_tools_call :: "wire \<Rightarrow> bool" where
  "is_tools_call w = (case w_rpc w of ToolsCall _ _ \<Rightarrow> True | _ \<Rightarrow> False)"

definition listing :: "string \<Rightarrow> string \<Rightarrow> wire \<Rightarrow> bool" where
  "listing endpoint credential w \<longleftrightarrow>
     w_endpoint w = endpoint \<and> w_credential w = credential \<and> \<not> is_tools_call w"

definition calling :: "string \<Rightarrow> string \<Rightarrow> string \<Rightarrow> wire \<Rightarrow> bool" where
  "calling endpoint credential tool w \<longleftrightarrow>
     w_endpoint w = endpoint \<and> w_credential w = credential
     \<and> (\<forall>name arguments. w_rpc w = ToolsCall name arguments \<longrightarrow> name = tool)"

lemma rpc_call_grows:
  "rpc_call W w sent = (r, sent') \<Longrightarrow> sent' = sent \<or> sent' = sent @ [w]"
  by (auto simp: rpc_call_def split: if_splits)

lemma list_tools_grows:
  assumes "client_list_tools W e c sent = (r, sent')"
  shows "\<exists>ws. sent' = sent @ ws \<and> list_all (listing e c) ws \<and> length ws \<le> 2"
proof -
  let ?w = "\<lambda>m. \<lparr>w_endpoint = e, w_credential = c, w_rpc = m\<rparr>"
  obtain r1 s1 where one: "rpc_call W (?w Initialize) sent = (r1, s1)" by force
  obtain r2 s2 where two: "rpc_call W (?w ToolsList) s1 = (r2, s2)" by force
  have "sent' = s1 \<or> sent' = s2"
    using assms one two by (auto simp: client_list_tools_def split: sum.splits)
  then have "sent' \<in> {sent, sent @ [?w Initialize], sent @ [?w ToolsList], sent @ [?w Initialize, ?w ToolsList]}"
    using rpc_call_grows [OF one] rpc_call_grows [OF two] by auto
  then show ?thesis by (auto simp: listing_def is_tools_call_def)
qed

lemma call_tool_grows:
  assumes "client_call_tool W e c tool args sent = (r, sent')"
  shows "\<exists>ws. sent' = sent @ ws \<and> list_all (calling e c tool) ws \<and> length ws \<le> 2
    \<and> length (filter is_tools_call ws) \<le> 1"
proof -
  let ?w = "\<lambda>m. \<lparr>w_endpoint = e, w_credential = c, w_rpc = m\<rparr>"
  obtain r1 s1 where one: "rpc_call W (?w Initialize) sent = (r1, s1)" by force
  obtain r2 s2 where two: "rpc_call W (?w (ToolsCall tool args)) s1 = (r2, s2)" by force
  have "sent' = s1 \<or> sent' = s2"
    using assms one two by (auto simp: client_call_tool_def split: sum.splits)
  then have "sent' \<in> {sent, sent @ [?w Initialize], sent @ [?w (ToolsCall tool args)],
      sent @ [?w Initialize, ?w (ToolsCall tool args)]}"
    using rpc_call_grows [OF one] rpc_call_grows [OF two] by auto
  then show ?thesis by (auto simp: calling_def is_tools_call_def)
qed

lemma sum_weight_length: "sum_list (map (\<lambda>_. Suc 0) ws) = length ws"
  by (induction ws) simp_all

lemma sum_weight_filter: "sum_list (map (\<lambda>w. if P w then 1 else 0 :: nat) ws) = length (filter P ws)"
  by (induction ws) simp_all

interpretation list_sender: sender "client_list_tools W e c" "listing e c" "\<lambda>_. 1" 2 for W e c
  by unfold_locales (simp add: sum_weight_length list_tools_grows)

interpretation call_sender: sender "client_call_tool W e c tool args" "calling e c tool" "\<lambda>_. 1" 2
  for W e c tool args
  by unfold_locales (drule call_tool_grows, auto simp: sum_weight_length)

interpretation call_once: sender "client_call_tool W e c tool args" "calling e c tool"
  "\<lambda>w. if is_tools_call w then 1 else 0" 1
  for W e c tool args
  by unfold_locales (drule call_tool_grows, auto simp: sum_weight_filter)

lemma retry_list_grows:
  assumes "retry W (client_list_tools W e c) sent = (r, sent')"
  obtains ws where "sent' = sent @ ws" "list_all (listing e c) ws" "length ws \<le> 6"
  using list_sender.retry_grows [OF assms] by (auto simp: sum_weight_length)

lemma retry_call_grows:
  assumes "retry W (client_call_tool W e c tool args) sent = (r, sent')"
  obtains ws where "sent' = sent @ ws" "list_all (calling e c tool) ws" "length ws \<le> 6"
    "length (filter is_tools_call ws) \<le> 3"
proof -
  from call_sender.retry_grows [OF assms] obtain ws where
    ws: "sent' = sent @ ws" "list_all (calling e c tool) ws" "length ws \<le> 6"
    by (auto simp: sum_weight_length)
  from call_once.retry_grows [OF assms] obtain vs where
    "sent' = sent @ vs" "length (filter is_tools_call vs) \<le> 3"
    by (auto simp: sum_weight_filter)
  with ws that show thesis by simp
qed

text \<open>
  What \<open>CallTool\<close> sends, by how far it got: nothing, the listing, or the listing and the call
  of a tool the fresh reading still permits.
\<close>

lemma listing_calling: "listing e c w \<Longrightarrow> calling e c tool w"
  by (auto simp: listing_def calling_def is_tools_call_def split: rpc.splits)

definition fresh_permits :: "world \<Rightarrow> string \<Rightarrow> string \<Rightarrow> call_request \<Rightarrow> wire_log \<Rightarrow> bool" where
  "fresh_permits W e c req sent \<longleftrightarrow> (\<exists>tools offered.
     fst (retry W (client_list_tools W e c) sent) = Inr tools
     \<and> find (\<lambda>tool. tl_name tool = cr_tool req) tools = Some offered
     \<and> decide (cr_policy req) (cr_tool req) (cr_write_capable req)
         (\<not> reads_only (tl_annotations offered)) = None)"

lemma call_endpoint_grows:
  assumes "call_endpoint W e c args req sent = (r, sent')"
  obtains ws where "sent' = sent @ ws" "list_all (calling e c (cr_tool req)) ws" "length ws \<le> 12"
    "length (filter is_tools_call ws) \<le> 3"
    "filter is_tools_call ws = [] \<or> fresh_permits W e c req sent"
proof -
  obtain r1 s1 where one: "retry W (client_list_tools W e c) sent = (r1, s1)" by force
  obtain ws where ws: "s1 = sent @ ws" "list_all (listing e c) ws" "length ws \<le> 6"
    using retry_list_grows [OF one] by blast
  have ws': "list_all (calling e c (cr_tool req)) ws" "filter is_tools_call ws = []"
    using ws(2) by (auto simp: list_all_iff listing_calling filter_empty_conv listing_def)
  show thesis
  proof (cases "sent' = s1")
    case True
    with ws ws' show thesis by (intro that [of ws]) auto
  next
    case False
    with assms one obtain tools offered where ok: "r1 = Inr tools"
      "find (\<lambda>tool. tl_name tool = cr_tool req) tools = Some offered"
      "decide (cr_policy req) (cr_tool req) (cr_write_capable req) (\<not> reads_only (tl_annotations offered)) = None"
      by (auto simp: call_endpoint_def split: sum.splits option.splits)
    obtain r2 s2 where two: "retry W (client_call_tool W e c (cr_tool req) args) s1 = (r2, s2)" by force
    with assms one ok have "sent' = s2"
      by (auto simp: call_endpoint_def Let_def split: sum.splits)
    moreover obtain vs where "s2 = s1 @ vs" "list_all (calling e c (cr_tool req)) vs" "length vs \<le> 6"
      "length (filter is_tools_call vs) \<le> 3"
      using retry_call_grows [OF two] by blast
    moreover have "fresh_permits W e c req sent" using one ok by (simp add: fresh_permits_def)
    ultimately show thesis using ws ws' by (intro that [of "ws @ vs"]) auto
  qed
qed

definition sent_during :: "gateway_state \<Rightarrow> gateway_state \<Rightarrow> wire list" where
  "sent_during st st' = drop (length (gw_log st)) (gw_log st')"

lemma call_tool_sent:
  assumes "sent_during st (snd (call_tool W a t req st)) \<noteq> []"
  obtains e c args where "cr_endpoint req = Some (e, c)"
    "check_endpoint (uni_lower W) (url_parse W) a e = None"
    "decide (cr_policy req) (cr_tool req) (cr_write_capable req) False = None"
    "fst (allow (cr_org req) t (gw_limiter st)) = None"
    "gw_log (snd (call_tool W a t req st)) = snd (call_endpoint W e c args req (gw_log st))"
proof -
  from assms obtain e c where ec: "cr_endpoint req = Some (e, c)" "e \<noteq> []"
    by (auto simp: sent_during_def call_tool_def split: option.splits if_splits)
  with assms have ck: "check_endpoint (uni_lower W) (url_parse W) a e = None"
    by (auto simp: sent_during_def call_tool_def split: option.splits)
  with ec assms have de: "decide (cr_policy req) (cr_tool req) (cr_write_capable req) False = None"
    by (auto simp: sent_during_def call_tool_def split: option.splits)
  obtain w lm where al: "allow (cr_org req) t (gw_limiter st) = (w, lm)" by force
  with ec ck de assms have w: "w = None"
    by (auto simp: sent_during_def call_tool_def split: option.splits)
  with al ec ck de assms obtain args where ar: "parse_arguments W (cr_arguments req) = Some args"
    by (auto simp: sent_during_def call_tool_def split: option.splits)
  obtain r sent where ce: "call_endpoint W e c args req (gw_log st) = (r, sent)" by force
  with al ec ck de w ar have "gw_log (snd (call_tool W a t req st)) = snd (call_endpoint W e c args req (gw_log st))"
    by (simp add: call_tool_def)
  with ec(1) ck de al w that show thesis by simp
qed

section \<open>Claims\<close>

text \<open>
  C26: Nothing leaves before the checks: if \<open>CallTool\<close> sends any request at all, the endpoint
  passed the egress check, the policy permitted the tool and the organisation was within its
  rate, and every request goes to that endpoint with that connection's credential.
\<close>

theorem nothing_leaves_unchecked:
  assumes "w \<in> set (sent_during st (snd (call_tool W a t req st)))"
  shows "cr_endpoint req = Some (w_endpoint w, w_credential w)
    \<and> check_endpoint (uni_lower W) (url_parse W) a (w_endpoint w) = None
    \<and> decide (cr_policy req) (cr_tool req) (cr_write_capable req) False = None
    \<and> fst (allow (cr_org req) t (gw_limiter st)) = None"
proof -
  from assms have "sent_during st (snd (call_tool W a t req st)) \<noteq> []" by auto
  then obtain e c args where h: "cr_endpoint req = Some (e, c)"
    "check_endpoint (uni_lower W) (url_parse W) a e = None"
    "decide (cr_policy req) (cr_tool req) (cr_write_capable req) False = None"
    "fst (allow (cr_org req) t (gw_limiter st)) = None"
    "gw_log (snd (call_tool W a t req st)) = snd (call_endpoint W e c args req (gw_log st))"
    using call_tool_sent by blast
  obtain r sent where r: "call_endpoint W e c args req (gw_log st) = (r, sent)" by force
  obtain ws where "sent = gw_log st @ ws" "list_all (calling e c (cr_tool req)) ws"
    using call_endpoint_grows [OF r] by blast
  with assms h r have "w_endpoint w = e \<and> w_credential w = c"
    by (auto simp: sent_during_def list_all_iff calling_def)
  with h show ?thesis by simp
qed

text \<open>
  A tool is called only after the endpoint's own current reading of it: a \<open>tools/call\<close> on
  the wire names the requested tool, the trimmed name is granted, the listing just fetched
  offers it, and if either the request or that listing says it writes it is write-granted.
\<close>

theorem tool_called_only_if_granted:
  assumes "w \<in> set (sent_during st (snd (call_tool W a t req st)))"
    and "w_rpc w = ToolsCall tool args"
  shows "tool = cr_tool req \<and> trim_space tool \<in> set (granted (cr_policy req))
    \<and> (\<exists>tools offered.
        fst (retry W (client_list_tools W (w_endpoint w) (w_credential w)) (gw_log st)) = Inr tools
        \<and> offered \<in> set tools \<and> tl_name offered = tool
        \<and> (cr_write_capable req \<or> \<not> reads_only (tl_annotations offered)
             \<longrightarrow> trim_space tool \<in> set (write_granted (cr_policy req))))"
proof -
  from assms have "sent_during st (snd (call_tool W a t req st)) \<noteq> []" by auto
  then obtain e c args' where h: "gw_log (snd (call_tool W a t req st)) = snd (call_endpoint W e c args' req (gw_log st))"
    using call_tool_sent by blast
  obtain r sent where r: "call_endpoint W e c args' req (gw_log st) = (r, sent)" by force
  obtain ws where ws: "sent = gw_log st @ ws" "list_all (calling e c (cr_tool req)) ws"
    "filter is_tools_call ws = [] \<or> fresh_permits W e c req (gw_log st)"
    using call_endpoint_grows [OF r] by blast
  have w: "w \<in> set ws" using assms(1) h r ws(1) by (simp add: sent_during_def)
  with ws(2) assms(2) have c: "w_endpoint w = e" "w_credential w = c" "tool = cr_tool req"
    by (auto simp: list_all_iff calling_def)
  have "w \<in> set (filter is_tools_call ws)" using w assms(2) by (simp add: is_tools_call_def)
  with ws(3) obtain tools offered where "fst (retry W (client_list_tools W e c) (gw_log st)) = Inr tools"
    "find (\<lambda>tool. tl_name tool = cr_tool req) tools = Some offered"
    "decide (cr_policy req) (cr_tool req) (cr_write_capable req) (\<not> reads_only (tl_annotations offered)) = None"
    by (auto simp: fresh_permits_def filter_empty_conv)
  then show ?thesis using c by (auto simp: decide_None dest!: find_SomeD)
qed

text \<open>
  One call spends one token and sends at most twelve requests, of which at most three are
  the \<open>tools/call\<close> itself, whatever the endpoint answers.
\<close>

theorem one_call_sends_at_most_twelve:
  "length (sent_during st (snd (call_tool W a t req st))) \<le> 12
   \<and> length (filter is_tools_call (sent_during st (snd (call_tool W a t req st)))) \<le> 3"
proof (cases "sent_during st (snd (call_tool W a t req st)) = []")
  case True
  then show ?thesis by simp
next
  case False
  then obtain e c args where h: "gw_log (snd (call_tool W a t req st)) = snd (call_endpoint W e c args req (gw_log st))"
    using call_tool_sent by blast
  obtain r sent where r: "call_endpoint W e c args req (gw_log st) = (r, sent)" by force
  obtain ws where "sent = gw_log st @ ws" "length ws \<le> 12" "length (filter is_tools_call ws) \<le> 3"
    using call_endpoint_grows [OF r] by blast
  with h r show ?thesis by (simp add: sent_during_def)
qed

text \<open>
  An endpoint that offers one unannotated tool and answers its listing; \<open>status\<close> is what it
  answers a \<open>tools/call\<close>.
\<close>

definition example_world :: "string \<Rightarrow> nat \<Rightarrow> world" where
  "example_world tool status =
     \<lparr>http_do = (\<lambda>n w. Answered (if is_tools_call w then status else 200) ''application/json'' (Some ''{}'')),
      request_builds = (\<lambda>_. True), ctx_done = (\<lambda>_. False), wall_clock = (\<lambda>_. 0),
      decode_envelope = (\<lambda>_. Some (''[]'', None)),
      decode_tools = (\<lambda>_. Some [\<lparr>tl_name = tool, tl_description = [], tl_annotations = None\<rparr>]),
      json_unmarshal = (\<lambda>_. Decoded (JArr [])), json_marshal = (\<lambda>_. Some ''[]''),
      url_parse = (\<lambda>_. Some \<lparr>url_scheme = ''https'', url_hostname = ''mcp.example.com''\<rparr>),
      uni_lower = id\<rparr>"

definition example_call :: "string \<Rightarrow> call_request" where
  "example_call tool =
     \<lparr>cr_endpoint = Some (''https://mcp.example.com/'', ''key''), cr_org = ''org'', cr_tool = tool,
      cr_write_capable = True, cr_policy = \<lparr>granted = [''write''], write_granted = [''write'']\<rparr>,
      cr_arguments = []\<rparr>"

definition example_state :: gateway_state where
  "example_state = \<lparr>gw_limiter = \<lparr>burst = 1, refill = 0, buckets = (\<lambda>_. None)\<rparr>, gw_log = []\<rparr>"

definition example_run :: "string \<Rightarrow> nat \<Rightarrow> wire list" where
  "example_run tool status = sent_during example_state
     (snd (call_tool (example_world tool status) example_allow 0 (example_call tool) example_state))"

lemma example_allowed:
  "check_endpoint id (\<lambda>_. Some \<lparr>url_scheme = ''https'', url_hostname = ''mcp.example.com''\<rparr>)
     example_allow ''https://mcp.example.com/'' = None"
  by code_simp

lemma example_trim: "trim_space ''write'' = ''write''" "trim_space '' write'' = ''write''"
  by code_simp+

lemma example_decide: "decide \<lparr>granted = [''write''], write_granted = [''write'']\<rparr> ''write'' True b = None"
  "decide \<lparr>granted = [''write''], write_granted = [''write'']\<rparr> '' write'' True b = None"
  by (simp_all add: decide_def example_trim)

lemma not_event_stream: "\<not> contains_str ''application/json'' ''text/event-stream''"
  by code_simp

lemma example_rpc:
  "rpc_call (example_world tool status) w sent =
     (if is_tools_call w \<and> (status < 200 \<or> status \<ge> 300) then Inl (BadStatus status) else Inr ''[]'', sent @ [w])"
  using not_event_stream
  by (auto simp: rpc_call_def rpc_answer_def example_world_def max_response_def)

definition example_wire :: "rpc \<Rightarrow> wire" where
  "example_wire m = \<lparr>w_endpoint = ''https://mcp.example.com/'', w_credential = ''key'', w_rpc = m\<rparr>"

lemma example_list:
  "retry (example_world tool status) (client_list_tools (example_world tool status) ''https://mcp.example.com/'' ''key'') sent
   = (Inr [\<lparr>tl_name = tool, tl_description = [], tl_annotations = None\<rparr>],
      sent @ [example_wire Initialize, example_wire ToolsList])"
  by (simp add: retry_def attempts_def numeral_3_eq_3 client_list_tools_def example_rpc is_tools_call_def example_wire_def)
    (simp add: example_world_def)

lemma example_call_refused:
  "status < 200 \<or> status \<ge> 300 \<Longrightarrow>
   retry (example_world tool status) (client_call_tool (example_world tool status) ''https://mcp.example.com/'' ''key'' tool args) sent
   = (Inl (BadStatus status), sent @ concat (replicate 3 [example_wire Initialize, example_wire (ToolsCall tool args)]))"
  by (simp add: retry_def attempts_def numeral_3_eq_3 client_call_tool_def example_rpc is_tools_call_def
      example_wire_def is_refusal_def)
    (auto simp: example_world_def)

lemma example_call_ok:
  "retry (example_world tool 200) (client_call_tool (example_world tool 200) ''https://mcp.example.com/'' ''key'' tool args) sent
   = (Inr ''[]'', sent @ [example_wire Initialize, example_wire (ToolsCall tool args)])"
  by (simp add: retry_def attempts_def numeral_3_eq_3 client_call_tool_def example_rpc is_tools_call_def
      example_wire_def)

lemma example_allow_first:
  "allow org 0 (gw_limiter example_state) = (None, snd (allow org 0 (gw_limiter example_state)))"
  by (simp add: example_state_def allow_def current_bucket_def Let_def time_sub_def clamp_duration_def
      min_duration_def max_duration_def seconds_def)

lemma example_run_eq:
  assumes "tool = ''write'' \<or> tool = '' write''"
  shows "example_run tool status = snd (call_endpoint (example_world tool status)
    ''https://mcp.example.com/'' ''key'' [] (example_call tool) [])"
proof -
  have "decide \<lparr>granted = [''write''], write_granted = [''write'']\<rparr> tool True False = None"
    using assms example_decide by auto
  then have d: "decide (cr_policy (example_call tool)) (cr_tool (example_call tool))
      (cr_write_capable (example_call tool)) False = None"
    by (simp add: example_call_def)
  have k: "check_endpoint (uni_lower (example_world tool status)) (url_parse (example_world tool status))
      example_allow ''https://mcp.example.com/'' = None"
    using example_allowed by (simp add: example_world_def)
  have f: "cr_endpoint (example_call tool) = Some (''https://mcp.example.com/'', ''key'')"
    "cr_arguments (example_call tool) = []" "gw_log example_state = []"
    by (simp_all add: example_call_def example_state_def)
  obtain lm where a: "allow (cr_org (example_call tool)) 0 (gw_limiter example_state) = (None, lm)"
    using example_allow_first by blast
  show ?thesis
    by (simp add: example_run_def call_tool_def f k d a parse_arguments_def sent_during_def case_prod_beta)
qed

lemma example_endpoint:
  assumes "tool = ''write'' \<or> tool = '' write''"
  shows "call_endpoint (example_world tool status) ''https://mcp.example.com/'' ''key'' [] (example_call tool) []
    = (case retry (example_world tool status)
          (client_call_tool (example_world tool status) ''https://mcp.example.com/'' ''key'' tool [])
          [example_wire Initialize, example_wire ToolsList] of
        (Inl e, sent2) \<Rightarrow> (Inl (EndpointFailed e), sent2)
      | (Inr result, sent2) \<Rightarrow>
          (let redacted = redact_json (\<lambda>_. Decoded (JArr [])) (\<lambda>_. Some ''[]'') result
           in (Inr \<lparr>content_json = rd_text redacted, redactions = rd_count redacted,
                    fetched_at_instant = 0\<rparr>, sent2)))"
proof -
  have d: "decide \<lparr>granted = [''write''], write_granted = [''write'']\<rparr> tool True b = None" for b
    using assms example_decide by auto
  have w: "json_unmarshal (example_world tool status) = (\<lambda>_. Decoded (JArr []))"
    "json_marshal (example_world tool status) = (\<lambda>_. Some ''[]'')"
    "wall_clock (example_world tool status) = (\<lambda>_. 0)"
    by (simp_all add: example_world_def)
  show ?thesis
    by (simp add: call_endpoint_def example_list)
      (simp add: example_call_def d w split: prod.split sum.split)
qed

lemma example_run_refused:
  assumes "tool = ''write'' \<or> tool = '' write''" and "status < 200 \<or> status \<ge> 300"
  shows "example_run tool status = [example_wire Initialize, example_wire ToolsList]
    @ concat (replicate 3 [example_wire Initialize, example_wire (ToolsCall tool [])])"
  using assms by (simp add: example_run_eq example_endpoint example_call_refused)

lemma example_run_ok:
  assumes "tool = ''write'' \<or> tool = '' write''"
  shows "example_run tool 200 = [example_wire Initialize, example_wire ToolsList]
    @ [example_wire Initialize, example_wire (ToolsCall tool [])]"
  using assms by (simp add: example_run_eq example_endpoint example_call_ok Let_def)

theorem nothing_leaves_unchecked_witness:
  "length (example_run ''write'' 200) = 4
   \<and> check_endpoint id (url_parse (example_world ''write'' 200)) example_allow ''https://mcp.example.com/'' = None"
proof -
  have "example_wire Initialize \<in> set (sent_during example_state
     (snd (call_tool (example_world ''write'' 200) example_allow 0 (example_call ''write'') example_state)))"
    using example_run_ok [of "''write''"] by (simp add: example_run_def)
  from nothing_leaves_unchecked [OF this] example_run_ok [of "''write''"] show ?thesis
    by (simp add: example_wire_def example_world_def)
qed

theorem tool_called_only_if_granted_witness:
  "example_wire (ToolsCall ''write'' []) \<in> set (example_run ''write'' 200)
   \<and> trim_space ''write'' \<in> set (write_granted (cr_policy (example_call ''write'')))"
proof -
  have m: "example_wire (ToolsCall ''write'' []) \<in> set (sent_during example_state
     (snd (call_tool (example_world ''write'' 200) example_allow 0 (example_call ''write'') example_state)))"
    using example_run_ok [of "''write''"] by (simp add: example_run_def)
  have "w_rpc (example_wire (ToolsCall ''write'' [])) = ToolsCall ''write'' []"
    by (simp add: example_wire_def)
  from tool_called_only_if_granted [OF m this] m show ?thesis
    by (simp add: example_run_def example_call_def)
qed

text \<open>
  The decision and the call read the tool's name differently: the policy is checked for the
  trimmed name and the call goes out with the name as it was sent, so an endpoint that offers
  \<open>write\<close> with a blank before it has that tool called although the granted list does not hold it.
\<close>

theorem ungranted_spelling_is_called:
  "example_wire (ToolsCall '' write'' []) \<in> set (example_run '' write'' 200)
   \<and> '' write'' \<notin> set (granted (cr_policy (example_call '' write'')))"
  using example_run_ok [of "'' write''"] by (simp add: example_call_def)

text \<open>
  Every failure but an egress refusal is tried again, a refused request and a write included:
  an endpoint that answers a write tool's call with 400 is sent that call three times.
\<close>

theorem refused_write_is_sent_three_times:
  "length (filter is_tools_call (example_run ''write'' 400)) = 3"
  using example_run_refused [of "''write''" 400]
  by (simp add: is_tools_call_def example_wire_def numeral_3_eq_3)

end
