(* ===== verification/Fetch_Path.thy ===== *)
theory Fetch_Path
  imports Integrations Gateway "HOL-Library.Product_Lexorder"
begin

text \<open>
  How a customer's tool is read: by a person (\<open>FetchNow\<close> of \<open>service/integrations\<close>), on the
  schedule (\<open>service/fetch\<close>, \<open>store/postgres/fetch.go\<close>, the listing of migrations 00048 and 00050)
  and after an agent's ask (\<open>RequestFetch\<close> of \<open>store/postgres/watcher.go\<close> and
  \<open>service/watcher/fetchrequest.go\<close>); what each leaves behind (\<open>store/postgres/evidence.go\<close>,
  \<open>service/ingest/evidence.go\<close>), through core-api's client of the gateway
  (\<open>internal/gateway/gateway.go\<close>).

  The state is the tables and the gateway's own: what left for a customer's endpoint is the log of
  the gateway, which stays when the tables roll back.
\<close>

section \<open>The gateway's client\<close>

text \<open>
  The message the gateway writes for an error, and what the client sees when the answer is lost on
  the way (by the number of requests the gateway has sent), are outside the two programs.
\<close>

record gateway_link =
  gx_world :: world
  gx_allow :: allow_list
  gx_say :: "gateway_error \<Rightarrow> string"
  gx_lost :: "nat \<Rightarrow> string option"

record call_result =
  rs_content :: string
  rs_redactions :: int
  rs_fetched :: instant

definition refused_text :: string where "refused_text = ''the gateway refused that call''"

text \<open>\<open>classify_answer\<close>: whether the error is a refusal, and its text.\<close>

definition classify_answer :: "(gateway_error \<Rightarrow> string) \<Rightarrow> gateway_error \<Rightarrow> bool \<times> string" where
  "classify_answer say e =
     (let plain = connect_code e @ '': '' @ say e
      in if connect_code e \<in> {''permission_denied'', ''resource_exhausted'', ''not_found''}
         then (True, refused_text @ [CHR 0x0A] @ plain) else (False, plain))"

definition client_call ::
  "gateway_link \<Rightarrow> instant \<Rightarrow> string \<Rightarrow> string \<Rightarrow> string \<Rightarrow> string \<Rightarrow> string \<Rightarrow> bool
     \<Rightarrow> string list option \<Rightarrow> string list option \<Rightarrow> gateway_state
     \<Rightarrow> (bool \<times> string + call_result) \<times> gateway_state" where
  "client_call X now org endpoint credential tool args writes grants wgrants gw =
     (case call_tool (gx_world X) (gx_allow X) now
         \<lparr>cr_endpoint = Some (endpoint, credential), cr_org = org, cr_tool = tool, cr_write_capable = writes,
          cr_policy = \<lparr>granted = items grants, write_granted = items wgrants\<rparr>, cr_arguments = args\<rparr> gw of
        (r, gw') \<Rightarrow> (case gx_lost X (length (gw_log gw')) of
            Some text_seen \<Rightarrow> (Inl (False, text_seen), gw')
          | None \<Rightarrow> (case r of
              Inl e \<Rightarrow> (Inl (classify_answer (gx_say X) e), gw')
            | Inr ans \<Rightarrow> (Inr \<lparr>rs_content = content_json ans, rs_redactions = int (redactions ans),
                 rs_fetched = (if is_zero_time (fetched_at_instant ans) then now else fetched_at_instant ans)\<rparr>, gw'))))"

text \<open>\<open>ListTools\<close> of the client, and the handler that shows what an endpoint offers.\<close>

definition client_list ::
  "gateway_link \<Rightarrow> instant \<Rightarrow> string \<Rightarrow> string \<Rightarrow> string \<Rightarrow> gateway_state
     \<Rightarrow> (bool \<times> string + gateway_tool list) \<times> gateway_state" where
  "client_list X now org endpoint credential gw =
     (case list_tools (gx_world X) (gx_allow X) now \<lparr>lr_endpoint = Some (endpoint, credential), lr_org = org\<rparr> gw of
        (r, gw') \<Rightarrow> (case gx_lost X (length (gw_log gw')) of
            Some text_seen \<Rightarrow> (Inl (False, text_seen), gw')
          | None \<Rightarrow> (map_sum (classify_answer (gx_say X)) (\<lambda>ts. ts) r, gw')))"

text \<open>\<open>reason\<close>: the text after the first colon and space.\<close>

definition fail_reason :: "string \<Rightarrow> string" where
  "fail_reason message = (case cut message '': '' of (_, after, found) \<Rightarrow> if found then after else message)"

datatype discover_error = DiscoverInvalid integ_fault | DiscoverRefused string | DiscoverUnavailable string

definition discover_call ::
  "integ_env \<Rightarrow> gateway_link \<Rightarrow> tenant \<Rightarrow> conn_kind \<Rightarrow> string \<Rightarrow> string \<Rightarrow> gateway_state
     \<Rightarrow> (discover_error + itool list) \<times> gateway_state" where
  "discover_call V X t kind endpoint credential gw =
     (case first_fault [require_kind kind, map_option InvalidConn (validate_endpoint (ie_url V) endpoint)] of
        Some e \<Rightarrow> (Inl (DiscoverInvalid e), gw)
      | None \<Rightarrow> (case client_list X (tn_now t) (tn_org t) endpoint credential gw of
          (Inl (refused, message), gw') \<Rightarrow>
            (Inl (if refused then DiscoverRefused (fail_reason message) else DiscoverUnavailable (fail_reason message)), gw')
        | (Inr tools, gw') \<Rightarrow>
            (Inr (map (\<lambda>tool. \<lparr>it_name = gt_name tool, it_desc = gt_description tool,
               it_writes = gt_write_capable tool, it_granted = False\<rparr>) tools), gw')))"

section \<open>A person asks\<close>

datatype fetch_error = NoToolGiven | ArgumentsNotJson | FetchFault integ_fault

definition rolled_back :: "fetch_db \<Rightarrow> integ_fault + fetch \<times> fetch_db \<Rightarrow> (fetch_error + fetch) \<times> fetch_db" where
  "rolled_back db r = (case r of Inl e \<Rightarrow> (Inl (FetchFault e), db) | Inr (f, db') \<Rightarrow> (Inr f, db'))"

definition no_grant_text :: string where "no_grant_text = ''the tool is not granted on this connection''"
definition no_open_text :: string where
  "no_open_text = ''this deployment could not open the stored credential for that connection''"

definition credential_of :: "gcm \<Rightarrow> keyring \<Rightarrow> (string \<times> string) option \<Rightarrow> string \<Rightarrow> secret_error + string" where
  "credential_of G ring sealed cid =
     (case sealed of
        None \<Rightarrow> Inr ''''
      | Some (cipher, kid) \<Rightarrow> if cipher = '''' then Inr '''' else open_credential G ring cipher kid cid)"

definition fetch_granted ::
  "integ_env \<Rightarrow> gcm \<Rightarrow> keyring \<Rightarrow> gateway_link \<Rightarrow> access_db \<Rightarrow> tenant \<Rightarrow> string \<Rightarrow> string \<Rightarrow> string \<Rightarrow> string \<Rightarrow> string
     \<Rightarrow> instant \<Rightarrow> connection \<Rightarrow> itool \<Rightarrow> fetch_db \<times> gateway_state \<Rightarrow> (fetch_error + fetch) \<times> fetch_db \<times> gateway_state" where
  "fetch_granted V G ring X a t eid fid cid tool args moment c offer st =
     (case st of (db, gw) \<Rightarrow>
        (case sealed_credential V a t cid db of
           Inl e \<Rightarrow> (Inl (FetchFault e), db, gw)
         | Inr (endpoint, sealed) \<Rightarrow>
             (case credential_of G ring sealed cid of
                Inl _ \<Rightarrow> (case rolled_back db (record_refusal V a t fid cid tool args OutcomeFailed no_open_text moment (tn_user t) db) of
                    (r, db') \<Rightarrow> (r, db', gw))
              | Inr credential \<Rightarrow>
                  (case client_call X moment (tn_org t) endpoint credential tool args (it_writes offer)
                      (granted_names (cn_tools c)) (write_grants (cn_tools c)) gw of
                     (Inl (refused, message), gw') \<Rightarrow>
                       (case rolled_back db (record_refusal V a t fid cid tool args
                           (if refused then OutcomeRefused else OutcomeFailed) (fail_reason message) moment (tn_user t) db) of
                          (r, db') \<Rightarrow> (r, db', gw'))
                   | (Inr res, gw') \<Rightarrow>
                       (case rolled_back db (record_observation V a t eid fid cid tool args (rs_content res) (rs_redactions res)
                           (rs_fetched res) moment (tn_user t) db) of
                          (r, db') \<Rightarrow> (r, db', gw'))))))"

definition fetch_now ::
  "integ_env \<Rightarrow> gcm \<Rightarrow> keyring \<Rightarrow> gateway_link \<Rightarrow> access_db \<Rightarrow> tenant \<Rightarrow> string \<Rightarrow> string \<Rightarrow> string \<Rightarrow> string \<Rightarrow> string
     \<Rightarrow> instant \<Rightarrow> fetch_db \<times> gateway_state \<Rightarrow> (fetch_error + fetch) \<times> fetch_db \<times> gateway_state" where
  "fetch_now V G ring X a t eid fid cid raw_tool raw_args moment st =
     (let tool = trim_space raw_tool;
          args = (if trim_space raw_args = '''' then ''{}'' else trim_space raw_args)
      in if tool = '''' then (Inl NoToolGiven, st)
         else if \<not> ie_json V args then (Inl ArgumentsNotJson, st)
         else (case connection_read V a t cid (fst st) of
             Inl e \<Rightarrow> (Inl (FetchFault e), st)
           | Inr c \<Rightarrow>
               if cn_status c \<noteq> StatusActive then (Inl (FetchFault ConnRevoked), st)
               else (case find_tool (cn_tools c) tool of
                   None \<Rightarrow> (case rolled_back (fst st) (record_refusal V a t fid cid tool args OutcomeRefused no_grant_text moment
                         (tn_user t) (fst st)) of (r, db') \<Rightarrow> (r, db', snd st))
                 | Some offer \<Rightarrow>
                     if \<not> it_granted offer
                     then (case rolled_back (fst st) (record_refusal V a t fid cid tool args OutcomeRefused no_grant_text moment
                         (tn_user t) (fst st)) of (r, db') \<Rightarrow> (r, db', snd st))
                     else fetch_granted V G ring X a t eid fid cid tool args moment c offer st)))"

section \<open>What a machine deposits\<close>

record fetch_record =
  fx_org :: string
  fx_conn :: string
  fx_tool :: string
  fx_args :: string
  fx_content :: string
  fx_outcome :: string
  fx_detail :: string
  fx_redactions :: int
  fx_observed :: "instant option"
  fx_requested :: "instant option"

record deposit =
  dp_evidence :: "string option"
  dp_fetch :: string
  dp_new :: bool

definition observes :: "fetch_record \<Rightarrow> bool" where
  "observes x \<longleftrightarrow> fx_outcome x = OutcomeSucceeded \<and> fx_content x \<noteq> ''''"

text \<open>The newest observation of one kind through one connection that nothing replaced.\<close>

definition last_observation :: "fetch_record \<Rightarrow> fetch_db \<Rightarrow> evidence_row option" where
  "last_observation x db =
     newest_row ev_fetched (filter (\<lambda>e. ev_org e = fx_org x \<and> ev_conn e = fx_conn x
         \<and> ev_kind e = ''integration.'' @ fx_tool x \<and> \<not> ev_superseded e) (fd_evidence db))"

definition same_as_last :: "integ_env \<Rightarrow> fetch_record \<Rightarrow> fetch_db \<Rightarrow> string option" where
  "same_as_last V x db =
     (if \<not> observes x then None
      else (case last_observation x db of
          None \<Rightarrow> None
        | Some e \<Rightarrow> if ev_hash e = sha256 (ie_pg V) (fx_content x) then Some (ev_id e) else None))"

definition observation_row :: "integ_env \<Rightarrow> instant \<Rightarrow> string \<Rightarrow> fetch_record \<Rightarrow> evidence_row" where
  "observation_row V now eid x =
     \<lparr>ev_id = eid, ev_org = fx_org x, ev_conn = fx_conn x,
      ev_observed = (case fx_observed x of None \<Rightarrow> now | Some moment \<Rightarrow> moment), ev_fetched = now,
      ev_kind = ''integration.'' @ fx_tool x, ev_body = fx_content x,
      ev_hash = sha256 (ie_pg V) (fx_content x), ev_superseded = False\<rparr>"

definition attempt_row :: "instant \<Rightarrow> string \<Rightarrow> string option \<Rightarrow> fetch_record \<Rightarrow> fetch_row" where
  "attempt_row now fid evidence x =
     (let observed = (case fx_observed x of None \<Rightarrow> now | Some moment \<Rightarrow> moment)
      in \<lparr>fr_id = fid, fr_org = fx_org x, fr_conn = fx_conn x, fr_tool = fx_tool x,
          fr_args = (if fx_args x = '''' then ''{}'' else fx_args x),
          fr_requested = (case fx_requested x of None \<Rightarrow> observed | Some moment \<Rightarrow> moment), fr_finished = now,
          fr_outcome = fx_outcome x, fr_detail = (if fx_detail x = '''' then None else Some (fx_detail x)),
          fr_evidence = evidence, fr_redactions = fx_redactions x, fr_by = None\<rparr>)"

definition ingest_evidence ::
  "integ_env \<Rightarrow> instant \<Rightarrow> string \<Rightarrow> string \<Rightarrow> fetch_record \<Rightarrow> fetch_db \<Rightarrow> integ_fault + deposit \<times> fetch_db" where
  "ingest_evidence V now eid fid x db =
     (if (fx_args x \<noteq> '''' \<and> \<not> ie_json V (fx_args x)) \<or> (fx_content x \<noteq> '''' \<and> \<not> ie_json V (fx_content x))
      then Inl StoreBroken
      else
        (let known = same_as_last V x db; new = observes x \<and> known = None;
             evidence = (if new then Some eid else known);
             db1 = (if new then db\<lparr>fd_evidence := fd_evidence db @ [observation_row V now eid x]\<rparr> else db);
             f = attempt_row now fid evidence x
         in if new \<and> (\<not> ie_jsonb V (fx_content x) \<or> \<not> pg_text (ie_pg V) (fx_tool x)) then Inl StoreBroken
            else if \<not> fetch_row_ok V f \<or> \<not> list_ex (\<lambda>r. in_id r = fx_conn x) (fd_integrations db) then Inl StoreBroken
            else Inr (\<lparr>dp_evidence = evidence, dp_fetch = fid, dp_new = new\<rparr>,
                 db1\<lparr>fd_fetches := fd_fetches db1 @ [f]\<rparr>)))"

datatype ingest_error = BadOrgId | BadConnId | IngestNoTool | BadOutcome | DetailMissing | ContentUnasked
  | ContentNotJson | ArgsNotJson | NegativeRedactions | IngestBroken

text \<open>\<open>IngestEvidence\<close>, the handler: what it asks of a deposit before the store sees it.\<close>

definition ingest_check :: "integ_env \<Rightarrow> fetch_record \<Rightarrow> ingest_error + fetch_record" where
  "ingest_check V m =
     (case (go_uuid (ie_pg V) (trim_space (fx_org m)), go_uuid (ie_pg V) (trim_space (fx_conn m))) of
        (None, _) \<Rightarrow> Inl BadOrgId
      | (Some _, None) \<Rightarrow> Inl BadConnId
      | (Some org, Some conn) \<Rightarrow>
          (let tool = trim_space (fx_tool m); outcome = trim_space (fx_outcome m); detail = trim_space (fx_detail m);
               content = trim_space (fx_content m); args = trim_space (fx_args m)
           in if tool = '''' then Inl IngestNoTool
              else if outcome \<notin> {OutcomeSucceeded, OutcomeRefused, OutcomeFailed} then Inl BadOutcome
              else if outcome \<noteq> OutcomeSucceeded \<and> detail = '''' then Inl DetailMissing
              else if outcome \<noteq> OutcomeSucceeded \<and> content \<noteq> '''' then Inl ContentUnasked
              else if content \<noteq> '''' \<and> \<not> ie_json V content then Inl ContentNotJson
              else if args \<noteq> '''' \<and> \<not> ie_json V args then Inl ArgsNotJson
              else if fx_redactions m < 0 then Inl NegativeRedactions
              else Inr (m\<lparr>fx_org := org, fx_conn := conn, fx_tool := tool, fx_args := args, fx_content := content,
                     fx_outcome := outcome, fx_detail := detail\<rparr>)))"

definition ingest_call ::
  "integ_env \<Rightarrow> instant \<Rightarrow> string \<Rightarrow> string \<Rightarrow> fetch_record \<Rightarrow> fetch_db \<Rightarrow> ingest_error + deposit \<times> fetch_db" where
  "ingest_call V now eid fid m db =
     (case ingest_check V m of
        Inl e \<Rightarrow> Inl e
      | Inr x \<Rightarrow> map_sum (\<lambda>_. IngestBroken) (\<lambda>r. r) (ingest_evidence V now eid fid x db))"

section \<open>The schedule\<close>

definition EvidenceStaleAfter :: duration where "EvidenceStaleAfter = 24 * hour"
definition RequestWindow :: duration where "RequestWindow = hour"
definition DefaultListLimit :: int where "DefaultListLimit = 200"
definition MaxListLimit :: int where "MaxListLimit = 1000"
definition scheduledArguments :: string where "scheduledArguments = ''{}''"

text \<open>\<open>fetch_targets\<close>: the two arms of what is due, over every organisation.\<close>

definition stale_pair :: "duration \<Rightarrow> instant \<Rightarrow> string \<Rightarrow> string \<Rightarrow> fetch_db \<Rightarrow> bool" where
  "stale_pair stale now i tool db \<longleftrightarrow>
     \<not> list_ex (\<lambda>f. fr_conn f = i \<and> fr_tool f = tool \<and> fr_requested f > now - stale) (fd_fetches db)"

definition asked_pair :: "duration \<Rightarrow> instant \<Rightarrow> string \<Rightarrow> string \<Rightarrow> fetch_db \<Rightarrow> bool" where
  "asked_pair window now i tool db \<longleftrightarrow>
     list_ex (\<lambda>r. ak_conn r = i \<and> ak_tool r = tool \<and> ak_at r > now - window
         \<and> \<not> list_ex (\<lambda>f. fr_conn f = i \<and> fr_tool f = tool \<and> fr_requested f \<ge> ak_at r) (fd_fetches db)) (fd_asks db)"

definition due_pair :: "duration \<Rightarrow> duration \<Rightarrow> instant \<Rightarrow> fetch_db \<Rightarrow> integration_row \<times> tool_row \<Rightarrow> bool" where
  "due_pair stale window now db p =
     (case p of (i, offer) \<Rightarrow> tr_conn offer = in_id i \<and> in_status i = StatusActive \<and> tr_granted offer \<noteq> None \<and> \<not> tr_writes offer
        \<and> (stale_pair stale now (in_id i) (tr_name offer) db \<or> asked_pair window now (in_id i) (tr_name offer) db))"

definition fetch_targets ::
  "integ_env \<Rightarrow> duration \<Rightarrow> duration \<Rightarrow> nat \<Rightarrow> instant \<Rightarrow> fetch_db \<Rightarrow> (string \<times> string \<times> string) list" where
  "fetch_targets V stale window limit now db =
     take limit (map (\<lambda>(i, offer). (in_org i, in_id i, tr_name offer))
       (sort_key (\<lambda>(i, offer). (in_org i, in_id i, ie_collate V (tr_name offer)))
         (filter (due_pair stale window now db) (List.product (fd_integrations db) (fd_tools db)))))"

definition list_targets_call :: "integ_env \<Rightarrow> int \<Rightarrow> instant \<Rightarrow> fetch_db \<Rightarrow> (string \<times> string \<times> string) list" where
  "list_targets_call V limit now db =
     fetch_targets V EvidenceStaleAfter RequestWindow
       (nat (if limit \<le> 0 then DefaultListLimit else if limit > MaxListLimit then MaxListLimit else limit)) now db"

text \<open>\<open>integration_fetch_context\<close>: the organisation and the person whose consent is the newest.\<close>

definition fetch_context :: "string \<Rightarrow> fetch_db \<Rightarrow> (string \<times> string option) option" where
  "fetch_context i db =
     map_option (\<lambda>r. (in_org r, case newest_row cs_at (filter (\<lambda>c. cs_conn c = i) (fd_consents db)) of
         Some c \<Rightarrow> Some (cs_by c) | None \<Rightarrow> in_created_by r))
       (find (\<lambda>r. in_id r = i) (fd_integrations db))"

record fetch_plan =
  pn_endpoint :: string
  pn_sealed :: "(string \<times> string) option"
  pn_tool :: itool
  pn_granted :: "string list option"
  pn_write_granted :: "string list option"

datatype plan_fault = PlanFault integ_fault | PlanNotGranted

text \<open>\<open>FetchPlan\<close>: the organisation, empty when nothing was found, and the plan or what stopped it.\<close>

definition plan_fetch ::
  "integ_env \<Rightarrow> access_db \<Rightarrow> instant \<Rightarrow> string \<Rightarrow> string \<Rightarrow> fetch_db \<Rightarrow> string \<times> (plan_fault + fetch_plan)" where
  "plan_fetch V a now cid tool db =
     (case go_uuid (ie_pg V) cid of
        None \<Rightarrow> ('''', Inl (PlanFault NoConnection))
      | Some i \<Rightarrow> (case fetch_context i db of
          None \<Rightarrow> ('''', Inl (PlanFault NoConnection))
        | Some (org, None) \<Rightarrow> (org, Inl PlanNotGranted)
        | Some (org, Some who) \<Rightarrow>
            (org, let t = \<lparr>tn_user = who, tn_org = org, tn_role = '''', tn_now = now\<rparr>
              in case connection_read V a t cid db of
                   Inl e \<Rightarrow> Inl (PlanFault e)
                 | Inr c \<Rightarrow> (case find_tool (cn_tools c) tool of
                     None \<Rightarrow> Inl PlanNotGranted
                   | Some offer \<Rightarrow>
                       if \<not> it_granted offer then Inl PlanNotGranted
                       else (case sealed_credential V a t cid db of
                           Inl e \<Rightarrow> Inl (PlanFault e)
                         | Inr (endpoint, sealed) \<Rightarrow>
                             Inr \<lparr>pn_endpoint = endpoint, pn_sealed = sealed, pn_tool = offer,
                                  pn_granted = granted_names (cn_tools c),
                                  pn_write_granted = write_grants (cn_tools c)\<rparr>)))))"

datatype schedule_error = ScheduleBadId | ScheduleNoTool | ScheduleNotFound | ScheduleBroken

definition revoked_text :: string where
  "revoked_text = ''this connection has been revoked, so it is no longer fetched''"
definition left_text :: string where
  "left_text = ''the person who consented to this connection is no longer a member of this organisation, ''
     @ ''so a scheduled fetch has nobody's authority to run under''"

definition deposit_call ::
  "integ_env \<Rightarrow> instant \<Rightarrow> string \<Rightarrow> string \<Rightarrow> fetch_record \<Rightarrow> fetch_db \<Rightarrow> (schedule_error + string \<times> deposit) \<times> fetch_db" where
  "deposit_call V now eid fid x db =
     (case ingest_evidence V now eid fid x db of
        Inl _ \<Rightarrow> (Inl ScheduleBroken, db)
      | Inr (d, db') \<Rightarrow> (Inr (fx_outcome x, d), db'))"

definition record_call ::
  "integ_env \<Rightarrow> instant \<Rightarrow> string \<Rightarrow> string \<Rightarrow> string \<Rightarrow> string \<Rightarrow> string \<Rightarrow> string \<Rightarrow> string \<Rightarrow> fetch_db
     \<Rightarrow> (schedule_error + string \<times> deposit) \<times> fetch_db" where
  "record_call V now eid fid org cid tool result detail db =
     (case (go_uuid (ie_pg V) org, go_uuid (ie_pg V) cid) of
        (Some o1, Some c1) \<Rightarrow> deposit_call V now eid fid
          \<lparr>fx_org = o1, fx_conn = c1, fx_tool = tool, fx_args = scheduledArguments, fx_content = '''',
           fx_outcome = result, fx_detail = detail, fx_redactions = 0, fx_observed = None, fx_requested = Some now\<rparr> db
      | _ \<Rightarrow> (Inl ScheduleBroken, db))"

text \<open>The message of an ungranted tool and of a writing one, which quote the tool's name with \<open>%q\<close>.\<close>

definition not_granted_text :: "(string \<Rightarrow> string) \<Rightarrow> string \<Rightarrow> string" where
  "not_granted_text quote tool = ''the tool '' @ quote tool @ '' is not granted on this connection''"
definition writes_text :: "(string \<Rightarrow> string) \<Rightarrow> string \<Rightarrow> string" where
  "writes_text quote tool = ''the tool '' @ quote tool @ '' can write, and a scheduled fetch only reads''"

definition planned_fetch ::
  "integ_env \<Rightarrow> gcm \<Rightarrow> keyring \<Rightarrow> gateway_link \<Rightarrow> (string \<Rightarrow> string) \<Rightarrow> instant \<Rightarrow> string \<Rightarrow> string \<Rightarrow> string \<Rightarrow> string \<Rightarrow> string
     \<Rightarrow> fetch_plan \<Rightarrow> fetch_db \<times> gateway_state \<Rightarrow> (schedule_error + string \<times> deposit) \<times> fetch_db \<times> gateway_state" where
  "planned_fetch V G ring X quote now eid fid org cid tool p st =
     (case st of (db, gw) \<Rightarrow>
        if it_writes (pn_tool p)
        then (case record_call V now eid fid org cid tool OutcomeRefused (writes_text quote tool) db of (r, db') \<Rightarrow> (r, db', gw))
        else (case credential_of G ring (pn_sealed p) cid of
            Inl _ \<Rightarrow> (case record_call V now eid fid org cid tool OutcomeFailed no_open_text db of (r, db') \<Rightarrow> (r, db', gw))
          | Inr credential \<Rightarrow>
              (case client_call X now org (pn_endpoint p) credential tool scheduledArguments False
                  (pn_granted p) (pn_write_granted p) gw of
                 (Inl (refused, message), gw') \<Rightarrow>
                   (case record_call V now eid fid org cid tool (if refused then OutcomeRefused else OutcomeFailed)
                       (fail_reason message) db of (r, db') \<Rightarrow> (r, db', gw'))
               | (Inr res, gw') \<Rightarrow>
                   (case deposit_call V now eid fid
                       \<lparr>fx_org = (case go_uuid (ie_pg V) org of None \<Rightarrow> '''' | Some o1 \<Rightarrow> o1),
                        fx_conn = (case go_uuid (ie_pg V) cid of None \<Rightarrow> '''' | Some c1 \<Rightarrow> c1),
                        fx_tool = tool, fx_args = scheduledArguments, fx_content = rs_content res,
                        fx_outcome = OutcomeSucceeded, fx_detail = '''', fx_redactions = rs_redactions res,
                        fx_observed = Some (rs_fetched res), fx_requested = Some now\<rparr> db of
                      (r, db') \<Rightarrow> (r, db', gw')))))"

definition run_scheduled ::
  "integ_env \<Rightarrow> gcm \<Rightarrow> keyring \<Rightarrow> gateway_link \<Rightarrow> (string \<Rightarrow> string) \<Rightarrow> access_db \<Rightarrow> instant \<Rightarrow> string \<Rightarrow> string \<Rightarrow> string \<Rightarrow> string
     \<Rightarrow> fetch_db \<times> gateway_state \<Rightarrow> (schedule_error + string \<times> deposit) \<times> fetch_db \<times> gateway_state" where
  "run_scheduled V G ring X quote a now eid fid raw_cid raw_tool st =
     (let cid = trim_space raw_cid; tool = trim_space raw_tool
      in if go_uuid (ie_pg V) cid = None then (Inl ScheduleBadId, st)
         else if tool = '''' then (Inl ScheduleNoTool, st)
         else (case plan_fetch V a now cid tool (fst st) of
             (org, Inr p) \<Rightarrow> planned_fetch V G ring X quote now eid fid org cid tool p st
           | (org, Inl f) \<Rightarrow>
               (let refuse = (\<lambda>why. case record_call V now eid fid org cid tool OutcomeRefused why (fst st) of
                        (r, db') \<Rightarrow> (r, db', snd st))
                in case f of
                     PlanFault NoConnection \<Rightarrow> if org = '''' then (Inl ScheduleNotFound, st) else refuse left_text
                   | PlanFault ConnRevoked \<Rightarrow> refuse revoked_text
                   | PlanNotGranted \<Rightarrow> refuse (not_granted_text quote tool)
                   | _ \<Rightarrow> (Inl ScheduleBroken, st))))"

section \<open>An agent asks\<close>

definition fetchCooldown :: duration where "fetchCooldown = hour"
definition fetchPendingWindow :: duration where "fetchPendingWindow = hour"
definition maxFetchReason :: nat where "maxFetchReason = 500"

datatype ask_state = AskQueued | AskAlreadyQueued | AskRecentlyFetched

record fetch_ask =
  as_state :: ask_state
  as_request :: string
  as_name :: string
  as_outcome :: string
  as_attempt :: instant

datatype ask_error = AskBadOrg | AskNoConnection | AskRevoked | AskNotGranted | AskWrites | AskBroken
  | AskOrgMissing | AskConnMissing | AskToolMissing | AskReasonTooLong

definition request_fetch ::
  "integ_env \<Rightarrow> instant \<Rightarrow> string \<Rightarrow> string \<Rightarrow> string \<Rightarrow> string \<Rightarrow> string \<Rightarrow> instant \<Rightarrow> instant \<Rightarrow> fetch_db
     \<Rightarrow> ask_error + fetch_ask \<times> fetch_db" where
  "request_fetch V now rid org cid tool why attempted_since pending_since db =
     (case (go_uuid (ie_pg V) org, go_uuid (ie_pg V) cid) of
        (None, _) \<Rightarrow> Inl AskBadOrg
      | (Some _, None) \<Rightarrow> Inl AskNoConnection
      | (Some o1, Some c1) \<Rightarrow>
          (case find (\<lambda>r. in_id r = c1 \<and> in_org r = o1) (fd_integrations db) of
             None \<Rightarrow> Inl AskNoConnection
           | Some r \<Rightarrow>
               if in_status r \<noteq> StatusActive then Inl AskRevoked
               else (case find (\<lambda>x. tr_conn x = c1 \<and> tr_org x = o1 \<and> tr_name x = tool) (fd_tools db) of
                   None \<Rightarrow> Inl AskNotGranted
                 | Some offer \<Rightarrow>
                     if tr_granted offer = None then Inl AskNotGranted
                     else if tr_writes offer then Inl AskWrites
                     else (case newest_row fr_requested (filter (\<lambda>f. fr_org f = o1 \<and> fr_conn f = c1 \<and> fr_tool f = tool
                               \<and> fr_requested f > attempted_since) (fd_fetches db)) of
                         Some f \<Rightarrow> Inr (\<lparr>as_state = AskRecentlyFetched, as_request = '''', as_name = in_name r,
                             as_outcome = fr_outcome f, as_attempt = fr_requested f\<rparr>, db)
                       | None \<Rightarrow> (case newest_row ak_at (filter (\<lambda>k. ak_org k = o1 \<and> ak_conn k = c1 \<and> ak_tool k = tool
                               \<and> ak_at k > pending_since) (fd_asks db)) of
                           Some k \<Rightarrow> Inr (\<lparr>as_state = AskAlreadyQueued, as_request = ak_id k, as_name = in_name r,
                               as_outcome = '''', as_attempt = zero_time\<rparr>, db)
                         | None \<Rightarrow>
                             if \<not> pg_text (ie_pg V) tool \<or> \<not> pg_text (ie_pg V) why \<or> \<not> not_blank tool
                                \<or> length (runes why) > maxFetchReason then Inl AskBroken
                             else Inr (\<lparr>as_state = AskQueued, as_request = rid, as_name = in_name r,
                                 as_outcome = '''', as_attempt = zero_time\<rparr>,
                               db\<lparr>fd_asks := fd_asks db @ [\<lparr>ak_id = rid, ak_org = o1, ak_conn = c1, ak_tool = tool,
                                 ak_reason = why, ak_at = now\<rparr>]\<rparr>))))))"

definition ago :: "duration \<Rightarrow> string" where
  "ago d =
     (let minutes = (if d < 0 then - ((- d) div minute) else d div minute)
      in if minutes < 1 then ''less than a minute ago''
         else if minutes = 1 then ''1 minute ago''
         else itoa minutes @ '' minutes ago'')"

definition acknowledge :: "(string \<Rightarrow> string) \<Rightarrow> fetch_ask \<Rightarrow> string \<Rightarrow> instant \<Rightarrow> string" where
  "acknowledge quote ask tool now =
     (let where_text = (if as_name ask \<noteq> '''' then tool @ '' on '' @ quote (as_name ask) else tool);
          age = ago (time_sub now (as_attempt ask))
      in case as_state ask of
           AskAlreadyQueued \<Rightarrow> ''a fetch of '' @ where_text @ '' is already queued and has not run yet; ''
             @ ''asking again changes nothing''
         | AskRecentlyFetched \<Rightarrow>
             if as_outcome ask = ''succeeded''
             then where_text @ '' was fetched successfully '' @ age @ '', so what it reported ''
               @ ''is already stored; read it with read_evidence''
             else ''the last fetch of '' @ where_text @ '', '' @ age @ '', '' @ as_outcome ask
               @ ''; it is not retried this soon''
         | AskQueued \<Rightarrow> ''queued: a fetch of '' @ where_text @ '' will run in the background and ''
             @ ''deposit what it reports. This run will not see the result; what is ''
             @ ''already stored is readable now with read_evidence, and the next sweep ''
             @ ''will see what this fetch deposits'')"

definition request_fetch_call ::
  "integ_env \<Rightarrow> (string \<Rightarrow> string) \<Rightarrow> instant \<Rightarrow> string \<Rightarrow> string \<Rightarrow> string \<Rightarrow> string \<Rightarrow> string \<Rightarrow> fetch_db
     \<Rightarrow> (ask_error + ask_state \<times> string \<times> string) \<times> fetch_db" where
  "request_fetch_call V quote now rid org cid raw_tool raw_reason db =
     (let tool = trim_space raw_tool; why = trim_space raw_reason
      in if org = '''' then (Inl AskOrgMissing, db)
         else if cid = '''' then (Inl AskConnMissing, db)
         else if tool = '''' then (Inl AskToolMissing, db)
         else if length why > maxFetchReason then (Inl AskReasonTooLong, db)
         else (case request_fetch V now rid org cid tool why (now - fetchCooldown) (now - fetchPendingWindow) db of
             Inl e \<Rightarrow> (Inl e, db)
           | Inr (ask, db') \<Rightarrow> (Inr (as_state ask, acknowledge quote ask tool now, as_request ask), db')))"

end
