(* ===== verification/Citations.thy ===== *)
theory Citations
  imports KL_Prelude
begin

text \<open>
  Citations of the regulatory corpus (\<open>internal/domain/corpus/citation.go\<close> and the type
  \<open>Citation\<close> of \<open>corpus.go\<close>): the label a reader sees and the EUR-Lex address the label
  links to.  The label renderer keeps the shape of its plpgsql predecessor, the parenthesis
  it never closes included.
\<close>

record citation =
  cit_kind :: string
  cit_celex :: string
  article_number :: int
  recital_number :: int
  annex_label :: string
  paragraph_label :: string

definition KindArticle :: string where "KindArticle = ''article''"
definition KindRecital :: string where "KindRecital = ''recital''"
definition KindAnnex :: string where "KindAnnex = ''annex''"

lemmas citation_kinds = KindArticle_def KindRecital_def KindAnnex_def

definition regulation_abbrev :: "string \<Rightarrow> string" where
  "regulation_abbrev celex =
     (if celex = ''32016R0679'' then ''GDPR''
      else if celex = ''32024R1689'' then ''EU AI Act''
      else celex)"

definition citation_label :: "citation \<Rightarrow> string" where
  "citation_label c =
     (let abbrev = regulation_abbrev (cit_celex c) in
      if cit_kind c = KindArticle then
        (if article_number c = 0 then []
         else abbrev @ '' Art. '' @ itoa (article_number c)
              @ (if paragraph_label c \<noteq> [] then ''('' @ replace_byte CHR ''('' '')('' (paragraph_label c)
                 else []))
      else if cit_kind c = KindRecital then
        (if recital_number c = 0 then []
         else abbrev @ '' Recital '' @ itoa (recital_number c))
      else if cit_kind c = KindAnnex then
        (if annex_label c = [] then []
         else abbrev @ '' Annex '' @ annex_label c
              @ (if paragraph_label c \<noteq> [] then '' ('' @ paragraph_label c @ '')'' else []))
      else abbrev)"

text \<open>
  The two groups of \<open>^3(\d{4})R(\d{4})$\<close>, the year and the sequence number of a regulation.
\<close>

definition celex_regulation :: "string \<Rightarrow> (string \<times> string) option" where
  "celex_regulation s =
     (if length s = 10 \<and> s ! 0 = CHR ''3'' \<and> s ! 5 = CHR ''R''
         \<and> list_all is_digit (take 4 (drop 1 s)) \<and> list_all is_digit (drop 6 s)
      then Some (take 4 (drop 1 s), drop 6 s) else None)"

definition eli_prefix :: string where
  "eli_prefix = ''https://eur-lex.europa.eu/eli/reg/''"

definition citation_url :: "citation \<Rightarrow> string" where
  "citation_url c =
     (case celex_regulation (cit_celex c) of
        None \<Rightarrow> []
      | Some (year, seq) \<Rightarrow>
          (let base = eli_prefix @ year @ ''/''
                      @ digits_of (nat_of_digits seq) @ ''/oj'' in
           if cit_kind c = KindArticle then
             (if article_number c = 0 then [] else base @ ''#art_'' @ itoa (article_number c))
           else if cit_kind c = KindRecital then
             (if recital_number c = 0 then [] else base @ ''#rct_'' @ itoa (recital_number c))
           else if cit_kind c = KindAnnex then
             (if annex_label c = [] then [] else base @ ''#anx_'' @ annex_label c)
           else base))"

text \<open>
  \<open>Target\<close>: the citation as error messages and logs name it.  \<open>quote\<close> is \<open>%q\<close>, which
  consults the Unicode tables for what is printable.
\<close>

definition citation_target :: "(string \<Rightarrow> string) \<Rightarrow> citation \<Rightarrow> string" where
  "citation_target quote c =
     (if cit_kind c = KindArticle then
        cit_celex c @ '' Article '' @ itoa (article_number c)
        @ (if paragraph_label c \<noteq> [] then ''('' @ paragraph_label c @ '')'' else [])
      else if cit_kind c = KindRecital then
        cit_celex c @ '' Recital '' @ itoa (recital_number c)
      else if cit_kind c = KindAnnex then
        cit_celex c @ '' Annex '' @ annex_label c
      else cit_celex c @ '' (unknown citation kind '' @ quote (cit_kind c) @ '')'')"

section \<open>What a citation renders to\<close>

lemma regulation_abbrev_Nil [simp]: "regulation_abbrev c = [] \<longleftrightarrow> c = []"
  by (simp add: regulation_abbrev_def)

lemma citation_kinds_distinct [simp]:
  "KindArticle \<noteq> KindRecital" "KindArticle \<noteq> KindAnnex" "KindRecital \<noteq> KindAnnex"
  "KindRecital \<noteq> KindArticle" "KindAnnex \<noteq> KindArticle" "KindAnnex \<noteq> KindRecital"
  by (simp_all add: citation_kinds)

definition names_target :: "citation \<Rightarrow> bool" where
  "names_target c \<longleftrightarrow>
     (cit_kind c = KindArticle \<longrightarrow> article_number c \<noteq> 0)
     \<and> (cit_kind c = KindRecital \<longrightarrow> recital_number c \<noteq> 0)
     \<and> (cit_kind c = KindAnnex \<longrightarrow> annex_label c \<noteq> [])"

lemma citation_label_empty:
  "cit_celex c \<noteq> [] \<Longrightarrow> citation_label c = [] \<longleftrightarrow> \<not> names_target c"
  by (auto simp: citation_label_def names_target_def Let_def)

lemma celex_regulation_groups:
  "celex_regulation s = Some (y, q) \<Longrightarrow>
     s = CHR ''3'' # y @ CHR ''R'' # q \<and> length y = 4 \<and> length q = 4
     \<and> list_all is_digit y \<and> list_all is_digit q"
proof -
  assume "celex_regulation s = Some (y, q)"
  then have len: "length s = 10" and h: "s ! 0 = CHR ''3''" "s ! 5 = CHR ''R''"
    and y: "y = take 4 (drop 1 s)" and q: "q = drop 6 s"
    and dig: "list_all is_digit y" "list_all is_digit q"
    by (auto simp: celex_regulation_def split: if_splits)
  have "s = s ! 0 # take 4 (drop 1 s) @ s ! 5 # drop 6 s"
    using len
    by (auto simp: numeral_eq_Suc length_Suc_conv)
  with h y q dig len show ?thesis by simp
qed

lemma celex_regulation_intro:
  "length y = 4 \<Longrightarrow> length q = 4 \<Longrightarrow> list_all is_digit y \<Longrightarrow> list_all is_digit q \<Longrightarrow>
     celex_regulation (CHR ''3'' # y @ CHR ''R'' # q) = Some (y, q)"
  by (simp add: celex_regulation_def nth_append nth_Cons')

lemma citation_url_empty:
  "citation_url c = [] \<longleftrightarrow> celex_regulation (cit_celex c) = None \<or> \<not> names_target c"
  by (auto simp: citation_url_def eli_prefix_def names_target_def Let_def split: option.splits)

text \<open>The number of unmatched opening parentheses, closing ones counted negatively.\<close>

definition paren_balance :: "string \<Rightarrow> int" where
  "paren_balance s =
     int (count_list s CHR ''('') - int (count_list s CHR '')'')"

lemma paren_balance_append [simp]: "paren_balance (s @ t) = paren_balance s + paren_balance t"
  by (simp add: paren_balance_def)

lemma paren_balance_Cons [simp]:
  "paren_balance (c # s) =
     (if c = CHR ''('' then 1 else if c = CHR '')'' then -1 else 0) + paren_balance s"
  by (simp add: paren_balance_def)

lemma paren_balance_Nil [simp]: "paren_balance [] = 0"
  by (simp add: paren_balance_def)

lemma paren_balance_replace:
  "paren_balance (replace_byte CHR ''('' '')('' s) = - int (count_list s CHR '')'')"
  by (induction s) (simp_all add: replace_byte_def paren_balance_def)

lemma count_list_notin: "c \<notin> set s \<Longrightarrow> count_list s c = 0"
  by (rule count_notin)

lemma digits_no_paren: "c \<in> {CHR ''('', CHR '')''} \<Longrightarrow> c \<notin> set (digits_of n)"
  using digits_of_digit [of c n] by (auto simp: is_digit_def)

lemma itoa_balance: "paren_balance (itoa n) = 0"
  using digits_no_paren [of "CHR ''(''"] digits_no_paren [of "CHR '')''"]
  by (simp add: itoa_def paren_balance_def count_list_notin)

section \<open>Claims\<close>

lemma digits_slash_unique:
  "digits_of m @ CHR ''/'' # s = digits_of n @ CHR ''/'' # t \<Longrightarrow> m = n \<and> s = t"
proof -
  have "xs = ys \<and> s = t"
    if "xs @ CHR ''/'' # s = ys @ CHR ''/'' # t" "CHR ''/'' \<notin> set xs" "CHR ''/'' \<notin> set ys" for xs ys :: string
    using that
  proof (induction xs arbitrary: ys)
    case Nil
    then show ?case by (cases ys) auto
  next
    case (Cons x xs)
    then show ?case by (cases ys) auto
  qed
  moreover have "CHR ''/'' \<notin> set (digits_of k)" for k
    using digits_of_digit [of "CHR ''/''" k] by (auto simp: is_digit_def)
  ultimately show "digits_of m @ CHR ''/'' # s = digits_of n @ CHR ''/'' # t \<Longrightarrow> m = n \<and> s = t"
    by (metis digits_of_inj)
qed

lemma digit_val_inj: "is_digit c \<Longrightarrow> is_digit d \<Longrightarrow> digit_val c = digit_val d \<Longrightarrow> c = d"
  by (metis digit_val_def is_digit_def le_add_diff_inverse char_of_char)

lemma digit_val_less: "is_digit c \<Longrightarrow> digit_val c < 10"
  by (auto simp: is_digit_def digit_val_def)

lemma nat_of_digits_inj:
  "length s = length t \<Longrightarrow> list_all is_digit s \<Longrightarrow> list_all is_digit t \<Longrightarrow>
     nat_of_digits s = nat_of_digits t \<Longrightarrow> s = t"
proof (induction s arbitrary: t rule: rev_induct)
  case Nil
  then show ?case by simp
next
  case (snoc c s)
  then obtain u d where t: "t = u @ [d]" by (cases t rule: rev_cases) auto
  with snoc.prems have dig: "is_digit c" "is_digit d" by auto
  have eq: "10 * nat_of_digits s + digit_val c = 10 * nat_of_digits u + digit_val d"
    using snoc.prems t by (simp add: nat_of_digits_snoc)
  with digit_val_less [OF dig(1)] digit_val_less [OF dig(2)]
  have "nat_of_digits s = nat_of_digits u \<and> digit_val c = digit_val d" by presburger
  with snoc t digit_val_inj [OF dig] show ?case by auto
qed

lemma base_unique:
  assumes "celex_regulation a = Some (y, q)" and "celex_regulation b = Some (z, r)"
    and "y @ ''/'' @ digits_of (nat_of_digits q) @ ''/oj'' @ s
       = z @ ''/'' @ digits_of (nat_of_digits r) @ ''/oj'' @ t"
  shows "a = b \<and> s = t"
proof -
  note ga = celex_regulation_groups [OF assms(1)] and gb = celex_regulation_groups [OF assms(2)]
  have "y = z" and rest: "digits_of (nat_of_digits q) @ CHR ''/'' # ''oj'' @ s
      = digits_of (nat_of_digits r) @ CHR ''/'' # ''oj'' @ t"
    using assms(3) ga gb by auto
  from digits_slash_unique [OF rest] have "nat_of_digits q = nat_of_digits r" "s = t" by auto
  with ga gb have "q = r" using nat_of_digits_inj [of q r] by simp
  with \<open>y = z\<close> \<open>s = t\<close> ga gb show ?thesis by simp
qed

text \<open>What follows the base of an address, for a citation that names its target.\<close>

definition citation_suffix :: "citation \<Rightarrow> string" where
  "citation_suffix e =
     (if cit_kind e = KindArticle then ''#art_'' @ itoa (article_number e)
      else if cit_kind e = KindRecital then ''#rct_'' @ itoa (recital_number e)
      else ''#anx_'' @ annex_label e)"

lemma citation_url_form:
  assumes "celex_regulation (cit_celex e) = Some (y, q)" and "names_target e"
    and "cit_kind e \<in> {KindArticle, KindRecital, KindAnnex}"
  shows "citation_url e =
     eli_prefix @ y @ ''/'' @ digits_of (nat_of_digits q) @ ''/oj'' @ citation_suffix e"
  using assms by (auto simp: citation_url_def citation_suffix_def names_target_def Let_def)

text \<open>What an address can say: the regulation, the kind and the number or label.\<close>

definition cited_target :: "citation \<Rightarrow> string \<times> string \<times> int \<times> int \<times> string" where
  "cited_target c =
     (cit_celex c, cit_kind c,
      if cit_kind c = KindArticle then article_number c else 0,
      if cit_kind c = KindRecital then recital_number c else 0,
      if cit_kind c = KindAnnex then annex_label c else [])"

text \<open>
  A EUR-Lex address identifies what is cited: two citations of an article, a recital or an
  annex that render to the same non-empty address cite the same provision of the same
  regulation.
\<close>

theorem citation_url_identifies_target:
  assumes "citation_url c = citation_url d" and "citation_url c \<noteq> []"
    and "cit_kind c \<in> {KindArticle, KindRecital, KindAnnex}"
    and "cit_kind d \<in> {KindArticle, KindRecital, KindAnnex}"
  shows "cited_target c = cited_target d"
proof -
  have "citation_url d \<noteq> []" using assms(1,2) by simp
  with assms(2) obtain y q z r where
    c: "celex_regulation (cit_celex c) = Some (y, q)" and d: "celex_regulation (cit_celex d) = Some (z, r)"
    and n: "names_target c" "names_target d"
    by (auto simp: citation_url_empty)
  from assms(1) have "y @ ''/'' @ digits_of (nat_of_digits q) @ ''/oj'' @ citation_suffix c
      = z @ ''/'' @ digits_of (nat_of_digits r) @ ''/oj'' @ citation_suffix d"
    unfolding citation_url_form [OF c n(1) assms(3)] citation_url_form [OF d n(2) assms(4)]
    by (simp only: same_append_eq)
  from base_unique [OF c d this] have "citation_suffix c = citation_suffix d" "cit_celex c = cit_celex d"
    by auto
  with assms(3,4) show ?thesis
    by (auto simp: cited_target_def citation_suffix_def itoa_inj split: if_splits)
qed

definition example_citation :: citation where
  "example_citation = \<lparr>cit_kind = ''article'', cit_celex = ''32016R0679'', article_number = 30,
     recital_number = 0, annex_label = [], paragraph_label = ''1''\<rparr>"

theorem citation_url_identifies_target_witness:
  "citation_url example_citation = ''https://eur-lex.europa.eu/eli/reg/2016/679/oj#art_30''
   \<and> cited_target example_citation = cited_target (example_citation\<lparr>paragraph_label := ''2''\<rparr>)"
proof -
  have u: "citation_url example_citation = ''https://eur-lex.europa.eu/eli/reg/2016/679/oj#art_30''"
    by code_simp
  have v: "citation_url (example_citation\<lparr>paragraph_label := ''2''\<rparr>) = citation_url example_citation"
    by code_simp
  show ?thesis
    using u v citation_url_identifies_target [of example_citation "example_citation\<lparr>paragraph_label := ''2''\<rparr>"]
    by (simp add: example_citation_def citation_kinds)
qed

text \<open>
  An article's label with a paragraph closes one parenthesis fewer than it opens unless the
  paragraph's own text closes one: \<open>1\<close> renders as \<open>GDPR Art. 30(1\<close>, and \<open>1(a)\<close> balances.
\<close>

theorem article_label_parentheses:
  assumes "cit_kind c = KindArticle" and "article_number c \<noteq> 0" and "paragraph_label c \<noteq> []"
    and "paren_balance (regulation_abbrev (cit_celex c)) = 0"
  shows "paren_balance (citation_label c) = 1 - int (count_list (paragraph_label c) CHR '')'')"
  using assms by (simp add: citation_label_def Let_def itoa_balance paren_balance_replace)

theorem article_label_parentheses_witness:
  "citation_label example_citation = ''GDPR Art. 30(1'' \<and> paren_balance (citation_label example_citation) = 1"
proof -
  have "citation_label example_citation = ''GDPR Art. 30(1''" by code_simp
  moreover have "paren_balance (citation_label example_citation) = 1"
    using article_label_parentheses [of example_citation]
    by (simp add: example_citation_def citation_kinds regulation_abbrev_def)
  ultimately show ?thesis by simp
qed

end
