(* ===== verification/Watcher.thy ===== *)
theory Watcher
  imports Go_Time Citations
begin

text \<open>
  The Watcher's deterministic detectors and the Analyst's conversion
  (\<open>internal/domain/sweep\<close>): \<open>sweep.go\<close> (the data), \<open>detect.go\<close> (which signals a profile
  raises) and \<open>analyst.go\<close> (the finding a signal becomes).  Everything is a pure function of
  its inputs, today's date and the current instant included.
\<close>

section \<open>Data (sweep.go)\<close>

record profile =
  pf_id :: string
  pf_org :: string
  has_dpo :: string
  has_ropa :: string
  transfers_outside_eu :: string
  ai_systems :: "string list"
  transfer_destinations :: "string list"
  data_categories :: "string list"
  vendor_list :: string

record obligation =
  ob_slug :: string
  ob_title :: string
  ob_severity :: string
  effective_date :: "date option"
  requires :: "string list"

record dsar =
  ds_id :: string
  subject_name :: "string option"
  response_due_at :: instant
  due_date :: date

text \<open>The values a signal's metadata holds: \<open>map[string]any\<close>, in the order it is written.\<close>

datatype meta = MInt int | MStr string | MBool bool | MList "string list"

record signal =
  sg_kind :: string
  dedup_key :: string
  sg_title :: string
  sg_detail :: string
  sg_severity :: string
  obligation_slug :: string
  metadata :: "(string \<times> meta) list"

record inputs =
  in_profile :: profile
  in_obligations :: "obligation list"
  in_dsars :: "dsar list"
  dismissed_gap_keys :: "string \<Rightarrow> bool"
  today :: date
  now :: instant

definition DeadlineWindowDays :: int where "DeadlineWindowDays = 30"
definition EscalationWindowDays :: int where "EscalationWindowDays = 10"

definition KindDeadline :: string where "KindDeadline = ''deadline''"
definition KindProfileGap :: string where "KindProfileGap = ''profile_gap''"
definition KindDSAR :: string where "KindDSAR = ''dsar''"
definition KindRegulatoryUpdate :: string where "KindRegulatoryUpdate = ''regulatory_update''"

lemmas signal_kinds = KindDeadline_def KindProfileGap_def KindDSAR_def KindRegulatoryUpdate_def

definition DataSubjectRightsSlug :: string where
  "DataSubjectRightsSlug = ''gdpr-arts-12-22-data-subject-rights''"

section \<open>The detectors (detect.go)\<close>

definition days_between :: "date \<Rightarrow> date \<Rightarrow> int" where
  "days_between from to =
     whole_days (time_sub (day_number to * day_ns) (day_number from * day_ns))"

definition format_date :: "date \<Rightarrow> string" where
  "format_date d = fmt_0d 4 (year_of d) @ ''-'' @ fmt_0d 2 (month_of d) @ ''-'' @ fmt_0d 2 (day_of d)"

definition plural :: "int \<Rightarrow> string \<Rightarrow> string" where
  "plural n word = (if n = 1 then word else word @ ''s'')"

definition from_subject :: "string option \<Rightarrow> string" where
  "from_subject name = (case name of None \<Rightarrow> [] | Some s \<Rightarrow> if s = [] then [] else '' from '' @ s)"

definition deadline_signal :: "obligation \<Rightarrow> date \<Rightarrow> int \<Rightarrow> signal" where
  "deadline_signal ob effective days =
     \<lparr>sg_kind = KindDeadline,
      dedup_key = ''deadline:obligation:'' @ ob_slug ob,
      sg_title = ob_title ob @ '' takes effect in '' @ itoa days @ '' '' @ plural days ''day'',
      sg_detail = ''This obligation'' @ [CHR 0x27] @ ''s effective date ('' @ format_date effective
        @ '') is within '' @ itoa DeadlineWindowDays @ '' days.'',
      sg_severity = ob_severity ob,
      obligation_slug = ob_slug ob,
      metadata = [(''days_remaining'', MInt days), (''effective_date'', MStr (format_date effective))]\<rparr>"

definition dsar_signal :: "dsar \<Rightarrow> int \<Rightarrow> signal" where
  "dsar_signal d days =
     \<lparr>sg_kind = KindDSAR,
      dedup_key = ''dsar:'' @ ds_id d,
      sg_title = ''DSAR response due in '' @ itoa days @ '' '' @ plural days ''day'',
      sg_detail = ''A data-subject request'' @ from_subject (subject_name d)
        @ '' has a response deadline within '' @ itoa DeadlineWindowDays
        @ '' days and no logged response.'',
      sg_severity = ''medium'',
      obligation_slug = DataSubjectRightsSlug,
      metadata = [(''days_remaining'', MInt days), (''dsar_id'', MStr (ds_id d)),
        (''response_due_at'', MStr (rfc3339_utc (response_due_at d)))]\<rparr>"

fun deadline_obligations :: "date \<Rightarrow> obligation list \<Rightarrow> signal list" where
  "deadline_obligations td [] = []"
| "deadline_obligations td (ob # obs) =
     (case effective_date ob of
        None \<Rightarrow> deadline_obligations td obs
      | Some effective \<Rightarrow>
          (let days = days_between td effective in
           if days < 0 \<or> days > DeadlineWindowDays then deadline_obligations td obs
           else deadline_signal ob effective days # deadline_obligations td obs))"

fun deadline_dsars :: "date \<Rightarrow> instant \<Rightarrow> dsar list \<Rightarrow> signal list" where
  "deadline_dsars td nw [] = []"
| "deadline_dsars td nw (d # ds) =
     (if response_due_at d > nw + DeadlineWindowDays * day_ns then deadline_dsars td nw ds
      else dsar_signal d (days_between td (due_date d)) # deadline_dsars td nw ds)"

definition detect_deadlines :: "inputs \<Rightarrow> signal list" where
  "detect_deadlines i =
     deadline_obligations (today i) (in_obligations i)
     @ deadline_dsars (today i) (now i) (in_dsars i)"

definition gap_satisfied :: "string \<Rightarrow> profile \<Rightarrow> bool" where
  "gap_satisfied token p =
     (if token = ''ropa'' then has_ropa p = ''yes''
      else if token = ''dpo'' then has_dpo p = ''yes''
      else if token = ''ai_register'' then ai_systems p = []
      else if token = ''transfer_safeguards'' then transfer_destinations p \<noteq> []
      else True)"

definition gap_signal :: "obligation \<Rightarrow> string list \<Rightarrow> bool \<Rightarrow> signal" where
  "gap_signal ob missing recurring =
     \<lparr>sg_kind = KindProfileGap,
      dedup_key = ''gap:obligation:'' @ ob_slug ob,
      sg_title = (if recurring then ''Recurring gap: '' else ''Profile gap: '') @ ob_title ob,
      sg_detail =
        (if recurring
         then ''You previously dismissed this finding, but the gap is still present in your profile and maps to an obligation that applies to you. Revisit it or dismiss it again.''
         else ''Your profile indicates this obligation applies, but the corresponding control does not appear to be in place yet.''),
      sg_severity = ob_severity ob,
      obligation_slug = ob_slug ob,
      metadata = [(''missing'', MList missing), (''recurring'', MBool recurring)]\<rparr>"

fun gap_obligations :: "profile \<Rightarrow> (string \<Rightarrow> bool) \<Rightarrow> obligation list \<Rightarrow> signal list" where
  "gap_obligations p dismissed [] = []"
| "gap_obligations p dismissed (ob # obs) =
     (if requires ob = [] then gap_obligations p dismissed obs
      else
        (let missing = filter (\<lambda>token. \<not> gap_satisfied token p) (requires ob) in
         if missing = [] then gap_obligations p dismissed obs
         else gap_signal ob missing (dismissed (''gap:obligation:'' @ ob_slug ob))
              # gap_obligations p dismissed obs))"

definition detect_gaps :: "inputs \<Rightarrow> signal list" where
  "detect_gaps i = gap_obligations (in_profile i) (dismissed_gap_keys i) (in_obligations i)"

definition escalation_signal :: "dsar \<Rightarrow> int \<Rightarrow> signal" where
  "escalation_signal d days =
     \<lparr>sg_kind = KindDSAR,
      dedup_key = ''dsar:'' @ ds_id d,
      sg_title =
        (if days < 0
         then ''DSAR response is '' @ itoa (- days) @ '' '' @ plural (- days) ''day'' @ '' overdue''
         else ''URGENT: DSAR response due in '' @ itoa days @ '' '' @ plural days ''day''),
      sg_detail = ''A data-subject request'' @ from_subject (subject_name d)
        @ (if days < 0
           then '' is past its GDPR Article 12(3) one-month deadline with no logged response.''
           else '' is within '' @ itoa EscalationWindowDays
                @ '' days of its GDPR Article 12(3) one-month deadline with no logged response.''),
      sg_severity = ''critical'',
      obligation_slug = DataSubjectRightsSlug,
      metadata = [(''days_remaining'', MInt days), (''dsar_id'', MStr (ds_id d)),
        (''response_due_at'', MStr (rfc3339_utc (response_due_at d))), (''escalated'', MBool True)]\<rparr>"

fun escalation_dsars :: "date \<Rightarrow> dsar list \<Rightarrow> signal list" where
  "escalation_dsars td [] = []"
| "escalation_dsars td (d # ds) =
     (let days = days_between td (due_date d) in
      if days \<ge> EscalationWindowDays then escalation_dsars td ds
      else escalation_signal d days # escalation_dsars td ds)"

definition detect_dsar_escalation :: "inputs \<Rightarrow> signal list" where
  "detect_dsar_escalation i = escalation_dsars (today i) (in_dsars i)"

definition detect :: "inputs \<Rightarrow> signal list" where
  "detect i = detect_deadlines i @ detect_gaps i @ detect_dsar_escalation i"

section \<open>The conversion (analyst.go)\<close>

definition severity_bands :: "string list" where
  "severity_bands = [''low'', ''medium'', ''high'', ''critical'']"

definition band_of :: "(string \<Rightarrow> string) \<Rightarrow> string \<Rightarrow> int" where
  "band_of uni severity =
     (let s = to_lower uni severity in
      if s = ''low'' then 1 else if s = ''medium'' then 2
      else if s = ''high'' then 3 else if s = ''critical'' then 4 else 0)"

definition sensitive_markers :: "string list" where
  "sensitive_markers =
     [''health'', ''medical'', ''biometric'', ''genetic'', ''financial'', ''bank'', ''payment'',
      ''children'', ''child'', ''racial'', ''ethnic'', ''religious'', ''sexual'', ''criminal'',
      ''political'']"

definition is_sensitive :: "(string \<Rightarrow> string) \<Rightarrow> string \<Rightarrow> bool" where
  "is_sensitive uni category =
     (let lower = to_lower uni category in list_ex (contains_str lower) sensitive_markers)"

text \<open>The arithmetic before the clamp: baseline, proximity, sensitivity, recency.\<close>

definition raw_level ::
  "(string \<Rightarrow> string) \<Rightarrow> string \<Rightarrow> string \<Rightarrow> int option \<Rightarrow> string list \<Rightarrow> int" where
  "raw_level uni baseline kind days cats =
     (let l0 = (if band_of uni baseline = 0 then 2 else band_of uni baseline);
          l1 = (case days of None \<Rightarrow> l0
                | Some d \<Rightarrow> if d < 3 then l0 + 2 else if d < 7 then l0 + 1 else l0);
          l2 = (if list_ex (is_sensitive uni) cats then l1 + 1 else l1)
      in if kind = KindRegulatoryUpdate then l2 + 1 else l2)"

definition severity_level ::
  "(string \<Rightarrow> string) \<Rightarrow> string \<Rightarrow> string \<Rightarrow> string \<Rightarrow> int option \<Rightarrow> string list \<Rightarrow> int" where
  "severity_level uni baseline signal_severity kind days cats =
     (let level = max 1 (min (int (length severity_bands)) (raw_level uni baseline kind days cats));
          sg = band_of uni signal_severity
      in if sg > level then sg else level)"

definition severity ::
  "(string \<Rightarrow> string) \<Rightarrow> string \<Rightarrow> string \<Rightarrow> string \<Rightarrow> int option \<Rightarrow> string list \<Rightarrow> string" where
  "severity uni baseline signal_severity kind days cats =
     severity_bands ! nat (severity_level uni baseline signal_severity kind days cats - 1)"

definition effort :: "string \<Rightarrow> string" where
  "effort kind =
     (if kind = KindDSAR \<or> kind = KindRegulatoryUpdate then ''hours''
      else if kind = KindDeadline \<or> kind = KindProfileGap then ''days''
      else ''hours'')"

definition proposed_action :: "string \<Rightarrow> string" where
  "proposed_action kind =
     (if kind = KindDeadline then ''Review this obligation and prepare to meet its upcoming deadline.''
      else if kind = KindProfileGap then ''Put the missing control in place to satisfy this obligation.''
      else if kind = KindDSAR then ''Prepare and log a response to this data-subject request before its deadline.''
      else if kind = KindRegulatoryUpdate then ''Review this regulatory update and assess its impact on your obligations.''
      else ''Review this finding and take the appropriate action.'')"

record cited_obligation =
  co_id :: string
  co_slug :: string
  co_summary :: string
  co_severity :: string
  co_action_type :: string
  co_citation :: citation

record analysed_signal =
  as_id :: nat
  as_kind :: string
  as_title :: string
  as_dedup_key :: string
  as_severity :: string
  days_remaining :: "int option"
  as_metadata :: "(string \<times> meta) list"

record sweep_finding =
  fd_detected :: string
  fd_severity :: string
  fd_proposed_action :: string
  fd_regulatory_obligation :: string
  fd_citation_url :: string
  fd_supporting_context :: string
  fd_effort :: string
  fd_action_type :: string

definition convert ::
  "(string \<Rightarrow> string) \<Rightarrow> analysed_signal \<Rightarrow> cited_obligation \<Rightarrow> string list \<Rightarrow> sweep_finding" where
  "convert uni s ob cats =
     \<lparr>fd_detected = as_title s,
      fd_severity = severity uni (co_severity ob) (as_severity s) (as_kind s) (days_remaining s) cats,
      fd_proposed_action = proposed_action (as_kind s),
      fd_regulatory_obligation = citation_label (co_citation ob),
      fd_citation_url = citation_url (co_citation ob),
      fd_supporting_context = co_summary ob,
      fd_effort = effort (as_kind s),
      fd_action_type = co_action_type ob\<rparr>"

section \<open>What the detectors raise\<close>

lemma days_between_eq [go_time]:
  "days_between a b = max (- max_days) (min max_days (day_number b - day_number a))"
proof -
  have "days_between a b = whole_days (clamp_duration ((day_number b - day_number a) * day_ns))"
    by (simp add: days_between_def time_sub_def left_diff_distrib)
  then show ?thesis by (simp add: whole_days_midnights)
qed

lemma deadline_obligations_set:
  "s \<in> set (deadline_obligations td obs) \<longleftrightarrow>
     (\<exists>ob' \<in> set obs. \<exists>e. effective_date ob' = Some e
        \<and> 0 \<le> days_between td e \<and> days_between td e \<le> DeadlineWindowDays
        \<and> s = deadline_signal ob' e (days_between td e))"
  by (induction obs) (auto simp: Let_def split: option.splits)

lemma deadline_dsars_eq:
  "deadline_dsars td nw ds =
     map (\<lambda>d. dsar_signal d (days_between td (due_date d)))
       (filter (\<lambda>d. response_due_at d \<le> nw + DeadlineWindowDays * day_ns) ds)"
  by (induction ds) auto

lemma escalation_dsars_eq:
  "escalation_dsars td ds =
     map (\<lambda>d. escalation_signal d (days_between td (due_date d)))
       (filter (\<lambda>d. days_between td (due_date d) < EscalationWindowDays) ds)"
  by (induction ds) (auto simp: Let_def)

lemma gap_obligations_set:
  "s \<in> set (gap_obligations p dis obs) \<longleftrightarrow>
     (\<exists>ob' \<in> set obs. \<exists>token \<in> set (requires ob'). \<not> gap_satisfied token p
        \<and> s = gap_signal ob' (filter (\<lambda>t. \<not> gap_satisfied t p) (requires ob'))
                (dis (''gap:obligation:'' @ ob_slug ob')))"
proof (induction obs)
  case Nil
  then show ?case by simp
next
  case (Cons ob' obs)
  then show ?case by (auto simp: Let_def filter_empty_conv)
qed

lemmas signal_defs = deadline_signal_def dsar_signal_def gap_signal_def escalation_signal_def

lemma signal_keys [simp]:
  "dedup_key (deadline_signal ob e n) = ''deadline:obligation:'' @ ob_slug ob"
  "dedup_key (dsar_signal d n) = ''dsar:'' @ ds_id d"
  "dedup_key (gap_signal ob m r) = ''gap:obligation:'' @ ob_slug ob"
  "dedup_key (escalation_signal d n) = ''dsar:'' @ ds_id d"
  by (simp_all add: signal_defs)

lemma signal_severities [simp]:
  "sg_severity (deadline_signal ob e n) = ob_severity ob"
  "sg_severity (dsar_signal d n) = ''medium''"
  "sg_severity (gap_signal ob m r) = ob_severity ob"
  "sg_severity (escalation_signal d n) = ''critical''"
  by (simp_all add: signal_defs)

section \<open>Severity arithmetic\<close>

lemma band_of_range: "0 \<le> band_of uni s" "band_of uni s \<le> 4"
  by (simp_all add: band_of_def Let_def)

lemma severity_level_range:
  "1 \<le> severity_level uni b s k d c" "severity_level uni b s k d c \<le> 4"
  using band_of_range(2) [of uni s] by (auto simp: severity_level_def Let_def severity_bands_def)

lemma band_of_bands:
  "1 \<le> n \<Longrightarrow> n \<le> 4 \<Longrightarrow> band_of uni (severity_bands ! nat (n - 1)) = n"
proof -
  assume "1 \<le> n" "n \<le> 4"
  then consider "n = 1" | "n = 2" | "n = 3" | "n = 4" by linarith
  then show ?thesis
    by cases (simp_all add: severity_bands_def band_of_def to_lower_def is_ascii_def
        ascii_lower_char_def)
qed

lemma severity_in_bands: "severity uni b s k d c \<in> set severity_bands"
  unfolding severity_def
  by (rule nth_mem) (use severity_level_range [of uni b s k d c] in \<open>simp add: severity_bands_def\<close>)

lemma band_of_severity: "band_of uni (severity uni b s k d c) = severity_level uni b s k d c"
  unfolding severity_def using severity_level_range by (rule band_of_bands)

section \<open>Claims\<close>

text \<open>
  The gap detector raises a signal for an obligation exactly when one of the controls the
  obligation requires is not in place, and the signal lists every missing control and no other.
\<close>

theorem gap_raised_iff_control_missing:
  "(\<exists>s \<in> set (detect_gaps i). dedup_key s = ''gap:obligation:'' @ slug
      \<and> metadata s = [(''missing'', MList ms), (''recurring'', MBool r)])
   \<longleftrightarrow> (\<exists>ob \<in> set (in_obligations i). ob_slug ob = slug \<and> ms \<noteq> []
         \<and> ms = filter (\<lambda>t. \<not> gap_satisfied t (in_profile i)) (requires ob)
         \<and> r = dismissed_gap_keys i (''gap:obligation:'' @ slug))"
  (is "?l \<longleftrightarrow> ?r")
proof
  assume ?l
  then obtain s where s: "s \<in> set (gap_obligations (in_profile i) (dismissed_gap_keys i) (in_obligations i))"
    "dedup_key s = ''gap:obligation:'' @ slug" "metadata s = [(''missing'', MList ms), (''recurring'', MBool r)]"
    by (auto simp: detect_gaps_def)
  from s(1) obtain ob token where ob: "ob \<in> set (in_obligations i)" "token \<in> set (requires ob)"
    "\<not> gap_satisfied token (in_profile i)"
    "s = gap_signal ob (filter (\<lambda>t. \<not> gap_satisfied t (in_profile i)) (requires ob))
           (dismissed_gap_keys i (''gap:obligation:'' @ ob_slug ob))"
    unfolding gap_obligations_set by blast
  from s(2) ob(4) have "ob_slug ob = slug" by simp
  moreover from s(3) ob(4) have "ms = filter (\<lambda>t. \<not> gap_satisfied t (in_profile i)) (requires ob)"
    "r = dismissed_gap_keys i (''gap:obligation:'' @ ob_slug ob)" by (simp_all add: gap_signal_def)
  ultimately show ?r using ob(1,2,3) by (intro bexI [of _ ob]) (auto simp: filter_empty_conv)
next
  assume ?r
  then obtain ob where ob: "ob \<in> set (in_obligations i)" "ob_slug ob = slug" "ms \<noteq> []"
    "ms = filter (\<lambda>t. \<not> gap_satisfied t (in_profile i)) (requires ob)"
    "r = dismissed_gap_keys i (''gap:obligation:'' @ slug)" by blast
  then have "gap_signal ob ms r \<in> set (detect_gaps i)"
    by (auto simp: detect_gaps_def gap_obligations_set filter_empty_conv)
  with ob(2) show ?l by (intro bexI [of _ "gap_signal ob ms r"]) (auto simp: gap_signal_def)
qed

text \<open>
  The Analyst's severity is always one of the four bands, and never below the band the
  signal itself carries: an escalated request stays critical whatever the arithmetic says.
\<close>

theorem severity_never_below_signal:
  "severity uni b s k d c \<in> set severity_bands
   \<and> band_of uni s \<le> band_of uni (severity uni b s k d c)"
  by (simp add: severity_in_bands band_of_severity) (auto simp: severity_level_def Let_def)

text \<open>
  Severity is monotone in urgency and in sensitivity: bringing the deadline nearer, or
  processing one more category of data, never lowers the band.
\<close>

theorem severity_monotone:
  assumes "d \<le> d'" and "set c' \<subseteq> set c"
  shows "band_of uni (severity uni b s k (Some d') c') \<le> band_of uni (severity uni b s k (Some d) c)"
proof -
  have "list_ex (is_sensitive uni) c' \<Longrightarrow> list_ex (is_sensitive uni) c"
    using assms(2) by (auto simp: list_ex_iff)
  then have "raw_level uni b k (Some d') c' \<le> raw_level uni b k (Some d) c"
    using assms(1) by (auto simp: raw_level_def Let_def)
  then show ?thesis by (auto simp: band_of_severity severity_level_def Let_def)
qed

theorem severity_monotone_witness:
  "band_of id (severity id ''low'' ''low'' ''deadline'' (Some 20) [])
     \<le> band_of id (severity id ''low'' ''low'' ''deadline'' (Some 2) [''health records''])"
  using severity_monotone [of 2 20 "[]" "[''health records'']" id "''low''" "''low''" "''deadline''"] by simp

text \<open>
  Every signal is about something that is due or missing: a deadline signal only for an
  obligation that takes effect between today and thirty days ahead, a request signal at medium
  only inside the thirty-day window, an escalation only under ten days, each exactly once per
  obligation or request in the inputs.
\<close>

theorem detectors_exact:
  "detect i =
     deadline_obligations (today i) (in_obligations i)
     @ map (\<lambda>d. dsar_signal d (days_between (today i) (due_date d)))
         (filter (\<lambda>d. response_due_at d \<le> now i + 30 * day_ns) (in_dsars i))
     @ gap_obligations (in_profile i) (dismissed_gap_keys i) (in_obligations i)
     @ map (\<lambda>d. escalation_signal d (days_between (today i) (due_date d)))
         (filter (\<lambda>d. days_between (today i) (due_date d) < 10) (in_dsars i))
   \<and> (\<forall>s. s \<in> set (deadline_obligations (today i) (in_obligations i)) \<longleftrightarrow>
       (\<exists>ob e. ob \<in> set (in_obligations i) \<and> effective_date ob = Some e
          \<and> 0 \<le> days_between (today i) e \<and> days_between (today i) e \<le> 30
          \<and> s = deadline_signal ob e (days_between (today i) e)))"
  by (auto simp: detect_def detect_deadlines_def detect_gaps_def detect_dsar_escalation_def
      deadline_dsars_eq escalation_dsars_eq deadline_obligations_set DeadlineWindowDays_def
      EscalationWindowDays_def)

end
