(* ===== verification/Signal_Store.thy ===== *)
theory Signal_Store
  imports Watcher
begin

text \<open>
  The Watcher's write path (\<open>internal/store/postgres/sweep.go\<close>: \<open>runWatcher\<close>, \<open>emitSignal\<close>,
  \<open>dismissedGapKeys\<close>) over the table \<open>watcher_findings\<close>.  The table is a list of rows with
  the constraints the statement relies on: the checks on kind and severity, the partial
  unique index on the open rows of a profile, and the trigger that fixes a row's source.
\<close>

record wf_row =
  wf_id :: nat
  wf_profile :: string
  wf_org :: string
  wf_kind :: string
  wf_slug :: "string option"
  wf_severity :: string
  wf_title :: string
  wf_detail :: "string option"
  wf_dedup :: string
  wf_meta :: "(string \<times> meta) list"
  wf_source :: string
  wf_status :: string

record signal_db =
  wf_rows :: "wf_row list"
  next_wf_id :: nat
  last_run :: "string \<Rightarrow> instant option"

datatype db_error =
    KindCheck string
  | SeverityCheck string
  | SourceTaken string

definition nullif_empty :: "string \<Rightarrow> string option" where
  "nullif_empty s = (if s = [] then None else Some s)"

definition wf_open :: "string \<Rightarrow> string \<Rightarrow> wf_row \<Rightarrow> bool" where
  "wf_open pid key r \<longleftrightarrow> wf_profile r = pid \<and> wf_dedup r = key \<and> wf_status r = ''open''"

definition insert_row :: "profile \<Rightarrow> signal \<Rightarrow> nat \<Rightarrow> wf_row" where
  "insert_row p s n =
     \<lparr>wf_id = n, wf_profile = pf_id p, wf_org = pf_org p, wf_kind = sg_kind s,
      wf_slug = nullif_empty (obligation_slug s), wf_severity = sg_severity s,
      wf_title = sg_title s, wf_detail = nullif_empty (sg_detail s), wf_dedup = dedup_key s,
      wf_meta = metadata s, wf_source = ''detector'', wf_status = ''open''\<rparr>"

definition update_row :: "signal \<Rightarrow> wf_row \<Rightarrow> wf_row" where
  "update_row s r =
     r\<lparr>wf_kind := sg_kind s, wf_slug := nullif_empty (obligation_slug s),
       wf_severity := sg_severity s, wf_title := sg_title s,
       wf_detail := nullif_empty (sg_detail s), wf_meta := metadata s, wf_source := ''detector''\<rparr>"

definition known_kinds :: "string list" where
  "known_kinds = [KindDeadline, KindProfileGap, KindDSAR, KindRegulatoryUpdate]"

definition emit_signal :: "profile \<Rightarrow> signal \<Rightarrow> signal_db \<Rightarrow> db_error + signal_db" where
  "emit_signal p s db =
     (if sg_kind s \<notin> set known_kinds then Inl (KindCheck (sg_kind s))
      else if sg_severity s \<notin> set severity_bands then Inl (SeverityCheck (sg_severity s))
      else (case find (wf_open (pf_id p) (dedup_key s)) (wf_rows db) of
          None \<Rightarrow> Inr (db\<lparr>wf_rows := wf_rows db @ [insert_row p s (next_wf_id db)],
                        next_wf_id := Suc (next_wf_id db)\<rparr>)
        | Some r \<Rightarrow>
            if wf_source r \<noteq> ''detector'' then Inl (SourceTaken (wf_source r))
            else Inr (db\<lparr>wf_rows := map (\<lambda>r'. if wf_open (pf_id p) (dedup_key s) r'
                                           then update_row s r' else r') (wf_rows db)\<rparr>)))"

text \<open>\<open>dismissedGapKeys\<close>: what the gap detector reads back.\<close>

definition dismissed_keys :: "string \<Rightarrow> signal_db \<Rightarrow> string \<Rightarrow> bool" where
  "dismissed_keys pid db key \<longleftrightarrow>
     list_ex (\<lambda>r. wf_profile r = pid \<and> wf_dedup r = key \<and> wf_status r = ''dismissed'') (wf_rows db)"

text \<open>
  \<open>runWatcher\<close>: nothing without a profile, else every signal of \<open>Detect\<close> in order, the time
  stamp, and the number of distinct keys raised.  An error aborts the transaction.
\<close>

definition run_watcher :: "inputs \<Rightarrow> signal_db \<Rightarrow> db_error + (signal_db \<times> nat)" where
  "run_watcher i db =
     (if pf_id (in_profile i) = [] then Inr (db, 0)
      else (case fold_res (emit_signal (in_profile i)) (detect i) db of
          Inl e \<Rightarrow> Inl e
        | Inr db' \<Rightarrow>
            Inr (db'\<lparr>last_run := (last_run db')(pf_id (in_profile i) := Some (now i))\<rparr>,
                 length (keep_first [] (map dedup_key (detect i))))))"

section \<open>The contract of a signal sink\<close>

text \<open>
  What the Watcher needs of its store: raising a signal makes it what the key shows, and
  touches no other key.  The last signal raised for a key is the one that stands.
\<close>

locale signal_sink =
  fixes emit :: "'p \<Rightarrow> signal \<Rightarrow> 'st \<Rightarrow> 'e + 'st"
    and view :: "'p \<Rightarrow> 'st \<Rightarrow> string \<Rightarrow> 'v option"
    and shown :: "'p \<Rightarrow> signal \<Rightarrow> 'v"
    and ok :: "'st \<Rightarrow> bool"
  assumes emit_ok: "ok st \<Longrightarrow> emit p s st = Inr st' \<Longrightarrow> ok st'"
    and emit_view: "ok st \<Longrightarrow> emit p s st = Inr st' \<Longrightarrow>
      view p st' = (view p st)(dedup_key s \<mapsto> shown p s)"
begin

lemma emit_all_ok:
  "ok st \<Longrightarrow> fold_res (emit p) ss st = Inr st' \<Longrightarrow> ok st'"
  by (rule fold_res_inv [where P = ok]) (auto intro: emit_ok)

lemma emit_all_other:
  "ok st \<Longrightarrow> fold_res (emit p) ss st = Inr st' \<Longrightarrow> k \<notin> dedup_key ` set ss \<Longrightarrow>
     view p st' k = view p st k"
proof (induction ss arbitrary: st)
  case Nil
  then show ?case by simp
next
  case (Cons s ss)
  then obtain st1 where st1: "emit p s st = Inr st1" "fold_res (emit p) ss st1 = Inr st'"
    by (auto split: sum.splits)
  with Cons.prems have "ok st1" by (auto intro: emit_ok)
  with Cons st1 show ?case using emit_view [of st p s st1] by auto
qed

lemma emit_all_last:
  assumes "ok st" and "fold_res (emit p) (xs @ s # ys) st = Inr st'"
    and "dedup_key s \<notin> dedup_key ` set ys"
  shows "view p st' (dedup_key s) = Some (shown p s)"
proof -
  from assms(2) obtain st1 st2 where
    "fold_res (emit p) xs st = Inr st1" "emit p s st1 = Inr st2" "fold_res (emit p) ys st2 = Inr st'"
    by (auto simp: fold_res_append split: sum.splits)
  moreover from this assms(1) have "ok st1" "ok st2"
    by (auto intro: emit_all_ok emit_ok)
  ultimately show ?thesis
    using emit_all_other [of st2 p ys st' "dedup_key s"] assms(3) emit_view [of st1 p s st2] by auto
qed

end

section \<open>The table keeps the contract\<close>

definition open_keys :: "signal_db \<Rightarrow> (string \<times> string) list" where
  "open_keys db =
     map (\<lambda>r. (wf_profile r, wf_dedup r)) (filter (\<lambda>r. wf_status r = ''open'') (wf_rows db))"

definition signal_db_ok :: "signal_db \<Rightarrow> bool" where
  "signal_db_ok db \<longleftrightarrow> distinct (open_keys db)
     \<and> distinct (map wf_id (wf_rows db)) \<and> (\<forall>r \<in> set (wf_rows db). wf_id r < next_wf_id db)"

text \<open>What a row shows of the signal it was last raised by.\<close>

definition row_view :: "wf_row \<Rightarrow> string \<times> string option \<times> string \<times> string \<times> string option \<times> (string \<times> meta) list" where
  "row_view r = (wf_kind r, wf_slug r, wf_severity r, wf_title r, wf_detail r, wf_meta r)"

definition signal_view :: "profile \<Rightarrow> signal \<Rightarrow> string \<times> string option \<times> string \<times> string \<times> string option \<times> (string \<times> meta) list" where
  "signal_view p s = (sg_kind s, nullif_empty (obligation_slug s), sg_severity s, sg_title s,
     nullif_empty (sg_detail s), metadata s)"

definition open_view :: "profile \<Rightarrow> signal_db \<Rightarrow> string \<Rightarrow> (string \<times> string option \<times> string \<times> string \<times> string option \<times> (string \<times> meta) list) option" where
  "open_view p db key = map_option row_view (find (wf_open (pf_id p) key) (wf_rows db))"

lemma update_row_simps [simp]:
  "wf_profile (update_row s r) = wf_profile r" "wf_dedup (update_row s r) = wf_dedup r"
  "wf_status (update_row s r) = wf_status r" "wf_id (update_row s r) = wf_id r"
  "wf_org (update_row s r) = wf_org r" "wf_source (update_row s r) = ''detector''"
  "row_view (update_row s r) = signal_view p s"
  by (simp_all add: update_row_def row_view_def signal_view_def)

lemma insert_row_simps [simp]:
  "wf_profile (insert_row p s n) = pf_id p" "wf_dedup (insert_row p s n) = dedup_key s"
  "wf_status (insert_row p s n) = ''open''" "wf_id (insert_row p s n) = n"
  "wf_source (insert_row p s n) = ''detector''"
  "row_view (insert_row p s n) = signal_view p s"
  by (simp_all add: insert_row_def row_view_def signal_view_def)

lemma open_keys_update:
  "open_keys (db\<lparr>wf_rows := map (\<lambda>r. if wf_open pid k r then update_row s r else r) (wf_rows db)\<rparr>)
     = open_keys db"
proof -
  have "map (\<lambda>r. (wf_profile r, wf_dedup r)) (filter (\<lambda>r. wf_status r = ''open'')
          (map (\<lambda>r. if wf_open pid k r then update_row s r else r) rs))
        = map (\<lambda>r. (wf_profile r, wf_dedup r)) (filter (\<lambda>r. wf_status r = ''open'') rs)" for rs
    by (induction rs) (auto simp: wf_open_def)
  then show ?thesis by (simp add: open_keys_def)
qed

lemma find_open_None:
  "find (wf_open pid k) (wf_rows db) = None \<longleftrightarrow> (pid, k) \<notin> set (open_keys db)"
  by (auto simp: find_None_iff open_keys_def wf_open_def)

lemma map_id_update:
  "map wf_id (map (\<lambda>r. if P r then update_row s r else r) rs) = map wf_id rs"
  by (induction rs) auto

lemma find_append_row:
  "find P (xs @ [x]) = (case find P xs of Some y \<Rightarrow> Some y | None \<Rightarrow> if P x then Some x else None)"
  by (induction xs) auto

lemma find_update_same:
  "find P rs = Some r \<Longrightarrow> (\<And>r. P (f r) = P r) \<Longrightarrow> find P (map (\<lambda>r. if P r then f r else r) rs) = Some (f r)"
  by (induction rs) (auto split: if_splits)

lemma find_update_other:
  "(\<And>r. P r \<Longrightarrow> \<not> Q r) \<Longrightarrow> (\<And>r. P (f r) = P r) \<Longrightarrow> (\<And>r. Q r \<Longrightarrow> Q (f r)) \<Longrightarrow>
     find P (map (\<lambda>r. if Q r then f r else r) rs) = find P rs"
  by (induction rs) auto

lemma emit_signal_ok:
  assumes "signal_db_ok db" and "emit_signal p s db = Inr db'"
  shows "signal_db_ok db'"
proof (cases "find (wf_open (pf_id p) (dedup_key s)) (wf_rows db)")
  case None
  with assms(2) have db': "db' = db\<lparr>wf_rows := wf_rows db @ [insert_row p s (next_wf_id db)],
      next_wf_id := Suc (next_wf_id db)\<rparr>"
    by (auto simp: emit_signal_def split: if_splits)
  from None have "(pf_id p, dedup_key s) \<notin> set (open_keys db)" by (simp add: find_open_None)
  with assms(1) show ?thesis
    by (fastforce simp: db' signal_db_ok_def open_keys_def less_Suc_eq)
next
  case (Some r)
  with assms(2) have db': "db' = db\<lparr>wf_rows := map (\<lambda>r'. if wf_open (pf_id p) (dedup_key s) r'
      then update_row s r' else r') (wf_rows db)\<rparr>"
    by (auto simp: emit_signal_def split: if_splits)
  from assms(1) show ?thesis
    unfolding signal_db_ok_def db' open_keys_update by (auto simp: map_id_update simp del: map_map)
qed

lemma emit_signal_view:
  assumes "emit_signal p s db = Inr db'"
  shows "open_view p db' = (open_view p db)(dedup_key s \<mapsto> signal_view p s)"
proof
  fix k
  show "open_view p db' k = ((open_view p db)(dedup_key s \<mapsto> signal_view p s)) k"
  proof (cases "find (wf_open (pf_id p) (dedup_key s)) (wf_rows db)")
    case None
    with assms show ?thesis
      by (auto simp: emit_signal_def open_view_def find_append_row wf_open_def
          split: if_splits option.splits)
  next
    case (Some r)
    let ?f = "\<lambda>r'. if wf_open (pf_id p) (dedup_key s) r' then update_row s r' else r'"
    from Some assms have db': "wf_rows db' = map ?f (wf_rows db)"
      by (auto simp: emit_signal_def split: if_splits)
    show ?thesis
    proof (cases "k = dedup_key s")
      case True
      have "find (wf_open (pf_id p) (dedup_key s)) (map ?f (wf_rows db)) = Some (update_row s r)"
        using Some by (rule find_update_same) (simp add: wf_open_def)
      with True show ?thesis by (simp add: open_view_def db')
    next
      case False
      have "find (wf_open (pf_id p) k) (map ?f (wf_rows db)) = find (wf_open (pf_id p) k) (wf_rows db)"
        by (rule find_update_other) (use False in \<open>auto simp: wf_open_def\<close>)
      with False show ?thesis by (simp add: open_view_def db')
    qed
  qed
qed

interpretation sink: signal_sink emit_signal open_view signal_view signal_db_ok
  by unfold_locales (auto intro: emit_signal_ok emit_signal_view)

lemma open_view_Some:
  "signal_db_ok db \<Longrightarrow> open_view p db k = Some v \<Longrightarrow>
     \<exists>!r. r \<in> set (wf_rows db) \<and> wf_open (pf_id p) k r"
proof -
  assume ok: "signal_db_ok db" and v: "open_view p db k = Some v"
  from v obtain r where r: "r \<in> set (wf_rows db)" "wf_open (pf_id p) k r"
    by (auto simp: open_view_def dest: find_SomeD)
  have "r' = r" if "r' \<in> set (wf_rows db)" "wf_open (pf_id p) k r'" for r'
  proof -
    have "distinct (map (\<lambda>r. (wf_profile r, wf_dedup r))
            (filter (\<lambda>r. wf_status r = ''open'') (wf_rows db)))"
      using ok by (simp add: signal_db_ok_def open_keys_def)
    then have "inj_on (\<lambda>r. (wf_profile r, wf_dedup r)) {x \<in> set (wf_rows db). wf_status x = ''open''}"
      by (simp add: distinct_map)
    then show ?thesis
      by (rule inj_onD) (use r that in \<open>auto simp: wf_open_def\<close>)
  qed
  with r show ?thesis by blast
qed

section \<open>The sweep as a whole\<close>

lemma escalation_in_detect:
  assumes "d \<in> set (in_dsars i)" and "days_between (today i) (due_date d) < EscalationWindowDays"
    and "distinct (map ds_id (in_dsars i))"
  shows "\<exists>xs ys. detect i = xs @ escalation_signal d (days_between (today i) (due_date d)) # ys
           \<and> ''dsar:'' @ ds_id d \<notin> dedup_key ` set ys"
proof -
  let ?near = "\<lambda>d. days_between (today i) (due_date d) < EscalationWindowDays"
  let ?sig = "\<lambda>d. escalation_signal d (days_between (today i) (due_date d))"
  have "d \<in> set (filter ?near (in_dsars i))" using assms(1,2) by simp
  then obtain as bs where split: "filter ?near (in_dsars i) = as @ d # bs"
    by (meson split_list)
  have "distinct (map ds_id (filter ?near (in_dsars i)))"
    using assms(3) by (simp add: distinct_map_filter)
  then have notin: "ds_id d \<notin> ds_id ` set bs" by (simp add: split)
  have "detect i = (detect_deadlines i @ detect_gaps i @ map ?sig as) @ ?sig d # map ?sig bs"
    by (simp add: detect_def detect_dsar_escalation_def escalation_dsars_eq split)
  moreover have "''dsar:'' @ ds_id d \<notin> dedup_key ` set (map ?sig bs)"
    using notin by auto
  ultimately show ?thesis by blast
qed

lemma run_watcher_fold:
  "run_watcher i db = Inr (db', n) \<Longrightarrow> pf_id (in_profile i) \<noteq> [] \<Longrightarrow>
     \<exists>db1. fold_res (emit_signal (in_profile i)) (detect i) db = Inr db1 \<and> wf_rows db' = wf_rows db1
        \<and> next_wf_id db' = next_wf_id db1 \<and> n = length (keep_first [] (map dedup_key (detect i)))"
  by (auto simp: run_watcher_def split: sum.splits if_splits)

lemma signal_db_ok_cong:
  "wf_rows db = wf_rows db' \<Longrightarrow> next_wf_id db = next_wf_id db' \<Longrightarrow> signal_db_ok db = signal_db_ok db'"
  by (simp add: signal_db_ok_def open_keys_def)

lemma open_view_cong: "wf_rows db = wf_rows db' \<Longrightarrow> open_view p db = open_view p db'"
  by (simp add: open_view_def fun_eq_iff)

lemma run_watcher_ok:
  "signal_db_ok db \<Longrightarrow> run_watcher i db = Inr (db', n) \<Longrightarrow> signal_db_ok db'"
proof (cases "pf_id (in_profile i) = []")
  case True
  then show "signal_db_ok db \<Longrightarrow> run_watcher i db = Inr (db', n) \<Longrightarrow> signal_db_ok db'"
    by (simp add: run_watcher_def)
next
  case False
  assume ok: "signal_db_ok db" and run: "run_watcher i db = Inr (db', n)"
  from run_watcher_fold [OF run False] obtain db1 where
    "fold_res (emit_signal (in_profile i)) (detect i) db = Inr db1"
    "wf_rows db' = wf_rows db1" "next_wf_id db' = next_wf_id db1" by blast
  with ok show "signal_db_ok db'" using sink.emit_all_ok signal_db_ok_cong by metis
qed

lemma emit_signal_total:
  assumes "sg_kind s \<in> set known_kinds" and "sg_severity s \<in> set severity_bands"
    and "\<forall>r \<in> set (wf_rows db). wf_source r = ''detector''"
  shows "\<exists>db'. emit_signal p s db = Inr db' \<and> (\<forall>r \<in> set (wf_rows db'). wf_source r = ''detector'')"
  using assms by (auto simp: emit_signal_def dest: find_SomeD split: option.splits)

lemma emit_all_total:
  "\<forall>s \<in> set ss. sg_kind s \<in> set known_kinds \<and> sg_severity s \<in> set severity_bands \<Longrightarrow>
   \<forall>r \<in> set (wf_rows db). wf_source r = ''detector'' \<Longrightarrow> 
     \<exists>db'. fold_res (emit_signal p) ss db = Inr db' \<and> (\<forall>r \<in> set (wf_rows db'). wf_source r = ''detector'')"
proof (induction ss arbitrary: db)
  case Nil
  then show ?case by simp
next
  case (Cons s ss)
  then obtain db1 where db1: "emit_signal p s db = Inr db1"
    "\<forall>r \<in> set (wf_rows db1). wf_source r = ''detector''"
    using emit_signal_total [of s db p] by auto
  with Cons.IH [of db1] Cons.prems show ?case by simp
qed

lemma detect_kind: "s \<in> set (detect i) \<Longrightarrow> sg_kind s \<in> set known_kinds"
  by (auto simp: detect_def detect_deadlines_def detect_gaps_def detect_dsar_escalation_def
      deadline_obligations_set deadline_dsars_eq gap_obligations_set escalation_dsars_eq
      signal_defs known_kinds_def)

lemma detect_severity:
  "s \<in> set (detect i) \<Longrightarrow> \<forall>ob \<in> set (in_obligations i). ob_severity ob \<in> set severity_bands \<Longrightarrow>
     sg_severity s \<in> set severity_bands"
  by (auto simp: detect_def detect_deadlines_def detect_gaps_def detect_dsar_escalation_def
      deadline_obligations_set deadline_dsars_eq gap_obligations_set escalation_dsars_eq
      severity_bands_def)

section \<open>Claims\<close>

text \<open>
  C28: The order of the detectors is load bearing, and right: after a sweep, a data-subject
  request whose deadline is fewer than ten days away, or gone, has exactly one open row, and
  that row is the critical one with the escalation's title, although the deadline detector
  raised the same key at medium before it.
\<close>

theorem urgent_dsar_stands_critical:
  assumes "signal_db_ok db" and "run_watcher i db = Inr (db', n)" and "pf_id (in_profile i) \<noteq> []"
    and "d \<in> set (in_dsars i)" and "distinct (map ds_id (in_dsars i))"
    and "days_between (today i) (due_date d) < EscalationWindowDays"
  shows "\<exists>r. {x \<in> set (wf_rows db'). wf_open (pf_id (in_profile i)) (''dsar:'' @ ds_id d) x} = {r}
           \<and> wf_severity r = ''critical''
           \<and> wf_title r = sg_title (escalation_signal d (days_between (today i) (due_date d)))"
proof -
  let ?p = "in_profile i" and ?k = "''dsar:'' @ ds_id d"
  let ?s = "escalation_signal d (days_between (today i) (due_date d))"
  from run_watcher_fold [OF assms(2,3)] obtain db1 where
    fold: "fold_res (emit_signal ?p) (detect i) db = Inr db1" and rows: "wf_rows db' = wf_rows db1" by blast
  from escalation_in_detect [OF assms(4,6,5)] obtain xs ys where
    "detect i = xs @ ?s # ys" "?k \<notin> dedup_key ` set ys" by blast
  with fold assms(1) have v: "open_view ?p db' ?k = Some (signal_view ?p ?s)"
    using sink.emit_all_last [of db ?p xs ?s ys db1] open_view_cong [OF rows] by simp
  have "signal_db_ok db'" using assms(1,2) by (rule run_watcher_ok)
  from open_view_Some [OF this v] obtain r where
    r: "{x \<in> set (wf_rows db'). wf_open (pf_id ?p) ?k x} = {r}" by auto
  from v obtain r' where "r' \<in> set (wf_rows db')" "wf_open (pf_id ?p) ?k r'"
    "row_view r' = signal_view ?p ?s"
    by (auto simp: open_view_def dest: find_SomeD)
  with r have "row_view r = signal_view ?p ?s" by auto
  with r show ?thesis by (auto simp: row_view_def signal_view_def)
qed

definition example_profile :: profile where
  "example_profile = \<lparr>pf_id = ''p1'', pf_org = ''o1'', has_dpo = ''no'', has_ropa = ''yes'',
     transfers_outside_eu = ''no'', ai_systems = [], transfer_destinations = [],
     data_categories = [''health''], vendor_list = []\<rparr>"

definition example_dsar :: dsar where
  "example_dsar = \<lparr>ds_id = ''r7'', subject_name = Some ''Ada'', response_due_at = 4 * day_ns,
     due_date = \<lparr>year_of = 1970, month_of = 1, day_of = 5\<rparr>\<rparr>"

definition example_obligation :: obligation where
  "example_obligation = \<lparr>ob_slug = ''dpo'', ob_title = ''Appoint a DPO'', ob_severity = ''high'',
     effective_date = None, requires = [''ropa'', ''dpo'']\<rparr>"

definition example_inputs :: inputs where
  "example_inputs = \<lparr>in_profile = example_profile, in_obligations = [example_obligation],
     in_dsars = [example_dsar], dismissed_gap_keys = (\<lambda>_. False),
     today = \<lparr>year_of = 1970, month_of = 1, day_of = 1\<rparr>, now = 0\<rparr>"

definition empty_signal_db :: signal_db where
  "empty_signal_db = \<lparr>wf_rows = [], next_wf_id = 0, last_run = (\<lambda>_. None)\<rparr>"

lemma example_days: "days_between (today example_inputs) (due_date example_dsar) = 4"
  by code_simp

lemma empty_signal_db_ok: "signal_db_ok empty_signal_db"
  by (simp add: signal_db_ok_def open_keys_def empty_signal_db_def)

lemma example_severities:
  "\<forall>ob \<in> set (in_obligations example_inputs). ob_severity ob \<in> set severity_bands"
  by (simp add: example_inputs_def example_obligation_def severity_bands_def)

lemma example_sweep: "\<exists>db' n. run_watcher example_inputs empty_signal_db = Inr (db', n)"
proof -
  obtain db' where "fold_res (emit_signal (in_profile example_inputs)) (detect example_inputs)
      empty_signal_db = Inr db'"
    using emit_all_total [of "detect example_inputs" empty_signal_db "in_profile example_inputs"]
      detect_kind [of _ example_inputs] detect_severity [OF _ example_severities]
    by (auto simp: empty_signal_db_def)
  then show ?thesis by (simp add: run_watcher_def)
qed

theorem urgent_dsar_stands_critical_witness:
  "\<exists>db' n r. run_watcher example_inputs empty_signal_db = Inr (db', n)
     \<and> {x \<in> set (wf_rows db'). wf_open ''p1'' ''dsar:r7'' x} = {r} \<and> wf_severity r = ''critical''"
proof -
  obtain db' n where run: "run_watcher example_inputs empty_signal_db = Inr (db', n)"
    using example_sweep by blast
  have "example_dsar \<in> set (in_dsars example_inputs)" "pf_id (in_profile example_inputs) \<noteq> []"
    "distinct (map ds_id (in_dsars example_inputs))"
    by (simp_all add: example_inputs_def example_profile_def)
  moreover have "days_between (today example_inputs) (due_date example_dsar) < EscalationWindowDays"
    unfolding example_days by (simp add: EscalationWindowDays_def)
  ultimately show ?thesis
    using urgent_dsar_stands_critical [OF empty_signal_db_ok run, of example_dsar] run
    by (auto simp: example_inputs_def example_profile_def example_dsar_def)
qed

text \<open>
  A sweep keeps the table's invariant: at most one open row per profile and key (the partial
  unique index), and row ids that are distinct and below the next one.
\<close>

theorem sweep_keeps_open_index:
  assumes "signal_db_ok db" and "run_watcher i db = Inr (db', n)"
  shows "signal_db_ok db'"
  using assms by (rule run_watcher_ok)

theorem sweep_keeps_open_index_witness:
  "\<exists>db' n. run_watcher example_inputs empty_signal_db = Inr (db', n) \<and> signal_db_ok db'"
  using example_sweep sweep_keeps_open_index [OF empty_signal_db_ok, of example_inputs] by blast

text \<open>
  A sweep completes whenever the corpus's severities are ones the table accepts and no row
  belongs to the agentic Watcher: every signal the detectors can produce passes the table's
  checks, and the number reported is the number of distinct keys raised.
\<close>

theorem sweep_completes:
  assumes "\<forall>ob \<in> set (in_obligations i). ob_severity ob \<in> set severity_bands"
    and "\<forall>r \<in> set (wf_rows db). wf_source r = ''detector''" and "pf_id (in_profile i) \<noteq> []"
  shows "\<exists>db'. run_watcher i db = Inr (db', card (dedup_key ` set (detect i)))
           \<and> last_run db' (pf_id (in_profile i)) = Some (now i)"
proof -
  have "\<forall>s \<in> set (detect i). sg_kind s \<in> set known_kinds \<and> sg_severity s \<in> set severity_bands"
    using detect_kind detect_severity assms(1) by blast
  then obtain db' where "fold_res (emit_signal (in_profile i)) (detect i) db = Inr db'"
    using emit_all_total [OF _ assms(2)] by blast
  moreover have "length (keep_first [] (map dedup_key (detect i))) = card (dedup_key ` set (detect i))"
    using distinct_card [OF distinct_keep_first [of "[]" "map dedup_key (detect i)"]] by simp
  ultimately show ?thesis using assms(3) by (simp add: run_watcher_def)
qed

theorem sweep_completes_witness:
  "\<exists>db'. run_watcher example_inputs empty_signal_db
      = Inr (db', card (dedup_key ` set (detect example_inputs)))"
  using sweep_completes [OF example_severities, of empty_signal_db]
  by (auto simp: empty_signal_db_def example_inputs_def example_profile_def)

text \<open>
  Sweeping again with the same inputs changes nothing a reader sees: every key shows the
  same kind, severity, title, detail and metadata after the second sweep as after the first.
\<close>

theorem resweep_shows_the_same:
  assumes "signal_db_ok db" and "run_watcher i db = Inr (db1, n)" and "run_watcher i db1 = Inr (db2, m)"
  shows "open_view (in_profile i) db2 = open_view (in_profile i) db1 \<and> m = n"
proof (cases "pf_id (in_profile i) = []")
  case True
  with assms(2,3) show ?thesis by (auto simp: run_watcher_def)
next
  case False
  let ?p = "in_profile i"
  from run_watcher_fold [OF assms(2) False] obtain e1 where
    e1: "fold_res (emit_signal ?p) (detect i) db = Inr e1" "wf_rows db1 = wf_rows e1"
      "n = length (keep_first [] (map dedup_key (detect i)))" by blast
  from run_watcher_fold [OF assms(3) False] obtain e2 where
    e2: "fold_res (emit_signal ?p) (detect i) db1 = Inr e2" "wf_rows db2 = wf_rows e2"
      "m = length (keep_first [] (map dedup_key (detect i)))" by blast
  have ok1: "signal_db_ok db1" using assms(1,2) by (rule run_watcher_ok)
  have "open_view ?p e2 k = open_view ?p e1 k" for k
  proof (cases "k \<in> dedup_key ` set (detect i)")
    case True
    then have "\<exists>s \<in> set (detect i). dedup_key s = k" by auto
    from split_list_last_prop [OF this] obtain xs s ys where
      split: "detect i = xs @ s # ys" "dedup_key s = k" and last: "\<forall>z \<in> set ys. dedup_key z \<noteq> k"
      by blast
    from last have "k \<notin> dedup_key ` set ys" by auto
    with split e1(1) e2(1) assms(1) ok1 show ?thesis
      using sink.emit_all_last [of db ?p xs s ys e1] sink.emit_all_last [of db1 ?p xs s ys e2] by simp
  next
    case False
    then show ?thesis
      using sink.emit_all_other [OF ok1 e2(1)] open_view_cong [OF e1(2)] by simp
  qed
  then have "open_view ?p e2 = open_view ?p e1" by blast
  with e1 e2 show ?thesis using open_view_cong by metis
qed

theorem resweep_shows_the_same_witness:
  "\<exists>db1 db2 n. run_watcher example_inputs empty_signal_db = Inr (db1, n)
     \<and> run_watcher example_inputs db1 = Inr (db2, n)
     \<and> open_view example_profile db2 = open_view example_profile db1"
proof -
  let ?p = "in_profile example_inputs"
  have pid: "pf_id ?p \<noteq> []" by (simp add: example_inputs_def example_profile_def)
  have sigs: "\<forall>s \<in> set (detect example_inputs). sg_kind s \<in> set known_kinds \<and> sg_severity s \<in> set severity_bands"
    using detect_kind detect_severity [OF _ example_severities] by blast
  obtain db1 n where run1: "run_watcher example_inputs empty_signal_db = Inr (db1, n)"
    using example_sweep by blast
  from run_watcher_fold [OF run1 pid] obtain e1 where
    e1: "fold_res (emit_signal ?p) (detect example_inputs) empty_signal_db = Inr e1"
      "wf_rows db1 = wf_rows e1" by blast
  moreover from emit_all_total [OF sigs, of empty_signal_db ?p] obtain e1' where
    "fold_res (emit_signal ?p) (detect example_inputs) empty_signal_db = Inr e1'"
    "\<forall>r \<in> set (wf_rows e1'). wf_source r = ''detector''"
    by (auto simp: empty_signal_db_def)
  ultimately have "\<forall>r \<in> set (wf_rows db1). wf_source r = ''detector''" by simp
  from emit_all_total [OF sigs this, of ?p] obtain db2 where
    "fold_res (emit_signal ?p) (detect example_inputs) db1 = Inr db2" by blast
  then obtain db2 m where run2: "run_watcher example_inputs db1 = Inr (db2, m)"
    using pid by (auto simp: run_watcher_def)
  from resweep_shows_the_same [OF empty_signal_db_ok run1 run2] run1 run2 show ?thesis
    by (auto simp: example_inputs_def)
qed

end
