(* ===== verification/Agent_Signals.thy ===== *)
theory Agent_Signals
  imports Fetch_Path Signal_Store
begin

text \<open>
  What an agent may do on the Watcher's surface besides asking for a fetch: raise a signal
  (\<open>RaiseSignal\<close> of \<open>store/postgres/watcher.go\<close> and \<open>service/watcher/watcher.go\<close>, over the function
  and the trigger of migration 00039) and read what a connection has reported (\<open>EvidenceFor\<close>,
  \<open>ReadEvidence\<close>).  The detectors write the same table; that the two never meet in a row is proved
  over every sequence of sweeps, raised signals and settled ones.
\<close>

section \<open>Raising a signal\<close>

text \<open>
  \<open>emit_watcher_finding\<close> with its source: the upsert on the open row of a profile and key, and the
  trigger that refuses a row to change its source.
\<close>

definition row_as :: "string \<Rightarrow> string \<Rightarrow> string \<Rightarrow> signal \<Rightarrow> nat \<Rightarrow> wf_row" where
  "row_as src pid org s n =
     \<lparr>wf_id = n, wf_profile = pid, wf_org = org, wf_kind = sg_kind s,
      wf_slug = nullif_empty (obligation_slug s), wf_severity = sg_severity s,
      wf_title = sg_title s, wf_detail = nullif_empty (sg_detail s), wf_dedup = dedup_key s,
      wf_meta = metadata s, wf_source = src, wf_status = ''open''\<rparr>"

definition restate_as :: "string \<Rightarrow> signal \<Rightarrow> wf_row \<Rightarrow> wf_row" where
  "restate_as src s r =
     r\<lparr>wf_kind := sg_kind s, wf_slug := nullif_empty (obligation_slug s),
       wf_severity := sg_severity s, wf_title := sg_title s,
       wf_detail := nullif_empty (sg_detail s), wf_meta := metadata s, wf_source := src\<rparr>"

definition emit_as :: "string \<Rightarrow> string \<Rightarrow> string \<Rightarrow> signal \<Rightarrow> signal_db \<Rightarrow> db_error + nat \<times> signal_db" where
  "emit_as src pid org s db =
     (if sg_kind s \<notin> set known_kinds then Inl (KindCheck (sg_kind s))
      else if sg_severity s \<notin> set severity_bands then Inl (SeverityCheck (sg_severity s))
      else (case find (wf_open pid (dedup_key s)) (wf_rows db) of
          None \<Rightarrow> Inr (next_wf_id db, db\<lparr>wf_rows := wf_rows db @ [row_as src pid org s (next_wf_id db)],
                        next_wf_id := Suc (next_wf_id db)\<rparr>)
        | Some r \<Rightarrow>
            if wf_source r \<noteq> src then Inl (SourceTaken (wf_source r))
            else Inr (wf_id r, db\<lparr>wf_rows := map (\<lambda>x. if wf_open pid (dedup_key s) x
                                           then restate_as src s x else x) (wf_rows db)\<rparr>)))"

lemma emit_signal_as: "emit_signal p s db = map_sum (\<lambda>e. e) snd (emit_as ''detector'' (pf_id p) (pf_org p) s db)"
  by (simp add: emit_signal_def emit_as_def insert_row_def row_as_def update_row_def restate_as_def split: option.split)

definition AgentDedupPrefix :: string where "AgentDedupPrefix = ''agent:''"

record sweep_profile =
  pr_id :: string
  pr_org :: string
  pr_created :: instant

record raise_request =
  rq_org :: string
  rq_kind :: string
  rq_key :: string
  rq_title :: string
  rq_detail :: string
  rq_severity :: string
  rq_slug :: string
  rq_meta :: string

datatype raise_error = RaiseOrgMissing | RaiseKind | RaiseSeverity | RaiseNoKey | RaiseKeyLong | RaiseNoTitle
  | RaiseTitleLong | RaiseDetailLong | RaiseMetaLong | RaiseMetaNotJson | RaiseBadOrg | RaiseNoProfile
  | RaiseNoObligation | RaiseBroken

text \<open>The store's method; \<open>read_meta\<close> is the database's cast of the metadata, \<open>slugs\<close> the corpus.\<close>

definition signal_of :: "raise_request \<Rightarrow> (string \<times> meta) list \<Rightarrow> signal" where
  "signal_of q meta = \<lparr>sg_kind = rq_kind q, dedup_key = AgentDedupPrefix @ rq_key q, sg_title = rq_title q,
     sg_detail = rq_detail q, sg_severity = rq_severity q, obligation_slug = rq_slug q, metadata = meta\<rparr>"

definition raise_signal ::
  "pg_env \<Rightarrow> (string \<Rightarrow> bool) \<Rightarrow> (string \<Rightarrow> (string \<times> meta) list option) \<Rightarrow> sweep_profile list \<Rightarrow> raise_request
     \<Rightarrow> signal_db \<Rightarrow> raise_error + (nat \<times> bool) \<times> signal_db" where
  "raise_signal E slugs read_meta profiles q db =
     (case go_uuid E (rq_org q) of
        None \<Rightarrow> Inl RaiseBadOrg
      | Some org \<Rightarrow> (case newest_row pr_created (filter (\<lambda>p. pr_org p = org) profiles) of
          None \<Rightarrow> Inl RaiseNoProfile
        | Some p \<Rightarrow>
            if rq_slug q \<noteq> '''' \<and> \<not> slugs (rq_slug q) then Inl RaiseNoObligation
            else (case read_meta (if rq_meta q = '''' then ''{}'' else rq_meta q) of
                None \<Rightarrow> Inl RaiseBroken
              | Some meta \<Rightarrow>
                  (let s = signal_of q meta;
                       already = find (wf_open (pr_id p) (dedup_key s)) (wf_rows db) \<noteq> None
                   in case emit_as ''agent'' (pr_id p) org s db of
                        Inl _ \<Rightarrow> Inl RaiseBroken
                      | Inr (i, db') \<Rightarrow> Inr ((i, \<not> already), db')))))"

definition maxTitle :: nat where "maxTitle = 200"
definition maxDetail :: nat where "maxDetail = 4000"
definition maxDedupKey :: nat where "maxDedupKey = 200"
definition maxMetadata :: nat where "maxMetadata = 16384"

definition raise_kinds :: "string list" where
  "raise_kinds = [''deadline'', ''profile_gap'', ''dsar'', ''regulatory_update'']"
definition raise_severities :: "string list" where
  "raise_severities = [''low'', ''medium'', ''high'', ''critical'']"

definition raise_check :: "(string \<Rightarrow> bool) \<Rightarrow> raise_request \<Rightarrow> raise_error option" where
  "raise_check json q =
     (if rq_org q = '''' then Some RaiseOrgMissing
      else if rq_kind q \<notin> set raise_kinds then Some RaiseKind
      else if rq_severity q \<notin> set raise_severities then Some RaiseSeverity
      else if rq_key q = '''' then Some RaiseNoKey
      else if length (rq_key q) > maxDedupKey then Some RaiseKeyLong
      else if rq_title q = '''' then Some RaiseNoTitle
      else if length (rq_title q) > maxTitle then Some RaiseTitleLong
      else if length (rq_detail q) > maxDetail then Some RaiseDetailLong
      else if length (rq_meta q) > maxMetadata then Some RaiseMetaLong
      else if rq_meta q \<noteq> '''' \<and> \<not> json (rq_meta q) then Some RaiseMetaNotJson
      else None)"

definition raise_call ::
  "integ_env \<Rightarrow> (string \<Rightarrow> bool) \<Rightarrow> (string \<Rightarrow> (string \<times> meta) list option) \<Rightarrow> sweep_profile list \<Rightarrow> raise_request
     \<Rightarrow> signal_db \<Rightarrow> raise_error + (nat \<times> bool) \<times> signal_db" where
  "raise_call V slugs read_meta profiles q db =
     (case raise_check (ie_json V) q of
        Some e \<Rightarrow> Inl e
      | None \<Rightarrow> raise_signal (ie_pg V) slugs read_meta profiles q db)"

section \<open>Reading what was reported\<close>

definition maxObservations :: int where "maxObservations = 20"
definition defaultObservations :: int where "defaultObservations = 5"

record stored_observation =
  ob_evidence :: string
  ob_conn :: string
  ob_tool :: string
  ob_observed :: instant
  ob_fetched :: instant
  ob_body :: string

datatype read_error = ReadOrgMissing | ReadConnMissing | ReadToolMissing | ReadBadOrg | ReadNoConnection | ReadNotGranted

definition observation_count :: "int \<Rightarrow> nat" where
  "observation_count limit = nat (min maxObservations (if limit \<le> 0 then defaultObservations else limit))"

definition evidence_for ::
  "integ_env \<Rightarrow> string \<Rightarrow> string \<Rightarrow> string \<Rightarrow> int \<Rightarrow> fetch_db \<Rightarrow> read_error + string \<times> stored_observation list" where
  "evidence_for V org cid tool limit db =
     (case (go_uuid (ie_pg V) org, go_uuid (ie_pg V) cid) of
        (None, _) \<Rightarrow> Inl ReadBadOrg
      | (Some _, None) \<Rightarrow> Inl ReadNoConnection
      | (Some o1, Some c1) \<Rightarrow>
          (case find (\<lambda>r. in_id r = c1 \<and> in_org r = o1) (fd_integrations db) of
             None \<Rightarrow> Inl ReadNoConnection
           | Some r \<Rightarrow>
               (case find (\<lambda>x. tr_conn x = c1 \<and> tr_org x = o1 \<and> tr_name x = tool) (fd_tools db) of
                  None \<Rightarrow> Inl ReadNotGranted
                | Some x \<Rightarrow>
                    if tr_granted x = None then Inl ReadNotGranted
                    else Inr (in_name r,
                      map (\<lambda>e. \<lparr>ob_evidence = ev_id e, ob_conn = ev_conn e, ob_tool = tool, ob_observed = ev_observed e,
                            ob_fetched = ev_fetched e, ob_body = ev_body e\<rparr>)
                        (take (observation_count limit)
                          (sort_key (\<lambda>e. (- ev_observed e, - ev_fetched e))
                            (filter (\<lambda>e. ev_org e = o1 \<and> ev_conn e = c1 \<and> ev_kind e = ''integration.'' @ tool
                                 \<and> \<not> ev_superseded e) (fd_evidence db))))))))"

definition read_evidence_call ::
  "integ_env \<Rightarrow> string \<Rightarrow> string \<Rightarrow> string \<Rightarrow> int \<Rightarrow> fetch_db \<Rightarrow> read_error + string \<times> stored_observation list" where
  "read_evidence_call V org cid raw_tool limit db =
     (if org = '''' then Inl ReadOrgMissing
      else if cid = '''' then Inl ReadConnMissing
      else if trim_space raw_tool = '''' then Inl ReadToolMissing
      else evidence_for V org cid (trim_space raw_tool) limit db)"

section \<open>Two writers of one table\<close>

definition source_ok :: "wf_row \<Rightarrow> bool" where
  "source_ok r \<longleftrightarrow> (if has_prefix (wf_dedup r) AgentDedupPrefix then wf_source r = ''agent'' else wf_source r = ''detector'')"

definition sources_ok :: "signal_db \<Rightarrow> bool" where
  "sources_ok db \<longleftrightarrow> (\<forall>r \<in> set (wf_rows db). source_ok r)"

definition rows_by :: "string \<Rightarrow> signal_db \<Rightarrow> wf_row list" where
  "rows_by src db = filter (\<lambda>r. wf_source r = src) (wf_rows db)"

lemma row_as_simps [simp]:
  "wf_dedup (row_as src pid org s n) = dedup_key s" "wf_source (row_as src pid org s n) = src"
  "wf_status (row_as src pid org s n) = ''open''" "wf_profile (row_as src pid org s n) = pid"
  by (simp_all add: row_as_def)

lemma restate_as_simps [simp]:
  "wf_dedup (restate_as src s r) = wf_dedup r" "wf_source (restate_as src s r) = src"
  "wf_status (restate_as src s r) = wf_status r" "wf_profile (restate_as src s r) = wf_profile r"
  by (simp_all add: restate_as_def)

text \<open>
  Writing as a source that the key belongs to: it never meets another source's row, and leaves
  the rows of every other source as they were.
\<close>

lemma emit_as_ok:
  assumes ok: "sources_ok db" and src: "source_ok (row_as src pid org s 0)"
    and run: "emit_as src pid org s db = Inr (i, db')"
  shows "sources_ok db' \<and> (\<forall>other. other \<noteq> src \<longrightarrow> rows_by other db' = rows_by other db)"
proof (cases "find (wf_open pid (dedup_key s)) (wf_rows db)")
  case None
  with run have db': "wf_rows db' = wf_rows db @ [row_as src pid org s (next_wf_id db)]"
    by (auto simp: emit_as_def split: if_splits)
  with ok src show ?thesis by (auto simp: sources_ok_def source_ok_def rows_by_def)
next
  case (Some r)
  with run have db': "wf_rows db' = map (\<lambda>x. if wf_open pid (dedup_key s) x then restate_as src s x else x) (wf_rows db)"
    by (auto simp: emit_as_def split: if_splits)
  have key: "wf_source x = src" if "x \<in> set (wf_rows db)" "wf_open pid (dedup_key s) x" for x
    using ok src that by (auto simp: sources_ok_def source_ok_def wf_open_def split: if_splits)
  have "sources_ok db'" using ok key by (auto simp: sources_ok_def db' source_ok_def)
  moreover have "rows_by other db' = rows_by other db" if "other \<noteq> src" for other
  proof -
    have "filter (\<lambda>r. wf_source r = other) (map (\<lambda>x. if wf_open pid (dedup_key s) x then restate_as src s x else x) rs)
        = filter (\<lambda>r. wf_source r = other) rs" if "set rs \<subseteq> set (wf_rows db)" for rs
      using that key \<open>other \<noteq> src\<close> by (induction rs) auto
    then show ?thesis by (simp add: rows_by_def db')
  qed
  ultimately show ?thesis by blast
qed

lemma emit_as_never_taken:
  assumes "sources_ok db" and "source_ok (row_as src pid org s 0)"
    and "sg_kind s \<in> set known_kinds" "sg_severity s \<in> set severity_bands"
  shows "\<exists>r. emit_as src pid org s db = Inr r"
proof (cases "find (wf_open pid (dedup_key s)) (wf_rows db)")
  case None
  with assms show ?thesis by (simp add: emit_as_def)
next
  case (Some r)
  then have "r \<in> set (wf_rows db)" "wf_dedup r = dedup_key s" by (auto simp: wf_open_def dest!: find_SomeD)
  with assms(1,2) have "wf_source r = src" by (auto simp: sources_ok_def source_ok_def split: if_splits)
  with Some assms(3,4) show ?thesis by (simp add: emit_as_def)
qed

text \<open>No detector's key has the agents' prefix.\<close>

lemma detect_keys: "s \<in> set (detect i) \<Longrightarrow> \<not> has_prefix (dedup_key s) AgentDedupPrefix"
  by (auto simp: detect_def detect_deadlines_def detect_gaps_def detect_dsar_escalation_def
      deadline_obligations_set deadline_dsars_eq gap_obligations_set escalation_dsars_eq
      AgentDedupPrefix_def has_prefix_def)

lemma emit_detector:
  assumes ok: "sources_ok db" and s: "\<not> has_prefix (dedup_key s) AgentDedupPrefix"
    and "sg_kind s \<in> set known_kinds" "sg_severity s \<in> set severity_bands"
  shows "\<exists>db'. emit_signal p s db = Inr db' \<and> sources_ok db' \<and> rows_by ''agent'' db' = rows_by ''agent'' db"
proof -
  have src: "source_ok (row_as ''detector'' (pf_id p) (pf_org p) s 0)" using s by (simp add: source_ok_def)
  from emit_as_never_taken [OF ok src assms(3,4)] obtain k db' where
    run: "emit_as ''detector'' (pf_id p) (pf_org p) s db = Inr (k, db')" by auto
  with emit_as_ok [OF ok src run] show ?thesis by (simp add: emit_signal_as)
qed

lemma emit_detectors:
  assumes "sources_ok db"
    and "\<forall>s \<in> set ss. \<not> has_prefix (dedup_key s) AgentDedupPrefix \<and> sg_kind s \<in> set known_kinds \<and> sg_severity s \<in> set severity_bands"
  shows "\<exists>db'. fold_res (emit_signal p) ss db = Inr db' \<and> sources_ok db' \<and> rows_by ''agent'' db' = rows_by ''agent'' db"
  using assms
proof (induction ss arbitrary: db)
  case Nil
  then show ?case by simp
next
  case (Cons s ss)
  from emit_detector [OF Cons.prems(1), of s p] Cons.prems(2) obtain db1 where
    db1: "emit_signal p s db = Inr db1" "sources_ok db1" "rows_by ''agent'' db1 = rows_by ''agent'' db" by auto
  from Cons.IH [OF db1(2)] Cons.prems(2) db1 show ?case by auto
qed

lemma sources_cong: "wf_rows db = wf_rows db' \<Longrightarrow> sources_ok db = sources_ok db' \<and> rows_by src db = rows_by src db'"
  by (simp add: sources_ok_def rows_by_def)

lemma sweep_apart:
  assumes ok: "sources_ok db" and sev: "\<forall>ob \<in> set (in_obligations i). ob_severity ob \<in> set severity_bands"
  shows "\<exists>db' n. run_watcher i db = Inr (db', n) \<and> sources_ok db' \<and> rows_by ''agent'' db' = rows_by ''agent'' db"
proof (cases "pf_id (in_profile i) = []")
  case True
  with ok show ?thesis by (simp add: run_watcher_def)
next
  case False
  have "\<forall>s \<in> set (detect i). \<not> has_prefix (dedup_key s) AgentDedupPrefix \<and> sg_kind s \<in> set known_kinds \<and> sg_severity s \<in> set severity_bands"
    using detect_keys detect_kind detect_severity sev by blast
  from emit_detectors [OF ok this] obtain db1 where "fold_res (emit_signal (in_profile i)) (detect i) db = Inr db1"
    "sources_ok db1" "rows_by ''agent'' db1 = rows_by ''agent'' db" by blast
  with False show ?thesis by (simp add: run_watcher_def sources_ok_def rows_by_def)
qed

lemma raise_signalD:
  assumes "raise_signal E slugs read_meta profiles q db = Inr (r, db')"
  obtains pid org meta i where "emit_as ''agent'' pid org (signal_of q meta) db = Inr (i, db')" "fst r = i"
    "snd r = (find (wf_open pid (dedup_key (signal_of q meta))) (wf_rows db) = None)"
  using assms by (auto simp: raise_signal_def Let_def split: option.splits if_splits sum.splits prod.splits)

lemma signal_of_source: "source_ok (row_as ''agent'' pid org (signal_of q meta) 0)"
  by (simp add: source_ok_def signal_of_def has_prefix_def)

lemma raise_apart:
  assumes ok: "sources_ok db" and run: "raise_call V slugs read_meta profiles q db = Inr (r, db')"
  shows "sources_ok db' \<and> rows_by ''detector'' db' = rows_by ''detector'' db"
proof -
  from run have "raise_signal (ie_pg V) slugs read_meta profiles q db = Inr (r, db')"
    by (simp add: raise_call_def split: option.splits)
  then obtain pid org meta i where e: "emit_as ''agent'' pid org (signal_of q meta) db = Inr (i, db')"
    by (rule raise_signalD)
  from emit_as_ok [OF ok signal_of_source e] show ?thesis by simp
qed

text \<open>Sweeps, raised signals, and a person settling rows: the status is all that changes then.\<close>

inductive signal_step :: "integ_env \<Rightarrow> (string \<Rightarrow> bool) \<Rightarrow> (string \<Rightarrow> (string \<times> meta) list option) \<Rightarrow> signal_db \<Rightarrow> signal_db \<Rightarrow> bool"
  for V :: integ_env and slugs :: "string \<Rightarrow> bool" and read_meta :: "string \<Rightarrow> (string \<times> meta) list option" where
  swept: "run_watcher i db = Inr (db', n) \<Longrightarrow> \<forall>ob \<in> set (in_obligations i). ob_severity ob \<in> set severity_bands \<Longrightarrow>
     signal_step V slugs read_meta db db'"
| raised: "raise_call V slugs read_meta profiles q db = Inr (r, db') \<Longrightarrow> signal_step V slugs read_meta db db'"
| settled: "signal_step V slugs read_meta db (db\<lparr>wf_rows := map (\<lambda>r. r\<lparr>wf_status := f r\<rparr>) (wf_rows db)\<rparr>)"

lemma sources_step: "signal_step V slugs read_meta db db' \<Longrightarrow> sources_ok db \<Longrightarrow> sources_ok db'"
proof (induction rule: signal_step.induct)
  case (swept i db db' n)
  then show ?case using sweep_apart [of db i] by auto
next
  case (raised profiles q db r db')
  then show ?case using raise_apart by blast
next
  case (settled db f)
  then show ?case by (simp add: sources_ok_def source_ok_def)
qed

interpretation two_writers: transition_invariant "\<lambda>db. wf_rows db = []" "signal_step V slugs read_meta" sources_ok
  for V slugs read_meta
  by unfold_locales (simp add: sources_ok_def, blast intro: sources_step)

definition signal_reachable ::
  "integ_env \<Rightarrow> (string \<Rightarrow> bool) \<Rightarrow> (string \<Rightarrow> (string \<times> meta) list option) \<Rightarrow> signal_db \<Rightarrow> bool" where
  "signal_reachable V slugs read_meta db \<longleftrightarrow> (\<exists>s. wf_rows s = [] \<and> (signal_step V slugs read_meta)\<^sup>*\<^sup>* s db)"

lemma reachable_sources: "signal_reachable V slugs read_meta db \<Longrightarrow> sources_ok db"
  unfolding signal_reachable_def using two_writers.inv_reachable by blast

text \<open>
  C12: an agent and the detectors keep apart, whatever keys an agent invents or echoes: no signal an
  agent raised can make a sweep fail, a sweep leaves every agent's row as it was, and a raised
  signal leaves every detector's row as it was.
\<close>

theorem sweeps_and_agents_keep_apart:
  assumes "signal_reachable V slugs read_meta db"
  shows "(\<forall>i. (\<forall>ob \<in> set (in_obligations i). ob_severity ob \<in> set severity_bands) \<longrightarrow>
       (\<exists>db' n. run_watcher i db = Inr (db', n) \<and> rows_by ''agent'' db' = rows_by ''agent'' db))
    \<and> (\<forall>profiles q r db'. raise_call V slugs read_meta profiles q db = Inr (r, db') \<longrightarrow>
       rows_by ''detector'' db' = rows_by ''detector'' db)"
  using sweep_apart raise_apart reachable_sources [OF assms] by meson

definition echo_request :: raise_request where
  "echo_request = \<lparr>rq_org = ''o1'', rq_kind = ''profile_gap'', rq_key = ''gap:obligation:dpo'', rq_title = ''t'', rq_detail = '''',
     rq_severity = ''low'', rq_slug = '''', rq_meta = ''''\<rparr>"

definition echo_env :: integ_env where
  "echo_env = \<lparr>ie_pg = \<lparr>pg_uuid = Some, go_uuid = Some, pg_text = (\<lambda>_. True), pg_lower = (\<lambda>s. s), org_slug = (\<lambda>s n. s),
       sha256 = (\<lambda>s. s)\<rparr>, ie_array = (\<lambda>s. s), ie_cast = (\<lambda>_ _. False), ie_jsonb = (\<lambda>_. True), ie_json = (\<lambda>_. True),
     ie_collate = (\<lambda>s. s), ie_url = (\<lambda>_. None)\<rparr>"

definition echo_profiles :: "sweep_profile list" where
  "echo_profiles = [\<lparr>pr_id = ''p1'', pr_org = ''o1'', pr_created = 0\<rparr>]"

definition echo_db :: signal_db where
  "echo_db = empty_signal_db\<lparr>wf_rows := [row_as ''agent'' ''p1'' ''o1'' (signal_of echo_request []) (next_wf_id empty_signal_db)],
     next_wf_id := Suc (next_wf_id empty_signal_db)\<rparr>"

lemma echo_raised:
  "raise_call echo_env (\<lambda>_. True) (\<lambda>_. Some []) echo_profiles echo_request empty_signal_db
     = Inr ((next_wf_id empty_signal_db, True), echo_db)"
  by (simp add: raise_call_def raise_check_def echo_request_def raise_kinds_def raise_severities_def maxDedupKey_def maxTitle_def
      maxDetail_def maxMetadata_def echo_env_def raise_signal_def echo_profiles_def newest_row_def emit_as_def signal_of_def
      known_kinds_def signal_kinds severity_bands_def empty_signal_db_def echo_db_def Let_def)

lemma echo_reachable: "signal_reachable echo_env (\<lambda>_. True) (\<lambda>_. Some []) echo_db"
proof -
  have "wf_rows empty_signal_db = []" by (simp add: empty_signal_db_def)
  with raised [OF echo_raised] show ?thesis unfolding signal_reachable_def by blast
qed

theorem sweeps_and_agents_keep_apart_witness:
  "\<exists>db' n. run_watcher example_inputs echo_db = Inr (db', n) \<and> length (rows_by ''agent'' db') = 1"
proof -
  have sev: "\<forall>ob \<in> set (in_obligations example_inputs). ob_severity ob \<in> set severity_bands"
    by (simp add: example_inputs_def example_obligation_def severity_bands_def)
  from sweeps_and_agents_keep_apart [OF echo_reachable] sev obtain db' n where
    "run_watcher example_inputs echo_db = Inr (db', n)" "rows_by ''agent'' db' = rows_by ''agent'' echo_db" by blast
  moreover have "length (rows_by ''agent'' echo_db) = 1" by (simp add: rows_by_def echo_db_def)
  ultimately show ?thesis by auto
qed

text \<open>
  an agent that echoes the key it was shown for its own open signal does not restate that
  signal: the prefix is put before the prefix, and a second signal is raised beside the first.
\<close>

theorem echoed_key_raises_a_second_signal:
  assumes first: "raise_call V slugs read_meta profiles q db = Inr ((i, b), db1)"
    and fresh: "\<forall>r \<in> set (wf_rows db). wf_dedup r \<noteq> AgentDedupPrefix @ AgentDedupPrefix @ rq_key q"
    and second: "raise_call V slugs read_meta profiles (q\<lparr>rq_key := AgentDedupPrefix @ rq_key q\<rparr>) db1 = Inr ((j, c), db2)"
  shows "c \<and> wf_rows db1 \<noteq> [] \<and> length (wf_rows db2) = Suc (length (wf_rows db1)) \<and> set (wf_rows db1) \<subseteq> set (wf_rows db2)"
proof -
  let ?q = "q\<lparr>rq_key := AgentDedupPrefix @ rq_key q\<rparr>"
  from first have "raise_signal (ie_pg V) slugs read_meta profiles q db = Inr ((i, b), db1)"
    by (simp add: raise_call_def split: option.splits)
  then obtain pid org meta i' where e1: "emit_as ''agent'' pid org (signal_of q meta) db = Inr (i', db1)" by (rule raise_signalD)
  from second have "raise_signal (ie_pg V) slugs read_meta profiles ?q db1 = Inr ((j, c), db2)"
    by (simp add: raise_call_def split: option.splits)
  then obtain pid2 org2 meta2 j' where e2: "emit_as ''agent'' pid2 org2 (signal_of ?q meta2) db1 = Inr (j', db2)"
    and c: "c = (find (wf_open pid2 (dedup_key (signal_of ?q meta2))) (wf_rows db1) = None)"
    by (rule raise_signalD) auto
  have "wf_rows db1 \<noteq> [] \<and> (\<forall>r \<in> set (wf_rows db1). wf_dedup r \<noteq> AgentDedupPrefix @ AgentDedupPrefix @ rq_key q)"
    using e1 fresh by (auto simp: emit_as_def signal_of_def AgentDedupPrefix_def split: if_splits option.splits dest!: find_SomeD)
  then have ne: "wf_rows db1 \<noteq> []" and none: "find (wf_open pid2 (dedup_key (signal_of ?q meta2))) (wf_rows db1) = None"
    by (auto simp: find_None_iff wf_open_def signal_of_def)
  with e2 c show ?thesis by (auto simp: emit_as_def split: if_splits)
qed

end
