(* ===== verification/Integration_Life.thy ===== *)
theory Integration_Life
  imports Fetch_Path
begin

text \<open>
  The connections of a deployment over time: every operation that touches them as a step, what
  holds in every state the steps reach, and the contract between a store that keeps grants and
  the consent they rest on.
\<close>

section \<open>The newest of some rows\<close>

lemma newest_Nil [simp]: "newest_row f [] = None"
  by (simp add: newest_row_def)

lemma newest_snoc:
  "newest_row f (xs @ [x]) = (case newest_row f xs of None \<Rightarrow> Some x | Some y \<Rightarrow> if f y \<le> f x then Some x else Some y)"
  by (simp add: newest_row_def split: option.split)

lemma newest_None [simp]: "newest_row f xs = None \<longleftrightarrow> xs = []"
  by (induction xs rule: rev_induct) (auto simp: newest_snoc split: option.splits if_splits)

lemma newest_Some: "newest_row f xs = Some x \<Longrightarrow> x \<in> set xs \<and> (\<forall>y \<in> set xs. f y \<le> f x)"
proof (induction xs arbitrary: x rule: rev_induct)
  case Nil
  then show ?case by simp
next
  case (snoc z zs)
  then show ?case by (fastforce simp: newest_snoc split: option.splits if_splits)
qed

lemma newest_last: "\<forall>y \<in> set xs. f y \<le> f x \<Longrightarrow> newest_row f (xs @ [x]) = Some x"
  using newest_Some [of f xs] by (auto simp: newest_snoc split: option.split)

section \<open>What holds of the tables\<close>

definition granted_set :: "string \<Rightarrow> fetch_db \<Rightarrow> string set" where
  "granted_set i db = tr_name ` {r \<in> set (fd_tools db). tr_conn r = i \<and> tr_granted r \<noteq> None}"

definition consents_of :: "string \<Rightarrow> fetch_db \<Rightarrow> consent_row list" where
  "consents_of i db = filter (\<lambda>c. cs_conn c = i) (fd_consents db)"

definition agreed :: "integration_row \<Rightarrow> fetch_db \<Rightarrow> bool" where
  "agreed r db \<longleftrightarrow> (\<exists>c. newest_row cs_at (consents_of (in_id r) db) = Some c \<and> cs_org c = in_org r
     \<and> cs_endpoint c = in_endpoint r \<and> set (cs_granted c) = granted_set (in_id r) db)"

definition rows_ok :: "instant \<Rightarrow> fetch_db \<Rightarrow> bool" where
  "rows_ok ck db \<longleftrightarrow> distinct (map in_id (fd_integrations db))
     \<and> distinct (map (\<lambda>r. (tr_conn r, tr_name r)) (fd_tools db))
     \<and> (\<forall>x \<in> set (fd_tools db). \<exists>r \<in> set (fd_integrations db). in_id r = tr_conn x \<and> in_org r = tr_org x)
     \<and> (\<forall>c \<in> set (fd_consents db). cs_at c \<le> ck
          \<and> (\<exists>r \<in> set (fd_integrations db). in_id r = cs_conn c \<and> in_org r = cs_org c))"

definition integ_ok :: "instant \<Rightarrow> fetch_db \<Rightarrow> bool" where
  "integ_ok ck db \<longleftrightarrow> rows_ok ck db \<and> (\<forall>r \<in> set (fd_integrations db). agreed r db)"

lemma rows_unique:
  "rows_ok ck db \<Longrightarrow> r \<in> set (fd_integrations db) \<Longrightarrow> r' \<in> set (fd_integrations db) \<Longrightarrow> in_id r = in_id r' \<Longrightarrow> r = r'"
  by (auto simp: rows_ok_def distinct_map inj_on_def)

lemma rows_later: "rows_ok ck db \<Longrightarrow> ck \<le> ck' \<Longrightarrow> rows_ok ck' db"
  by (fastforce simp: rows_ok_def)

lemma integ_later: "integ_ok ck db \<Longrightarrow> ck \<le> ck' \<Longrightarrow> integ_ok ck' db"
  by (auto simp: integ_ok_def intro: rows_later)

text \<open>Only the three tables of grants matter to it.\<close>

definition same_grants :: "fetch_db \<Rightarrow> fetch_db \<Rightarrow> bool" where
  "same_grants db db' \<longleftrightarrow> fd_integrations db' = fd_integrations db \<and> fd_tools db' = fd_tools db
     \<and> fd_consents db' = fd_consents db"

lemma same_grants_ok: "same_grants db db' \<Longrightarrow> integ_ok ck db' = integ_ok ck db"
  by (simp add: same_grants_def integ_ok_def rows_ok_def agreed_def consents_of_def granted_set_def)

lemma same_grants_refl [simp]: "same_grants db db"
  by (simp add: same_grants_def)

section \<open>What a visible row shows\<close>

lemma visible_rowD:
  "visible_row V a t cid db = Inr r \<Longrightarrow>
     r \<in> set (fd_integrations db) \<and> pg_uuid (ie_pg V) cid = Some (in_id r) \<and> in_org r = tn_org t \<and> member_of a t"
  by (auto simp: visible_row_def sees_org_def split: option.splits dest!: find_SomeD)

lemma connection_readD:
  assumes "connection_read V a t cid db = Inr c"
  obtains r where "visible_row V a t cid db = Inr r" "c = scan_connection V a t db r"
  using assms by (cases "visible_row V a t cid db") (simp_all add: connection_read_def)

lemma set_tools_of:
  "rows_ok ck db \<Longrightarrow> r \<in> set (fd_integrations db) \<Longrightarrow> in_org r = tn_org t \<Longrightarrow> member_of a t \<Longrightarrow>
     set (tools_of V a t (in_id r) db) = scan_tool ` {x \<in> set (fd_tools db). tr_conn x = in_id r}"
proof -
  assume ok: "rows_ok ck db" and r: "r \<in> set (fd_integrations db)" "in_org r = tn_org t" "member_of a t"
  have "tr_org x = tn_org t" if "x \<in> set (fd_tools db)" "tr_conn x = in_id r" for x
  proof -
    from ok that(1) obtain r' where "r' \<in> set (fd_integrations db)" "in_id r' = tr_conn x" "in_org r' = tr_org x"
      by (auto simp: rows_ok_def)
    with rows_unique [OF ok r(1), of r'] that(2) r(2) show ?thesis by simp
  qed
  then show ?thesis using r(3) by (auto simp: tools_of_def sees_org_def)
qed

lemma find_tool_granted:
  assumes ok: "rows_ok ck db" and r: "visible_row V a t cid db = Inr r"
    and found: "find_tool (tools_of V a t (in_id r) db) tool = Some offer" and "it_granted offer"
  shows "tool \<in> granted_set (in_id r) db \<and> it_name offer = tool"
proof -
  from visible_rowD [OF r] have "set (tools_of V a t (in_id r) db) = scan_tool ` {x \<in> set (fd_tools db). tr_conn x = in_id r}"
    by (intro set_tools_of [OF ok]) auto
  moreover from found have "offer \<in> set (tools_of V a t (in_id r) db)" "it_name offer = tool"
    by (auto simp: find_tool_def dest!: find_SomeD)
  ultimately show ?thesis using assms(4) by (auto simp: granted_set_def scan_tool_def)
qed

section \<open>Creating a connection\<close>

lemma insert_integrationD:
  assumes "insert_integration V a t i kind name endpoint sealed by db = Inr db'"
  obtains r where "fd_integrations db' = fd_integrations db @ [r]" "in_id r = i" "in_org r = tn_org t"
    "in_endpoint r = endpoint" "in_status r = StatusActive" "fd_tools db' = fd_tools db"
    "fd_consents db' = fd_consents db" "\<forall>x \<in> set (fd_integrations db). in_id x \<noteq> i" "fd_asks db' = fd_asks db"
    "fd_fetches db' = fd_fetches db" "fd_evidence db' = fd_evidence db"
  using assms by (auto simp: insert_integration_def list_ex_iff split: option.splits if_splits)

lemma insert_toolD:
  assumes "insert_tool V t i by tool db = Inr db'"
  obtains x where "fd_tools db' = fd_tools db @ [x]" "tr_conn x = i" "tr_org x = tn_org t" "tr_name x = it_name tool"
    "(tr_granted x \<noteq> None) = it_granted tool" "\<forall>z \<in> set (fd_tools db). (tr_conn z, tr_name z) \<noteq> (i, it_name tool)"
    "fd_integrations db' = fd_integrations db" "fd_consents db' = fd_consents db" "fd_asks db' = fd_asks db"
    "fd_fetches db' = fd_fetches db" "fd_evidence db' = fd_evidence db"
  using assms by (auto simp: insert_tool_def list_ex_iff split: option.splits if_splits)

lemma insert_toolsD:
  assumes "fold_res (insert_tool V t i by) tools db = Inr db'" and "distinct (map (\<lambda>r. (tr_conn r, tr_name r)) (fd_tools db))"
  shows "\<exists>xs. fd_tools db' = fd_tools db @ xs \<and> (\<forall>x \<in> set xs. tr_conn x = i \<and> tr_org x = tn_org t)
    \<and> tr_name ` {x \<in> set xs. tr_granted x \<noteq> None} = it_name ` {y \<in> set tools. it_granted y}
    \<and> fd_integrations db' = fd_integrations db \<and> fd_consents db' = fd_consents db \<and> fd_asks db' = fd_asks db
    \<and> fd_fetches db' = fd_fetches db \<and> fd_evidence db' = fd_evidence db
    \<and> distinct (map (\<lambda>r. (tr_conn r, tr_name r)) (fd_tools db'))"
  using assms
proof (induction tools arbitrary: db)
  case Nil
  then show ?case by auto
next
  case (Cons y ys)
  then obtain db1 where one: "insert_tool V t i by y db = Inr db1" and rest: "fold_res (insert_tool V t i by) ys db1 = Inr db'"
    by (auto split: sum.splits)
  from one obtain x where x: "fd_tools db1 = fd_tools db @ [x]" "tr_conn x = i" "tr_org x = tn_org t" "tr_name x = it_name y"
    "(tr_granted x \<noteq> None) = it_granted y" "\<forall>z \<in> set (fd_tools db). (tr_conn z, tr_name z) \<noteq> (i, it_name y)"
    and same: "fd_integrations db1 = fd_integrations db" "fd_consents db1 = fd_consents db" "fd_asks db1 = fd_asks db"
    "fd_fetches db1 = fd_fetches db" "fd_evidence db1 = fd_evidence db"
    by (rule insert_toolD)
  from Cons.prems(2) x have "distinct (map (\<lambda>r. (tr_conn r, tr_name r)) (fd_tools db1))" by auto
  from Cons.IH [OF rest this] obtain xs where xs: "fd_tools db' = fd_tools db1 @ xs"
    "\<forall>x \<in> set xs. tr_conn x = i \<and> tr_org x = tn_org t"
    "tr_name ` {x \<in> set xs. tr_granted x \<noteq> None} = it_name ` {y \<in> set ys. it_granted y}"
    "fd_integrations db' = fd_integrations db1 \<and> fd_consents db' = fd_consents db1 \<and> fd_asks db' = fd_asks db1
    \<and> fd_fetches db' = fd_fetches db1 \<and> fd_evidence db' = fd_evidence db1"
    "distinct (map (\<lambda>r. (tr_conn r, tr_name r)) (fd_tools db'))" by blast
  have "tr_name ` {z \<in> set (x # xs). tr_granted z \<noteq> None}
      = (if it_granted y then {it_name y} else {}) \<union> tr_name ` {z \<in> set xs. tr_granted z \<noteq> None}"
  proof -
    have "{z \<in> set (x # xs). tr_granted z \<noteq> None} = (if it_granted y then {x} else {}) \<union> {z \<in> set xs. tr_granted z \<noteq> None}"
      using x(5) by auto
    then show ?thesis using x(4) by (simp add: image_Un)
  qed
  also have "\<dots> = it_name ` {z \<in> set (y # ys). it_granted z}" unfolding xs(3) by auto
  finally have "tr_name ` {z \<in> set (x # xs). tr_granted z \<noteq> None} = it_name ` {z \<in> set (y # ys). it_granted z}" .
  with xs x same show ?case by (intro exI [of _ "x # xs"]) simp
qed

definition driver_ok :: "integ_env \<Rightarrow> bool" where
  "driver_ok V \<longleftrightarrow> (\<forall>xs. ie_array V (Some xs) = Some xs) \<and> (\<forall>ys. ie_array V None = Some ys \<longrightarrow> ys = [])"

lemma record_consentD:
  assumes "record_consent V t i endpoint tools by db = Inr db'" and "driver_ok V"
  obtains c where "fd_consents db' = fd_consents db @ [c]" "cs_conn c = i" "cs_org c = tn_org t" "cs_at c = tn_now t"
    "cs_endpoint c = endpoint" "set (cs_granted c) = it_name ` {y \<in> set tools. it_granted y}"
    "fd_integrations db' = fd_integrations db" "fd_tools db' = fd_tools db" "fd_asks db' = fd_asks db"
    "fd_fetches db' = fd_fetches db" "fd_evidence db' = fd_evidence db"
proof -
  from assms(1) obtain who names where n: "ie_array V (granted_names tools) = Some names"
    and db': "db' = db\<lparr>fd_consents := fd_consents db @ [\<lparr>cs_org = tn_org t, cs_conn = i, cs_by = who,
       cs_at = tn_now t, cs_endpoint = endpoint, cs_offered = tools, cs_granted = names\<rparr>]\<rparr>"
    by (auto simp: record_consent_def split: option.splits)
  have "names = map it_name (filter it_granted tools)"
    using n assms(2) by (auto simp: granted_names_def appended_def driver_ok_def split: if_splits)
  then have "set names = it_name ` {y \<in> set tools. it_granted y}" by auto
  with db' that show thesis by simp
qed

lemma create_connectionD:
  assumes "create_connection V a t i kind name endpoint sealed tools by db = Inr (c, db')"
  obtains db1 db2 where "insert_integration V a t i kind name endpoint sealed by db = Inr db1"
    "fold_res (insert_tool V t i by) tools db1 = Inr db2" "record_consent V t i endpoint tools by db2 = Inr db'"
  using assms unfolding create_connection_def by (simp add: map_sum_Inr split: sum.split_asm)

lemma create_ok:
  assumes ok: "integ_ok ck db" and V: "driver_ok V" and now: "ck \<le> tn_now t"
    and mk: "create_connection V a t i kind name endpoint sealed tools by db = Inr (c, db')"
  shows "integ_ok (tn_now t) db'"
proof -
  from mk obtain db1 db2 where one: "insert_integration V a t i kind name endpoint sealed by db = Inr db1"
    and two: "fold_res (insert_tool V t i by) tools db1 = Inr db2"
    and three: "record_consent V t i endpoint tools by db2 = Inr db'" by (rule create_connectionD)
  from one obtain r where r: "fd_integrations db1 = fd_integrations db @ [r]" "in_id r = i" "in_org r = tn_org t"
    "in_endpoint r = endpoint" "fd_tools db1 = fd_tools db" "fd_consents db1 = fd_consents db"
    "\<forall>x \<in> set (fd_integrations db). in_id x \<noteq> i" by (rule insert_integrationD)
  from ok have rows: "rows_ok ck db" and agreed: "\<forall>r \<in> set (fd_integrations db). agreed r db"
    by (simp_all add: integ_ok_def)
  from rows r(5) have "distinct (map (\<lambda>r. (tr_conn r, tr_name r)) (fd_tools db1))" by (simp add: rows_ok_def)
  from insert_toolsD [OF two this] obtain xs where xs: "fd_tools db2 = fd_tools db1 @ xs"
    "\<forall>x \<in> set xs. tr_conn x = i \<and> tr_org x = tn_org t"
    "tr_name ` {x \<in> set xs. tr_granted x \<noteq> None} = it_name ` {y \<in> set tools. it_granted y}"
    "fd_integrations db2 = fd_integrations db1" "fd_consents db2 = fd_consents db1"
    "distinct (map (\<lambda>r. (tr_conn r, tr_name r)) (fd_tools db2))" by blast
  from three V obtain k where k: "fd_consents db' = fd_consents db2 @ [k]" "cs_conn k = i" "cs_org k = tn_org t"
    "cs_at k = tn_now t" "cs_endpoint k = endpoint" "set (cs_granted k) = it_name ` {y \<in> set tools. it_granted y}"
    "fd_integrations db' = fd_integrations db2" "fd_tools db' = fd_tools db2" by (rule record_consentD)
  have tools': "fd_tools db' = fd_tools db @ xs" using k(8) xs(1) r(5) by simp
  have cons': "fd_consents db' = fd_consents db @ [k]" using k(1) xs(5) r(6) by simp
  have ints': "fd_integrations db' = fd_integrations db @ [r]" using k(7) xs(4) r(1) by simp
  have no_tools: "tr_conn x \<noteq> i" if "x \<in> set (fd_tools db)" for x
    using rows that r(7) unfolding rows_ok_def by fastforce
  have no_cons: "cs_conn x \<noteq> i" if "x \<in> set (fd_consents db)" for x
    using rows that r(7) unfolding rows_ok_def by fastforce
  have "agreed r db'"
  proof -
    have "consents_of i db' = [k]" using no_cons k(2) by (auto simp: consents_of_def cons' filter_empty_conv)
    then have "newest_row cs_at (consents_of i db') = Some k" by (simp add: newest_row_def)
    moreover have "granted_set i db' = tr_name ` {x \<in> set xs. tr_granted x \<noteq> None}"
      using no_tools xs(2) by (auto simp: granted_set_def tools')
    ultimately show ?thesis using k r xs(3) by (simp add: agreed_def)
  qed
  moreover have "agreed r' db'" if r': "r' \<in> set (fd_integrations db)" for r'
  proof -
    from r' r(7) have "in_id r' \<noteq> i" by auto
    then have "consents_of (in_id r') db' = consents_of (in_id r') db" "granted_set (in_id r') db' = granted_set (in_id r') db"
      using k(2) xs(2) by (auto simp: consents_of_def cons' granted_set_def tools')
    with agreed r' show ?thesis by (simp add: agreed_def)
  qed
  moreover have "rows_ok (tn_now t) db'"
    unfolding rows_ok_def
  proof (intro conjI)
    show "distinct (map in_id (fd_integrations db'))" using rows r by (auto simp: rows_ok_def ints')
    show "distinct (map (\<lambda>r. (tr_conn r, tr_name r)) (fd_tools db'))" using k(8) xs(6) by simp
    show "\<forall>x \<in> set (fd_tools db'). \<exists>r \<in> set (fd_integrations db'). in_id r = tr_conn x \<and> in_org r = tr_org x"
      using rows xs(2) r(2,3) unfolding rows_ok_def ints' tools' by fastforce
    show "\<forall>c \<in> set (fd_consents db'). cs_at c \<le> tn_now t
        \<and> (\<exists>r \<in> set (fd_integrations db'). in_id r = cs_conn c \<and> in_org r = cs_org c)"
      using rows_later [OF rows now] k(2-4) r(2,3) unfolding rows_ok_def ints' cons' by fastforce
  qed
  ultimately show ?thesis by (auto simp: integ_ok_def ints')
qed

section \<open>Changing the grants\<close>

lemma set_grant_simps [simp]:
  "tr_conn (set_grant t i who tool r) = tr_conn r" "tr_name (set_grant t i who tool r) = tr_name r"
  "tr_org (set_grant t i who tool r) = tr_org r" "tr_writes (set_grant t i who tool r) = tr_writes r"
  by (simp_all add: set_grant_def)

lemma fold_set_grant_simps [simp]:
  "tr_conn (fold (set_grant t i who) ts r) = tr_conn r" "tr_name (fold (set_grant t i who) ts r) = tr_name r"
  "tr_org (fold (set_grant t i who) ts r) = tr_org r" "tr_writes (fold (set_grant t i who) ts r) = tr_writes r"
  by (induction ts arbitrary: r) simp_all

lemma fold_map_rows: "fold (\<lambda>tool. map (f tool)) ts rows = map (fold f ts) rows"
  by (induction ts arbitrary: rows) (simp_all add: comp_def)

lemma set_grant_other: "tr_conn r \<noteq> i \<Longrightarrow> fold (set_grant t i who) ts r = r"
  by (induction ts) (simp_all add: set_grant_def)

lemma set_grant_granted:
  assumes "tr_conn r = i" and "tr_org r = tn_org t" and "\<forall>x \<in> set ts. it_granted x = P (it_name x)"
    and "tr_name r \<in> it_name ` set ts \<or> (tr_granted r \<noteq> None) = P (tr_name r)"
  shows "(tr_granted (fold (set_grant t i who) ts r) \<noteq> None) = P (tr_name r)"
  using assms
proof (induction ts arbitrary: r)
  case Nil
  then show ?case by simp
next
  case (Cons x ts)
  have "(tr_granted (fold (set_grant t i who) ts (set_grant t i who x r)) \<noteq> None) = P (tr_name (set_grant t i who x r))"
  proof (rule Cons.IH)
    show "tr_name (set_grant t i who x r) \<in> it_name ` set ts
        \<or> (tr_granted (set_grant t i who x r) \<noteq> None) = P (tr_name (set_grant t i who x r))"
    proof (cases "tr_name r = it_name x")
      case True
      with Cons.prems(1,2,3) show ?thesis by (simp add: set_grant_def)
    next
      case False
      then have "set_grant t i who x r = r" by (simp add: set_grant_def)
      with False Cons.prems(4) show ?thesis by auto
    qed
  qed (use Cons.prems in auto)
  then show ?case by simp
qed

lemma resolve_grantsD:
  assumes "resolve_grants offered wants = Inr ts"
  shows "it_name ` set ts = it_name ` set offered
    \<and> (\<forall>x \<in> set ts. it_granted x = (it_name x \<in> set (wanted_names wants)))
    \<and> set (wanted_names wants) \<subseteq> it_name ` set offered"
  using assms by (auto simp: resolve_grants_def find_None_iff image_image split: option.splits)

lemma granted_set_map:
  assumes "fd_tools db' = map f (fd_tools db)" and "\<And>x. tr_conn (f x) = tr_conn x" "\<And>x. tr_name (f x) = tr_name x"
  shows "granted_set i db' = tr_name ` {x \<in> set (fd_tools db). tr_conn x = i \<and> tr_granted (f x) \<noteq> None}"
proof -
  have "{x \<in> set (fd_tools db'). tr_conn x = i \<and> tr_granted x \<noteq> None}
      = f ` {x \<in> set (fd_tools db). tr_conn x = i \<and> tr_granted (f x) \<noteq> None}"
    using assms by auto
  then show ?thesis using assms(3) by (simp add: granted_set_def image_image)
qed

lemma set_grants_ok:
  assumes ok: "integ_ok ck db" and V: "driver_ok V" and now: "ck \<le> tn_now t"
    and run: "set_grants V a t cid wants by db = Inr (c', db')"
  shows "integ_ok (tn_now t) db'"
proof -
  from ok have rows: "rows_ok ck db" and agreed: "\<forall>r \<in> set (fd_integrations db). agreed r db"
    by (simp_all add: integ_ok_def)
  from run obtain c where "connection_read V a t cid db = Inr c" by (auto simp: set_grants_def split: sum.splits)
  then obtain r where vis: "visible_row V a t cid db = Inr r" and c: "c = scan_connection V a t db r"
    and read: "connection_read V a t cid db = Inr (scan_connection V a t db r)"
    by (metis connection_readD)
  from visible_rowD [OF vis] have r: "r \<in> set (fd_integrations db)" "in_org r = tn_org t" "member_of a t" by auto
  let ?i = "in_id r"
  from run read obtain ts who where ts: "resolve_grants (tools_of V a t ?i db) wants = Inr ts"
    and cons: "record_consent V t ?i (in_endpoint r) ts by
      (db\<lparr>fd_tools := fold (\<lambda>tool. map (set_grant t ?i who tool)) ts (fd_tools db)\<rparr>) = Inr db'"
    by (auto simp: set_grants_def scan_connection_def map_sum_def split: sum.splits option.splits if_splits)
  from cons V obtain k where k: "fd_consents db' = fd_consents db @ [k]" "cs_conn k = ?i" "cs_org k = tn_org t"
    "cs_at k = tn_now t" "cs_endpoint k = in_endpoint r" "set (cs_granted k) = it_name ` {y \<in> set ts. it_granted y}"
    "fd_integrations db' = fd_integrations db"
    "fd_tools db' = map (fold (set_grant t ?i who) ts) (fd_tools db)"
    by (rule record_consentD) (simp add: fold_map_rows)
  note D = resolve_grantsD [OF ts]
  have names: "it_name ` set ts = tr_name ` {x \<in> set (fd_tools db). tr_conn x = ?i}"
    using D set_tools_of [OF rows r(1,2,3), of V] by (simp add: image_image scan_tool_def)
  have org: "tr_org x = tn_org t" if "x \<in> set (fd_tools db)" "tr_conn x = ?i" for x
    using rows that r rows_unique [OF rows r(1)] unfolding rows_ok_def by fastforce
  have new: "(tr_granted (fold (set_grant t ?i who) ts x) \<noteq> None) = (tr_name x \<in> set (wanted_names wants))"
    if "x \<in> set (fd_tools db)" "tr_conn x = ?i" for x
    using that org [OF that] D names by (intro set_grant_granted) auto
  have gset: "granted_set ?i db' = set (cs_granted k)"
  proof -
    have "granted_set ?i db' = tr_name ` {x \<in> set (fd_tools db). tr_conn x = ?i \<and> tr_granted (fold (set_grant t ?i who) ts x) \<noteq> None}"
      by (rule granted_set_map) (simp_all add: k(8))
    also have "{x \<in> set (fd_tools db). tr_conn x = ?i \<and> tr_granted (fold (set_grant t ?i who) ts x) \<noteq> None}
        = {x \<in> set (fd_tools db). tr_conn x = ?i \<and> tr_name x \<in> set (wanted_names wants)}"
      using new by blast
    also have "tr_name ` \<dots> = {n \<in> tr_name ` {x \<in> set (fd_tools db). tr_conn x = ?i}. n \<in> set (wanted_names wants)}" by auto
    also have "\<dots> = it_name ` {y \<in> set ts. it_granted y}" unfolding names [symmetric] using D [THEN conjunct2, THEN conjunct1] by blast
    finally show ?thesis using k(6) by simp
  qed
  have "agreed r db'"
  proof -
    have "consents_of ?i db' = consents_of ?i db @ [k]" using k(2) by (simp add: consents_of_def k(1))
    moreover have "\<forall>x \<in> set (consents_of ?i db). cs_at x \<le> cs_at k"
      using rows now k(4) unfolding rows_ok_def consents_of_def by fastforce
    ultimately have "newest_row cs_at (consents_of ?i db') = Some k" using newest_last by metis
    with k gset r(2) show ?thesis by (simp add: agreed_def)
  qed
  moreover have "agreed r' db'" if r': "r' \<in> set (fd_integrations db)" "in_id r' \<noteq> ?i" for r'
  proof -
    have "consents_of (in_id r') db' = consents_of (in_id r') db" using k(2) r'(2) by (auto simp: consents_of_def k(1))
    moreover have "granted_set (in_id r') db' = granted_set (in_id r') db"
      proof -
      have "granted_set (in_id r') db' = tr_name ` {x \<in> set (fd_tools db). tr_conn x = in_id r'
          \<and> tr_granted (fold (set_grant t ?i who) ts x) \<noteq> None}"
        by (rule granted_set_map) (simp_all add: k(8))
      also have "\<dots> = granted_set (in_id r') db"
        unfolding granted_set_def using r'(2) by (metis (mono_tags, lifting) set_grant_other)
      finally show ?thesis .
    qed
    ultimately show ?thesis using agreed r'(1) by (simp add: agreed_def)
  qed
  moreover have "rows_ok (tn_now t) db'"
    unfolding rows_ok_def
  proof (intro conjI)
    show "distinct (map in_id (fd_integrations db'))" using rows by (simp add: rows_ok_def k(7))
    show "distinct (map (\<lambda>r. (tr_conn r, tr_name r)) (fd_tools db'))" using rows by (simp add: rows_ok_def k(8) comp_def)
    show "\<forall>x \<in> set (fd_tools db'). \<exists>r \<in> set (fd_integrations db'). in_id r = tr_conn x \<and> in_org r = tr_org x"
      using rows by (simp add: rows_ok_def k(7,8))
    show "\<forall>c \<in> set (fd_consents db'). cs_at c \<le> tn_now t
        \<and> (\<exists>r \<in> set (fd_integrations db'). in_id r = cs_conn c \<and> in_org r = cs_org c)"
      using rows_later [OF rows now] k r unfolding rows_ok_def by fastforce
  qed
  ultimately show ?thesis
    unfolding integ_ok_def k(7) using rows_unique [OF rows r(1)] by metis
qed

section \<open>Revoking\<close>

definition revoke_row :: "access_db \<Rightarrow> tenant \<Rightarrow> string \<Rightarrow> string option \<Rightarrow> integration_row \<Rightarrow> integration_row" where
  "revoke_row a t i who r = (if in_id r = i \<and> in_status r = StatusActive \<and> sees_org a t (in_org r)
     then r\<lparr>in_status := StatusRevoked, in_revoked := Some (tn_now t, who)\<rparr> else r)"

lemma revoke_row_simps [simp]:
  "in_id (revoke_row a t i who r) = in_id r" "in_org (revoke_row a t i who r) = in_org r"
  "in_endpoint (revoke_row a t i who r) = in_endpoint r"
  by (simp_all add: revoke_row_def)

lemma revokeD:
  assumes "revoke_connection V a t cid by db = Inr (c, db')"
  obtains i who where "db' = db\<lparr>fd_integrations := map (revoke_row a t i who) (fd_integrations db)\<rparr>"
    "pg_uuid (ie_pg V) cid = Some i"
  using assms by (auto simp: revoke_connection_def Let_def revoke_row_def [abs_def] map_sum_def split: option.splits sum.splits)

lemma map_rows_ok:
  assumes "integ_ok ck db" and "\<And>r. in_id (f r) = in_id r" "\<And>r. in_org (f r) = in_org r" "\<And>r. in_endpoint (f r) = in_endpoint r"
  shows "integ_ok ck (db\<lparr>fd_integrations := map f (fd_integrations db)\<rparr>)"
  using assms by (auto simp: integ_ok_def rows_ok_def agreed_def consents_of_def granted_set_def comp_def)

lemma revoke_ok:
  "integ_ok ck db \<Longrightarrow> revoke_connection V a t cid by db = Inr (c, db') \<Longrightarrow> integ_ok ck db'"
  by (erule revokeD) (simp add: map_rows_ok)

section \<open>The operations that leave the grants alone\<close>

lemma record_fetch_grants:
  "record_fetch V a t fid cid tool args outcome detail evidence redacted requested by db = Inr (f, db') \<Longrightarrow>
     same_grants db db' \<and> fd_evidence db' = fd_evidence db \<and> fd_asks db' = fd_asks db
     \<and> (\<exists>x. fd_fetches db' = fd_fetches db @ [x] \<and> fr_outcome x = outcome)"
  by (auto simp: record_fetch_def Let_def same_grants_def split: option.splits if_splits sum.splits list.splits)

lemma record_observation_grants:
  "record_observation V a t eid fid cid tool args content redacted observed requested by db = Inr (f, db') \<Longrightarrow>
     same_grants db db' \<and> fd_asks db' = fd_asks db \<and> ie_cast V ''jsonb'' ''bytea''"
  by (auto simp: record_observation_def same_grants_def split: option.splits if_splits dest!: record_fetch_grants)

lemma rolled_back_grants:
  "rolled_back db (record_refusal V a t fid cid tool args outcome detail requested by db) = (r, db') \<Longrightarrow>
     same_grants db db' \<and> fd_asks db' = fd_asks db"
  by (auto simp: rolled_back_def record_refusal_def split: sum.splits dest!: record_fetch_grants)

lemma rolled_back_observation:
  "rolled_back db (record_observation V a t eid fid cid tool args content redacted observed requested by db) = (r, db') \<Longrightarrow>
     same_grants db db' \<and> fd_asks db' = fd_asks db"
  by (auto simp: rolled_back_def split: sum.splits dest!: record_observation_grants)

lemma fetch_granted_grants:
  "fetch_granted V G ring X a t eid fid cid tool args at0 c offer (db, gw) = (r, db', gw') \<Longrightarrow>
     same_grants db db' \<and> fd_asks db' = fd_asks db"
  by (auto simp: fetch_granted_def split: sum.splits option.splits prod.splits
      dest: rolled_back_grants rolled_back_observation)

lemma fetch_now_grants:
  "fetch_now V G ring X a t eid fid cid raw_tool raw_args at0 (db, gw) = (r, db', gw') \<Longrightarrow>
     same_grants db db' \<and> fd_asks db' = fd_asks db"
  by (auto simp: fetch_now_def Let_def split: sum.splits option.splits if_splits prod.splits
      dest: rolled_back_grants fetch_granted_grants)

lemma ingest_grants:
  "ingest_evidence V now eid fid x db = Inr (d, db') \<Longrightarrow> same_grants db db' \<and> fd_asks db' = fd_asks db"
  by (auto simp: ingest_evidence_def Let_def same_grants_def split: if_splits)

lemma deposit_grants:
  "deposit_call V now eid fid x db = (r, db') \<Longrightarrow> same_grants db db' \<and> fd_asks db' = fd_asks db"
  by (auto simp: deposit_call_def split: sum.splits dest!: ingest_grants)

lemma record_call_grants:
  "record_call V now eid fid org cid tool outcome detail db = (r, db') \<Longrightarrow> same_grants db db' \<and> fd_asks db' = fd_asks db"
  by (auto simp: record_call_def split: option.splits dest!: deposit_grants)

lemma planned_fetch_grants:
  "planned_fetch V G ring X quote now eid fid org cid tool p (db, gw) = (r, db', gw') \<Longrightarrow>
     same_grants db db' \<and> fd_asks db' = fd_asks db"
  by (auto simp: planned_fetch_def split: if_splits sum.splits prod.splits dest: record_call_grants deposit_grants)

lemma run_scheduled_grants:
  "run_scheduled V G ring X quote a now eid fid raw_cid raw_tool (db, gw) = (r, db', gw') \<Longrightarrow>
     same_grants db db' \<and> fd_asks db' = fd_asks db"
  by (auto simp: run_scheduled_def Let_def split: if_splits sum.splits prod.splits plan_fault.splits integ_fault.splits
      dest: record_call_grants planned_fetch_grants)

lemma ingest_call_grants:
  "ingest_call V now eid fid m db = Inr (d, db') \<Longrightarrow> same_grants db db' \<and> fd_asks db' = fd_asks db"
  by (cases "ingest_check V m") (auto simp: ingest_call_def map_sum_def split: sum.splits dest!: ingest_grants)

lemma request_fetch_grants:
  assumes "request_fetch V now rid org cid tool why since pending db = Inr (ask, db')"
  shows "same_grants db db' \<and> (fd_asks db' = fd_asks db
       \<or> (\<exists>k. fd_asks db' = fd_asks db @ [k] \<and> ak_at k = now \<and> ak_tool k = tool
            \<and> (\<exists>r \<in> set (fd_integrations db). in_id r = ak_conn k \<and> in_org r = ak_org k)
            \<and> (\<forall>x \<in> set (fd_asks db). ak_org x = ak_org k \<and> ak_conn x = ak_conn k \<and> ak_tool x = tool \<longrightarrow> ak_at x \<le> pending)))"
  using assms
  by (auto simp: request_fetch_def same_grants_def filter_empty_conv not_less split: option.splits if_splits dest!: find_SomeD)

end
