(* ===== verification/Integration_Claims.thy ===== *)
theory Integration_Claims
  imports Integration_Life
begin

text \<open>
  What the connections of a deployment promise, over every sequence of the operations: what is
  dialled rests on a live consent, revocation is final, grants are what was last agreed, a
  schedule keeps the changes and asks are bounded; and where the code falls short of it.
\<close>

section \<open>The steps\<close>

type_synonym integ_state = "fetch_db \<times> gateway_state \<times> instant"

text \<open>
  One request that answered, by whoever belongs to whatever organisation at that moment, at a
  later instant than the ones before; a fetch is a step whatever became of it.
\<close>

inductive integ_step ::
  "integ_env \<Rightarrow> gcm \<Rightarrow> keyring \<Rightarrow> gateway_link \<Rightarrow> (string \<Rightarrow> string) \<Rightarrow> integ_state \<Rightarrow> integ_state \<Rightarrow> bool"
  for V :: integ_env and G :: gcm and ring :: keyring and X :: gateway_link and quote :: "string \<Rightarrow> string" where
  connect_step: "connect_call V G ring a t i nonce q db = Inr (c, db') \<Longrightarrow> ck < tn_now t \<Longrightarrow>
     integ_step V G ring X quote (db, gw, ck) (db', gw, tn_now t)"
| grants_step: "update_grants_call V a t cid wants db = Inr (c, db') \<Longrightarrow> ck < tn_now t \<Longrightarrow>
     integ_step V G ring X quote (db, gw, ck) (db', gw, tn_now t)"
| revoke_step: "revoke_call V a t cid db = Inr (c, db') \<Longrightarrow> ck < tn_now t \<Longrightarrow>
     integ_step V G ring X quote (db, gw, ck) (db', gw, tn_now t)"
| fetch_step: "fetch_now V G ring X a t eid fid cid raw_tool raw_args now (db, gw) = (r, db', gw') \<Longrightarrow> ck < now \<Longrightarrow>
     integ_step V G ring X quote (db, gw, ck) (db', gw', now)"
| schedule_step: "run_scheduled V G ring X quote a now eid fid cid raw_tool (db, gw) = (s, db', gw') \<Longrightarrow> ck < now \<Longrightarrow>
     integ_step V G ring X quote (db, gw, ck) (db', gw', now)"
| ingest_step: "ingest_call V now eid fid m db = Inr (d, db') \<Longrightarrow> ck < now \<Longrightarrow>
     integ_step V G ring X quote (db, gw, ck) (db', gw, now)"
| ask_step: "request_fetch_call V quote now rid org cid raw_tool raw_reason db = (k, db') \<Longrightarrow> ck < now \<Longrightarrow>
     integ_step V G ring X quote (db, gw, ck) (db', gw, now)"

inductive_cases integ_stepE: "integ_step V G ring X quote st st'"

definition integ_start :: "integ_state \<Rightarrow> bool" where
  "integ_start st \<longleftrightarrow> (case st of (db, gw, ck) \<Rightarrow>
     fd_integrations db = [] \<and> fd_tools db = [] \<and> fd_consents db = [] \<and> fd_asks db = [])"

definition integ_reachable ::
  "integ_env \<Rightarrow> gcm \<Rightarrow> keyring \<Rightarrow> gateway_link \<Rightarrow> (string \<Rightarrow> string) \<Rightarrow> integ_state \<Rightarrow> bool" where
  "integ_reachable V G ring X quote st \<longleftrightarrow> (\<exists>s. integ_start s \<and> (integ_step V G ring X quote)\<^sup>*\<^sup>* s st)"

definition asks_ok :: "instant \<Rightarrow> fetch_db \<Rightarrow> bool" where
  "asks_ok ck db \<longleftrightarrow>
     sorted_wrt (\<lambda>x y. ak_conn x = ak_conn y \<and> ak_tool x = ak_tool y \<longrightarrow> ak_at x + hour \<le> ak_at y) (fd_asks db)
     \<and> (\<forall>k \<in> set (fd_asks db). ak_at k \<le> ck
          \<and> (\<exists>r \<in> set (fd_integrations db). in_id r = ak_conn k \<and> in_org r = ak_org k))"

definition integ_inv :: "integ_state \<Rightarrow> bool" where
  "integ_inv st \<longleftrightarrow> (case st of (db, gw, ck) \<Rightarrow> integ_ok ck db \<and> asks_ok ck db)"

lemma asks_later: "asks_ok ck db \<Longrightarrow> ck \<le> ck' \<Longrightarrow> asks_ok ck' db"
  by (fastforce simp: asks_ok_def)

lemma asks_same:
  "asks_ok ck db \<Longrightarrow> fd_asks db' = fd_asks db \<Longrightarrow>
     (\<forall>r \<in> set (fd_integrations db). \<exists>r' \<in> set (fd_integrations db'). in_id r' = in_id r \<and> in_org r' = in_org r) \<Longrightarrow> asks_ok ck db'"
  unfolding asks_ok_def by (metis (no_types, lifting))

lemma asks_same_grants: "asks_ok ck db \<Longrightarrow> same_grants db db' \<Longrightarrow> fd_asks db' = fd_asks db \<Longrightarrow> asks_ok ck db'"
  by (simp add: asks_ok_def same_grants_def)

lemma connect_asks:
  assumes "create_connection V a t i kind name endpoint sealed tools by db = Inr (c, db')"
  shows "fd_asks db' = fd_asks db \<and> (\<exists>r. fd_integrations db' = fd_integrations db @ [r] \<and> in_status r = StatusActive \<and> in_id r = i)
    \<and> (\<forall>x \<in> set (fd_integrations db). in_id x \<noteq> i)"
proof -
  from assms obtain db1 db2 where one: "insert_integration V a t i kind name endpoint sealed by db = Inr db1"
    and two: "fold_res (insert_tool V t i by) tools db1 = Inr db2"
    and three: "record_consent V t i endpoint tools by db2 = Inr db'" by (rule create_connectionD)
  have "fd_asks db2 = fd_asks db1 \<and> fd_integrations db2 = fd_integrations db1"
    using two by (rule fold_res_inv [where P = "\<lambda>d. fd_asks d = fd_asks db1 \<and> fd_integrations d = fd_integrations db1"])
      (auto elim: insert_toolD)
  moreover have "fd_asks db' = fd_asks db2 \<and> fd_integrations db' = fd_integrations db2"
    using three by (auto simp: record_consent_def split: option.splits)
  moreover from one obtain r where "fd_asks db1 = fd_asks db" "fd_integrations db1 = fd_integrations db @ [r]"
    "in_status r = StatusActive" "in_id r = i" "\<forall>x \<in> set (fd_integrations db). in_id x \<noteq> i" by (rule insert_integrationD)
  ultimately show ?thesis by auto
qed

lemma connect_callD:
  assumes "connect_call V G ring a t i nonce q db = Inr (c, db')"
  obtains sealed tools where "create_connection V a t i KindMCP (trim_space (cq_name q)) (trim_space (cq_endpoint q))
    sealed tools (tn_user t) db = Inr (c, db')"
  using assms by (auto simp: connect_call_def split: option.splits sum.splits)

lemma set_grants_asks:
  "set_grants V a t cid wants by db = Inr (c, db') \<Longrightarrow>
     fd_asks db' = fd_asks db \<and> fd_integrations db' = fd_integrations db"
  by (auto simp: set_grants_def record_consent_def map_sum_def split: sum.splits option.splits if_splits)

lemma ask_callD:
  assumes "request_fetch_call V quote now rid org cid raw_tool raw_reason db = (k, db')"
  shows "db' = db \<or> (\<exists>ask. request_fetch V now rid org cid (trim_space raw_tool) (trim_space raw_reason)
     (now - fetchCooldown) (now - fetchPendingWindow) db = Inr (ask, db'))"
  using assms by (auto simp: request_fetch_call_def Let_def split: if_splits sum.splits)

lemma request_fetch_asks:
  assumes ok: "integ_ok ck db" "asks_ok ck db" and now: "ck < now"
    and run: "request_fetch V now rid org cid tool why since (now - hour) db = Inr (ask, db')"
  shows "asks_ok now db'"
proof -
  have later: "asks_ok now db" using asks_later [OF ok(2)] now by simp
  note D = request_fetch_grants [OF run]
  then consider "fd_asks db' = fd_asks db" | k where "fd_asks db' = fd_asks db @ [k]" "ak_at k = now" "ak_tool k = tool"
    "\<exists>r \<in> set (fd_integrations db). in_id r = ak_conn k \<and> in_org r = ak_org k"
    "\<forall>x \<in> set (fd_asks db). ak_org x = ak_org k \<and> ak_conn x = ak_conn k \<and> ak_tool x = tool \<longrightarrow> ak_at x \<le> now - hour" by blast
  then show ?thesis
  proof cases
    case 1
    with asks_same_grants [OF later] D show ?thesis by simp
  next
    case 2
    have org: "ak_org x = ak_org k" if "x \<in> set (fd_asks db)" "ak_conn x = ak_conn k" for x
    proof -
      from ok(2) that obtain r where "r \<in> set (fd_integrations db)" "in_id r = ak_conn x" "in_org r = ak_org x"
        by (auto simp: asks_ok_def)
      moreover obtain r' where "r' \<in> set (fd_integrations db)" "in_id r' = ak_conn k" "in_org r' = ak_org k" using 2(4) by blast
      moreover have "rows_ok ck db" using ok(1) by (simp add: integ_ok_def)
      ultimately show ?thesis using rows_unique [of ck db r r'] that(2) by simp
    qed
    have ints: "fd_integrations db' = fd_integrations db" using D by (simp add: same_grants_def)
    from later org 2 show ?thesis
      unfolding asks_ok_def ints 2(1) by (auto simp: sorted_wrt_append)
  qed
qed

lemma quiet_step:
  assumes same: "same_grants db db' \<and> fd_asks db' = fd_asks db" and inv: "integ_inv (db, gw, ck)" and now: "ck < now"
  shows "integ_inv (db', gw', now)"
proof -
  from inv now have "integ_ok now db" "asks_ok now db" by (simp_all add: integ_inv_def integ_later [of ck] asks_later [of ck])
  moreover from same have sg: "same_grants db db'" and "fd_asks db' = fd_asks db" by simp_all
  ultimately show ?thesis using same_grants_ok [OF sg, of now] asks_same_grants [OF _ sg, of now] by (simp add: integ_inv_def)
qed

lemma integ_inv_step:
  assumes V: "driver_ok V" and inv: "integ_inv st" and step: "integ_step V G ring X quote st st'"
  shows "integ_inv st'"
  using step
proof cases
  case (connect_step a t i nonce q db c db' ck gw)
  with inv have ok: "integ_ok ck db" "asks_ok ck db" by (simp_all add: integ_inv_def)
  from connect_step(3) obtain sealed tools where mk: "create_connection V a t i KindMCP (trim_space (cq_name q))
    (trim_space (cq_endpoint q)) sealed tools (tn_user t) db = Inr (c, db')" by (rule connect_callD)
  have "asks_ok (tn_now t) db'"
    using asks_later [OF ok(2)] connect_asks [OF mk] connect_step(4) by (intro asks_same [of _ db db']) auto
  with create_ok [OF ok(1) V _ mk] connect_step show ?thesis by (simp add: integ_inv_def)
next
  case (grants_step a t cid wants db c db' ck gw)
  with inv have ok: "integ_ok ck db" "asks_ok ck db" by (simp_all add: integ_inv_def)
  from grants_step(3) have run: "set_grants V a t cid wants (tn_user t) db = Inr (c, db')" by (simp add: update_grants_call_def)
  have "asks_ok (tn_now t) db'"
    using asks_later [OF ok(2)] set_grants_asks [OF run] grants_step(4) by (intro asks_same [of _ db db']) auto
  with set_grants_ok [OF ok(1) V _ run] grants_step show ?thesis by (simp add: integ_inv_def)
next
  case (revoke_step a t cid db c db' ck gw)
  with inv have ok: "integ_ok ck db" "asks_ok ck db" by (simp_all add: integ_inv_def)
  from revoke_step(3) have run: "revoke_connection V a t cid (tn_user t) db = Inr (c, db')" by (simp add: revoke_call_def)
  obtain i who where db': "db' = db\<lparr>fd_integrations := map (revoke_row a t i who) (fd_integrations db)\<rparr>"
    using run by (rule revokeD)
  have "asks_ok (tn_now t) db'"
    using asks_later [OF ok(2)] revoke_step(4) by (intro asks_same [of _ db db']) (auto simp: db')
  with integ_later [OF revoke_ok [OF ok(1) run]] revoke_step show ?thesis by (simp add: integ_inv_def)
next
  case (fetch_step a t eid fid cid raw_tool raw_args now db gw r db' gw' ck)
  with inv quiet_step [OF fetch_now_grants [OF fetch_step(3)]] show ?thesis by simp
next
  case (schedule_step a now eid fid cid raw_tool db gw s db' gw' ck)
  with inv quiet_step [OF run_scheduled_grants [OF schedule_step(3)]] show ?thesis by simp
next
  case (ingest_step now eid fid m db d db' ck gw)
  with inv quiet_step [OF ingest_call_grants [OF ingest_step(3)]] show ?thesis by simp
next
  case (ask_step now rid org cid raw_tool raw_reason db k db' ck gw)
  with inv have ok: "integ_ok ck db" "asks_ok ck db" by (simp_all add: integ_inv_def)
  from ask_callD [OF ask_step(3)] show ?thesis
  proof
    assume "db' = db"
    with ask_step ok show ?thesis by (auto simp: integ_inv_def intro: integ_later asks_later)
  next
    assume "\<exists>ask. request_fetch V now rid org cid (trim_space raw_tool) (trim_space raw_reason)
     (now - fetchCooldown) (now - fetchPendingWindow) db = Inr (ask, db')"
    then obtain ask where run: "request_fetch V now rid org cid (trim_space raw_tool) (trim_space raw_reason)
     (now - fetchCooldown) (now - hour) db = Inr (ask, db')" by (auto simp: fetchPendingWindow_def)
    from request_fetch_asks [OF ok ask_step(4) run] request_fetch_grants [OF run] ok(1) ask_step
    show ?thesis by (auto simp: integ_inv_def same_grants_ok intro: integ_later)
  qed
qed

definition driver_link :: "integ_env \<Rightarrow> integ_state \<Rightarrow> bool" where
  "driver_link V st \<longleftrightarrow> driver_ok V \<longrightarrow> integ_inv st"

interpretation integrations: transition_invariant integ_start "integ_step V G ring X quote" "driver_link V"
  for V G ring X quote
proof
  fix s :: integ_state assume "integ_start s"
  then show "driver_link V s"
    by (auto simp: driver_link_def integ_start_def integ_inv_def integ_ok_def rows_ok_def asks_ok_def split: prod.splits)
next
  fix s s' :: integ_state assume "driver_link V s" "integ_step V G ring X quote s s'"
  then show "driver_link V s'" by (auto simp: driver_link_def intro: integ_inv_step)
qed

lemma integ_reachable_inv: "driver_ok V \<Longrightarrow> integ_reachable V G ring X quote st \<Longrightarrow> integ_inv st"
proof -
  assume V: "driver_ok V" and "integ_reachable V G ring X quote st"
  then obtain s where "integ_start s" "(integ_step V G ring X quote)\<^sup>*\<^sup>* s st" by (auto simp: integ_reachable_def)
  from integrations.inv_reachable [OF this] V show "integ_inv st" by (simp add: driver_link_def)
qed

text \<open>
  C5: in every state the operations reach, what a connection has granted is exactly what its
  newest consent granted, and its address is the one that was consented to.
\<close>

theorem grants_are_what_was_agreed:
  assumes "driver_ok V" and "integ_reachable V G ring X quote (db, gw, ck)" and "r \<in> set (fd_integrations db)"
  shows "\<exists>c. newest_row cs_at (consents_of (in_id r) db) = Some c \<and> cs_org c = in_org r
    \<and> cs_endpoint c = in_endpoint r \<and> set (cs_granted c) = granted_set (in_id r) db"
  using integ_reachable_inv [OF assms(1,2)] assms(3) by (auto simp: integ_inv_def integ_ok_def agreed_def)

text \<open>
  C21: an agent's asks for one tool of one connection are at least an hour apart, whatever is
  asked, by whom, and whatever else happens between.
\<close>

theorem asks_are_an_hour_apart:
  assumes "driver_ok V" and "integ_reachable V G ring X quote (db, gw, ck)"
    and "m < n" "n < length (fd_asks db)"
    and "ak_conn (fd_asks db ! m) = ak_conn (fd_asks db ! n)" "ak_tool (fd_asks db ! m) = ak_tool (fd_asks db ! n)"
  shows "ak_at (fd_asks db ! m) + 3600000000000 \<le> ak_at (fd_asks db ! n)"
proof -
  have "asks_ok ck db" using integ_reachable_inv [OF assms(1,2)] by (simp add: integ_inv_def)
  then have "ak_at (fd_asks db ! m) + hour \<le> ak_at (fd_asks db ! n)"
    using assms(3-6) by (auto simp: asks_ok_def sorted_wrt_iff_nth_less)
  then show ?thesis by (simp add: hour_def minute_def second_def)
qed

section \<open>What is dialled\<close>

lemma sent_refl [simp]: "sent_during gw gw = []"
  by (simp add: sent_during_def)

lemma client_call_log:
  "sent_during gw (snd (client_call X now org endpoint credential tool args writes grants wgrants gw)) =
     sent_during gw (snd (call_tool (gx_world X) (gx_allow X) now
         \<lparr>cr_endpoint = Some (endpoint, credential), cr_org = org, cr_tool = tool, cr_write_capable = writes,
          cr_policy = \<lparr>granted = items grants, write_granted = items wgrants\<rparr>, cr_arguments = args\<rparr> gw))"
  by (simp add: client_call_def split: prod.split option.split sum.split)

lemma call_tool_endpoint:
  assumes "w \<in> set (sent_during gw (snd (call_tool W al now req gw)))"
  shows "cr_endpoint req = Some (w_endpoint w, w_credential w)"
proof -
  from assms have "sent_during gw (snd (call_tool W al now req gw)) \<noteq> []" by auto
  then obtain e c args where h: "cr_endpoint req = Some (e, c)"
    "gw_log (snd (call_tool W al now req gw)) = snd (call_endpoint W e c args req (gw_log gw))"
    using call_tool_sent by blast
  obtain r sent where r: "call_endpoint W e c args req (gw_log gw) = (r, sent)" by force
  obtain ws where "sent = gw_log gw @ ws" "list_all (calling e c (cr_tool req)) ws"
    using call_endpoint_grows [OF r] by blast
  with assms h r show ?thesis by (auto simp: sent_during_def list_all_iff calling_def)
qed

text \<open>A request of a client's call: whose endpoint and credential, and what a \<open>tools/call\<close> rested on.\<close>

lemma client_call_sends:
  assumes "w \<in> set (sent_during gw (snd (client_call X now org endpoint credential tool args writes grants wgrants gw)))"
  shows "w_endpoint w = endpoint \<and> w_credential w = credential
    \<and> (\<forall>name arguments. w_rpc w = ToolsCall name arguments \<longrightarrow> name = tool
        \<and> (\<exists>tools offered. fst (retry (gx_world X) (client_list_tools (gx_world X) endpoint credential) (gw_log gw)) = Inr tools
             \<and> offered \<in> set tools \<and> tl_name offered = tool
             \<and> (writes \<or> \<not> reads_only (tl_annotations offered) \<longrightarrow> trim_space tool \<in> set (items wgrants))))"
proof -
  note w = assms [unfolded client_call_log]
  from call_tool_endpoint [OF w] have ec: "w_endpoint w = endpoint" "w_credential w = credential" by simp_all
  moreover have "name = tool \<and> (\<exists>tools offered. fst (retry (gx_world X) (client_list_tools (gx_world X) endpoint credential) (gw_log gw)) = Inr tools
             \<and> offered \<in> set tools \<and> tl_name offered = tool
             \<and> (writes \<or> \<not> reads_only (tl_annotations offered) \<longrightarrow> trim_space tool \<in> set (items wgrants)))"
    if "w_rpc w = ToolsCall name arguments" for name arguments
    using tool_called_only_if_granted [OF w that] ec by (simp, blast)
  ultimately show ?thesis by blast
qed

lemma fetch_granted_dials:
  assumes "fetch_granted V G ring X a t eid fid cid tool args now c offer (db, gw) = (r, db', gw')" and "gw' \<noteq> gw"
  shows "\<exists>endpoint sealed credential. sealed_credential V a t cid db = Inr (endpoint, sealed)
    \<and> gw' = snd (client_call X now (tn_org t) endpoint credential tool args (it_writes offer)
          (granted_names (cn_tools c)) (write_grants (cn_tools c)) gw)"
proof (cases "sealed_credential V a t cid db")
  case (Inl e)
  with assms show ?thesis by (simp add: fetch_granted_def)
next
  case (Inr p)
  then obtain endpoint sealed where p: "sealed_credential V a t cid db = Inr (endpoint, sealed)" by (cases p) simp
  show ?thesis
  proof (cases "credential_of G ring sealed cid")
    case (Inl e)
    with assms p show ?thesis by (simp add: fetch_granted_def split: prod.splits)
  next
    case (Inr credential)
    obtain res gw1 where call: "client_call X now (tn_org t) endpoint credential tool args (it_writes offer)
          (granted_names (cn_tools c)) (write_grants (cn_tools c)) gw = (res, gw1)" by force
    with assms(1) p Inr have "gw' = gw1" by (simp add: fetch_granted_def split: sum.splits prod.splits)
    with p call show ?thesis by (intro exI [of _ endpoint] exI [of _ sealed] exI [of _ credential]) simp
  qed
qed

lemma fetch_now_dials:
  assumes run: "fetch_now V G ring X a t eid fid cid raw_tool raw_args now (db, gw) = (res, db', gw')" and "gw' \<noteq> gw"
  obtains r offer credential args where "visible_row V a t cid db = Inr r" "in_status r = StatusActive"
    "find_tool (tools_of V a t (in_id r) db) (trim_space raw_tool) = Some offer" "it_granted offer"
    "gw' = snd (client_call X now (tn_org t) (in_endpoint r) credential (trim_space raw_tool) args (it_writes offer)
       (granted_names (tools_of V a t (in_id r) db)) (write_grants (tools_of V a t (in_id r) db)) gw)"
proof -
  let ?tool = "trim_space raw_tool"
  from run assms(2) obtain c where c: "connection_read V a t cid db = Inr c"
    by (auto simp: fetch_now_def Let_def split: if_splits sum.splits)
  then obtain r where r: "visible_row V a t cid db = Inr r" and cr: "c = scan_connection V a t db r"
    by (rule connection_readD)
  from run assms(2) c have act: "cn_status c = StatusActive"
    by (auto simp: fetch_now_def Let_def split: if_splits)
  from run assms(2) c act obtain offer where offer: "find_tool (cn_tools c) ?tool = Some offer" "it_granted offer"
    by (auto simp: fetch_now_def Let_def split: if_splits option.splits prod.splits)
  from run assms(2) c act offer obtain args where
    go: "fetch_granted V G ring X a t eid fid cid ?tool args now c offer (db, gw) = (res, db', gw')"
    by (auto simp: fetch_now_def Let_def split: if_splits)
  from fetch_granted_dials [OF go assms(2)] obtain endpoint sealed credential where
    s: "sealed_credential V a t cid db = Inr (endpoint, sealed)"
    and gw': "gw' = snd (client_call X now (tn_org t) endpoint credential ?tool args (it_writes offer)
          (granted_names (cn_tools c)) (write_grants (cn_tools c)) gw)" by blast
  from s r have "endpoint = in_endpoint r" by (simp add: sealed_credential_def split: if_splits)
  with r cr act offer gw' that show thesis by (simp add: scan_connection_def)
qed

lemma plan_fetchD:
  assumes "plan_fetch V a now cid tool db = (org, Inr p)"
  obtains t r where "tn_org t = org" "visible_row V a t cid db = Inr r" "in_status r = StatusActive"
    "find_tool (tools_of V a t (in_id r) db) tool = Some (pn_tool p)" "it_granted (pn_tool p)"
    "pn_endpoint p = in_endpoint r" "pn_granted p = granted_names (tools_of V a t (in_id r) db)"
    "pn_write_granted p = write_grants (tools_of V a t (in_id r) db)"
proof -
  from assms obtain i who where "go_uuid (ie_pg V) cid = Some i" "fetch_context i db = Some (org, Some who)"
    by (auto simp: plan_fetch_def split: option.splits)
  let ?t = "\<lparr>tn_user = who, tn_org = org, tn_role = '''', tn_now = now\<rparr>"
  from assms \<open>go_uuid (ie_pg V) cid = Some i\<close> \<open>fetch_context i db = Some (org, Some who)\<close>
  obtain c offer endpoint sealed where c: "connection_read V a ?t cid db = Inr c"
    and o: "find_tool (cn_tools c) tool = Some offer" "it_granted offer"
    and s: "sealed_credential V a ?t cid db = Inr (endpoint, sealed)"
    and p: "p = \<lparr>pn_endpoint = endpoint, pn_sealed = sealed, pn_tool = offer,
      pn_granted = granted_names (cn_tools c), pn_write_granted = write_grants (cn_tools c)\<rparr>"
    by (auto simp: plan_fetch_def Let_def split: sum.splits option.splits if_splits)
  from c obtain r where r: "visible_row V a ?t cid db = Inr r" "c = scan_connection V a ?t db r" by (rule connection_readD)
  with s have "in_status r = StatusActive" "endpoint = in_endpoint r"
    by (auto simp: sealed_credential_def split: if_splits)
  with r o p that [of ?t r] show thesis by (simp add: scan_connection_def)
qed

lemma planned_fetch_dials:
  assumes "planned_fetch V G ring X quote now eid fid org cid tool p (db, gw) = (res, db', gw')" and "gw' \<noteq> gw"
  shows "\<not> it_writes (pn_tool p) \<and> (\<exists>credential. gw' = snd (client_call X now org (pn_endpoint p) credential tool
     scheduledArguments False (pn_granted p) (pn_write_granted p) gw))"
proof (cases "it_writes (pn_tool p)")
  case True
  with assms show ?thesis by (simp add: planned_fetch_def split: prod.splits)
next
  case False
  show ?thesis
  proof (cases "credential_of G ring (pn_sealed p) cid")
    case (Inl e)
    with assms False show ?thesis by (simp add: planned_fetch_def split: prod.splits)
  next
    case (Inr credential)
    obtain r1 gw1 where call: "client_call X now org (pn_endpoint p) credential tool
     scheduledArguments False (pn_granted p) (pn_write_granted p) gw = (r1, gw1)" by force
    with assms(1) False Inr have "gw' = gw1" by (simp add: planned_fetch_def split: sum.splits prod.splits)
    with call False show ?thesis by (intro conjI exI [of _ credential]) simp_all
  qed
qed

lemma run_scheduled_dials:
  assumes run: "run_scheduled V G ring X quote a now eid fid raw_cid raw_tool (db, gw) = (res, db', gw')" and "gw' \<noteq> gw"
  obtains t r offer credential where "visible_row V a t (trim_space raw_cid) db = Inr r" "in_status r = StatusActive"
    "find_tool (tools_of V a t (in_id r) db) (trim_space raw_tool) = Some offer" "it_granted offer" "\<not> it_writes offer"
    "gw' = snd (client_call X now (tn_org t) (in_endpoint r) credential (trim_space raw_tool) scheduledArguments False
       (granted_names (tools_of V a t (in_id r) db)) (write_grants (tools_of V a t (in_id r) db)) gw)"
proof -
  obtain org f where pl: "plan_fetch V a now (trim_space raw_cid) (trim_space raw_tool) db = (org, f)" by force
  from run assms(2) pl obtain p where p: "f = Inr p"
    by (cases f) (auto simp: run_scheduled_def Let_def split: if_splits prod.splits plan_fault.splits integ_fault.splits)
  with run assms(2) pl have "planned_fetch V G ring X quote now eid fid org (trim_space raw_cid) (trim_space raw_tool) p (db, gw) = (res, db', gw')"
    by (auto simp: run_scheduled_def Let_def split: if_splits)
  from planned_fetch_dials [OF this assms(2)] obtain credential where
    w: "\<not> it_writes (pn_tool p)" and gw': "gw' = snd (client_call X now org (pn_endpoint p) credential (trim_space raw_tool)
     scheduledArguments False (pn_granted p) (pn_write_granted p) gw)" by blast
  from plan_fetchD [OF pl [unfolded p]] obtain t r where t: "tn_org t = org" "visible_row V a t (trim_space raw_cid) db = Inr r"
    "in_status r = StatusActive" "find_tool (tools_of V a t (in_id r) db) (trim_space raw_tool) = Some (pn_tool p)"
    "it_granted (pn_tool p)" "pn_endpoint p = in_endpoint r" "pn_granted p = granted_names (tools_of V a t (in_id r) db)"
    "pn_write_granted p = write_grants (tools_of V a t (in_id r) db)" by blast
  with w gw' that [of t r "pn_tool p" credential] show thesis by simp
qed

text \<open>The two ways a customer's system is dialled, as one.\<close>

lemma dialled:
  assumes "gw' = snd (snd (fetch_now V G ring X a t eid fid cid raw_tool raw_args now (db, gw)))
    \<or> gw' = snd (snd (run_scheduled V G ring X quote a now eid fid cid raw_tool (db, gw)))" and "gw' \<noteq> gw"
  obtains u r offer org credential args writes where
    "visible_row V a u cid db = Inr r \<or> visible_row V a u (trim_space cid) db = Inr r" "in_status r = StatusActive"
    "find_tool (tools_of V a u (in_id r) db) (trim_space raw_tool) = Some offer" "it_granted offer"
    "gw' = snd (client_call X now org (in_endpoint r) credential (trim_space raw_tool) args writes
       (granted_names (tools_of V a u (in_id r) db)) (write_grants (tools_of V a u (in_id r) db)) gw)"
  using assms(1)
proof
  assume "gw' = snd (snd (fetch_now V G ring X a t eid fid cid raw_tool raw_args now (db, gw)))"
  then obtain res db' where "fetch_now V G ring X a t eid fid cid raw_tool raw_args now (db, gw) = (res, db', gw')"
    by (metis surjective_pairing)
  then show thesis using assms(2) by (rule fetch_now_dials) (rule that; simp)
next
  assume "gw' = snd (snd (run_scheduled V G ring X quote a now eid fid cid raw_tool (db, gw)))"
  then obtain res db' where "run_scheduled V G ring X quote a now eid fid cid raw_tool (db, gw) = (res, db', gw')"
    by (metis surjective_pairing)
  then show thesis using assms(2) by (rule run_scheduled_dials) (rule that; simp)
qed

lemma visible_tools:
  assumes "rows_ok ck db" and "visible_row V a u cid db = Inr r \<or> visible_row V a u cid' db = Inr r"
    and "find_tool (tools_of V a u (in_id r) db) tool = Some offer" and "it_granted offer"
  shows "r \<in> set (fd_integrations db) \<and> tool \<in> granted_set (in_id r) db
    \<and> (pg_uuid (ie_pg V) cid = Some (in_id r) \<or> pg_uuid (ie_pg V) cid' = Some (in_id r))"
  using assms(2) find_tool_granted [OF assms(1) _ assms(3,4)] by (auto dest: visible_rowD)

text \<open>
  C4: whatever is sent to a customer's system, by a person's fetch or by the schedule, is sent for
  an active connection, to the address its newest consent names and for a tool that consent
  granted, and a \<open>tools/call\<close> names that tool.
\<close>

theorem dial_stands_on_live_consent:
  assumes V: "driver_ok V" and reach: "integ_reachable V G ring X quote (db, gw, ck)"
    and run: "gw' = snd (snd (fetch_now V G ring X a t eid fid cid raw_tool raw_args now (db, gw)))
    \<or> gw' = snd (snd (run_scheduled V G ring X quote a now eid fid cid raw_tool (db, gw)))"
    and w: "w \<in> set (sent_during gw gw')"
  shows "\<exists>r c. r \<in> set (fd_integrations db) \<and> in_status r = StatusActive
    \<and> (pg_uuid (ie_pg V) cid = Some (in_id r) \<or> pg_uuid (ie_pg V) (trim_space cid) = Some (in_id r))
    \<and> newest_row cs_at (consents_of (in_id r) db) = Some c \<and> trim_space raw_tool \<in> set (cs_granted c)
    \<and> w_endpoint w = cs_endpoint c
    \<and> (\<forall>name arguments. w_rpc w = ToolsCall name arguments \<longrightarrow> name = trim_space raw_tool)"
proof -
  have inv: "integ_ok ck db" using integ_reachable_inv [OF V reach] by (simp add: integ_inv_def)
  from w have "gw' \<noteq> gw" by auto
  with run obtain u r offer org credential args writes where
    vis: "visible_row V a u cid db = Inr r \<or> visible_row V a u (trim_space cid) db = Inr r" and act: "in_status r = StatusActive"
    and offer: "find_tool (tools_of V a u (in_id r) db) (trim_space raw_tool) = Some offer" "it_granted offer"
    and gw': "gw' = snd (client_call X now org (in_endpoint r) credential (trim_space raw_tool) args writes
       (granted_names (tools_of V a u (in_id r) db)) (write_grants (tools_of V a u (in_id r) db)) gw)" by (rule dialled)
  from inv have rows: "rows_ok ck db" by (simp add: integ_ok_def)
  note T = visible_tools [OF rows vis offer]
  from inv T obtain c where c: "newest_row cs_at (consents_of (in_id r) db) = Some c" "cs_endpoint c = in_endpoint r"
    "set (cs_granted c) = granted_set (in_id r) db" by (auto simp: integ_ok_def agreed_def)
  from w [unfolded gw'] have "w_endpoint w = in_endpoint r
    \<and> (\<forall>name arguments. w_rpc w = ToolsCall name arguments \<longrightarrow> name = trim_space raw_tool)"
    by (auto dest: client_call_sends)
  with T act c show ?thesis by (intro exI [of _ r] exI [of _ c]) auto
qed

lemma revoked_persists:
  assumes "integ_step V G ring X quote st st'" and "\<forall>r \<in> set (fd_integrations (fst st)). in_id r = i \<longrightarrow> in_status r \<noteq> StatusActive"
    and "i \<in> in_id ` set (fd_integrations (fst st))"
  shows "(\<forall>r \<in> set (fd_integrations (fst st')). in_id r = i \<longrightarrow> in_status r \<noteq> StatusActive)
    \<and> i \<in> in_id ` set (fd_integrations (fst st'))"
  using assms(1)
proof cases
  case (connect_step a t j nonce q db c db' ck gw)
  from connect_step(3) obtain sealed tools where "create_connection V a t j KindMCP (trim_space (cq_name q))
    (trim_space (cq_endpoint q)) sealed tools (tn_user t) db = Inr (c, db')" by (rule connect_callD)
  from connect_asks [OF this] assms(2,3) connect_step(1,2) show ?thesis by fastforce
next
  case (grants_step a t cid wants db c db' ck gw)
  then show ?thesis using assms(2,3) set_grants_asks by (simp add: update_grants_call_def)
next
  case (revoke_step a t cid db c db' ck gw)
  from revoke_step(3) [unfolded revoke_call_def] obtain j who where
    "db' = db\<lparr>fd_integrations := map (revoke_row a t j who) (fd_integrations db)\<rparr>" by (rule revokeD)
  with revoke_step(1,2) assms(2,3) show ?thesis by (auto simp: revoke_row_def StatusActive_def StatusRevoked_def image_iff)
next
  case (fetch_step a t eid fid cid raw_tool raw_args now db gw r db' gw' ck)
  with fetch_now_grants [OF fetch_step(3)] assms(2,3) show ?thesis by (simp add: same_grants_def)
next
  case (schedule_step a now eid fid cid raw_tool db gw s db' gw' ck)
  with run_scheduled_grants [OF schedule_step(3)] assms(2,3) show ?thesis by (simp add: same_grants_def)
next
  case (ingest_step now eid fid m db d db' ck gw)
  with ingest_call_grants [OF ingest_step(3)] assms(2,3) show ?thesis by (simp add: same_grants_def)
next
  case (ask_step now rid org cid raw_tool raw_reason db k db' ck gw)
  from ask_callD [OF ask_step(3)] have "fd_integrations db' = fd_integrations db"
    by (auto simp: same_grants_def dest: request_fetch_grants)
  with ask_step(1,2) assms(2,3) show ?thesis by simp
qed

text \<open>
  C13: a connection that is no longer active is never dialled again: whatever happens afterwards,
  neither a person's fetch nor the schedule sends it anything.
\<close>

theorem revoked_is_final:
  assumes V: "driver_ok V" and reach: "integ_reachable V G ring X quote (db, gw, ck)"
    and r: "r \<in> set (fd_integrations db)" "in_status r \<noteq> StatusActive"
    and later: "(integ_step V G ring X quote)\<^sup>*\<^sup>* (db, gw, ck) (db2, gw2, ck2)"
    and cid: "pg_uuid (ie_pg V) cid = Some (in_id r)" "pg_uuid (ie_pg V) (trim_space cid) = Some (in_id r)"
  shows "snd (snd (fetch_now V G ring X a t eid fid cid raw_tool raw_args now (db2, gw2))) = gw2
    \<and> snd (snd (run_scheduled V G ring X quote a now eid fid cid raw_tool (db2, gw2))) = gw2"
proof -
  have "integ_ok ck db" using integ_reachable_inv [OF V reach] by (simp add: integ_inv_def)
  then have start: "\<forall>x \<in> set (fd_integrations db). in_id x = in_id r \<longrightarrow> in_status x \<noteq> StatusActive"
    using r rows_unique [of ck db _ r] by (auto simp: integ_ok_def)
  have "(\<forall>x \<in> set (fd_integrations (fst st)). in_id x = in_id r \<longrightarrow> in_status x \<noteq> StatusActive)
      \<and> in_id r \<in> in_id ` set (fd_integrations (fst st))"
    if "(integ_step V G ring X quote)\<^sup>*\<^sup>* (db, gw, ck) st" for st
    using that
  proof (induction rule: rtranclp_induct)
    case base
    with start r(1) show ?case by simp
  next
    case (step st1 st2)
    then show ?case by (blast dest: revoked_persists)
  qed
  from this [OF later] have off: "\<forall>x \<in> set (fd_integrations db2). in_id x = in_id r \<longrightarrow> in_status x \<noteq> StatusActive" by simp
  have "gw' = gw2" if "gw' = snd (snd (fetch_now V G ring X a t eid fid cid raw_tool raw_args now (db2, gw2)))
    \<or> gw' = snd (snd (run_scheduled V G ring X quote a now eid fid cid raw_tool (db2, gw2)))" for gw'
  proof (rule ccontr)
    assume "gw' \<noteq> gw2"
    with that obtain u x where "visible_row V a u cid db2 = Inr x \<or> visible_row V a u (trim_space cid) db2 = Inr x"
      "in_status x = StatusActive" by (rule dialled)
    with off cid show False by (auto dest!: visible_rowD)
  qed
  then show ?thesis by blast
qed

text \<open>
  C22: the schedule only reads: a \<open>tools/call\<close> it causes is of a tool that the connection does not
  hold as able to write and that the endpoint's own listing, read for that very fetch, marks as
  read-only.
\<close>

theorem schedule_only_reads:
  assumes V: "driver_ok V" and reach: "integ_reachable V G ring X quote (db, gw, ck)"
    and run: "run_scheduled V G ring X quote a now eid fid cid raw_tool (db, gw) = (res, db', gw')"
    and w: "w \<in> set (sent_during gw gw')" "w_rpc w = ToolsCall name args"
  shows "(\<forall>x \<in> set (fd_tools db). tr_name x = name \<and> pg_uuid (ie_pg V) (trim_space cid) = Some (tr_conn x) \<longrightarrow> \<not> tr_writes x)
    \<and> (\<exists>tools offered. fst (retry (gx_world X) (client_list_tools (gx_world X) (w_endpoint w) (w_credential w)) (gw_log gw)) = Inr tools
         \<and> offered \<in> set tools \<and> tl_name offered = name \<and> reads_only (tl_annotations offered))"
proof -
  have "integ_ok ck db" using integ_reachable_inv [OF V reach] by (simp add: integ_inv_def)
  then have rows: "rows_ok ck db" by (simp add: integ_ok_def)
  from w have "gw' \<noteq> gw" by auto
  with run obtain t r offer credential where vis: "visible_row V a t (trim_space cid) db = Inr r"
    and offer: "find_tool (tools_of V a t (in_id r) db) (trim_space raw_tool) = Some offer" "it_granted offer" "\<not> it_writes offer"
    and gw': "gw' = snd (client_call X now (tn_org t) (in_endpoint r) credential (trim_space raw_tool) scheduledArguments False
       (granted_names (tools_of V a t (in_id r) db)) (write_grants (tools_of V a t (in_id r) db)) gw)"
    by (rule run_scheduled_dials)
  let ?ts = "tools_of V a t (in_id r) db"
  from visible_rowD [OF vis] have r: "r \<in> set (fd_integrations db)" "in_org r = tn_org t" "member_of a t"
    "pg_uuid (ie_pg V) (trim_space cid) = Some (in_id r)" by auto
  note ts = set_tools_of [OF rows r(1-3), of V]
  from client_call_sends [OF w(1) [unfolded gw']] w(2) obtain tools offered where
    n: "name = trim_space raw_tool" and e: "w_endpoint w = in_endpoint r" "w_credential w = credential"
    and tools: "fst (retry (gx_world X) (client_list_tools (gx_world X) (in_endpoint r) credential) (gw_log gw)) = Inr tools"
      "offered \<in> set tools" "tl_name offered = trim_space raw_tool"
      "\<not> reads_only (tl_annotations offered) \<longrightarrow> trim_space (trim_space raw_tool) \<in> set (items (write_grants ?ts))" by auto
  from offer(1) have o: "offer \<in> set ?ts" "it_name offer = name" by (auto simp: find_tool_def n dest!: find_SomeD)
  then obtain x0 where x0: "x0 \<in> set (fd_tools db)" "tr_conn x0 = in_id r" "tr_name x0 = name" "\<not> tr_writes x0"
    using offer(3) unfolding ts by (auto simp: scan_tool_def)
  have same: "x = x0" if "x \<in> set (fd_tools db)" "tr_conn x = in_id r" "tr_name x = name" for x
    using rows that x0 by (auto simp: rows_ok_def distinct_map inj_on_def)
  have "trim_space name \<notin> set (items (write_grants ?ts))"
  proof
    assume "trim_space name \<in> set (items (write_grants ?ts))"
    then obtain y where "y \<in> set ?ts" "it_name y = trim_space name" "it_writes y" by (auto simp: write_grants_def)
    then obtain x where "x \<in> set (fd_tools db)" "tr_conn x = in_id r" "tr_name x = name" "tr_writes x"
      unfolding ts by (auto simp: scan_tool_def n)
    with same x0 show False by blast
  qed
  with tools n have "reads_only (tl_annotations offered)" by auto
  moreover have "\<not> tr_writes x" if "x \<in> set (fd_tools db)" "tr_name x = name" "pg_uuid (ie_pg V) (trim_space cid) = Some (tr_conn x)" for x
    using same [of x] that r(4) x0(4) by auto
  ultimately show ?thesis using tools n e by auto
qed

section \<open>A deployment with one connection\<close>

definition ex_pg :: pg_env where
  "ex_pg = \<lparr>pg_uuid = Some, go_uuid = Some, pg_text = (\<lambda>_. True), pg_lower = (\<lambda>s. s),
     org_slug = (\<lambda>s n. s), sha256 = (\<lambda>s. s)\<rparr>"

definition ex_V :: integ_env where
  "ex_V = \<lparr>ie_pg = ex_pg, ie_array = (\<lambda>s. s), ie_cast = (\<lambda>_ _. False), ie_jsonb = (\<lambda>_. True),
     ie_json = (\<lambda>_. True), ie_collate = (\<lambda>s. s),
     ie_url = (\<lambda>_. Some \<lparr>url_scheme = ''https'', url_hostname = ''mcp.example.com''\<rparr>)\<rparr>"

definition ex_world :: world where
  "ex_world = (example_world ''read'' 200)\<lparr>json_unmarshal := (\<lambda>_. Decoded (JObj [])),
     decode_tools := (\<lambda>_. Some [\<lparr>tl_name = ''read'', tl_description = '''',
        tl_annotations = Some [(''readOnlyHint'', JBool True)]\<rparr>])\<rparr>"

definition ex_link :: gateway_link where
  "ex_link = \<lparr>gx_world = ex_world, gx_allow = example_allow, gx_say = (\<lambda>_. ''no''), gx_lost = (\<lambda>_. None)\<rparr>"

definition ex_ring :: keyring where "ex_ring = \<lparr>rg_primary = '''', rg_keys = []\<rparr>"

definition ex_access :: access_db where
  "ex_access = \<lparr>ac_orgs = [], ac_members = [\<lparr>mr_org = ''o'', mr_user = ''u'', mr_role = ''owner'', mr_at = 0\<rparr>],
     ac_invites = [], ac_identities = [], ac_audit = [], ac_subs = [], ac_outbox = []\<rparr>"

definition ex_tenant :: "instant \<Rightarrow> tenant" where
  "ex_tenant now = \<lparr>tn_user = ''u'', tn_org = ''o'', tn_role = ''owner'', tn_now = now\<rparr>"

definition ex_request :: connect_request where
  "ex_request = \<lparr>cq_kind = Mcp, cq_name = ''crm'', cq_endpoint = ''https://mcp.example.com/'', cq_credential = '''',
     cq_offered = [\<lparr>it_name = ''read'', it_desc = '''', it_writes = False, it_granted = False\<rparr>], cq_granted = [''read'']\<rparr>"

definition no_rows :: fetch_db where
  "no_rows = \<lparr>fd_integrations = [], fd_tools = [], fd_consents = [], fd_fetches = [], fd_evidence = [], fd_asks = []\<rparr>"

definition ex_integration :: "string \<Rightarrow> (instant \<times> string option) option \<Rightarrow> integration_row" where
  "ex_integration status revoked = \<lparr>in_id = ''i'', in_org = ''o'', in_kind = ''mcp'', in_name = ''crm'',
     in_endpoint = ''https://mcp.example.com/'', in_sealed = None, in_status = status, in_created_by = Some ''u'',
     in_at = -9, in_revoked = revoked\<rparr>"

definition ex_consent :: consent_row where
  "ex_consent = \<lparr>cs_org = ''o'', cs_conn = ''i'', cs_by = ''u'', cs_at = -9, cs_endpoint = ''https://mcp.example.com/'',
     cs_offered = [\<lparr>it_name = ''read'', it_desc = '''', it_writes = False, it_granted = True\<rparr>], cs_granted = [''read'']\<rparr>"

definition ex_db :: "string \<Rightarrow> (instant \<times> string option) option \<Rightarrow> fetch_db" where
  "ex_db status revoked = \<lparr>fd_integrations = [ex_integration status revoked],
     fd_tools = [\<lparr>tr_org = ''o'', tr_conn = ''i'', tr_name = ''read'', tr_desc = '''', tr_writes = False,
       tr_granted = Some (-9, Some ''u'')\<rparr>],
     fd_consents = [ex_consent], fd_fetches = [], fd_evidence = [], fd_asks = []\<rparr>"

lemma ex_trims: "trim_space ''read'' = ''read''" "trim_space ''crm'' = ''crm''" "trim_space '''' = ''''"
  "trim_space ''https://mcp.example.com/'' = ''https://mcp.example.com/''" "trim_space ''i'' = ''i''" "trim_space ''o'' = ''o''"
  by code_simp+

lemma ex_driver: "driver_ok ex_V"
  by (simp add: driver_ok_def ex_V_def)

lemma ex_member: "member_of ex_access (ex_tenant now)" "role_in ex_access ''o'' ''u'' = Some ''owner''"
  by (simp_all add: member_of_def role_in_def ex_access_def ex_tenant_def)

lemma ex_prefix: "has_prefix ''https://mcp.example.com/'' ''https://''"
  by code_simp

lemma ex_connect:
  "\<exists>c. connect_call ex_V stand_in ex_ring ex_access (ex_tenant (-9)) ''i'' '''' ex_request no_rows = Inr (c, ex_db ''active'' None)"
proof -
  have valid: "first_fault [require_kind (cq_kind ex_request), map_option InvalidConn (validate_display_name (cq_name ex_request)),
      map_option InvalidConn (validate_endpoint (ie_url ex_V) (cq_endpoint ex_request))] = None"
    by (simp add: first_fault_def require_kind_def validate_display_name_def validate_endpoint_def ex_request_def ex_trims ex_V_def)
  have offered: "offered_tools (cq_offered ex_request) = Inr (cq_offered ex_request)"
    by (simp add: offered_tools_def ex_request_def ex_trims)
  have tools: "resolve_grants (cq_offered ex_request) (cq_granted ex_request)
      = Inr [\<lparr>it_name = ''read'', it_desc = '''', it_writes = False, it_granted = True\<rparr>]"
    by (simp add: resolve_grants_def wanted_names_def ex_request_def ex_trims)
  have seal: "seal_call stand_in ex_ring '''' (cq_credential ex_request) ''i'' = Inr None"
    by (simp add: seal_call_def ex_request_def ex_trims)
  show ?thesis
    by (simp add: connect_call_def valid offered tools seal)
      (simp add: ex_request_def ex_trims create_connection_def insert_integration_def by_column_def ex_V_def ex_pg_def
        ex_member KindMCP_def not_blank_def ex_prefix no_rows_def insert_tool_def record_consent_def granted_names_def
        appended_def ex_tenant_def connection_read_def visible_row_def sees_org_def member_of_def map_sum_Inr
        ex_db_def ex_integration_def ex_consent_def StatusActive_def)
qed

lemma ex_reachable: "integ_reachable ex_V stand_in ex_ring ex_link id (ex_db ''active'' None, example_state, -9)"
proof -
  obtain c where "connect_call ex_V stand_in ex_ring ex_access (ex_tenant (-9)) ''i'' '''' ex_request no_rows = Inr (c, ex_db ''active'' None)"
    using ex_connect by blast
  from connect_step [OF this, where ck = "-10" and X = ex_link and quote = id and gw = example_state]
  have "integ_step ex_V stand_in ex_ring ex_link id (no_rows, example_state, -10) (ex_db ''active'' None, example_state, -9)"
    by (simp add: ex_tenant_def)
  moreover have "integ_start (no_rows, example_state, -10)" by (simp add: integ_start_def no_rows_def)
  ultimately show ?thesis unfolding integ_reachable_def by blast
qed

theorem grants_are_what_was_agreed_witness:
  "granted_set ''i'' (ex_db ''active'' None) = {''read''}"
proof -
  have r: "ex_integration ''active'' None \<in> set (fd_integrations (ex_db ''active'' None))" by (simp add: ex_db_def)
  have c: "consents_of ''i'' (ex_db ''active'' None) = [ex_consent]" by (simp add: consents_of_def ex_db_def ex_consent_def)
  from grants_are_what_was_agreed [OF ex_driver ex_reachable r]
  show ?thesis by (auto simp: ex_integration_def c newest_row_def ex_consent_def)
qed

text \<open>Two asks, an hour between them.\<close>

definition ex_ask :: "string \<Rightarrow> instant \<Rightarrow> ask_row" where
  "ex_ask k now = \<lparr>ak_id = k, ak_org = ''o'', ak_conn = ''i'', ak_tool = ''read'', ak_reason = '''', ak_at = now\<rparr>"

lemma ex_ask_step:
  assumes "\<forall>k \<in> set asks. ak_at k \<le> now - hour" and "ck < now"
  shows "integ_step ex_V stand_in ex_ring ex_link id ((ex_db ''active'' None)\<lparr>fd_asks := asks\<rparr>, gw, ck)
    ((ex_db ''active'' None)\<lparr>fd_asks := asks @ [ex_ask k now]\<rparr>, gw, now)"
proof -
  have none: "filter (\<lambda>k. ak_org k = ''o'' \<and> ak_conn k = ''i'' \<and> ak_tool k = ''read'' \<and> now - hour < ak_at k) asks = []"
    using assms(1) by (fastforce simp: filter_empty_conv)
  have "runes '''' = []" by code_simp
  then have "\<exists>r. request_fetch_call ex_V id now k ''o'' ''i'' ''read'' '''' ((ex_db ''active'' None)\<lparr>fd_asks := asks\<rparr>)
      = (r, (ex_db ''active'' None)\<lparr>fd_asks := asks @ [ex_ask k now]\<rparr>)"
    by (simp add: request_fetch_call_def Let_def ex_trims maxFetchReason_def request_fetch_def ex_V_def ex_pg_def ex_db_def
        ex_integration_def StatusActive_def none fetchPendingWindow_def not_blank_def ex_ask_def)
  then obtain r where "request_fetch_call ex_V id now k ''o'' ''i'' ''read'' '''' ((ex_db ''active'' None)\<lparr>fd_asks := asks\<rparr>)
      = (r, (ex_db ''active'' None)\<lparr>fd_asks := asks @ [ex_ask k now]\<rparr>)" by blast
  then show ?thesis using assms(2) by (rule ask_step)
qed

theorem asks_are_an_hour_apart_witness:
  "ak_at (ex_ask ''k1'' 0) + 3600000000000 \<le> ak_at (ex_ask ''k2'' hour)"
proof -
  let ?d = "\<lambda>asks. (ex_db ''active'' None)\<lparr>fd_asks := asks\<rparr>"
  have empty: "?d [] = ex_db ''active'' None" by (simp add: ex_db_def)
  from ex_reachable obtain s where s: "integ_start s"
    "(integ_step ex_V stand_in ex_ring ex_link id)\<^sup>*\<^sup>* s (ex_db ''active'' None, example_state, -9)"
    by (auto simp: integ_reachable_def)
  have one: "integ_step ex_V stand_in ex_ring ex_link id (?d [], example_state, -9) (?d [ex_ask ''k1'' 0], example_state, 0)"
    using ex_ask_step [of "[]" 0 "-9" example_state "''k1''"] by simp
  have two: "integ_step ex_V stand_in ex_ring ex_link id (?d [ex_ask ''k1'' 0], example_state, 0)
      (?d [ex_ask ''k1'' 0, ex_ask ''k2'' hour], example_state, hour)"
    using ex_ask_step [of "[ex_ask ''k1'' 0]" hour 0 example_state "''k2''"]
    by (simp add: ex_ask_def hour_def minute_def second_def)
  have "integ_reachable ex_V stand_in ex_ring ex_link id (?d [ex_ask ''k1'' 0, ex_ask ''k2'' hour], example_state, hour)"
    unfolding integ_reachable_def using s one two unfolding empty by (meson rtranclp.rtrancl_into_rtrancl)
  from asks_are_an_hour_apart [OF ex_driver this, of 0 1] show ?thesis by (simp add: ex_ask_def)
qed

text \<open>A call of the one tool, from a gateway that has sent nothing.\<close>

definition ex_wire :: "rpc \<Rightarrow> wire" where
  "ex_wire m = \<lparr>w_endpoint = ''https://mcp.example.com/'', w_credential = '''', w_rpc = m\<rparr>"

definition ex_wires :: "wire list" where
  "ex_wires = [ex_wire Initialize, ex_wire ToolsList, ex_wire Initialize, ex_wire (ToolsCall ''read'' [])]"

lemma ex_rpc: "rpc_call ex_world w sent = (Inr ''[]'', sent @ [w])"
  using not_event_stream by (auto simp: ex_world_def rpc_call_def rpc_answer_def example_world_def max_response_def)

lemma ex_listed:
  "retry ex_world (client_list_tools ex_world ''https://mcp.example.com/'' '''') sent
   = (Inr [\<lparr>tl_name = ''read'', tl_description = '''', tl_annotations = Some [(''readOnlyHint'', JBool True)]\<rparr>],
      sent @ [ex_wire Initialize, ex_wire ToolsList])"
  by (simp add: retry_def attempts_def numeral_3_eq_3 client_list_tools_def ex_rpc ex_wire_def) (simp add: ex_world_def)

lemma ex_called:
  "retry ex_world (client_call_tool ex_world ''https://mcp.example.com/'' '''' ''read'' args) sent
   = (Inr ''[]'', sent @ [ex_wire Initialize, ex_wire (ToolsCall ''read'' args)])"
  by (simp add: retry_def attempts_def numeral_3_eq_3 client_call_tool_def ex_rpc ex_wire_def)

lemma ex_decide: "decide \<lparr>granted = [''read''], write_granted = []\<rparr> ''read'' False False = None"
  by (simp add: decide_def ex_trims)

lemma ex_client_call:
  "\<exists>res gw. client_call ex_link 0 ''o'' ''https://mcp.example.com/'' '''' ''read'' ''{}'' False (Some [''read'']) None example_state
     = (Inr res, gw) \<and> gw_log gw = ex_wires"
proof -
  let ?req = "\<lparr>cr_endpoint = Some (''https://mcp.example.com/'', ''''), cr_org = ''o'', cr_tool = ''read'', cr_write_capable = False,
     cr_policy = \<lparr>granted = [''read''], write_granted = []\<rparr>, cr_arguments = ''{}''\<rparr>"
  obtain lm where al: "allow ''o'' 0 (gw_limiter example_state) = (None, lm)" using example_allow_first by blast
  have ro: "reads_only (Some [(''readOnlyHint'', JBool True)])" by (simp add: reads_only_def)
  have f: "check_endpoint (uni_lower ex_world) (url_parse ex_world) example_allow ''https://mcp.example.com/'' = None"
    using example_allowed by (simp add: ex_world_def example_world_def)
  have ar: "parse_arguments ex_world ''{}'' = Some []" by (simp add: parse_arguments_def ex_world_def)
  have lg: "gw_log example_state = []" by (simp add: example_state_def)
  obtain ans where ce: "call_endpoint ex_world ''https://mcp.example.com/'' '''' [] ?req [] = (Inr ans, ex_wires)"
    by (simp add: call_endpoint_def ex_listed ro ex_decide ex_called Let_def ex_wires_def)
  have "call_tool ex_world example_allow 0 ?req example_state = (Inr ans, \<lparr>gw_limiter = lm, gw_log = ex_wires\<rparr>)"
    by (simp add: call_tool_def f ex_decide al ar lg ce)
  then show ?thesis by (simp add: client_call_def ex_link_def items_def)
qed

lemma ex_visible: "visible_row ex_V ex_access (ex_tenant now) ''i'' (ex_db status revoked) = Inr (ex_integration status revoked)"
  by (simp add: visible_row_def ex_V_def ex_pg_def ex_db_def ex_integration_def sees_org_def ex_member) (simp add: ex_tenant_def)

lemma ex_tools:
  "tools_of ex_V ex_access (ex_tenant now) ''i'' (ex_db status revoked)
     = [\<lparr>it_name = ''read'', it_desc = '''', it_writes = False, it_granted = True\<rparr>]"
  by (simp add: tools_of_def ex_db_def sees_org_def ex_member scan_tool_def) (simp add: ex_tenant_def)

lemma ex_read:
  "connection_read ex_V ex_access (ex_tenant now) ''i'' (ex_db status revoked)
     = Inr (scan_connection ex_V ex_access (ex_tenant now) (ex_db status revoked) (ex_integration status revoked))"
  by (simp add: connection_read_def ex_visible)

lemma ex_scan:
  "cn_status (scan_connection ex_V ex_access (ex_tenant now) (ex_db status revoked) (ex_integration status revoked)) = status"
  "cn_tools (scan_connection ex_V ex_access (ex_tenant now) (ex_db status revoked) (ex_integration status revoked))
     = [\<lparr>it_name = ''read'', it_desc = '''', it_writes = False, it_granted = True\<rparr>]"
  by (simp_all add: scan_connection_def ex_integration_def ex_tools)

lemma ex_credential:
  "sealed_credential ex_V ex_access (ex_tenant now) ''i'' (ex_db ''active'' revoked) = Inr (''https://mcp.example.com/'', None)"
  by (simp add: sealed_credential_def ex_visible ex_integration_def StatusActive_def)

lemma ex_policy: "granted_names [\<lparr>it_name = ''read'', it_desc = '''', it_writes = False, it_granted = True\<rparr>] = Some [''read'']"
  "write_grants [\<lparr>it_name = ''read'', it_desc = '''', it_writes = False, it_granted = True\<rparr>] = None"
  by (simp_all add: granted_names_def write_grants_def appended_def)

lemma ex_fetch_now:
  "\<exists>gw. fetch_now ex_V stand_in ex_ring ex_link ex_access (ex_tenant now) ''e'' ''f'' ''i'' ''read'' '''' 0 (ex_db ''active'' None, example_state)
     = (Inl (FetchFault StoreBroken), ex_db ''active'' None, gw) \<and> gw_log gw = ex_wires"
proof -
  obtain res gw where call: "client_call ex_link 0 ''o'' ''https://mcp.example.com/'' '''' ''read'' ''{}'' False (Some [''read'']) None example_state
     = (Inr res, gw)" "gw_log gw = ex_wires" using ex_client_call by blast
  have org: "tn_org (ex_tenant now) = ''o''" by (simp add: ex_tenant_def)
  have obs: "record_observation ex_V ex_access (ex_tenant now) e f c tool args content n observed requested who d = Inl StoreBroken"
    for e f c tool args content n observed requested who d
    by (simp add: record_observation_def ex_V_def split: option.split)
  show ?thesis
    using call by (simp add: fetch_now_def Let_def ex_trims ex_V_def [THEN arg_cong [where f = ie_json]] ex_read ex_scan StatusActive_def
        find_tool_def fetch_granted_def ex_credential credential_of_def org ex_policy obs rolled_back_def)
qed

theorem dial_stands_on_live_consent_witness:
  "\<exists>gw'. gw' = snd (snd (fetch_now ex_V stand_in ex_ring ex_link ex_access (ex_tenant 0) ''e'' ''f'' ''i'' ''read'' '''' 0
        (ex_db ''active'' None, example_state)))
     \<and> length (sent_during example_state gw') = 4 \<and> trim_space ''read'' \<in> set (cs_granted ex_consent)"
proof -
  obtain gw' where run: "fetch_now ex_V stand_in ex_ring ex_link ex_access (ex_tenant 0) ''e'' ''f'' ''i'' ''read'' '''' 0
      (ex_db ''active'' None, example_state) = (Inl (FetchFault StoreBroken), ex_db ''active'' None, gw')" "gw_log gw' = ex_wires"
    using ex_fetch_now by blast
  then have log: "sent_during example_state gw' = ex_wires" by (simp add: sent_during_def example_state_def)
  have c: "consents_of ''i'' (ex_db ''active'' None) = [ex_consent]" by (simp add: consents_of_def ex_db_def ex_consent_def)
  have id1: "pg_uuid (ie_pg ex_V) s = Some s" for s by (simp add: ex_V_def ex_pg_def)
  have "ex_wire ToolsList \<in> set (sent_during example_state gw')" by (simp add: log ex_wires_def)
  from dial_stands_on_live_consent [OF ex_driver ex_reachable _ this, of ex_access "ex_tenant 0" "''e''" "''f''" "''i''" "''read''" "''''" 0] run(1)
  have "\<exists>r k. (pg_uuid (ie_pg ex_V) ''i'' = Some (in_id r) \<or> pg_uuid (ie_pg ex_V) (trim_space ''i'') = Some (in_id (r :: integration_row)))
      \<and> newest_row cs_at (consents_of (in_id r) (ex_db ''active'' None)) = Some k \<and> trim_space ''read'' \<in> set (cs_granted k)"
    by auto
  then obtain r :: integration_row and k where k: "pg_uuid (ie_pg ex_V) ''i'' = Some (in_id r) \<or> pg_uuid (ie_pg ex_V) (trim_space ''i'') = Some (in_id r)"
      "newest_row cs_at (consents_of (in_id r) (ex_db ''active'' None)) = Some k" "trim_space ''read'' \<in> set (cs_granted k)" by blast
  from k(1) have "in_id r = ''i''" by (auto simp: id1 ex_trims)
  with k(2,3) have "trim_space ''read'' \<in> set (cs_granted ex_consent)" by (simp add: c newest_row_def)
  then show ?thesis using run log by (simp add: ex_wires_def)
qed

text \<open>The schedule's fetch of the same tool.\<close>

definition ex_deposited :: "call_result \<Rightarrow> fetch_db" where
  "ex_deposited res = (case ingest_evidence ex_V 0 ''e'' ''f''
     \<lparr>fx_org = ''o'', fx_conn = ''i'', fx_tool = ''read'', fx_args = ''{}'', fx_content = rs_content res,
      fx_outcome = ''succeeded'', fx_detail = '''', fx_redactions = rs_redactions res, fx_observed = Some (rs_fetched res),
      fx_requested = Some 0\<rparr> (ex_db ''active'' None) of Inl _ \<Rightarrow> ex_db ''active'' None | Inr (_, db) \<Rightarrow> db)"

lemma ex_plan:
  "plan_fetch ex_V ex_access 0 ''i'' ''read'' (ex_db ''active'' None) =
     (''o'', Inr \<lparr>pn_endpoint = ''https://mcp.example.com/'', pn_sealed = None,
        pn_tool = \<lparr>it_name = ''read'', it_desc = '''', it_writes = False, it_granted = True\<rparr>,
        pn_granted = Some [''read''], pn_write_granted = None\<rparr>)"
proof -
  have "fetch_context ''i'' (ex_db ''active'' None) = Some (''o'', Some ''u'')"
    by (simp add: fetch_context_def ex_db_def ex_integration_def ex_consent_def newest_row_def)
  moreover have "go_uuid (ie_pg ex_V) ''i'' = Some ''i''" by (simp add: ex_V_def ex_pg_def)
  moreover have t: "\<lparr>tn_user = ''u'', tn_org = ''o'', tn_role = '''', tn_now = 0\<rparr> = (ex_tenant 0)\<lparr>tn_role := ''''\<rparr>"
    by (simp add: ex_tenant_def)
  moreover have m: "member_of ex_access ((ex_tenant 0)\<lparr>tn_role := ''''\<rparr>)" by (simp add: member_of_def ex_tenant_def ex_member)
  moreover have o: "tn_org ((ex_tenant 0)\<lparr>tn_role := ''''\<rparr>) = ''o''" by (simp add: ex_tenant_def)
  moreover have v: "visible_row ex_V ex_access ((ex_tenant 0)\<lparr>tn_role := ''''\<rparr>) ''i'' (ex_db ''active'' None) = Inr (ex_integration ''active'' None)"
    by (simp add: visible_row_def ex_V_def ex_pg_def ex_db_def ex_integration_def sees_org_def m o)
  moreover have "tools_of ex_V ex_access ((ex_tenant 0)\<lparr>tn_role := ''''\<rparr>) ''i'' (ex_db ''active'' None)
     = [\<lparr>it_name = ''read'', it_desc = '''', it_writes = False, it_granted = True\<rparr>]"
    by (simp add: tools_of_def ex_db_def sees_org_def m o scan_tool_def)
  ultimately show ?thesis
    by (simp add: plan_fetch_def Let_def connection_read_def scan_connection_def sealed_credential_def
        find_tool_def ex_integration_def StatusActive_def ex_policy)
qed

lemma ex_run_scheduled:
  "\<exists>res db' gw. run_scheduled ex_V stand_in ex_ring ex_link id ex_access 0 ''e'' ''f'' ''i'' ''read'' (ex_db ''active'' None, example_state)
     = (res, db', gw) \<and> gw_log gw = ex_wires"
proof -
  obtain res gw where call: "client_call ex_link 0 ''o'' ''https://mcp.example.com/'' '''' ''read'' ''{}'' False (Some [''read'']) None example_state
     = (Inr res, gw)" "gw_log gw = ex_wires" using ex_client_call by blast
  then show ?thesis
    by (simp add: run_scheduled_def Let_def ex_trims ex_plan ex_V_def [THEN arg_cong [where f = ie_pg]] ex_pg_def planned_fetch_def
        credential_of_def scheduledArguments_def split: prod.split)
qed

theorem schedule_only_reads_witness:
  "\<exists>res db' gw'. run_scheduled ex_V stand_in ex_ring ex_link id ex_access 0 ''e'' ''f'' ''i'' ''read'' (ex_db ''active'' None, example_state)
      = (res, db', gw') \<and> ex_wire (ToolsCall ''read'' []) \<in> set (sent_during example_state gw')
     \<and> (\<forall>x \<in> set (fd_tools (ex_db ''active'' None)). tr_name x = ''read'' \<and> tr_conn x = ''i'' \<longrightarrow> \<not> tr_writes x)"
proof -
  obtain res db' gw' where run: "run_scheduled ex_V stand_in ex_ring ex_link id ex_access 0 ''e'' ''f'' ''i'' ''read''
      (ex_db ''active'' None, example_state) = (res, db', gw')" and "gw_log gw' = ex_wires" using ex_run_scheduled by blast
  then have m: "ex_wire (ToolsCall ''read'' []) \<in> set (sent_during example_state gw')"
    by (simp add: sent_during_def example_state_def ex_wires_def)
  have "w_rpc (ex_wire (ToolsCall ''read'' [])) = ToolsCall ''read'' []" by (simp add: ex_wire_def)
  from schedule_only_reads [OF ex_driver ex_reachable run m this] run m show ?thesis
    by (simp add: ex_trims ex_V_def ex_pg_def)
qed

theorem revoked_is_final_witness:
  "snd (snd (fetch_now ex_V stand_in ex_ring ex_link ex_access (ex_tenant 0) ''e'' ''f'' ''i'' ''read'' '''' 0
      (ex_db ''revoked'' (Some (-8, Some ''u'')), example_state))) = example_state"
proof -
  have "revoke_call ex_V ex_access (ex_tenant (-8)) ''i'' (ex_db ''active'' None)
      = Inr (scan_connection ex_V ex_access (ex_tenant (-8)) (ex_db ''revoked'' (Some (-8, Some ''u'')))
          (ex_integration ''revoked'' (Some (-8, Some ''u''))), ex_db ''revoked'' (Some (-8, Some ''u'')))"
  proof -
    have m: "map (\<lambda>r. if in_id r = ''i'' \<and> in_status r = StatusActive \<and> sees_org ex_access (ex_tenant (-8)) (in_org r)
         then r\<lparr>in_status := StatusRevoked, in_revoked := Some (-8, Some ''u'')\<rparr> else r) (fd_integrations (ex_db ''active'' None))
       = [ex_integration ''revoked'' (Some (-8, Some ''u''))]"
      by (simp add: ex_db_def ex_integration_def sees_org_def ex_member StatusActive_def StatusRevoked_def) (simp add: ex_tenant_def)
    have d: "(ex_db ''active'' None)\<lparr>fd_integrations := [ex_integration ''revoked'' (Some (-8, Some ''u''))]\<rparr>
        = ex_db ''revoked'' (Some (-8, Some ''u''))" by (simp add: ex_db_def)
    have t: "tn_now (ex_tenant (-8)) = -8" "tn_user (ex_tenant (-8)) = ''u''" by (simp_all add: ex_tenant_def)
    have b: "by_column ex_V ''u'' = Some (Some ''u'')" "pg_uuid (ie_pg ex_V) ''i'' = Some ''i''"
      by (simp_all add: by_column_def ex_V_def ex_pg_def)
    show ?thesis by (simp only: revoke_call_def revoke_connection_def t b Let_def m d ex_read option.case prod.case map_sum.simps)
  qed
  from revoke_step [OF this, where ck = "-9" and G = stand_in and ring = ex_ring and X = ex_link and quote = id and gw = example_state]
  have step: "integ_step ex_V stand_in ex_ring ex_link id (ex_db ''active'' None, example_state, -9)
      (ex_db ''revoked'' (Some (-8, Some ''u'')), example_state, -8)" by (simp add: ex_tenant_def)
  have reach: "integ_reachable ex_V stand_in ex_ring ex_link id (ex_db ''revoked'' (Some (-8, Some ''u'')), example_state, -8)"
    using ex_reachable step unfolding integ_reachable_def by (meson rtranclp.rtrancl_into_rtrancl)
  have r: "ex_integration ''revoked'' (Some (-8, Some ''u'')) \<in> set (fd_integrations (ex_db ''revoked'' (Some (-8, Some ''u''))))"
    by (simp add: ex_db_def)
  have s: "in_status (ex_integration ''revoked'' (Some (-8, Some ''u''))) \<noteq> StatusActive"
    by (simp add: ex_integration_def StatusActive_def)
  from revoked_is_final [OF ex_driver reach r s rtranclp.rtrancl_refl, of "''i''"]
  show ?thesis by (simp add: ex_V_def ex_pg_def ex_integration_def ex_trims)
qed

end
