(* ===== verification/Fetch_Claims.thy ===== *)
theory Fetch_Claims
  imports Integration_Claims
begin

text \<open>
  What a schedule keeps of the answers it reads and when an ask is served, and where a person's
  path falls short: what is lost, what cannot be withdrawn and what the log does not show.
\<close>

section \<open>What a schedule keeps\<close>

definition of_pair :: "string \<Rightarrow> string \<Rightarrow> string \<Rightarrow> evidence_row \<Rightarrow> bool" where
  "of_pair org conn tool e \<longleftrightarrow> ev_org e = org \<and> ev_conn e = conn \<and> ev_kind e = ''integration.'' @ tool \<and> \<not> ev_superseded e"

definition daily :: "string \<Rightarrow> string \<Rightarrow> string \<Rightarrow> string \<Rightarrow> fetch_record" where
  "daily org conn tool content =
     \<lparr>fx_org = org, fx_conn = conn, fx_tool = tool, fx_args = scheduledArguments, fx_content = content,
      fx_outcome = OutcomeSucceeded, fx_detail = '''', fx_redactions = 0, fx_observed = None, fx_requested = None\<rparr>"

definition deposit_run :: "integ_env \<Rightarrow> string \<Rightarrow> string \<Rightarrow> string \<Rightarrow> instant \<times> string \<times> string \<times> string \<Rightarrow> fetch_db \<Rightarrow> integ_fault + fetch_db" where
  "deposit_run V org conn tool run db =
     (case run of (now, eid, fid, content) \<Rightarrow>
        map_sum id snd (ingest_evidence V now eid fid (daily org conn tool content) db))"

lemma remdups_adj_snoc:
  "remdups_adj (xs @ [x]) = (if xs \<noteq> [] \<and> last xs = x then remdups_adj xs else remdups_adj xs @ [x])"
proof (induction xs rule: remdups_adj.induct)
  case (3 y z zs)
  then show ?case by (cases "y = z") auto
qed auto

lemma last_remdups_adj': "xs \<noteq> [] \<Longrightarrow> last (remdups_adj xs) = last xs"
  by (induction xs rule: remdups_adj.induct) auto

lemma newest_of_last:
  assumes "rows \<noteq> []" and "\<forall>e \<in> set rows. f e \<le> f (last rows)"
  shows "newest_row f rows = Some (last rows)"
  using assms newest_last [of "butlast rows" f "last rows"] by (auto dest: in_set_butlastD)

lemma deposit_runD:
  assumes "deposit_run V org conn tool (now, eid, fid, content) db = Inr db'" and "content \<noteq> ''''"
  shows "length (fd_fetches db') = Suc (length (fd_fetches db))
    \<and> fd_evidence db' = (case newest_row ev_fetched (filter (of_pair org conn tool) (fd_evidence db)) of
        Some e \<Rightarrow> if ev_hash e = sha256 (ie_pg V) content then fd_evidence db
                  else fd_evidence db @ [observation_row V now eid (daily org conn tool content)]
      | None \<Rightarrow> fd_evidence db @ [observation_row V now eid (daily org conn tool content)])"
proof -
  let ?x = "daily org conn tool content"
  have obs: "observes ?x" using assms(2) by (simp add: observes_def daily_def)
  have "last_observation ?x db = newest_row ev_fetched (filter (of_pair org conn tool) (fd_evidence db))"
    by (simp add: last_observation_def of_pair_def [abs_def] daily_def)
  then have known: "same_as_last V ?x db = (case newest_row ev_fetched (filter (of_pair org conn tool) (fd_evidence db)) of
      None \<Rightarrow> None | Some e \<Rightarrow> if ev_hash e = sha256 (ie_pg V) content then Some (ev_id e) else None)"
    using obs by (simp add: same_as_last_def daily_def split: option.split)
  from assms(1) obtain d where run: "ingest_evidence V now eid fid ?x db = Inr (d, db')"
    by (auto simp: deposit_run_def map_sum_Inr)
  then have "length (fd_fetches db') = Suc (length (fd_fetches db))
    \<and> fd_evidence db' = (if same_as_last V ?x db = None then fd_evidence db @ [observation_row V now eid ?x] else fd_evidence db)"
    using obs by (auto simp: ingest_evidence_def Let_def split: if_splits)
  with known show ?thesis by (auto split: option.splits if_splits)
qed

lemma observation_row_of [simp]:
  "of_pair org conn tool (observation_row V now eid (daily org conn tool content))"
  "ev_body (observation_row V now eid (daily org conn tool content)) = content"
  "ev_hash (observation_row V now eid (daily org conn tool content)) = sha256 (ie_pg V) content"
  "ev_fetched (observation_row V now eid (daily org conn tool content)) = now"
  by (simp_all add: of_pair_def observation_row_def daily_def)

lemma deposits_kept:
  assumes "fold_res (deposit_run V org conn tool) runs db = Inr db'"
    and "sorted_wrt (<) (map fst runs)" and "\<forall>r \<in> set runs. snd (snd (snd r)) \<noteq> ''''"
    and "filter (of_pair org conn tool) (fd_evidence db) = []"
    and "inj_on (sha256 (ie_pg V)) ((\<lambda>r. snd (snd (snd r))) ` set runs)"
  shows "let rows = filter (of_pair org conn tool) (fd_evidence db') in
     map ev_body rows = remdups_adj (map (\<lambda>r. snd (snd (snd r))) runs)
     \<and> (\<forall>e \<in> set rows. ev_hash e = sha256 (ie_pg V) (ev_body e) \<and> ev_fetched e \<le> ev_fetched (last rows)
          \<and> (\<exists>r \<in> set runs. ev_fetched e = fst r))
     \<and> length (fd_fetches db') = length (fd_fetches db) + length runs"
  using assms
proof (induction runs arbitrary: db' rule: rev_induct)
  case Nil
  then show ?case by simp
next
  case (snoc run runs)
  obtain now eid fid content where run: "run = (now, eid, fid, content)" by (cases run) auto
  let ?c = "\<lambda>r :: instant \<times> string \<times> string \<times> string. snd (snd (snd r))"
  from snoc.prems(1) obtain db1 where one: "fold_res (deposit_run V org conn tool) runs db = Inr db1"
    and two: "deposit_run V org conn tool (now, eid, fid, content) db1 = Inr db'"
    by (auto simp: fold_res_append run split: sum.splits)
  define rows where "rows = filter (of_pair org conn tool) (fd_evidence db1)"
  have ne: "content \<noteq> ''''" using snoc.prems(3) run by simp
  have "sorted_wrt (<) (map fst runs)" and before: "\<forall>r \<in> set runs. fst r < now"
    using snoc.prems(2) by (auto simp: sorted_wrt_append run)
  moreover have "inj_on (sha256 (ie_pg V)) (?c ` set runs)" using snoc.prems(5) by (auto intro: inj_on_subset)
  ultimately have IH: "map ev_body rows = remdups_adj (map ?c runs)"
    "\<forall>e \<in> set rows. ev_hash e = sha256 (ie_pg V) (ev_body e) \<and> ev_fetched e \<le> ev_fetched (last rows) \<and> (\<exists>r \<in> set runs. ev_fetched e = fst r)"
    "length (fd_fetches db1) = length (fd_fetches db) + length runs"
    using snoc.IH [OF one] snoc.prems(3,4) by (auto simp: rows_def Let_def)
  note D = deposit_runD [OF two ne, folded rows_def]
  let ?new = "observation_row V now eid (daily org conn tool content)"
  show ?case
  proof (cases "rows = []")
    case True
    then have "runs = []" using IH(1) by (metis Nil_is_map_conv remdups_adj_Nil_iff)
    with True D IH(3) snoc.prems(4) show ?thesis by (simp add: run rows_def Let_def)
  next
    case False
    then have runs: "runs \<noteq> []" using IH(1) by auto
    have nw: "newest_row ev_fetched rows = Some (last rows)" using newest_of_last [OF False] IH(2) by blast
    have lastbody: "ev_body (last rows) = last (map ?c runs)"
    proof -
      have "ev_body (last rows) = last (map ev_body rows)" using False by (simp add: last_map)
      also have "\<dots> = last (map ?c runs)" unfolding IH(1) by (rule last_remdups_adj') (simp add: runs)
      finally show ?thesis .
    qed
    have lh: "ev_hash (last rows) = sha256 (ie_pg V) (last (map ?c runs))" using IH(2) False lastbody by simp
    have eq: "ev_hash (last rows) = sha256 (ie_pg V) content \<longleftrightarrow> last (map ?c runs) = content"
    proof
      assume "ev_hash (last rows) = sha256 (ie_pg V) content"
      then have h: "sha256 (ie_pg V) (last (map ?c runs)) = sha256 (ie_pg V) content" by (simp only: lh)
      have "last (map ?c runs) \<in> set (map ?c runs)" using runs by (intro last_in_set) simp
      then have l: "last (map ?c runs) \<in> insert content (?c ` set runs)" by (simp only: set_map insert_iff simp_thms)
      have "inj_on (sha256 (ie_pg V)) (insert content (?c ` set runs))"
        using snoc.prems(5) by (simp only: run set_append list.set image_Un image_insert image_empty snd_conv Un_insert_right sup_bot_right)
      from inj_onD [OF this h l] show "last (map ?c runs) = content" by simp
    qed (simp add: lh)
    show ?thesis
    proof (cases "last (map ?c runs) = content")
      case True
      with D nw eq have "fd_evidence db' = fd_evidence db1" "length (fd_fetches db') = Suc (length (fd_fetches db1))" by auto
      with IH True runs show ?thesis
        by (auto simp: rows_def [symmetric] Let_def run remdups_adj_snoc)
    next
      case False
      with D nw eq have ev: "fd_evidence db' = fd_evidence db1 @ [?new]" "length (fd_fetches db') = Suc (length (fd_fetches db1))" by auto
      have "ev_fetched e \<le> now" if "e \<in> set rows" for e using IH(2) that before by fastforce
      with ev IH False show ?thesis
        by (auto simp: rows_def [symmetric] Let_def run remdups_adj_snoc)
    qed
  qed
qed

text \<open>
  C11: what a schedule keeps of one tool is the list of what it read with runs of equal answers
  collapsed, in order, and one record of an attempt for every run.
\<close>

theorem stored_observations_are_the_changes:
  assumes "fold_res (deposit_run V org conn tool) runs db = Inr db'"
    and "sorted_wrt (<) (map fst runs)" and "\<forall>r \<in> set runs. snd (snd (snd r)) \<noteq> ''''"
    and "filter (of_pair org conn tool) (fd_evidence db) = []"
    and "inj_on (sha256 (ie_pg V)) ((\<lambda>r. snd (snd (snd r))) ` set runs)"
  shows "map ev_body (filter (of_pair org conn tool) (fd_evidence db')) = remdups_adj (map (\<lambda>r. snd (snd (snd r))) runs)
     \<and> length (fd_fetches db') = length (fd_fetches db) + length runs"
  using deposits_kept [OF assms] by (simp add: Let_def)

section \<open>An ask is served\<close>


section \<open>Where the code falls short\<close>

text \<open>
  the last tool of a connection cannot be withdrawn: a driver that sends a nil slice as null
  makes the consent's insert fail, so a request that grants nothing always fails and changes
  nothing.
\<close>

theorem last_grant_cannot_be_withdrawn:
  assumes "ie_array V None = None" and "wanted_names wants = []"
  shows "\<exists>e. update_grants_call V a t cid wants db = Inl e"
proof -
  have none: "granted_names ts = None" if "resolve_grants offered wants = Inr ts" for offered ts
    using resolve_grantsD [OF that] assms(2) by (auto simp: granted_names_def appended_def filter_empty_conv)
  then have "record_consent V t i endpoint ts by db1 = Inl StoreBroken"
    if "resolve_grants offered wants = Inr ts" for offered ts i endpoint "by" db1
    using that assms(1) by (simp add: record_consent_def split: option.split)
  then show ?thesis
    by (auto simp: update_grants_call_def set_grants_def split: sum.splits option.splits)
qed

text \<open>
  C40: no fetch a person makes is ever kept as a success: on a database that has no cast from jsonb
  to bytea the insert of what came back is refused, after the customer's system was called, and
  neither the observation nor the attempt is recorded.
\<close>

theorem successful_fetch_leaves_no_record:
  assumes cast: "\<not> ie_cast V ''jsonb'' ''bytea''"
    and run: "fetch_now V G ring X a t eid fid cid raw_tool raw_args now (db, gw) = (r, db', gw')"
  shows "fd_evidence db' = fd_evidence db
    \<and> (\<forall>f \<in> set (fd_fetches db') - set (fd_fetches db). fr_outcome f \<noteq> OutcomeSucceeded)"
proof -
  have obs: "record_observation V a t eid fid c tool args content n observed requested by d = Inl StoreBroken" for c tool args content n observed requested "by" d
    using cast by (simp add: record_observation_def split: option.split)
  have ref: "fd_evidence d' = fd_evidence d \<and> (\<forall>f \<in> set (fd_fetches d') - set (fd_fetches d). fr_outcome f \<noteq> OutcomeSucceeded)"
    if "rolled_back d (record_refusal V a t fid c tool args outcome detail requested by d) = (x, d')"
      "outcome = OutcomeRefused \<or> outcome = OutcomeFailed" for d d' c tool args outcome detail requested x "by"
    using that by (auto simp: rolled_back_def record_refusal_def OutcomeSucceeded_def OutcomeRefused_def OutcomeFailed_def
        split: sum.splits dest!: record_fetch_grants)
  have go: "fd_evidence db' = fd_evidence db \<and> (\<forall>f \<in> set (fd_fetches db') - set (fd_fetches db). fr_outcome f \<noteq> OutcomeSucceeded)"
    if "fetch_granted V G ring X a t eid fid cid tool args now c offer (db, gw) = (r, db', gw')" for tool args c offer
    using that unfolding fetch_granted_def prod.case
    by (auto simp: obs rolled_back_def [of _ "Inl _"] split: sum.splits prod.splits if_splits dest!: ref)
  from run show ?thesis
    by (auto simp: fetch_now_def Let_def split: if_splits sum.splits option.splits prod.splits dest!: ref dest: go)
qed

text \<open>
  the log's pages skip rows: a row of the same instant as the last row of a full page is on no
  page that follows its token.
\<close>

theorem fetch_pages_skip_an_instant:
  assumes "list_fetches_call V a t cid page before db = Inr (fs, Some token)"
    and "fr_requested x = token" and "scan_fetch db x \<notin> set fs"
    and "list_fetches_call V a t cid page2 (Some later) db = Inr (fs2, token2)" and "later \<le> token"
  shows "scan_fetch db x \<notin> set fs2"
proof
  assume "scan_fetch db x \<in> set fs2"
  with assms(4) obtain y where y: "scan_fetch db y = scan_fetch db x" "fr_requested y < later"
    by (auto simp: list_fetches_call_def fetches_def log_of_def split: sum.splits option.splits dest!: in_set_takeD)
  from y(1) have "fr_requested y = fr_requested x" by (auto simp: scan_fetch_def)
  with y(2) assms(2,5) show False by simp
qed

lemma answer_case:
  "(if b then Inl e else (case F d0 of Inr (x # _) \<Rightarrow> Inr (x, d0) | _ \<Rightarrow> Inr (g, d0))) = Inr (f, d') \<Longrightarrow>
     d' = d0 \<and> (\<forall>y ys. F d0 = Inr (y # ys) \<longrightarrow> f = y)"
  by (auto split: if_splits sum.splits list.splits)

lemma record_fetch_answer:
  assumes "record_fetch V a t fid cid tool args outcome detail evidence redacted requested by db = Inr (f, db')"
  shows "\<exists>row. db' = db\<lparr>fd_fetches := fd_fetches db @ [row]\<rparr>
    \<and> (\<forall>y ys. fetches V a t cid 1 None db' = Inr (y # ys) \<longrightarrow> f = y)"
proof -
  from assms obtain i who where i: "pg_uuid (ie_pg V) cid = Some i" "by_column V by = Some who"
    by (auto simp: record_fetch_def split: option.splits)
  from answer_case [where F = "fetches V a t cid 1 None", OF assms [unfolded record_fetch_def i Let_def option.case prod.case]] show ?thesis by blast
qed

text \<open>
  a fetch that is asked for while a later one has already finished is answered with that one:
  the row read back is the connection's newest, not the one just written.
\<close>

theorem answer_may_be_anothers:
  assumes rec: "record_refusal V a t fid cid tool args outcome detail requested by db = Inr (f, db')"
    and i: "pg_uuid (ie_pg V) cid = Some i" "cid \<noteq> ''''"
    and x: "x \<in> set (log_of a t (Some i) None db)" "requested < fr_requested x"
  shows "requested < ft_requested f"
proof -
  from record_fetch_answer [OF rec [unfolded record_refusal_def]] obtain row where
    db': "db' = db\<lparr>fd_fetches := fd_fetches db @ [row]\<rparr>"
    and f: "\<And>y ys. fetches V a t cid 1 None db' = Inr (y # ys) \<Longrightarrow> f = y" by blast
  let ?log = "log_of a t (Some i) None db'"
  have x': "x \<in> set ?log" using x(1) by (auto simp: log_of_def db')
  obtain y ys where sorted: "sort_key (\<lambda>f. - fr_requested f) ?log = y # ys"
    using x' by (cases "sort_key (\<lambda>f. - fr_requested f) ?log") (auto simp flip: set_empty)
  have "fr_requested x \<le> fr_requested y"
  proof -
    have "sorted (map (\<lambda>f. - fr_requested f) (y # ys))" "x \<in> set (y # ys)"
      using sorted x' by (metis sorted_sort_key, metis set_sort)
    then show ?thesis by auto
  qed
  moreover have "f = scan_fetch db' y"
    by (rule f [where ys = "[]"]) (use i sorted in \<open>simp add: fetches_def by_column_def effective_fetch_page_size_def\<close>)
  ultimately show ?thesis using x(2) by (simp add: scan_fetch_def)
qed

text \<open>
  an address with its scheme in capitals passes the check a connection's address has, and the
  connection is then refused as an internal error by the constraint on the column.
\<close>

theorem capital_scheme_fails_late:
  assumes "ie_url V (trim_space (cq_endpoint q)) = Some u" "url_scheme u = ''https''" "url_hostname u \<noteq> ''''"
    and "\<not> has_prefix (trim_space (cq_endpoint q)) ''http''" "trim_space (cq_endpoint q) \<noteq> ''''"
  shows "validate_endpoint (ie_url V) (cq_endpoint q) = None \<and> (\<exists>e. connect_call V G ring a t i nonce q db = Inl e)"
proof
  show "validate_endpoint (ie_url V) (cq_endpoint q) = None" using assms by (simp add: validate_endpoint_def)
  have "\<not> has_prefix (trim_space (cq_endpoint q)) ''http://''" "\<not> has_prefix (trim_space (cq_endpoint q)) ''https://''"
    using assms(4) by (auto simp: has_prefix_iff)
  then have "create_connection V a t i KindMCP name (trim_space (cq_endpoint q)) sealed tools by db = Inl StoreBroken" for name sealed tools "by"
    by (simp add: create_connection_def insert_integration_def split: option.split)
  then show "\<exists>e. connect_call V G ring a t i nonce q db = Inl e"
    by (auto simp: connect_call_def split: option.splits sum.splits)
qed

text \<open>
  a tool an endpoint offers under a name with white space around it can never be granted: the
  request's names are trimmed and the offered one is compared as it came.
\<close>

theorem padded_tool_is_never_granted:
  assumes "resolve_grants offered wants = Inr ts" and "x \<in> set ts" and "trim_space (it_name x) \<noteq> it_name x"
  shows "\<not> it_granted x"
proof
  assume "it_granted x"
  with resolve_grantsD [OF assms(1)] assms(2) have "it_name x \<in> set (wanted_names wants)" by blast
  then obtain w where "it_name x = trim_space w" by (auto simp: wanted_names_def)
  with assms(3) show False by simp
qed

section \<open>The claims at the example\<close>

text \<open>Three runs: the same answer twice, then another.\<close>

definition ex_runs :: "(instant \<times> string \<times> string \<times> string) list" where
  "ex_runs = [(1, ''e1'', ''f1'', ''A''), (2, ''e2'', ''f2'', ''A''), (3, ''e3'', ''f3'', ''B'')]"

theorem stored_observations_are_the_changes_witness:
  "\<exists>db'. fold_res (deposit_run ex_V ''o'' ''i'' ''read'') ex_runs (ex_db ''active'' None) = Inr db'
     \<and> map ev_body (filter (of_pair ''o'' ''i'' ''read'') (fd_evidence db')) = [''A'', ''B'']
     \<and> length (fd_fetches db') = 3"
proof -
  have ok: "fetch_row_ok ex_V (attempt_row now fid e (daily ''o'' ''i'' ''read'' c))" for now fid e c
    by (simp add: fetch_row_ok_def attempt_row_def Let_def daily_def ex_V_def ex_pg_def not_blank_def OutcomeSucceeded_def)
  have ints: "list_ex (\<lambda>r. in_id r = ''i'') (fd_integrations (ex_db ''active'' None))" by (simp add: ex_db_def ex_integration_def)
  have go: "\<exists>d db1. deposit_run ex_V ''o'' ''i'' ''read'' (now, eid, fid, c) db = Inr db1 \<and> fd_integrations db1 = fd_integrations db"
    if "list_ex (\<lambda>r. in_id r = ''i'') (fd_integrations db)" for now eid fid c db
    using ok that
    by (simp add: deposit_run_def map_sum_Inr ingest_evidence_def Let_def) (simp add: daily_def ex_V_def ex_pg_def)
  from go [OF ints] obtain db1 where 1: "deposit_run ex_V ''o'' ''i'' ''read'' (1, ''e1'', ''f1'', ''A'') (ex_db ''active'' None) = Inr db1"
    "list_ex (\<lambda>r. in_id r = ''i'') (fd_integrations db1)" using ints by metis
  from go [OF 1(2)] obtain db2 where 2: "deposit_run ex_V ''o'' ''i'' ''read'' (2, ''e2'', ''f2'', ''A'') db1 = Inr db2"
    "list_ex (\<lambda>r. in_id r = ''i'') (fd_integrations db2)" using 1(2) by metis
  from go [OF 2(2)] obtain db3 where 3: "deposit_run ex_V ''o'' ''i'' ''read'' (3, ''e3'', ''f3'', ''B'') db2 = Inr db3" by metis
  have run: "fold_res (deposit_run ex_V ''o'' ''i'' ''read'') ex_runs (ex_db ''active'' None) = Inr db3"
    by (simp add: ex_runs_def 1 2 3)
  have "filter (of_pair ''o'' ''i'' ''read'') (fd_evidence (ex_db ''active'' None)) = []" by (simp add: ex_db_def)
  from stored_observations_are_the_changes [OF run _ _ this] run show ?thesis
    by (simp add: ex_runs_def inj_on_def ex_V_def ex_pg_def ex_db_def)
qed

theorem last_grant_cannot_be_withdrawn_witness:
  "(\<exists>e. update_grants_call ex_V ex_access (ex_tenant 0) ''i'' [] (ex_db ''active'' None) = Inl e)
     \<and> granted_set ''i'' (ex_db ''active'' None) \<noteq> {}"
  using last_grant_cannot_be_withdrawn [of ex_V "[]" ex_access "ex_tenant 0" "''i''" "ex_db ''active'' None"]
  by (auto simp: ex_V_def wanted_names_def granted_set_def ex_db_def)

theorem successful_fetch_leaves_no_record_witness:
  "\<exists>gw'. fetch_now ex_V stand_in ex_ring ex_link ex_access (ex_tenant 0) ''e'' ''f'' ''i'' ''read'' '''' 0 (ex_db ''active'' None, example_state)
      = (Inl (FetchFault StoreBroken), ex_db ''active'' None, gw')
     \<and> length (sent_during example_state gw') = 4 \<and> fd_evidence (ex_db ''active'' None) = []"
proof -
  obtain gw' where run: "fetch_now ex_V stand_in ex_ring ex_link ex_access (ex_tenant 0) ''e'' ''f'' ''i'' ''read'' '''' 0
      (ex_db ''active'' None, example_state) = (Inl (FetchFault StoreBroken), ex_db ''active'' None, gw')" "gw_log gw' = ex_wires"
    using ex_fetch_now by blast
  have "\<not> ie_cast ex_V ''jsonb'' ''bytea''" by (simp add: ex_V_def)
  from successful_fetch_leaves_no_record [OF this run(1)] run show ?thesis
    by (simp add: sent_during_def example_state_def ex_wires_def ex_db_def)
qed


end
