(* ===== verification/Memory_Facts.thy ===== *)
theory Memory_Facts
  imports Json_Value Go_Time
begin

text \<open>
  What the product believes about an organisation (\<open>internal/domain/memory/memory.go\<close>): the
  closed vocabulary of fact keys, the kind of value each key holds, and the check every
  value passes before it is written.
\<close>

datatype fact_kind = KindText | KindList | KindNumber | KindTriState

definition fact_kinds :: "(string \<times> fact_kind) list" where
  "fact_kinds =
    [(''industry'', KindText),
     (''eu_jurisdictions'', KindList),
     (''data_categories'', KindList),
     (''data_subjects'', KindList),
     (''ai_systems'', KindList),
     (''has_dpo'', KindTriState),
     (''has_ropa'', KindTriState),
     (''transfers_outside_eu'', KindTriState),
     (''transfer_destinations'', KindList),
     (''staff_count'', KindNumber),
     (''vendor_list'', KindList),
     (''high_risk_processing'', KindTriState),
     (''high_risk_ai_system'', KindTriState),
     (''large_scale_monitoring'', KindTriState),
     (''lawful_bases'', KindList)]"

definition kind_of :: "string \<Rightarrow> fact_kind option" where
  "kind_of key = map_of fact_kinds key"

definition lawful_bases :: "string list" where
  "lawful_bases = [''consent'', ''contract'', ''legal_obligation'', ''vital_interests'',
     ''public_task'', ''legitimate_interests'']"

definition fact_sources :: "string list" where
  "fact_sources = [''onboarding'', ''integration'', ''human'', ''agent'', ''import'']"

record fact =
  fact_key :: string
  fact_value :: json
  fact_source :: string
  fact_evidence :: string
  valid_from :: instant
  valid_to :: "instant option"
  recorded_by :: string
  fact_note :: string

definition fact_current :: "fact \<Rightarrow> bool" where
  "fact_current f \<longleftrightarrow> valid_to f = None"

record observation =
  obs_id :: string
  obs_source :: string
  obs_kind :: string
  obs_connection :: string
  observed_at :: instant
  fetched_at :: instant
  obs_body :: json
  superseded_by :: string

datatype memory_error =
    UnknownFact string
  | InvalidJson string
  | DecodeFailed string
  | HoldsText string
  | HoldsTriState string
  | HoldsNumber string
  | HoldsList string
  | NotALawfulBasis string
  | UnknownSource string

text \<open>The loop over a list's items: text first, then the one vocabulary that is matched.\<close>

fun check_items :: "string \<Rightarrow> json list \<Rightarrow> memory_error option" where
  "check_items key [] = None"
| "check_items key (item # items) =
     (case item of
        JStr text \<Rightarrow>
          if key = ''lawful_bases'' \<and> text \<notin> set lawful_bases then Some (NotALawfulBasis text)
          else check_items key items
      | _ \<Rightarrow> Some (HoldsList key))"

definition check_kind :: "fact_kind \<Rightarrow> string \<Rightarrow> json \<Rightarrow> memory_error option" where
  "check_kind kind key decoded =
     (case kind of
        KindText \<Rightarrow> (case decoded of JStr _ \<Rightarrow> None | _ \<Rightarrow> Some (HoldsText key))
      | KindTriState \<Rightarrow>
          (case decoded of
             JStr s \<Rightarrow> if s \<noteq> ''yes'' \<and> s \<noteq> ''no'' \<and> s \<noteq> ''unsure'' then Some (HoldsTriState key) else None
           | _ \<Rightarrow> Some (HoldsTriState key))
      | KindNumber \<Rightarrow> (case decoded of JNum _ \<Rightarrow> None | _ \<Rightarrow> Some (HoldsNumber key))
      | KindList \<Rightarrow> (case decoded of JArr items \<Rightarrow> check_items key items | _ \<Rightarrow> Some (HoldsList key)))"

definition validate_value :: "string \<Rightarrow> json_text \<Rightarrow> memory_error option" where
  "validate_value key text =
     (case kind_of key of
        None \<Rightarrow> Some (UnknownFact key)
      | Some kind \<Rightarrow>
          (case text of
             NotJson \<Rightarrow> Some (InvalidJson key)
           | Undecodable \<Rightarrow> Some (DecodeFailed key)
           | Decoded j \<Rightarrow> check_kind kind key j))"

definition validate_source :: "string \<Rightarrow> memory_error option" where
  "validate_source source = (if source \<in> set fact_sources then None else Some (UnknownSource source))"

section \<open>The type a fact's value has\<close>

text \<open>The specification of a well-typed value, per kind.\<close>

definition item_ok :: "string \<Rightarrow> json \<Rightarrow> bool" where
  "item_ok key j \<longleftrightarrow> (\<exists>s. j = JStr s \<and> (key = ''lawful_bases'' \<longrightarrow> s \<in> set lawful_bases))"

definition value_ok :: "string \<Rightarrow> json \<Rightarrow> bool" where
  "value_ok key j \<longleftrightarrow>
     (case kind_of key of
        None \<Rightarrow> False
      | Some KindText \<Rightarrow> (\<exists>s. j = JStr s)
      | Some KindTriState \<Rightarrow> j \<in> {JStr ''yes'', JStr ''no'', JStr ''unsure''}
      | Some KindNumber \<Rightarrow> (\<exists>n. j = JNum n)
      | Some KindList \<Rightarrow> (\<exists>items. j = JArr items \<and> (\<forall>item \<in> set items. item_ok key item)))"

lemma check_items_None:
  "check_items key items = None \<longleftrightarrow> (\<forall>item \<in> set items. item_ok key item)"
  by (induction items) (auto simp: item_ok_def split: json.splits)

lemma check_kind_None:
  "kind_of key = Some k \<Longrightarrow> check_kind k key j = None \<longleftrightarrow> value_ok key j"
  by (cases k) (auto simp: check_kind_def value_ok_def check_items_None split: json.splits)

lemma validate_value_None:
  "validate_value key raw = None \<longleftrightarrow> (\<exists>j. raw = Decoded j \<and> value_ok key j)"
proof (cases "kind_of key")
  case None
  then show ?thesis by (simp add: validate_value_def value_ok_def)
next
  case (Some k)
  then show ?thesis
    by (cases raw) (simp_all add: validate_value_def check_kind_None)
qed

section \<open>Claims\<close>

text \<open>
  The check before a fact is written accepts exactly the well-typed values: text for a text
  key, one of yes, no and unsure for a tri-state key, a number for a number key, a list of texts
  for a list key, and for the lawful bases a list of the six bases of Article 6(1).
\<close>

theorem validate_value_decides_type:
  "validate_value key raw = None \<longleftrightarrow> (\<exists>j. raw = Decoded j \<and> value_ok key j)"
  by (rule validate_value_None)

end
