(* ===== verification/Applicability.thy ===== *)
theory Applicability
  imports Memory_Facts
begin

text \<open>
  The applicability vocabulary of an obligation (\<open>domain/corpus/applieswhen.go\<close>, what a pack
  may say about who an obligation binds) and the sentences rendered from it
  (\<open>domain/corpus/appliesbecause.go\<close>).

  The maps of tokens to \<open>true\<close> are lists here: every entry of the code's maps is \<open>true\<close>, which
  is also what makes \<open>UnevaluatedKeys\<close> empty.  A Go \<open>range\<close> over a map visits its entries in
  no fixed order; the models visit them in the order of the document, so only what does not
  depend on the order is claimed.
\<close>

definition gap_tokens :: "(string \<times> bool) list" where
  "gap_tokens = [(''ropa'', True), (''dpo'', True), (''ai_register'', True), (''transfer_safeguards'', True)]"

definition applies_when_keys :: "(string \<times> bool) list" where
  "applies_when_keys = [(''role'', True), (''requires'', True), (''thresholds'', True),
     (''engages_processor'', True), (''lawful_basis_includes'', True)]"

definition threshold_keys :: "(string \<times> bool) list" where
  "threshold_keys = [(''cross_border_transfers'', True), (''high_risk_processing'', True),
     (''high_risk_ai_system'', True), (''large_scale_monitoring'', True)]"

definition threshold_facts :: "(string \<times> string) list" where
  "threshold_facts = [(''high_risk_processing'', ''high_risk_processing''),
     (''high_risk_ai_system'', ''high_risk_ai_system''),
     (''large_scale_monitoring'', ''large_scale_monitoring'')]"

definition obligation_roles :: "(string \<times> bool) list" where
  "obligation_roles = [(''controller'', True), (''deployer'', True), (''provider'', True)]"

text \<open>\<open>m[k]\<close> of a \<open>map[string]bool\<close>: \<open>false\<close> for a key that is not there.\<close>

definition flag :: "(string \<times> bool) list \<Rightarrow> string \<Rightarrow> bool" where
  "flag m k = (map_of m k = Some True)"

definition vocabulary_list :: "(string \<times> bool) list \<Rightarrow> string list" where
  "vocabulary_list m = sort (map fst m)"

definition vocabulary :: "(string \<times> bool) list \<Rightarrow> string" where
  "vocabulary m = join '', '' (vocabulary_list m)"

definition GapTokens :: "string list" where "GapTokens = vocabulary_list gap_tokens"
definition ThresholdKeys :: "string list" where "ThresholdKeys = vocabulary_list threshold_keys"

definition ThresholdFacts :: "(string \<times> string) list" where
  "ThresholdFacts = sort_key fst threshold_facts"

definition UnevaluatedKeys :: "string list" where
  "UnevaluatedKeys =
     sort (map fst (filter (\<lambda>(k, evaluated). \<not> evaluated) applies_when_keys)
           @ map fst (filter (\<lambda>(k, evaluated). \<not> evaluated) threshold_keys))"

section \<open>Validation (applieswhen.go)\<close>

text \<open>An \<open>applies_when\<close> document: blank, not a JSON object, or the object.\<close>

datatype applies_doc = BlankDoc | MalformedDoc | Doc json

datatype applies_problem =
    NotAnObject
  | UnknownKey string
  | RoleNotString
  | UnknownRole string
  | RequiresNotArray
  | UnknownGapToken string
  | BasisNotString
  | UnknownBasis string
  | ThresholdsNotObject
  | UnknownThreshold string

definition check_role :: "json \<Rightarrow> applies_problem list" where
  "check_role raw =
     (case unmarshal_string raw of
        None \<Rightarrow> [RoleNotString]
      | Some role \<Rightarrow> if \<not> flag obligation_roles role then [UnknownRole role] else [])"

definition check_requires :: "json \<Rightarrow> applies_problem list" where
  "check_requires raw =
     (case unmarshal_strings raw of
        None \<Rightarrow> [RequiresNotArray]
      | Some tokens \<Rightarrow> map UnknownGapToken (filter (\<lambda>t. \<not> flag gap_tokens t) tokens))"

definition check_lawful_basis :: "json \<Rightarrow> applies_problem list" where
  "check_lawful_basis raw =
     (case unmarshal_string raw of
        None \<Rightarrow> [BasisNotString]
      | Some basis \<Rightarrow> if basis \<notin> set lawful_bases then [UnknownBasis basis] else [])"

definition check_thresholds :: "json \<Rightarrow> applies_problem list" where
  "check_thresholds raw =
     (case unmarshal_object raw of
        None \<Rightarrow> [ThresholdsNotObject]
      | Some kvs \<Rightarrow>
          map UnknownThreshold (filter (\<lambda>k. map_of threshold_keys k = None) (map fst kvs)))"

definition check_entry :: "string \<times> json \<Rightarrow> applies_problem list" where
  "check_entry kv =
     (case kv of (key, value) \<Rightarrow>
        if map_of applies_when_keys key = None then [UnknownKey key]
        else if key = ''role'' then check_role value
        else if key = ''requires'' then check_requires value
        else if key = ''thresholds'' then check_thresholds value
        else if key = ''lawful_basis_includes'' then check_lawful_basis value
        else [])"

definition validate_applies_when :: "applies_doc \<Rightarrow> applies_problem list" where
  "validate_applies_when doc =
     (case doc of
        BlankDoc \<Rightarrow> []
      | MalformedDoc \<Rightarrow> [NotAnObject]
      | Doc j \<Rightarrow>
          (case unmarshal_object j of
             None \<Rightarrow> [NotAnObject]
           | Some kvs \<Rightarrow> concat (map check_entry kvs)))"

section \<open>Rendering (appliesbecause.go)\<close>

definition role_phrases :: "(string \<times> string) list" where
  "role_phrases =
     [(''controller'', ''your organisation is recorded as a controller of personal data''),
      (''deployer'', ''your organisation is recorded as deploying an AI system''),
      (''provider'', ''your organisation is recorded as providing an AI system'')]"

definition gap_phrases :: "(string \<times> string) list" where
  "gap_phrases =
     [(''ropa'', ''your compliance record does not show a record of processing activities''),
      (''dpo'', ''your compliance record does not name a data protection officer''),
      (''ai_register'', ''your compliance record does not show a register of AI systems''),
      (''transfer_safeguards'', ''your compliance record does not show safeguards for transfers outside the EEA'')]"

definition threshold_phrases :: "(string \<times> string) list" where
  "threshold_phrases =
     [(''cross_border_transfers'', ''you told us you transfer personal data outside the EEA, or told us you were not sure''),
      (''high_risk_processing'', ''you told us your processing is likely to be high risk, or told us you were not sure''),
      (''high_risk_ai_system'', ''you told us you handle a high-risk AI system, or told us you were not sure''),
      (''large_scale_monitoring'', ''you told us you monitor people on a large scale, or told us you were not sure'')]"

definition engages_processor_phrase :: string where
  "engages_processor_phrase = ''you told us you use third parties to process personal data on your behalf''"

definition lookup_all :: "string list \<Rightarrow> (string \<times> string) list \<Rightarrow> string list" where
  "lookup_all tokens phrases = List.map_filter (map_of phrases) tokens"

definition phrases_for :: "string \<Rightarrow> json \<Rightarrow> string list" where
  "phrases_for key raw =
     (if key = ''role'' then
        (case unmarshal_string raw of None \<Rightarrow> []
         | Some role \<Rightarrow> (case map_of role_phrases role of None \<Rightarrow> [] | Some p \<Rightarrow> [p]))
      else if key = ''requires'' then
        (case unmarshal_strings raw of None \<Rightarrow> []
         | Some tokens \<Rightarrow> lookup_all tokens gap_phrases)
      else if key = ''thresholds'' then
        (case unmarshal_bools raw of None \<Rightarrow> []
         | Some kvs \<Rightarrow> lookup_all (sort (map fst (filter snd kvs))) threshold_phrases)
      else if key = ''engages_processor'' then
        (case unmarshal_bool raw of None \<Rightarrow> []
         | Some engages \<Rightarrow> if engages then [engages_processor_phrase] else [])
      else if key = ''lawful_basis_includes'' then
        (case unmarshal_string raw of None \<Rightarrow> []
         | Some basis \<Rightarrow> if trim_space basis = [] then []
             else [''you told us you rely on '' @ basis @ '' as a lawful basis for this processing''])
      else [])"

definition reason_keys :: "string list" where
  "reason_keys = [''role'', ''thresholds'', ''engages_processor'', ''lawful_basis_includes'', ''requires'']"

definition applies_because :: "applies_doc \<Rightarrow> string list" where
  "applies_because doc =
     (case doc of
        BlankDoc \<Rightarrow> []
      | MalformedDoc \<Rightarrow> []
      | Doc j \<Rightarrow>
          (case unmarshal_object j of
             None \<Rightarrow> []
           | Some kvs \<Rightarrow>
               concat (map (\<lambda>key. case map_of kvs key of None \<Rightarrow> [] | Some raw \<Rightarrow> phrases_for key raw)
                 reason_keys)))"

section \<open>The vocabulary and its phrases\<close>

lemmas vocabularies = gap_tokens_def applies_when_keys_def threshold_keys_def obligation_roles_def
lemmas phrase_tables = role_phrases_def gap_phrases_def threshold_phrases_def

lemma unevaluated_keys_empty: "UnevaluatedKeys = []"
  by (simp add: UnevaluatedKeys_def vocabularies)

lemma flag_gap_tokens: "flag gap_tokens t \<longleftrightarrow> map_of gap_phrases t \<noteq> None"
  by (simp add: flag_def gap_tokens_def gap_phrases_def)

lemma flag_roles: "flag obligation_roles t \<longleftrightarrow> map_of role_phrases t \<noteq> None"
  by (simp add: flag_def obligation_roles_def role_phrases_def)

lemma threshold_keys_phrases: "map_of threshold_keys t \<noteq> None \<longleftrightarrow> map_of threshold_phrases t \<noteq> None"
  unfolding map_of_eq_None_iff by (simp add: threshold_keys_def threshold_phrases_def)

lemma threshold_facts_known:
  "list_all (\<lambda>(t, f). kind_of f = Some KindTriState \<and> map_of threshold_keys t \<noteq> None) threshold_facts"
  by code_simp

lemma lookup_all_length:
  "(\<And>t. t \<in> set tokens \<Longrightarrow> map_of phrases t \<noteq> None) \<Longrightarrow>
     length (lookup_all tokens phrases) = length tokens"
  unfolding lookup_all_def by (induction tokens) (auto simp: map_filter_simps split: option.splits)

lemma set_lookup_all: "p \<in> set (lookup_all tokens phrases) \<longleftrightarrow> (\<exists>t \<in> set tokens. map_of phrases t = Some p)"
  unfolding lookup_all_def by (induction tokens) (auto simp: map_filter_simps split: option.splits)

lemma validate_doc_iff:
  "validate_applies_when (Doc j) = [] \<longleftrightarrow>
     (\<exists>kvs. unmarshal_object j = Some kvs \<and> (\<forall>kv \<in> set kvs. check_entry kv = []))"
  by (auto simp: validate_applies_when_def split: option.splits)

lemma check_requires_Nil:
  "check_requires raw = [] \<longleftrightarrow>
     (\<exists>tokens. unmarshal_strings raw = Some tokens \<and> (\<forall>t \<in> set tokens. flag gap_tokens t))"
  by (auto simp: check_requires_def filter_empty_conv split: option.splits)

lemma check_role_Nil:
  "check_role raw = [] \<longleftrightarrow> (\<exists>r. unmarshal_string raw = Some r \<and> flag obligation_roles r)"
  by (auto simp: check_role_def split: option.splits)

lemma check_lawful_basis_Nil:
  "check_lawful_basis raw = [] \<longleftrightarrow> (\<exists>b. unmarshal_string raw = Some b \<and> b \<in> set lawful_bases)"
  by (auto simp: check_lawful_basis_def split: option.splits)

lemma check_thresholds_Nil:
  "check_thresholds raw = [] \<longleftrightarrow>
     (\<exists>kvs. unmarshal_object raw = Some kvs \<and> (\<forall>kv \<in> set kvs. map_of threshold_keys (fst kv) \<noteq> None))"
  by (auto simp: check_thresholds_def filter_empty_conv split: option.splits)

lemma validate_doc_entry:
  "validate_applies_when (Doc j) = [] \<Longrightarrow> unmarshal_object j = Some kvs \<Longrightarrow> (key, raw) \<in> set kvs \<Longrightarrow>
     check_entry (key, raw) = []"
  by (auto simp: validate_doc_iff)

lemma basis_not_blank: "b \<in> set lawful_bases \<Longrightarrow> trim_space b \<noteq> []"
proof -
  have "\<forall>b \<in> set lawful_bases. trim_space b \<noteq> []" by code_simp
  then show "b \<in> set lawful_bases \<Longrightarrow> trim_space b \<noteq> []" by blast
qed

lemma phrases_role: "check_role raw = [] \<Longrightarrow> length (phrases_for ''role'' raw) = 1"
  by (auto simp: check_role_Nil flag_roles phrases_for_def)

lemma phrases_requires:
  "check_requires raw = [] \<Longrightarrow>
     \<exists>tokens. unmarshal_strings raw = Some tokens
       \<and> length (phrases_for ''requires'' raw) = length tokens"
  by (auto simp: check_requires_Nil flag_gap_tokens phrases_for_def intro!: lookup_all_length)

lemma phrases_basis:
  "check_lawful_basis raw = [] \<Longrightarrow> length (phrases_for ''lawful_basis_includes'' raw) = 1"
  by (auto simp: check_lawful_basis_Nil phrases_for_def dest: basis_not_blank)

section \<open>Claims\<close>

text \<open>
  No declared ground is dropped on the way to a reader: in a document validation accepts, a
  role and a lawful basis each render as one sentence, and the required controls as one
  sentence each.
\<close>

theorem valid_grounds_all_rendered:
  assumes "validate_applies_when (Doc j) = []" and "unmarshal_object j = Some kvs"
    and "(key, raw) \<in> set kvs"
  shows "(key = ''role'' \<longrightarrow> length (phrases_for key raw) = 1)
    \<and> (key = ''lawful_basis_includes'' \<longrightarrow> length (phrases_for key raw) = 1)
    \<and> (key = ''requires'' \<longrightarrow> (\<exists>tokens. unmarshal_strings raw = Some tokens
          \<and> length (phrases_for key raw) = length tokens))"
proof -
  have "check_entry (key, raw) = []" using assms by (rule validate_doc_entry)
  then show ?thesis
    using phrases_role [of raw] phrases_requires [of raw] phrases_basis [of raw]
    by (auto simp: check_entry_def split: if_splits)
qed

definition example_applies :: json where
  "example_applies = JObj [(''role'', JStr ''controller''), (''requires'', JArr [JStr ''ropa'', JStr ''dpo''])]"

theorem valid_grounds_all_rendered_witness:
  "length (phrases_for ''requires'' (JArr [JStr ''ropa'', JStr ''dpo''])) = 2"
proof -
  have v: "validate_applies_when (Doc example_applies) = []" by code_simp
  have o: "unmarshal_object example_applies
      = Some [(''role'', JStr ''controller''), (''requires'', JArr [JStr ''ropa'', JStr ''dpo''])]"
    by code_simp
  show ?thesis using valid_grounds_all_rendered [OF v o, of "''requires''"] by auto
qed

text \<open>
  Validation looks at the names of the thresholds and not at their values, and the renderer
  decodes them as booleans all at once: a document with the string \<open>yes\<close> for one threshold
  and true for another is accepted, and both are then dropped from the reasons.
\<close>

theorem threshold_values_unchecked:
  "let doc = Doc (JObj [(''thresholds'', JObj [(''high_risk_processing'', JStr ''yes''),
                        (''large_scale_monitoring'', JBool True)])])
   in validate_applies_when doc = [] \<and> applies_because doc = []"
  by code_simp

end
