(* ===== verification/Corpus_Pack.thy ===== *)
theory Corpus_Pack
  imports Applicability Citations
begin

text \<open>
  What a regulation pack has to look like before any of it reaches the database
  (\<open>domain/corpus/corpus.go\<close>).  Validation returns every problem, in the order the code meets
  them; a problem is a value naming the place and the rule, which the code renders as text.
\<close>

section \<open>Data\<close>

record paragraph_row =
  para_label :: string
  para_summary :: string
  para_ordering :: int

record article =
  art_number :: int
  art_heading :: string
  art_summary :: string
  art_effective :: string
  art_paragraphs :: "paragraph_row list"

record recital =
  rec_number :: int
  rec_summary :: string

record annex_item =
  item_label :: string
  item_heading :: string
  item_summary :: string
  item_effective :: string
  item_ordering :: int

record annex =
  anx_label :: string
  anx_heading :: string
  anx_summary :: string
  anx_effective :: string
  anx_items :: "annex_item list"

record article_recital =
  link_article :: int
  link_recital :: int

record reg_document =
  doc_celex :: string
  doc_title :: string
  doc_short_title :: string
  doc_version :: string
  doc_url :: string
  doc_articles :: "article list"
  doc_recitals :: "recital list"
  doc_annexes :: "annex list"
  doc_links :: "article_recital list"

record pack_obligation =
  po_slug :: string
  po_title :: string
  po_summary :: string
  po_citation :: citation
  po_applies :: applies_doc
  po_severity :: string
  po_due_within :: int
  po_recurrence :: string
  po_effective :: string
  po_tags :: "string list"
  po_action :: string

record guideline =
  gl_slug :: string
  gl_publisher :: string
  gl_title :: string
  gl_adopted :: string
  gl_version :: string
  gl_url :: string
  gl_tags :: "string list"

record decision =
  dec_slug :: string
  dec_dpa :: string
  dec_title :: string
  dec_date :: string
  dec_fine :: int
  dec_has_fine :: bool
  dec_summary :: string
  dec_url :: string
  dec_articles :: "int list"
  dec_tags :: "string list"

record pack =
  pk_id :: string
  pk_document :: "reg_document option"
  pk_obligations :: "pack_obligation list"
  pk_guidelines :: "guideline list"
  pk_decisions :: "decision list"

definition SummaryMax :: nat where "SummaryMax = 2000"
definition ArticleSummaryMin :: nat where "ArticleSummaryMin = 1"
definition LongSummaryMin :: nat where "LongSummaryMin = 100"

definition pack_severities :: "string list" where
  "pack_severities = [''low'', ''medium'', ''high'']"

datatype place =
    AtDocument string
  | AtArticle int
  | AtParagraph int string
  | AtRecital int
  | AtAnnex string
  | AtItem string string
  | AtObligation string
  | AtGuideline string
  | AtDecision string

datatype problem =
    NoPackId
  | EmptyPack
  | Blank place string
  | NotPositive place
  | Twice place
  | SummaryTooShort place nat nat
  | SummaryTooLong place nat
  | NoDate place string
  | NotADate place string string
  | NoUrl place string
  | NotAUrl place string string
  | UrlNoHost place string string
  | LinkedArticle int
  | LinkedRecital int
  | NoSlug string
  | BadSeverity place string
  | NegativeDue place
  | CitesNoDocument place
  | CitesNoNumber place
  | CitesTwoThings place
  | CitesRecitalParagraph place
  | BadCitationKind place string
  | Applies place applies_problem
  | NegativeFine place

definition blank :: "string \<Rightarrow> bool" where
  "blank s \<longleftrightarrow> trim_space s = []"

definition require :: "bool \<Rightarrow> problem \<Rightarrow> problem list" where
  "require ok p = (if ok then [] else [p])"

section \<open>Field checks\<close>

definition check_summary :: "place \<Rightarrow> string \<Rightarrow> nat \<Rightarrow> problem list" where
  "check_summary at summary mn =
     (let n = length (runes summary) in
      if n < mn then [SummaryTooShort at n mn]
      else if n > SummaryMax then [SummaryTooLong at n]
      else [])"

text \<open>\<open>time.Parse(time.DateOnly, value)\<close> succeeds: ten bytes, a month and a day it has.\<close>

definition leap_year :: "nat \<Rightarrow> bool" where
  "leap_year y \<longleftrightarrow> y mod 4 = 0 \<and> (y mod 100 \<noteq> 0 \<or> y mod 400 = 0)"

definition days_in :: "nat \<Rightarrow> nat \<Rightarrow> nat" where
  "days_in m y = (if m = 2 then (if leap_year y then 29 else 28)
     else if m \<in> {4, 6, 9, 11} then 30 else 31)"

definition iso_date :: "string \<Rightarrow> bool" where
  "iso_date v \<longleftrightarrow>
     (length v = 10 \<and> v ! 4 = CHR ''-'' \<and> v ! 7 = CHR ''-''
      \<and> list_all is_digit (take 4 v) \<and> list_all is_digit (take 2 (drop 5 v))
      \<and> list_all is_digit (drop 8 v)
      \<and> (let y = nat_of_digits (take 4 v); m = nat_of_digits (take 2 (drop 5 v));
             d = nat_of_digits (drop 8 v)
         in 1 \<le> m \<and> m \<le> 12 \<and> 1 \<le> d \<and> d \<le> days_in m y))"

definition check_date :: "place \<Rightarrow> string \<Rightarrow> string \<Rightarrow> bool \<Rightarrow> problem list" where
  "check_date at field v required =
     (if v = [] then (if required then [NoDate at field] else [])
      else if \<not> iso_date v then [NotADate at field v]
      else [])"

definition url_sep :: string where "url_sep = ''://''"

definition check_url :: "place \<Rightarrow> string \<Rightarrow> string \<Rightarrow> problem list" where
  "check_url at field v =
     (if blank v then [NoUrl at field]
      else if \<not> has_prefix v ''https://'' \<and> \<not> has_prefix v ''http://'' then [NotAUrl at field v]
      else (case cut v url_sep of (_, rest, found) \<Rightarrow>
              if \<not> found \<or> rest = [] then [UrlNoHost at field v] else []))"

section \<open>The document\<close>

fun validate_paragraphs :: "int \<Rightarrow> string list \<Rightarrow> paragraph_row list \<Rightarrow> problem list" where
  "validate_paragraphs n labels [] = []"
| "validate_paragraphs n labels (p # ps) =
     require (\<not> blank (para_label p)) (Blank (AtArticle n) ''paragraph label'')
     @ require (para_label p \<notin> set labels) (Twice (AtParagraph n (para_label p)))
     @ check_summary (AtParagraph n (para_label p)) (para_summary p) ArticleSummaryMin
     @ validate_paragraphs n (para_label p # labels) ps"

fun validate_articles :: "int list \<Rightarrow> article list \<Rightarrow> problem list" where
  "validate_articles seen [] = []"
| "validate_articles seen (a # as) =
     (let at = AtArticle (art_number a) in
      require (art_number a > 0) (NotPositive at)
      @ require (art_number a \<notin> set seen) (Twice at)
      @ require (\<not> blank (art_heading a)) (Blank at ''heading'')
      @ check_summary at (art_summary a) ArticleSummaryMin
      @ check_date at ''effective date'' (art_effective a) False
      @ validate_paragraphs (art_number a) [] (art_paragraphs a)
      @ validate_articles (art_number a # seen) as)"

fun validate_recitals :: "int list \<Rightarrow> recital list \<Rightarrow> problem list" where
  "validate_recitals seen [] = []"
| "validate_recitals seen (r # rs) =
     (let at = AtRecital (rec_number r) in
      require (rec_number r > 0) (NotPositive at)
      @ require (rec_number r \<notin> set seen) (Twice at)
      @ check_summary at (rec_summary r) ArticleSummaryMin
      @ validate_recitals (rec_number r # seen) rs)"

fun validate_items :: "string \<Rightarrow> string list \<Rightarrow> annex_item list \<Rightarrow> problem list" where
  "validate_items x seen [] = []"
| "validate_items x seen (i # is) =
     (let at = AtItem x (item_label i) in
      require (\<not> blank (item_label i)) (Blank (AtAnnex x) ''item label'')
      @ require (item_label i \<notin> set seen) (Twice at)
      @ check_summary at (item_summary i) LongSummaryMin
      @ check_date at ''effective date'' (item_effective i) False
      @ validate_items x (item_label i # seen) is)"

fun validate_annexes :: "string list \<Rightarrow> annex list \<Rightarrow> problem list" where
  "validate_annexes seen [] = []"
| "validate_annexes seen (x # xs) =
     (let at = AtAnnex (anx_label x) in
      require (\<not> blank (anx_label x)) (Blank at ''label'')
      @ require (anx_label x \<notin> set seen) (Twice at)
      @ require (\<not> blank (anx_heading x)) (Blank at ''heading'')
      @ check_summary at (anx_summary x) LongSummaryMin
      @ check_date at ''effective date'' (anx_effective x) False
      @ validate_items (anx_label x) [] (anx_items x)
      @ validate_annexes (anx_label x # seen) xs)"

fun validate_links :: "int list \<Rightarrow> int list \<Rightarrow> article_recital list \<Rightarrow> problem list" where
  "validate_links arts recs [] = []"
| "validate_links arts recs (l # ls) =
     require (link_article l \<in> set arts) (LinkedArticle (link_article l))
     @ require (link_recital l \<in> set recs) (LinkedRecital (link_recital l))
     @ validate_links arts recs ls"

definition validate_document :: "reg_document \<Rightarrow> problem list" where
  "validate_document d =
     (let at = AtDocument (doc_celex d) in
      require (\<not> blank (doc_celex d)) (Blank at ''CELEX number'')
      @ require (\<not> blank (doc_title d)) (Blank at ''title'')
      @ require (\<not> blank (doc_short_title d)) (Blank at ''short title'')
      @ check_date at ''version date'' (doc_version d) True
      @ check_url at ''official URL'' (doc_url d)
      @ validate_articles [] (doc_articles d)
      @ validate_recitals [] (doc_recitals d)
      @ validate_annexes [] (doc_annexes d)
      @ validate_links (map art_number (doc_articles d)) (map rec_number (doc_recitals d)) (doc_links d))"

section \<open>Obligations, guidelines, decisions\<close>

definition validate_citation :: "place \<Rightarrow> citation \<Rightarrow> problem list" where
  "validate_citation at c =
     require (\<not> blank (cit_celex c)) (CitesNoDocument at)
     @ (if cit_kind c = KindArticle then
          require (article_number c > 0) (CitesNoNumber at)
          @ require (recital_number c = 0 \<and> annex_label c = []) (CitesTwoThings at)
        else if cit_kind c = KindRecital then
          require (recital_number c > 0) (CitesNoNumber at)
          @ require (article_number c = 0 \<and> annex_label c = []) (CitesTwoThings at)
          @ require (paragraph_label c = []) (CitesRecitalParagraph at)
        else if cit_kind c = KindAnnex then
          require (\<not> blank (annex_label c)) (CitesNoNumber at)
          @ require (article_number c = 0 \<and> recital_number c = 0) (CitesTwoThings at)
        else [BadCitationKind at (cit_kind c)])"

fun validate_obligations :: "string list \<Rightarrow> pack_obligation list \<Rightarrow> problem list" where
  "validate_obligations slugs [] = []"
| "validate_obligations slugs (b # bs) =
     (let at = AtObligation (po_slug b) in
      if blank (po_slug b) then NoSlug ''obligation'' # validate_obligations slugs bs
      else
        require (po_slug b \<notin> set slugs) (Twice at)
        @ require (\<not> blank (po_title b)) (Blank at ''title'')
        @ check_summary at (po_summary b) LongSummaryMin
        @ require (po_severity b \<in> set pack_severities) (BadSeverity at (po_severity b))
        @ require (po_due_within b \<ge> 0) (NegativeDue at)
        @ check_date at ''effective date'' (po_effective b) False
        @ validate_citation at (po_citation b)
        @ map (Applies at) (validate_applies_when (po_applies b))
        @ validate_obligations (po_slug b # slugs) bs)"

fun validate_guidelines :: "string list \<Rightarrow> guideline list \<Rightarrow> problem list" where
  "validate_guidelines slugs [] = []"
| "validate_guidelines slugs (g # gs) =
     (let at = AtGuideline (gl_slug g) in
      if blank (gl_slug g) then NoSlug ''guideline'' # validate_guidelines slugs gs
      else
        require (gl_slug g \<notin> set slugs) (Twice at)
        @ require (\<not> blank (gl_title g)) (Blank at ''title'')
        @ require (\<not> blank (gl_publisher g)) (Blank at ''publisher'')
        @ check_date at ''adopted date'' (gl_adopted g) True
        @ check_url at ''source URL'' (gl_url g)
        @ validate_guidelines (gl_slug g # slugs) gs)"

fun validate_decisions :: "string list \<Rightarrow> decision list \<Rightarrow> problem list" where
  "validate_decisions slugs [] = []"
| "validate_decisions slugs (d # ds) =
     (let at = AtDecision (dec_slug d) in
      if blank (dec_slug d) then NoSlug ''enforcement decision'' # validate_decisions slugs ds
      else
        require (dec_slug d \<notin> set slugs) (Twice at)
        @ require (\<not> blank (dec_title d)) (Blank at ''title'')
        @ require (\<not> blank (dec_dpa d)) (Blank at ''supervisory authority'')
        @ check_summary at (dec_summary d) LongSummaryMin
        @ check_date at ''decision date'' (dec_date d) True
        @ check_url at ''source URL'' (dec_url d)
        @ require (\<not> (dec_has_fine d \<and> dec_fine d < 0)) (NegativeFine at)
        @ validate_decisions (dec_slug d # slugs) ds)"

definition validate_pack :: "pack \<Rightarrow> problem list" where
  "validate_pack p =
     require (\<not> blank (pk_id p)) NoPackId
     @ require (\<not> (pk_document p = None \<and> pk_obligations p = [] \<and> pk_guidelines p = []
          \<and> pk_decisions p = [])) EmptyPack
     @ (case pk_document p of None \<Rightarrow> [] | Some d \<Rightarrow> validate_document d)
     @ validate_obligations [] (pk_obligations p)
     @ validate_guidelines [] (pk_guidelines p)
     @ validate_decisions [] (pk_decisions p)"

text \<open>\<open>Problems\<close>: rendered problems, sorted, in one message.\<close>

definition problems_message :: "(problem \<Rightarrow> string) \<Rightarrow> problem list \<Rightarrow> string" where
  "problems_message render ps = join ''; '' (sort (map render ps))"

section \<open>What a valid pack is\<close>

text \<open>The specification: no loop and no set of keys already seen, but keys that are distinct.\<close>

definition summary_ok :: "nat \<Rightarrow> string \<Rightarrow> bool" where
  "summary_ok mn s \<longleftrightarrow> mn \<le> length (runes s) \<and> length (runes s) \<le> SummaryMax"

definition date_ok :: "bool \<Rightarrow> string \<Rightarrow> bool" where
  "date_ok required v \<longleftrightarrow> (if v = [] then \<not> required else iso_date v)"

definition url_ok :: "string \<Rightarrow> bool" where
  "url_ok v \<longleftrightarrow> (\<exists>host. host \<noteq> [] \<and> (v = ''https://'' @ host \<or> v = ''http://'' @ host))"

definition paragraph_ok :: "paragraph_row \<Rightarrow> bool" where
  "paragraph_ok p \<longleftrightarrow> \<not> blank (para_label p) \<and> summary_ok ArticleSummaryMin (para_summary p)"

definition article_ok :: "article \<Rightarrow> bool" where
  "article_ok a \<longleftrightarrow> art_number a > 0 \<and> \<not> blank (art_heading a)
     \<and> summary_ok ArticleSummaryMin (art_summary a) \<and> date_ok False (art_effective a)
     \<and> (\<forall>p \<in> set (art_paragraphs a). paragraph_ok p)
     \<and> distinct (map para_label (art_paragraphs a))"

definition recital_ok :: "recital \<Rightarrow> bool" where
  "recital_ok r \<longleftrightarrow> rec_number r > 0 \<and> summary_ok ArticleSummaryMin (rec_summary r)"

definition item_fields_ok :: "annex_item \<Rightarrow> bool" where
  "item_fields_ok i \<longleftrightarrow> \<not> blank (item_label i) \<and> summary_ok LongSummaryMin (item_summary i)
     \<and> date_ok False (item_effective i)"

definition annex_ok :: "annex \<Rightarrow> bool" where
  "annex_ok x \<longleftrightarrow> \<not> blank (anx_label x) \<and> \<not> blank (anx_heading x)
     \<and> summary_ok LongSummaryMin (anx_summary x) \<and> date_ok False (anx_effective x)
     \<and> (\<forall>i \<in> set (anx_items x). item_fields_ok i) \<and> distinct (map item_label (anx_items x))"

definition document_ok :: "reg_document \<Rightarrow> bool" where
  "document_ok d \<longleftrightarrow> \<not> blank (doc_celex d) \<and> \<not> blank (doc_title d) \<and> \<not> blank (doc_short_title d)
     \<and> date_ok True (doc_version d) \<and> url_ok (doc_url d)
     \<and> (\<forall>a \<in> set (doc_articles d). article_ok a) \<and> distinct (map art_number (doc_articles d))
     \<and> (\<forall>r \<in> set (doc_recitals d). recital_ok r) \<and> distinct (map rec_number (doc_recitals d))
     \<and> (\<forall>x \<in> set (doc_annexes d). annex_ok x) \<and> distinct (map anx_label (doc_annexes d))
     \<and> (\<forall>l \<in> set (doc_links d). link_article l \<in> art_number ` set (doc_articles d)
           \<and> link_recital l \<in> rec_number ` set (doc_recitals d))"

definition citation_ok :: "citation \<Rightarrow> bool" where
  "citation_ok c \<longleftrightarrow> \<not> blank (cit_celex c)
     \<and> (cit_kind c = KindArticle \<and> article_number c > 0 \<and> recital_number c = 0 \<and> annex_label c = []
        \<or> cit_kind c = KindRecital \<and> recital_number c > 0 \<and> article_number c = 0
           \<and> annex_label c = [] \<and> paragraph_label c = []
        \<or> cit_kind c = KindAnnex \<and> \<not> blank (annex_label c) \<and> article_number c = 0
           \<and> recital_number c = 0)"

definition obligation_ok :: "pack_obligation \<Rightarrow> bool" where
  "obligation_ok b \<longleftrightarrow> \<not> blank (po_slug b) \<and> \<not> blank (po_title b)
     \<and> summary_ok LongSummaryMin (po_summary b) \<and> po_severity b \<in> set pack_severities
     \<and> po_due_within b \<ge> 0 \<and> date_ok False (po_effective b) \<and> citation_ok (po_citation b)
     \<and> validate_applies_when (po_applies b) = []"

definition guideline_ok :: "guideline \<Rightarrow> bool" where
  "guideline_ok g \<longleftrightarrow> \<not> blank (gl_slug g) \<and> \<not> blank (gl_title g) \<and> \<not> blank (gl_publisher g)
     \<and> date_ok True (gl_adopted g) \<and> url_ok (gl_url g)"

definition decision_ok :: "decision \<Rightarrow> bool" where
  "decision_ok d \<longleftrightarrow> \<not> blank (dec_slug d) \<and> \<not> blank (dec_title d) \<and> \<not> blank (dec_dpa d)
     \<and> summary_ok LongSummaryMin (dec_summary d) \<and> date_ok True (dec_date d) \<and> url_ok (dec_url d)
     \<and> (dec_has_fine d \<longrightarrow> dec_fine d \<ge> 0)"

definition pack_ok :: "pack \<Rightarrow> bool" where
  "pack_ok p \<longleftrightarrow> \<not> blank (pk_id p)
     \<and> (pk_document p \<noteq> None \<or> pk_obligations p \<noteq> [] \<or> pk_guidelines p \<noteq> [] \<or> pk_decisions p \<noteq> [])
     \<and> (\<forall>d. pk_document p = Some d \<longrightarrow> document_ok d)
     \<and> (\<forall>b \<in> set (pk_obligations p). obligation_ok b) \<and> distinct (map po_slug (pk_obligations p))
     \<and> (\<forall>g \<in> set (pk_guidelines p). guideline_ok g) \<and> distinct (map gl_slug (pk_guidelines p))
     \<and> (\<forall>d \<in> set (pk_decisions p). decision_ok d) \<and> distinct (map dec_slug (pk_decisions p))"

section \<open>Validation decides it\<close>

named_theorems pack_check \<open>when a check of the pack reports nothing\<close>

lemma require_Nil [pack_check]: "require ok p = [] \<longleftrightarrow> ok"
  by (simp add: require_def)

lemma check_summary_Nil [pack_check]: "check_summary at s mn = [] \<longleftrightarrow> summary_ok mn s"
  by (auto simp: check_summary_def summary_ok_def Let_def)

lemma check_date_Nil [pack_check]: "check_date at f v req = [] \<longleftrightarrow> date_ok req v"
  by (simp add: check_date_def date_ok_def)

lemma cut_scheme:
  "cut (''https'' @ url_sep @ host) url_sep = (''https'', host, True)"
  "cut (''http'' @ url_sep @ host) url_sep = (''http'', host, True)"
  by (simp_all add: cut_def url_sep_def has_prefix_def)

lemma scheme_not_blank: "\<not> blank (CHR ''h'' # v)"
proof -
  have "lead_space (CHR ''h'' # v) = 0"
    by (simp add: lead_space_0 space_seqs_def has_prefix_def)
  then show ?thesis using trim_space_nonempty by (auto simp: blank_def)
qed

lemma check_url_Nil [pack_check]: "check_url at f v = [] \<longleftrightarrow> url_ok v"
proof -
  consider (s) h where "v = ''https'' @ url_sep @ h" | (p) h where "v = ''http'' @ url_sep @ h"
    | (n) "\<not> has_prefix v ''https://''" "\<not> has_prefix v ''http://''"
    by (auto simp: has_prefix_iff url_sep_def)
  then show ?thesis
  proof cases
    case s
    have "\<not> blank v" unfolding s by (simp add: scheme_not_blank)
    moreover have "has_prefix v ''https://''" by (simp add: s url_sep_def has_prefix_iff)
    ultimately have "check_url at f v = [] \<longleftrightarrow> h \<noteq> []"
      unfolding check_url_def s cut_scheme by simp
    then show ?thesis by (auto simp: s url_ok_def url_sep_def)
  next
    case p
    have "\<not> blank v" unfolding p by (simp add: scheme_not_blank)
    moreover have "has_prefix v ''http://''" by (simp add: p url_sep_def has_prefix_iff)
    ultimately have "check_url at f v = [] \<longleftrightarrow> h \<noteq> []"
      unfolding check_url_def p cut_scheme by simp
    then show ?thesis by (auto simp: p url_ok_def url_sep_def)
  next
    case n
    then show ?thesis by (auto simp: check_url_def url_ok_def has_prefix_iff)
  qed
qed

interpretation paragraphs: seen_loop "validate_paragraphs n" para_label paragraph_ok for n
  by unfold_locales (auto simp: pack_check Let_def paragraph_ok_def)

interpretation articles: seen_loop validate_articles art_number article_ok
  by unfold_locales (auto simp: pack_check Let_def article_ok_def paragraphs.check_all)

interpretation recitals: seen_loop validate_recitals rec_number recital_ok
  by unfold_locales (auto simp: pack_check Let_def recital_ok_def)

interpretation items: seen_loop "validate_items x" item_label item_fields_ok for x
  by unfold_locales (auto simp: pack_check Let_def item_fields_ok_def)

interpretation annexes: seen_loop validate_annexes anx_label annex_ok
  by unfold_locales (auto simp: pack_check Let_def annex_ok_def items.check_all)

lemma validate_links_Nil:
  "validate_links arts recs ls = [] \<longleftrightarrow>
     (\<forall>l \<in> set ls. link_article l \<in> set arts \<and> link_recital l \<in> set recs)"
  by (induction ls) (auto simp: pack_check)

lemma validate_citation_Nil [pack_check]: "validate_citation at c = [] \<longleftrightarrow> citation_ok c"
  by (auto simp: validate_citation_def citation_ok_def pack_check)

interpretation obligations: seen_loop validate_obligations po_slug obligation_ok
  by unfold_locales (auto simp: pack_check Let_def obligation_ok_def)

interpretation guidelines: seen_loop validate_guidelines gl_slug guideline_ok
  by unfold_locales (auto simp: pack_check Let_def guideline_ok_def)

interpretation decisions: seen_loop validate_decisions dec_slug decision_ok
  by unfold_locales (auto simp: pack_check Let_def decision_ok_def)

lemma validate_document_Nil [pack_check]: "validate_document d = [] \<longleftrightarrow> document_ok d"
  by (auto simp: validate_document_def document_ok_def pack_check Let_def articles.check_all
      recitals.check_all annexes.check_all validate_links_Nil)

lemma validate_pack_Nil: "validate_pack p = [] \<longleftrightarrow> pack_ok p"
  by (auto simp: validate_pack_def pack_ok_def pack_check obligations.check_all
      guidelines.check_all decisions.check_all split: option.splits)

lemma citation_ok_names_target: "citation_ok c \<Longrightarrow> names_target c"
  by (auto simp: citation_ok_def names_target_def blank_def)

section \<open>Claims\<close>

text \<open>
  C31: Validation reports no problem exactly for a pack that satisfies the specification: every
  row is well-formed, every natural key is distinct, every recital link names rows the pack
  carries, and every obligation cites one thing and speaks the applicability vocabulary.
\<close>

theorem validate_pack_decides: "validate_pack p = [] \<longleftrightarrow> pack_ok p"
  by (rule validate_pack_Nil)

end
