(* ===== verification/Method_Options.thy ===== *)
theory Method_Options
  imports KL_Prelude
begin

text \<open>
  What an RPC declares on its own descriptor: the required scope
  (\<open>libs/chassis/scope/scope.go\<close>), the REST binding (\<open>libs/chassis/httprule/httprule.go\<close>),
  and the table from procedure to scope both servers build from them at start
  (\<open>NewScope\<close> and \<open>procedureFor\<close> of core-api's \<open>interceptor/scope.go\<close>, \<open>requiredScopes\<close>
  of the gateway's \<open>server.go\<close>).
\<close>

datatype http_pattern =
    Get string | Put string | Post string | Delete string | Patch string
  | Custom "(string \<times> string) option"
  | NoPattern

text \<open>
  The options of a method: an extension that is absent is \<^term>\<open>None\<close>; the HTTP extension
  can be present and nil.
\<close>

record method_options =
  required_scope :: "string option"
  http_rule :: "http_pattern option option"

record rpc_method =
  full_name :: string
  mt_options :: "method_options option"

record binding =
  bd_method :: string
  bd_path :: string

datatype undeclared =
    Undeclared string
  | UndeclaredNoPattern string

definition binding_string :: "binding \<Rightarrow> string" where
  "binding_string b = bd_method b @ '' '' @ bd_path b"

text \<open>\<open>scope.Of\<close>.\<close>

definition scope_of :: "rpc_method \<Rightarrow> undeclared + string" where
  "scope_of m =
     (case mt_options m of
        None \<Rightarrow> Inl (Undeclared (full_name m))
      | Some opts \<Rightarrow>
          (case required_scope opts of
             None \<Rightarrow> Inl (Undeclared (full_name m))
           | Some declared \<Rightarrow>
               if declared = [] then Inl (Undeclared (full_name m)) else Inr declared))"

text \<open>\<open>httprule.bindingOf\<close> and \<open>httprule.Of\<close>.\<close>

definition binding_of_pattern :: "http_pattern \<Rightarrow> binding \<times> bool" where
  "binding_of_pattern p =
     (case p of
        Get x \<Rightarrow> (\<lparr>bd_method = ''GET'', bd_path = x\<rparr>, x \<noteq> [])
      | Put x \<Rightarrow> (\<lparr>bd_method = ''PUT'', bd_path = x\<rparr>, x \<noteq> [])
      | Post x \<Rightarrow> (\<lparr>bd_method = ''POST'', bd_path = x\<rparr>, x \<noteq> [])
      | Delete x \<Rightarrow> (\<lparr>bd_method = ''DELETE'', bd_path = x\<rparr>, x \<noteq> [])
      | Patch x \<Rightarrow> (\<lparr>bd_method = ''PATCH'', bd_path = x\<rparr>, x \<noteq> [])
      | Custom None \<Rightarrow> (\<lparr>bd_method = [], bd_path = []\<rparr>, False)
      | Custom (Some (kind, path)) \<Rightarrow>
          if kind = [] \<or> path = [] then (\<lparr>bd_method = [], bd_path = []\<rparr>, False)
          else (\<lparr>bd_method = kind, bd_path = path\<rparr>, True)
      | NoPattern \<Rightarrow> (\<lparr>bd_method = [], bd_path = []\<rparr>, False))"

definition binding_of :: "rpc_method \<Rightarrow> undeclared + binding" where
  "binding_of m =
     (case mt_options m of
        None \<Rightarrow> Inl (Undeclared (full_name m))
      | Some opts \<Rightarrow>
          (case http_rule opts of
             None \<Rightarrow> Inl (Undeclared (full_name m))
           | Some None \<Rightarrow> Inl (Undeclared (full_name m))
           | Some (Some rule) \<Rightarrow>
               (case binding_of_pattern rule of
                  (b, ok) \<Rightarrow> if ok then Inr b else Inl (UndeclaredNoPattern (full_name m)))))"

text \<open>The loop both \<open>OfService\<close> functions are: what is declared, and who declares nothing.\<close>

fun of_service ::
  "(rpc_method \<Rightarrow> undeclared + 'v) \<Rightarrow> rpc_method list \<Rightarrow> (string \<Rightarrow> 'v option) \<times> string list \<Rightarrow>
     (string \<Rightarrow> 'v option) \<times> string list" where
  "of_service of_method [] acc = acc"
| "of_service of_method (m # ms) (declared, missing) =
     (case of_method m of
        Inl _ \<Rightarrow> of_service of_method ms (declared, missing @ [full_name m])
      | Inr v \<Rightarrow> of_service of_method ms (declared(full_name m \<mapsto> v), missing))"

definition scope_of_service :: "rpc_method list \<Rightarrow> (string \<Rightarrow> string option) \<times> string list" where
  "scope_of_service ms = of_service scope_of ms (\<lambda>_. None, [])"

definition binding_of_service :: "rpc_method list \<Rightarrow> (string \<Rightarrow> binding option) \<times> string list" where
  "binding_of_service ms = of_service binding_of ms (\<lambda>_. None, [])"

section \<open>The contract of a declared option\<close>

text \<open>
  What a check over a service relies on, whichever option it reads: a method is in the map
  with its own value or in the list of those that declare none, never in neither.
\<close>

locale declared_option =
  fixes of_method :: "rpc_method \<Rightarrow> undeclared + 'v"
    and collect :: "rpc_method list \<Rightarrow> (string \<Rightarrow> 'v option) \<times> string list"
  assumes collect_missing:
      "snd (collect ms) = map full_name (filter (\<lambda>m. \<exists>e. of_method m = Inl e) ms)"
    and collect_declared: "distinct (map full_name ms) \<Longrightarrow> m \<in> set ms \<Longrightarrow>
      fst (collect ms) (full_name m) = (case of_method m of Inl _ \<Rightarrow> None | Inr v \<Rightarrow> Some v)"
begin

lemma complete_iff: "snd (collect ms) = [] \<longleftrightarrow> (\<forall>m \<in> set ms. \<exists>v. of_method m = Inr v)"
proof -
  have "(\<nexists>e. of_method m = Inl e) \<longleftrightarrow> (\<exists>v. of_method m = Inr v)" for m
    by (cases "of_method m") auto
  then show ?thesis by (auto simp: collect_missing filter_empty_conv)
qed

lemma declared_value:
  assumes "snd (collect ms) = []" and "distinct (map full_name ms)" and "m \<in> set ms"
  obtains v where "of_method m = Inr v" "fst (collect ms) (full_name m) = Some v"
  using assms complete_iff [of ms] collect_declared [of ms m] by auto

end

lemma of_service_missing:
  "snd (of_service f ms (d, u)) = u @ map full_name (filter (\<lambda>m. \<exists>e. f m = Inl e) ms)"
  by (induction ms arbitrary: d u) (auto split: sum.splits)

lemma of_service_other:
  "n \<notin> full_name ` set ms \<Longrightarrow> fst (of_service f ms (d, u)) n = d n"
  by (induction ms arbitrary: d u) (auto split: sum.splits)

lemma of_service_declared:
  "distinct (map full_name ms) \<Longrightarrow> m \<in> set ms \<Longrightarrow> d (full_name m) = None \<Longrightarrow>
     fst (of_service f ms (d, u)) (full_name m) = (case f m of Inl _ \<Rightarrow> None | Inr v \<Rightarrow> Some v)"
proof (induction ms arbitrary: d u)
  case Nil
  then show ?case by simp
next
  case (Cons x ms)
  show ?case
  proof (cases "m = x")
    case True
    with Cons.prems have "full_name m \<notin> full_name ` set ms" by auto
    with True Cons.prems show ?thesis by (auto simp: of_service_other split: sum.splits)
  next
    case False
    with Cons.prems have "m \<in> set ms" "full_name m \<noteq> full_name x" by (auto simp: image_iff)
    with Cons show ?thesis by (auto split: sum.splits)
  qed
qed

interpretation scopes: declared_option scope_of scope_of_service
  by unfold_locales (simp_all add: scope_of_service_def of_service_missing of_service_declared)

interpretation bindings: declared_option binding_of binding_of_service
  by unfold_locales (simp_all add: binding_of_service_def of_service_missing of_service_declared)

section \<open>The table a server starts with\<close>

fun last_index :: "char \<Rightarrow> string \<Rightarrow> nat option" where
  "last_index c [] = None"
| "last_index c (x # xs) =
     (case last_index c xs of Some i \<Rightarrow> Some (Suc i) | None \<Rightarrow> if x = c then Some 0 else None)"

definition procedure_for :: "string \<Rightarrow> string" where
  "procedure_for name =
     (case last_index CHR ''.'' name of
        None \<Rightarrow> ''/'' @ name
      | Some i \<Rightarrow> ''/'' @ take i name @ ''/'' @ drop (Suc i) name)"

type_synonym scope_table = "string \<Rightarrow> string option"

text \<open>The methods of one service enter the table under their procedures.\<close>

fun add_procedures :: "rpc_method list \<Rightarrow> scope_table \<Rightarrow> scope_table \<Rightarrow> scope_table" where
  "add_procedures [] scopes table = table"
| "add_procedures (m # ms) scopes table =
     add_procedures ms scopes
       (case scopes (full_name m) of
          None \<Rightarrow> table
        | Some declared \<Rightarrow> table(procedure_for (full_name m) \<mapsto> declared))"

fun required_table :: "rpc_method list list \<Rightarrow> scope_table \<times> string list \<Rightarrow> scope_table \<times> string list" where
  "required_table [] acc = acc"
| "required_table (ms # services) (table, missing) =
     (case scope_of_service ms of
        (scopes, none) \<Rightarrow> required_table services (add_procedures ms scopes table, missing @ none))"

record scope_interceptor =
  required :: scope_table
  human_client :: string

definition new_scope :: "rpc_method list list \<Rightarrow> string \<Rightarrow> string list + scope_interceptor" where
  "new_scope services client =
     (case required_table services (\<lambda>_. None, []) of
        (table, missing) \<Rightarrow>
          if missing \<noteq> [] then Inl (sort missing) else Inr \<lparr>required = table, human_client = client\<rparr>)"

text \<open>The gateway's own copy.\<close>

definition required_scopes :: "rpc_method list list \<Rightarrow> string list + scope_table" where
  "required_scopes services =
     (case required_table services (\<lambda>_. None, []) of
        (table, missing) \<Rightarrow> if missing \<noteq> [] then Inl missing else Inr table)"

lemma last_index_None: "last_index c s = None \<longleftrightarrow> c \<notin> set s"
  by (induction s) (auto split: option.splits)

lemma last_index_Some:
  "last_index c s = Some i \<Longrightarrow> s = take i s @ c # drop (Suc i) s \<and> c \<notin> set (drop (Suc i) s)"
proof (induction s arbitrary: i)
  case Nil
  then show ?case by simp
next
  case (Cons x s)
  then show ?case by (auto simp: last_index_None split: option.splits if_splits)
qed

lemma split_unique:
  "a @ c # b = a' @ c # b' \<Longrightarrow> c \<notin> set a \<Longrightarrow> c \<notin> set a' \<Longrightarrow> a = a' \<and> b = b'"
proof (induction a arbitrary: a')
  case Nil
  then show ?case by (cases a') auto
next
  case (Cons x a)
  then show ?case by (cases a') auto
qed

lemma procedure_for_inj:
  assumes "CHR ''/'' \<notin> set m" and "CHR ''/'' \<notin> set n" and "procedure_for m = procedure_for n"
  shows "m = n"
proof -
  have form: "(last_index CHR ''.'' s = None \<and> procedure_for s = CHR ''/'' # s)
      \<or> (\<exists>a b. s = a @ CHR ''.'' # b \<and> procedure_for s = CHR ''/'' # a @ CHR ''/'' # b)" for s
    using last_index_Some [of "CHR ''.''" s] by (auto simp: procedure_for_def split: option.splits)
  from form [of m] form [of n] assms show ?thesis
    by (auto dest: split_unique)
qed

lemma add_procedures_other:
  "p \<notin> (procedure_for \<circ> full_name) ` set ms \<Longrightarrow> add_procedures ms scopes table p = table p"
  by (induction ms arbitrary: table) (auto split: option.splits)

lemma add_procedures_value:
  "distinct (map (procedure_for \<circ> full_name) ms) \<Longrightarrow> m \<in> set ms \<Longrightarrow> scopes (full_name m) = Some s \<Longrightarrow>
     add_procedures ms scopes table (procedure_for (full_name m)) = Some s"
proof (induction ms arbitrary: table)
  case Nil
  then show ?case by simp
next
  case (Cons x ms)
  show ?case
  proof (cases "m = x")
    case True
    with Cons.prems have "procedure_for (full_name m) \<notin> (procedure_for \<circ> full_name) ` set ms" by auto
    with True Cons.prems show ?thesis by (simp add: add_procedures_other)
  next
    case False
    with Cons show ?thesis by auto
  qed
qed

lemma required_table_missing:
  "snd (required_table services (t, u)) = u @ concat (map (snd \<circ> scope_of_service) services)"
proof (induction services arbitrary: t u)
  case Nil
  then show ?case by simp
next
  case (Cons ms services)
  then show ?case by (cases "scope_of_service ms") simp
qed

lemma required_table_other:
  "p \<notin> (procedure_for \<circ> full_name) ` set (concat services) \<Longrightarrow> fst (required_table services (t, u)) p = t p"
proof (induction services arbitrary: t u)
  case Nil
  then show ?case by simp
next
  case (Cons ms services)
  then show ?case
    by (cases "scope_of_service ms") (simp add: add_procedures_other image_Un)
qed

lemma required_table_value:
  assumes "distinct (map (procedure_for \<circ> full_name) (concat services))" and "m \<in> set (concat services)"
    and "scope_of m = Inr s" and "snd (required_table services (t, u)) = []"
  shows "fst (required_table services (t, u)) (procedure_for (full_name m)) = Some s"
  using assms
proof (induction services arbitrary: t u)
  case Nil
  then show ?case by simp
next
  case (Cons ms services)
  obtain scopes none where c: "scope_of_service ms = (scopes, none)" by force
  with Cons.prems(4) have "u = []" and "none = []" by (auto simp: required_table_missing)
  show ?case
  proof (cases "m \<in> set ms")
    case True
    have d: "distinct (map (procedure_for \<circ> full_name) ms)" using Cons.prems(1) by (simp add: comp_def)
    then have dn: "distinct (map full_name ms)" by (metis distinct_map map_map)
    from c \<open>none = []\<close> True dn have "scopes (full_name m) = Some s"
      using scopes.collect_declared [OF dn True] Cons.prems(3) by simp
    from add_procedures_value [where scopes = scopes, OF d True this] have
      "add_procedures ms scopes t (procedure_for (full_name m)) = Some s" .
    moreover have "procedure_for (full_name m) \<notin> (procedure_for \<circ> full_name) ` set (concat services)"
      using True Cons.prems(1) by auto
    ultimately show ?thesis using c by (simp add: required_table_other)
  next
    case False
    with Cons c show ?thesis by simp
  qed
qed

section \<open>Claims\<close>

text \<open>
  A server that comes up knows the scope of every method it serves: building the table fails
  exactly when some method declares none, and otherwise every procedure is in the table under
  the scope its own method declares.
\<close>

theorem scope_table_complete:
  assumes "distinct (map full_name (concat services))"
    and "\<forall>m \<in> set (concat services). CHR ''/'' \<notin> set (full_name m)"
  shows "case new_scope services client of
      Inl _ \<Rightarrow> \<exists>m \<in> set (concat services). \<exists>e. scope_of m = Inl e
    | Inr si \<Rightarrow> \<forall>m \<in> set (concat services). \<exists>s. scope_of m = Inr s \<and> s \<noteq> []
        \<and> required si (procedure_for (full_name m)) = Some s"
proof -
  obtain table missing where t: "required_table services (\<lambda>_. None, []) = (table, missing)" by force
  have mi: "missing = concat (map (snd \<circ> scope_of_service) services)"
    using required_table_missing [of services "\<lambda>_. None" "[]"] t by simp
  have none: "missing = [] \<longleftrightarrow> (\<forall>m \<in> set (concat services). \<exists>v. scope_of m = Inr v)"
    unfolding mi by (auto simp: scopes.complete_iff)
  show ?thesis
  proof (cases "missing = []")
    case False
    with none obtain m where "m \<in> set (concat services)" "\<nexists>v. scope_of m = Inr v" by auto
    moreover from this have "\<exists>e. scope_of m = Inl e" by (cases "scope_of m") auto
    ultimately show ?thesis using False by (auto simp: new_scope_def t)
  next
    case True
    have inj: "inj_on procedure_for (full_name ` set (concat services))"
      by (rule inj_onI) (use assms(2) procedure_for_inj in blast)
    have d: "distinct (map (procedure_for \<circ> full_name) (concat services))"
      using assms(1) inj by (auto simp: distinct_map comp_inj_on)
    have "\<exists>s. scope_of m = Inr s \<and> s \<noteq> [] \<and> table (procedure_for (full_name m)) = Some s"
      if m: "m \<in> set (concat services)" for m
    proof -
      from True none m obtain s where s: "scope_of m = Inr s" by auto
      from required_table_value [OF d m s, of "\<lambda>_. None" "[]"] t True
      have "table (procedure_for (full_name m)) = Some s" by simp
      moreover have "s \<noteq> []" using s by (auto simp: scope_of_def split: option.splits if_splits)
      ultimately show ?thesis using s by blast
    qed
    then show ?thesis using True by (simp add: new_scope_def t)
  qed
qed

definition example_services :: "rpc_method list list" where
  "example_services =
     [[\<lparr>full_name = ''kindlast.core.v1.FindingService.ListFindings'',
        mt_options = Some \<lparr>required_scope = Some ''findings:read'', http_rule = Some (Some (Get ''/v1/findings''))\<rparr>\<rparr>],
      [\<lparr>full_name = ''kindlast.platform.v1.GatewayService.CallTool'',
        mt_options = Some \<lparr>required_scope = Some ''internal:gateway'', http_rule = Some (Some (Post ''/v1/call''))\<rparr>\<rparr>]]"

theorem scope_table_complete_witness:
  "\<exists>si. new_scope example_services [] = Inr si
     \<and> required si ''/kindlast.core.v1.FindingService/ListFindings'' = Some ''findings:read''"
proof -
  have n: "\<exists>si. new_scope example_services [] = Inr si"
    by (simp add: new_scope_def example_services_def scope_of_service_def scope_of_def)
  then obtain si where si: "new_scope example_services [] = Inr si" ..
  have d: "distinct (map full_name (concat example_services))"
    and f: "\<forall>m \<in> set (concat example_services). CHR ''/'' \<notin> set (full_name m)"
    by (simp_all add: example_services_def)
  have p: "procedure_for ''kindlast.core.v1.FindingService.ListFindings''
      = ''/kindlast.core.v1.FindingService/ListFindings''"
    by code_simp
  show ?thesis
    using scope_table_complete [OF d f, of "[]"] si p
    by (auto simp: example_services_def scope_of_def)
qed

end
