(* ===== verification/Api_Key.thy ===== *)
theory Api_Key
  imports Go_Encoding Go_Time
begin

text \<open>
  A partner's key (\<open>internal/domain/apikey\<close>: \<open>apikey.go\<close> and \<open>scopes.go\<close>) and an agent's
  delegation (\<open>internal/domain/delegation/delegation.go\<close>).  The random bytes and SHA-256 are
  arguments: what is proved holds whatever they return.
\<close>

section \<open>The credential (apikey.go)\<close>

definition Prefix :: string where "Prefix = ''kl_''"

definition handle_bytes :: nat where "handle_bytes = 8"
definition secret_bytes :: nat where "secret_bytes = 32"
definition handle_length :: nat where "handle_length = handle_bytes * 2"
definition secret_length :: nat where "secret_length = (secret_bytes * 8 + 5) div 6"
definition credential_length :: nat where
  "credential_length = length Prefix + handle_length + 1 + secret_length"

lemmas key_lengths = handle_bytes_def secret_bytes_def handle_length_def secret_length_def
  credential_length_def Prefix_def

definition digest_size :: nat where "digest_size = 32"

datatype key_error =
    MalformedKey
  | RandomFailed
  | NoScopes
  | BadName
  | TooManyScopes nat
  | UnknownScope string

record api_key =
  key_handle :: string
  key_credential :: string
  key_digest :: string

record presented =
  pr_handle :: string
  pr_digest :: string

text \<open>\<open>Generate\<close>, with what the two reads of \<open>crypto/rand\<close> gave.\<close>

definition generate ::
  "(string \<Rightarrow> string) \<Rightarrow> string option \<Rightarrow> string option \<Rightarrow> key_error + api_key" where
  "generate sha256 handle_raw secret_raw =
     (case handle_raw of
        None \<Rightarrow> Inl RandomFailed
      | Some hr \<Rightarrow>
          (case secret_raw of
             None \<Rightarrow> Inl RandomFailed
           | Some sr \<Rightarrow>
               (let handle = hex_encode hr; secret = b64_encode sr in
                Inr \<lparr>key_handle = handle,
                     key_credential = Prefix @ handle @ ''_'' @ secret,
                     key_digest = sha256 secret\<rparr>)))"

definition parse_key :: "(string \<Rightarrow> string) \<Rightarrow> string \<Rightarrow> key_error + presented" where
  "parse_key sha256 credential =
     (if length credential \<noteq> credential_length \<or> \<not> has_prefix credential Prefix then Inl MalformedKey
      else (case cut (drop (length Prefix) credential) ''_'' of
          (handle, secret, found) \<Rightarrow>
            if \<not> found \<or> length handle \<noteq> handle_length \<or> length secret \<noteq> secret_length
            then Inl MalformedKey
            else if hex_decode handle = None then Inl MalformedKey
            else if b64_decode secret = None then Inl MalformedKey
            else Inr \<lparr>pr_handle = handle, pr_digest = sha256 secret\<rparr>))"

definition key_matches :: "presented \<Rightarrow> string \<Rightarrow> bool" where
  "key_matches p stored \<longleftrightarrow>
     \<not> (length stored \<noteq> digest_size \<or> length (pr_digest p) \<noteq> digest_size) \<and> pr_digest p = stored"

section \<open>What a key may carry (scopes.go)\<close>

definition GrantableScopes :: "string list" where
  "GrantableScopes =
     [''audit:read'', ''billing:read'', ''corpus:read'', ''dashboard:read'', ''findings:act'',
      ''findings:read'', ''integrations:read'', ''integrations:write'', ''memory:read'',
      ''memory:write'', ''model:read'', ''notifications:read'', ''notifications:write'',
      ''onboarding:read'', ''org:read'', ''records:ai-systems:write'', ''records:dsar:write'',
      ''records:read'', ''records:ropa:write'']"

definition MaxScopes :: nat where "MaxScopes = 32"
definition MaxNameLength :: nat where "MaxNameLength = 100"

record key_mint =
  mint_name :: string
  mint_scopes :: "string list"

record principal =
  pl_id :: string
  pl_user :: string
  pl_org :: string
  pl_scopes :: "string list"

fun grantable_in :: "string list \<Rightarrow> string \<Rightarrow> bool" where
  "grantable_in [] scope \<longleftrightarrow> False"
| "grantable_in (allowed # rest) scope \<longleftrightarrow> allowed = scope \<or> grantable_in rest scope"

definition grantable :: "string \<Rightarrow> bool" where
  "grantable = grantable_in GrantableScopes"

fun holds_in :: "string list \<Rightarrow> string \<Rightarrow> bool" where
  "holds_in [] scope \<longleftrightarrow> False"
| "holds_in (held # rest) scope \<longleftrightarrow> held = scope \<or> holds_in rest scope"

definition key_holds :: "principal \<Rightarrow> string \<Rightarrow> bool" where
  "key_holds p scope = holds_in (pl_scopes p) scope"

text \<open>The loop of \<open>Validate\<close>: trimmed, refused by name, kept once.\<close>

fun mint_scope_loop :: "string list \<Rightarrow> string list \<Rightarrow> string list \<Rightarrow> key_error + string list" where
  "mint_scope_loop seen kept [] = Inr kept"
| "mint_scope_loop seen kept (s # ss) =
     (let scope = trim_space s in
      if \<not> grantable scope then Inl (UnknownScope scope)
      else if scope \<in> set seen then mint_scope_loop seen kept ss
      else mint_scope_loop (scope # seen) (kept @ [scope]) ss)"

definition validate_mint :: "key_mint \<Rightarrow> key_error + key_mint" where
  "validate_mint m =
     (let name = trim_space (mint_name m) in
      if name = [] \<or> length name > MaxNameLength then Inl BadName
      else if mint_scopes m = [] then Inl NoScopes
      else if length (mint_scopes m) > MaxScopes then Inl (TooManyScopes (length (mint_scopes m)))
      else (case mint_scope_loop [] [] (mint_scopes m) of
          Inl e \<Rightarrow> Inl e
        | Inr scopes \<Rightarrow> Inr \<lparr>mint_name = name, mint_scopes = sort scopes\<rparr>))"

section \<open>Delegations (delegation.go)\<close>

record grant =
  gr_user :: string
  gr_org :: string
  gr_agent :: string

definition MaxTTL :: duration where "MaxTTL = hour"
definition DefaultTTL :: duration where "DefaultTTL = 15 * minute"

text \<open>The expression for an agent's name: a lower-case letter, then 1 to 63 of letter, digit, hyphen.\<close>

definition agent_slug :: "string \<Rightarrow> bool" where
  "agent_slug s = (case s of
      [] \<Rightarrow> False
    | c # rest \<Rightarrow> byte_in 97 122 c \<and> 1 \<le> length rest \<and> length rest \<le> 63
        \<and> list_all (\<lambda>d. byte_in 97 122 d \<or> byte_in 48 57 d \<or> d = CHR ''-'') rest)"

record delegation_mint =
  dm_agent :: string
  dm_ttl :: duration
  dm_single_use :: bool
  dm_finding :: string

datatype delegation_error = BadAgent string | NegativeTTL | TTLTooLong duration | MustBeSingleUse

definition validate_delegation :: "delegation_mint \<Rightarrow> delegation_error option" where
  "validate_delegation m =
     (if \<not> agent_slug (dm_agent m) then Some (BadAgent (dm_agent m))
      else if dm_ttl m < 0 then Some NegativeTTL
      else if dm_ttl m > MaxTTL then Some (TTLTooLong (dm_ttl m))
      else if dm_finding m \<noteq> [] \<and> \<not> dm_single_use m then Some MustBeSingleUse
      else None)"

definition EmailChannel :: string where "EmailChannel = ''email''"

definition approval :: "string \<Rightarrow> delegation_mint" where
  "approval finding =
     \<lparr>dm_agent = EmailChannel, dm_ttl = MaxTTL, dm_single_use = True, dm_finding = finding\<rparr>"

definition lifetime :: "delegation_mint \<Rightarrow> duration" where
  "lifetime m = (if dm_ttl m = 0 then DefaultTTL else dm_ttl m)"

section \<open>Properties of keys\<close>

lemma grantable_in_iff [simp]: "grantable_in xs s \<longleftrightarrow> s \<in> set xs"
  by (induction xs) auto

lemma holds_in_iff [simp]: "holds_in xs s \<longleftrightarrow> s \<in> set xs"
  by (induction xs) auto

lemma parse_key_generated:
  assumes "length hr = handle_bytes" and "length sr = secret_bytes"
  shows "parse_key sha (Prefix @ hex_encode hr @ ''_'' @ b64_encode sr)
    = Inr \<lparr>pr_handle = hex_encode hr, pr_digest = sha (b64_encode sr)\<rparr>"
proof -
  let ?c = "Prefix @ hex_encode hr @ ''_'' @ b64_encode sr"
  have "length ?c = credential_length" "length (hex_encode hr) = handle_length"
    "length (b64_encode sr) = secret_length"
    using assms by (simp_all add: key_lengths length_b64_encode)
  moreover have "has_prefix ?c Prefix" by (simp add: has_prefix_def)
  moreover have "cut (drop (length Prefix) ?c) ''_'' = (hex_encode hr, b64_encode sr, True)"
    using cut_at_byte [OF hex_encode_no_underscore] by simp
  ultimately show ?thesis by (simp add: parse_key_def)
qed

lemma mint_scope_loop_spec:
  "mint_scope_loop seen kept ss = Inr out \<Longrightarrow> distinct kept \<Longrightarrow> set kept = set seen \<Longrightarrow>
     distinct out \<and> set out = set kept \<union> trim_space ` set ss
     \<and> (\<forall>s \<in> set ss. trim_space s \<in> set GrantableScopes)"
proof (induction seen kept ss rule: mint_scope_loop.induct)
  case (1 seen kept)
  then show ?case by simp
next
  case (2 seen kept s ss)
  let ?t = "trim_space s"
  from "2.prems"(1) have g: "grantable ?t" by (auto simp: Let_def split: if_splits)
  show ?case
  proof (cases "?t \<in> set seen")
    case True
    with "2.prems" g have "mint_scope_loop seen kept ss = Inr out" by simp
    with "2.IH"(1) [OF refl _ True] "2.prems" g True show ?thesis
      by (auto simp: grantable_def)
  next
    case False
    with "2.prems" g have "mint_scope_loop (?t # seen) (kept @ [?t]) ss = Inr out"
      by (simp add: Let_def)
    with "2.IH"(2) [OF refl _ False] "2.prems" g False show ?thesis
      by (auto simp: grantable_def)
  qed
qed

lemma mint_scope_loop_ok:
  "(\<forall>s \<in> set ss. trim_space s \<in> set GrantableScopes) \<Longrightarrow> \<exists>out. mint_scope_loop seen kept ss = Inr out"
  by (induction seen kept ss rule: mint_scope_loop.induct) (auto simp: Let_def grantable_def)

lemma grantable_trimmed: "s \<in> set GrantableScopes \<Longrightarrow> trim_space s = s"
proof -
  have "list_all (\<lambda>s. trim_space s = s) GrantableScopes" by code_simp
  then show "s \<in> set GrantableScopes \<Longrightarrow> trim_space s = s" by (simp add: list_all_iff)
qed

lemma mint_scope_loop_id:
  "distinct (kept @ ss) \<Longrightarrow> set seen = set kept \<Longrightarrow> set ss \<subseteq> set GrantableScopes \<Longrightarrow>
     mint_scope_loop seen kept ss = Inr (kept @ ss)"
proof (induction seen kept ss rule: mint_scope_loop.induct)
  case (1 seen kept)
  then show ?case by simp
next
  case (2 seen kept s ss)
  then show ?case by (auto simp: Let_def grantable_def grantable_trimmed)
qed

lemma validate_mint_normal:
  assumes "validate_mint m = Inr n"
  shows "trimmed (mint_name n)" and "mint_name n \<noteq> []" and "length (mint_name n) \<le> MaxNameLength"
    and "sorted (mint_scopes n)" and "distinct (mint_scopes n)" and "mint_scopes n \<noteq> []"
    and "set (mint_scopes n) = trim_space ` set (mint_scopes m)"
    and "set (mint_scopes n) \<subseteq> set GrantableScopes" and "length (mint_scopes n) \<le> MaxScopes"
proof -
  from assms obtain out where out: "mint_scope_loop [] [] (mint_scopes m) = Inr out"
    and n: "n = \<lparr>mint_name = trim_space (mint_name m), mint_scopes = sort out\<rparr>"
    and g: "trim_space (mint_name m) \<noteq> []" "length (trim_space (mint_name m)) \<le> MaxNameLength"
      "mint_scopes m \<noteq> []" "length (mint_scopes m) \<le> MaxScopes"
    by (auto simp: validate_mint_def Let_def split: if_splits sum.splits)
  from mint_scope_loop_spec [OF out] have spec: "distinct out" "set out = trim_space ` set (mint_scopes m)"
    "\<forall>s \<in> set (mint_scopes m). trim_space s \<in> set GrantableScopes" by simp_all
  have "length out = card (set out)" using spec(1) by (simp add: distinct_card)
  also have "\<dots> \<le> card (set (mint_scopes m))" unfolding spec(2) by (rule card_image_le) simp
  also have "\<dots> \<le> length (mint_scopes m)" by (rule card_length)
  finally have len: "length out \<le> MaxScopes" using g(4) by simp
  show "trimmed (mint_name n)" "mint_name n \<noteq> []" "length (mint_name n) \<le> MaxNameLength"
    using n g by (simp_all add: trim_space_trimmed)
  show "sorted (mint_scopes n)" "distinct (mint_scopes n)" using n spec by simp_all
  have "set (mint_scopes n) \<noteq> {}" using n spec(2) g(3) by simp
  then show "mint_scopes n \<noteq> []" by auto
  show "set (mint_scopes n) = trim_space ` set (mint_scopes m)"
    "set (mint_scopes n) \<subseteq> set GrantableScopes" "length (mint_scopes n) \<le> MaxScopes"
    using n spec len by auto
qed

section \<open>Claims\<close>

text \<open>
  C30: A key that is generated is a key that authenticates: whatever the random bytes, the
  credential handed out parses, gives back the stored handle, and matches the stored digest.
\<close>

theorem generated_key_authenticates:
  assumes "generate sha (Some hr) (Some sr) = Inr k"
    and "length hr = handle_bytes" and "length sr = secret_bytes"
    and "\<And>x. length (sha x) = digest_size"
  shows "length (key_credential k) = credential_length
    \<and> (\<exists>p. parse_key sha (key_credential k) = Inr p \<and> pr_handle p = key_handle k
        \<and> key_matches p (key_digest k))"
proof -
  from assms(1) have k: "key_credential k = Prefix @ hex_encode hr @ ''_'' @ b64_encode sr"
    "key_handle k = hex_encode hr" "key_digest k = sha (b64_encode sr)"
    by (auto simp: generate_def Let_def)
  moreover have "length (key_credential k) = credential_length"
    using assms(2,3) k by (simp add: key_lengths length_b64_encode)
  ultimately show ?thesis
    using parse_key_generated [OF assms(2,3), of sha] assms(4) by (simp add: key_matches_def)
qed

theorem generated_key_authenticates_witness:
  "\<exists>k. generate (\<lambda>_. replicate 32 CHR ''d'') (Some (replicate 8 CHR ''h'')) (Some (replicate 32 CHR ''s'')) = Inr k
     \<and> length (key_credential k) = 63"
proof -
  obtain k where k: "generate (\<lambda>_. replicate 32 CHR ''d'') (Some (replicate 8 CHR ''h'')) (Some (replicate 32 CHR ''s'')) = Inr k"
    by (simp add: generate_def Let_def)
  have c: "credential_length = 63" by (simp add: key_lengths)
  have d: "length (replicate 8 CHR ''h'') = handle_bytes" "length (replicate 32 CHR ''s'') = secret_bytes"
    "length (replicate 32 CHR ''d'') = digest_size"
    by (simp_all add: key_lengths digest_size_def)
  show ?thesis
    using generated_key_authenticates [OF k d(1,2)] k d(3) by (auto simp: c)
qed

text \<open>
  A mint that validates is normal: a trimmed name of 1 to 100 bytes and a sorted, duplicate
  free, non-empty set of grantable scopes that is the set asked for; validating it again
  changes nothing.
\<close>

theorem validated_mint_is_normal:
  assumes "validate_mint m = Inr n"
  shows "validate_mint n = Inr n \<and> trimmed (mint_name n) \<and> mint_name n \<noteq> []
    \<and> length (mint_name n) \<le> MaxNameLength \<and> sorted (mint_scopes n) \<and> distinct (mint_scopes n)
    \<and> mint_scopes n \<noteq> [] \<and> set (mint_scopes n) = trim_space ` set (mint_scopes m)
    \<and> set (mint_scopes n) \<subseteq> set GrantableScopes"
proof -
  note f = validate_mint_normal [OF assms]
  have "mint_scope_loop [] [] (mint_scopes n) = Inr (mint_scopes n)"
    using mint_scope_loop_id [of "[]" "mint_scopes n" "[]"] f by simp
  moreover have "trim_space (mint_name n) = mint_name n" using f(1) by (rule trim_space_id)
  ultimately have "validate_mint n = Inr n"
    using f by (simp add: validate_mint_def Let_def sorted_sort_id)
  with f show ?thesis by blast
qed

theorem validated_mint_is_normal_witness:
  "\<exists>n. validate_mint \<lparr>mint_name = '' Reporting'', mint_scopes = [''records:read'', '' audit:read'', ''records:read'']\<rparr> = Inr n
     \<and> mint_scopes n = [''audit:read'', ''records:read''] \<and> validate_mint n = Inr n"
proof -
  let ?n = "\<lparr>mint_name = ''Reporting'', mint_scopes = [''audit:read'', ''records:read'']\<rparr>"
  have v: "validate_mint \<lparr>mint_name = '' Reporting'', mint_scopes = [''records:read'', '' audit:read'', ''records:read'']\<rparr> = Inr ?n"
    by code_simp
  show ?thesis using validated_mint_is_normal [OF v] v by (intro exI [of _ ?n]) simp
qed

text \<open>
  The approval link's delegation always validates, is single use, is bound to its finding and
  lives exactly as long as the ceiling allows; no delegation that validates lives longer.
\<close>

theorem delegation_lifetime_bounded:
  "validate_delegation (approval finding) = None \<and> lifetime (approval finding) = MaxTTL
   \<and> dm_single_use (approval finding)
   \<and> (validate_delegation m = None \<longrightarrow> 0 < lifetime m \<and> lifetime m \<le> MaxTTL
        \<and> (dm_finding m = [] \<or> dm_single_use m))"
proof -
  have "agent_slug EmailChannel" by code_simp
  then show ?thesis
    by (auto simp: validate_delegation_def approval_def lifetime_def MaxTTL_def DefaultTTL_def time_units
        split: if_splits)
qed

theorem delegation_lifetime_bounded_witness:
  "let m = \<lparr>dm_agent = ''analyst'', dm_ttl = 0, dm_single_use = False, dm_finding = []\<rparr>
   in validate_delegation m = None \<and> lifetime m \<le> MaxTTL"
proof -
  let ?m = "\<lparr>dm_agent = ''analyst'', dm_ttl = 0, dm_single_use = False, dm_finding = []\<rparr>"
  have v: "validate_delegation ?m = None" by code_simp
  show ?thesis using delegation_lifetime_bounded [of "[]" ?m] v by (simp add: Let_def)
qed

end
