(* ===== verification/Identity.thy ===== *)
theory Identity
  imports Json_Value Go_Time
begin

text \<open>
  Who a caller is: the scopes a verified token carries (\<open>libs/chassis/oidc/verifier.go\<close>), the
  deny-list of revoked tokens (\<open>libs/chassis/denylist/denylist.go\<close>) and the uuid a subject is
  stored as (\<open>libs/chassis/subject/subject.go\<close>).  The signature check is the JWT library's; the
  Redis commands and the uuid functions are arguments.
\<close>

section \<open>Claims\<close>

record claims =
  cl_issuer :: string
  cl_subject :: string
  cl_email :: string
  cl_email_verified :: bool
  cl_name :: string
  cl_scopes :: "string list"
  cl_client_id :: string
  cl_token_id :: string
  cl_expires :: instant

fun has_scope_in :: "string list \<Rightarrow> string \<Rightarrow> bool" where
  "has_scope_in [] want \<longleftrightarrow> False"
| "has_scope_in (held # rest) want \<longleftrightarrow> held = want \<or> has_scope_in rest want"

definition has_scope :: "claims \<Rightarrow> string \<Rightarrow> bool" where
  "has_scope c want = has_scope_in (cl_scopes c) want"

lemma has_scope_iff [simp]: "has_scope c want \<longleftrightarrow> want \<in> set (cl_scopes c)"
proof -
  have "has_scope_in xs want \<longleftrightarrow> want \<in> set xs" for xs by (induction xs) auto
  then show ?thesis by (simp add: has_scope_def)
qed

definition ScopeOpenID :: string where "ScopeOpenID = ''openid''"

definition with_openid :: "string list \<Rightarrow> string list" where
  "with_openid scopes = (if ScopeOpenID \<in> set scopes then scopes else scopes @ [ScopeOpenID])"

text \<open>\<open>valuesOf\<close> of a claim: a text of fields, a list of texts, or an object's keys.\<close>

definition values_of :: "json option \<Rightarrow> string list" where
  "values_of raw =
     (case raw of
        None \<Rightarrow> []
      | Some j \<Rightarrow>
          (case unmarshal_string j of
             Some single \<Rightarrow> fields_space [] single
           | None \<Rightarrow>
               (case unmarshal_strings j of
                  Some items \<Rightarrow> items
                | None \<Rightarrow> (case unmarshal_object j of Some kvs \<Rightarrow> sort (map fst kvs) | None \<Rightarrow> []))))"

record token_claims =
  tc_scope :: string
  tc_scp :: "json option"
  tc_raw :: "(string \<times> json) list"

text \<open>The \<open>add\<close> of \<open>scopes\<close>: blanks are dropped and a value found before is not added again.\<close>

fun add_scopes :: "string list \<Rightarrow> string list \<Rightarrow> string list" where
  "add_scopes found [] = found"
| "add_scopes found (v # vs) =
     (if v = [] \<or> v \<in> set found then add_scopes found vs else add_scopes (found @ [v]) vs)"

definition token_scopes :: "string list \<Rightarrow> token_claims \<Rightarrow> string list" where
  "token_scopes extra c =
     fold (\<lambda>name found. add_scopes found (values_of (map_of (tc_raw c) name))) extra
       (add_scopes (add_scopes [] (fields_space [] (tc_scope c))) (values_of (tc_scp c)))"

text \<open>The failure classes of \<open>Verify\<close>, and what \<open>classify\<close> makes of the library's errors.\<close>

datatype verify_error = TokenInvalid | TokenExpired | AudienceMismatch | IssuerMismatch | KeyNotFound

datatype jwt_error = JwtExpired | JwtAudience | JwtIssuer | JwtOther

text \<open>
  \<open>classify\<close> asks in this order whether the error wraps each of the library's errors; one that
  wraps several is the first that applies.
\<close>

definition classify :: "jwt_error list \<Rightarrow> verify_error" where
  "classify wrapped =
     (if JwtExpired \<in> set wrapped then TokenExpired
      else if JwtAudience \<in> set wrapped then AudienceMismatch
      else if JwtIssuer \<in> set wrapped then IssuerMismatch
      else TokenInvalid)"

text \<open>\<open>Verify\<close> after the library parsed and checked the token, with what it reported.\<close>

record parsed_token =
  pt_issuer :: string
  pt_subject :: string
  pt_email :: string
  pt_email_verified :: bool
  pt_name :: string
  pt_client_id :: string
  pt_id :: string
  pt_expires :: "instant option"
  pt_claims :: token_claims

definition verify_token ::
  "(string \<Rightarrow> jwt_error list + parsed_token) \<Rightarrow> string list \<Rightarrow> string \<Rightarrow> verify_error + claims" where
  "verify_token parse extra raw =
     (case parse raw of
        Inl wrapped \<Rightarrow> Inl (classify wrapped)
      | Inr t \<Rightarrow>
          if pt_subject t = [] then Inl TokenInvalid
          else (case pt_expires t of
              None \<Rightarrow> Inl TokenInvalid
            | Some expires \<Rightarrow>
                Inr \<lparr>cl_issuer = pt_issuer t, cl_subject = pt_subject t, cl_email = pt_email t,
                     cl_email_verified = pt_email_verified t, cl_name = pt_name t,
                     cl_scopes = with_openid (token_scopes extra (pt_claims t)),
                     cl_client_id = pt_client_id t, cl_token_id = pt_id t, cl_expires = expires\<rparr>))"

lemma set_add_scopes: "set (add_scopes found vs) = set found \<union> (set vs - {[]})"
  by (induction found vs rule: add_scopes.induct) auto

lemma distinct_add_scopes: "distinct found \<Longrightarrow> distinct (add_scopes found vs)"
  by (induction found vs rule: add_scopes.induct) auto

lemma set_token_scopes:
  "set (token_scopes extra c) = (set (fields_space [] (tc_scope c)) \<union> set (values_of (tc_scp c))
     \<union> (\<Union>name \<in> set extra. set (values_of (map_of (tc_raw c) name)))) - {[]}"
proof -
  have "set (fold (\<lambda>name found. add_scopes found (f name)) extra acc)
      = set acc \<union> ((\<Union>name \<in> set extra. set (f name)) - {[]})" for f acc
    by (induction extra arbitrary: acc) (auto simp: set_add_scopes)
  then show ?thesis by (auto simp: token_scopes_def set_add_scopes)
qed

lemma distinct_token_scopes: "distinct (token_scopes extra c)"
proof -
  have "distinct acc \<Longrightarrow> distinct (fold (\<lambda>name found. add_scopes found (f name)) extra acc)" for f acc
    by (induction extra arbitrary: acc) (simp_all add: distinct_add_scopes)
  then show ?thesis by (simp add: token_scopes_def distinct_add_scopes)
qed

section \<open>The deny-list\<close>

definition DefaultPrefix :: string where "DefaultPrefix = ''denylist:jti:''"

definition deny_prefix :: "string \<Rightarrow> string" where
  "deny_prefix prefix = (if prefix = [] then DefaultPrefix else prefix)"

datatype deny_error = EmptyTokenId | RedisFailed

text \<open>\<open>IsDenied\<close>: \<open>exists\<close> is the command's count, or \<^term>\<open>None\<close> when it failed.\<close>

definition is_denied :: "(string \<Rightarrow> nat option) \<Rightarrow> string \<Rightarrow> string \<Rightarrow> deny_error + bool" where
  "is_denied redis_exists prefix token_id =
     (if token_id = [] then Inl EmptyTokenId
      else (case redis_exists (prefix @ token_id) of
          None \<Rightarrow> Inl RedisFailed
        | Some count \<Rightarrow> Inr (count > 0)))"

text \<open>\<open>Deny\<close>: the key and time to live that are set, if any.\<close>

definition deny :: "string \<Rightarrow> instant \<Rightarrow> string \<Rightarrow> instant \<Rightarrow> deny_error + (string \<times> duration) option" where
  "deny prefix t token_id expires_at =
     (if token_id = [] then Inl EmptyTokenId
      else (let ttl = time_sub expires_at t in
            if ttl \<le> 0 then Inr None else Inr (Some (prefix @ token_id, ttl))))"

section \<open>Subjects\<close>

datatype subject_error = EmptySubject | EmptyIssuer

definition subject_uuid ::
  "(string \<Rightarrow> 'u option) \<Rightarrow> (string \<Rightarrow> 'u) \<Rightarrow> string \<Rightarrow> string \<Rightarrow> subject_error + 'u" where
  "subject_uuid parse_uuid new_sha1 issuer subject =
     (if subject = [] then Inl EmptySubject
      else if issuer = [] then Inl EmptyIssuer
      else (case parse_uuid subject of
          Some parsed \<Rightarrow> Inr parsed
        | None \<Rightarrow> Inr (new_sha1 (issuer @ [CHR 0x00] @ subject))))"

lemma nul_split:
  "a @ CHR 0x00 # b = a' @ CHR 0x00 # b' \<Longrightarrow> CHR 0x00 \<notin> set a \<Longrightarrow> CHR 0x00 \<notin> set a' \<Longrightarrow> a = a' \<and> b = b'"
proof (induction a arbitrary: a')
  case Nil
  then show ?case by (cases a') auto
next
  case (Cons x a)
  then show ?case by (cases a') auto
qed

section \<open>Claims\<close>

text \<open>
  Two people never share an identity: whatever the hash, as long as it does not collide, two
  subjects that are not uuids get one uuid only if the issuer and the subject are the same, so
  long as no issuer holds the separator.
\<close>

theorem derived_identities_distinct:
  assumes "subject_uuid parse_uuid new_sha1 i s = Inr u" and "subject_uuid parse_uuid new_sha1 j t = Inr u"
    and "parse_uuid s = None" and "parse_uuid t = None" and "inj new_sha1"
    and "CHR 0x00 \<notin> set i" and "CHR 0x00 \<notin> set j"
  shows "i = j \<and> s = t"
proof -
  from assms(1-4) have "new_sha1 (i @ CHR 0x00 # s) = new_sha1 (j @ CHR 0x00 # t)"
    by (auto simp: subject_uuid_def split: if_splits)
  with assms(5) have "i @ CHR 0x00 # s = j @ CHR 0x00 # t" by (auto dest: injD)
  from nul_split [OF this assms(6,7)] show ?thesis .
qed

theorem derived_identities_distinct_witness:
  "\<exists>u. subject_uuid (\<lambda>_. None) id ''https://idp'' ''386089961457188867'' = Inr u
     \<and> subject_uuid (\<lambda>_. None) id ''https://idp3'' ''86089961457188867'' \<noteq> Inr u"
proof -
  let ?u = "''https://idp'' @ [CHR 0x00] @ ''386089961457188867''"
  have u: "subject_uuid (\<lambda>_. None) id ''https://idp'' ''386089961457188867'' = Inr ?u"
    by (simp add: subject_uuid_def)
  show ?thesis
    using u derived_identities_distinct [of "\<lambda>_. None" id "''https://idp''" "''386089961457188867''" ?u
        "''https://idp3''" "''86089961457188867''"]
    by (intro exI [of _ ?u]) auto
qed

end
