(* ===== verification/Interceptors.thy ===== *)
theory Interceptors
  imports Method_Options Api_Key Identity Go_Regexp
begin

text \<open>
  The chain every RPC of core-api passes through (\<open>internal/server/interceptor\<close>), in the order
  \<open>server.go\<close> wires it: authentication, the deny-list, acting on behalf, the declared scope, and
  the tenant's transaction around the handler.  A stage is a function of the one after it, as
  in the code; what reaches outside (a verifier, the deny-list, the database) is a field of
  \<open>deps\<close>, and every such step is an event, so that order and cost are values.
\<close>

section \<open>What a request carries\<close>

record request =
  rq_authorization :: string
  rq_delegation :: string
  rq_org :: string
  rq_procedure :: string

record tenant_store =
  tn_org :: string
  tn_role :: string
  tn_user :: string

record request_ctx =
  cx_claims :: "claims option"
  cx_token :: string
  cx_key :: "principal option"
  cx_grant :: "grant option"
  cx_tenant :: "tenant_store option"

definition empty_ctx :: request_ctx where
  "empty_ctx = \<lparr>cx_claims = None, cx_token = [], cx_key = None, cx_grant = None, cx_tenant = None\<rparr>"

definition claims_from :: "request_ctx \<Rightarrow> claims option" where
  "claims_from cx = cx_claims cx"

definition api_key_from :: "request_ctx \<Rightarrow> principal option" where
  "api_key_from cx = (case cx_key cx of
      Some p \<Rightarrow> if pl_id p \<noteq> [] then Some p else None | None \<Rightarrow> None)"

definition grant_from :: "request_ctx \<Rightarrow> grant option" where
  "grant_from cx = (case cx_grant cx of
      Some g \<Rightarrow> if gr_user g \<noteq> [] then Some g else None | None \<Rightarrow> None)"

datatype key_auth_error = KeyMalformed | KeyStoreFailed
datatype resolve_error = DelegationUnusable | ResolveFailed
datatype open_error = NotAMember | OpenFailed

record deps =
  verify :: "string \<Rightarrow> verify_error + claims"
  authenticate_key :: "(string \<Rightarrow> key_auth_error + principal) option"
  token_denied :: "string \<Rightarrow> deny_error + bool"
  resolve_delegation :: "(string \<Rightarrow> resolve_error + grant) option"
  begin_tenant :: "string \<Rightarrow> string \<Rightarrow> open_error + tenant_store"
  begin_delegated :: "grant \<Rightarrow> open_error + tenant_store"
  begin_key :: "principal \<Rightarrow> open_error + tenant_store"
  commit_tenant :: "tenant_store \<Rightarrow> bool"

datatype rpc_error =
    NoAuthorization | NotBearer | EmptyBearer
  | TokenRefused verify_error
  | NoUsableAPIKey | KeyStoreDown
  | BeforeAuthentication
  | NoTokenId | DenyListDown deny_error | Revoked
  | KeyCannotDelegate | NoActOnBehalf | NoUsableDelegation | ResolverDown
  | NoRequiredScope string | KeyLacksScope string | TokenLacksScope string
  | TenantNotMember | TenantDown | CommitDown
  | HandlerError string

definition rpc_code :: "rpc_error \<Rightarrow> string" where
  "rpc_code e = (case e of
      NoAuthorization \<Rightarrow> ''unauthenticated'' | NotBearer \<Rightarrow> ''unauthenticated''
    | EmptyBearer \<Rightarrow> ''unauthenticated'' | TokenRefused _ \<Rightarrow> ''unauthenticated''
    | NoUsableAPIKey \<Rightarrow> ''unauthenticated'' | KeyStoreDown \<Rightarrow> ''unavailable''
    | BeforeAuthentication \<Rightarrow> ''internal''
    | NoTokenId \<Rightarrow> ''unauthenticated'' | DenyListDown _ \<Rightarrow> ''unavailable'' | Revoked \<Rightarrow> ''unauthenticated''
    | KeyCannotDelegate \<Rightarrow> ''permission_denied'' | NoActOnBehalf \<Rightarrow> ''permission_denied''
    | NoUsableDelegation \<Rightarrow> ''permission_denied'' | ResolverDown \<Rightarrow> ''internal''
    | NoRequiredScope _ \<Rightarrow> ''permission_denied'' | KeyLacksScope _ \<Rightarrow> ''permission_denied''
    | TokenLacksScope _ \<Rightarrow> ''permission_denied''
    | TenantNotMember \<Rightarrow> ''permission_denied'' | TenantDown \<Rightarrow> ''internal'' | CommitDown \<Rightarrow> ''internal''
    | HandlerError code \<Rightarrow> code)"

datatype event =
    VerifiedToken string | CheckedKey string | ConsultedDenyList string
  | ResolvedDelegation string | OpenedTenant
  | Handled request_ctx | Committed | RolledBack

type_synonym events = "event list"
type_synonym 'r unary = "request_ctx \<Rightarrow> events \<Rightarrow> (rpc_error + 'r) \<times> events"

section \<open>Authentication (auth.go, apikey.go)\<close>

text \<open>\<open>strings.EqualFold\<close> against an ASCII scheme.\<close>

definition equal_fold :: "string \<Rightarrow> string \<Rightarrow> bool" where
  "equal_fold s scheme \<longleftrightarrow> list_all2 (\<lambda>r c. in_class False (fold_char c) r) (runes s) scheme"

definition APIKeyScheme :: string where "APIKeyScheme = ''ApiKey''"
definition ActOnBehalfScope :: string where "ActOnBehalfScope = ''internal:act-on-behalf''"

definition api_key_credential :: "string \<Rightarrow> string option" where
  "api_key_credential header =
     (case cut header '' '' of
        (scheme, credential, found) \<Rightarrow>
          if \<not> found \<or> \<not> equal_fold scheme APIKeyScheme then None
          else if trim_space credential = [] then None
          else Some (trim_space credential))"

definition header_token :: "string \<Rightarrow> rpc_error + string" where
  "header_token header =
     (if header = [] then Inl NoAuthorization
      else (case cut header '' '' of
          (scheme, credential, found) \<Rightarrow>
            if \<not> found \<or> \<not> equal_fold scheme ''Bearer'' then Inl NotBearer
            else if trim_space credential = [] then Inl EmptyBearer
            else Inr (trim_space credential)))"

definition authenticate_api_key :: "deps \<Rightarrow> string \<Rightarrow> 'r unary \<Rightarrow> 'r unary" where
  "authenticate_api_key D credential next cx ev =
     (case authenticate_key D of
        None \<Rightarrow> (Inl NoUsableAPIKey, ev)
      | Some keys \<Rightarrow>
          (case keys credential of
             Inl KeyMalformed \<Rightarrow> (Inl NoUsableAPIKey, ev @ [CheckedKey credential])
           | Inl KeyStoreFailed \<Rightarrow> (Inl KeyStoreDown, ev @ [CheckedKey credential])
           | Inr p \<Rightarrow> next (cx\<lparr>cx_key := Some p\<rparr>) (ev @ [CheckedKey credential])))"

definition auth :: "deps \<Rightarrow> request \<Rightarrow> 'r unary \<Rightarrow> 'r unary" where
  "auth D req next cx ev =
     (case api_key_credential (rq_authorization req) of
        Some credential \<Rightarrow> authenticate_api_key D credential next cx ev
      | None \<Rightarrow>
          (case header_token (rq_authorization req) of
             Inl e \<Rightarrow> (Inl e, ev)
           | Inr raw \<Rightarrow>
               (case verify D raw of
                  Inl e \<Rightarrow> (Inl (TokenRefused e), ev @ [VerifiedToken raw])
                | Inr c \<Rightarrow> next (cx\<lparr>cx_claims := Some c, cx_token := raw\<rparr>) (ev @ [VerifiedToken raw]))))"

section \<open>The deny-list (jti.go)\<close>

definition jti :: "deps \<Rightarrow> 'r unary \<Rightarrow> 'r unary" where
  "jti D next cx ev =
     (case api_key_from cx of
        Some _ \<Rightarrow> next cx ev
      | None \<Rightarrow>
          (case claims_from cx of
             None \<Rightarrow> (Inl BeforeAuthentication, ev)
           | Some c \<Rightarrow>
               if cl_token_id c = [] then (Inl NoTokenId, ev)
               else (case token_denied D (cl_token_id c) of
                   Inl e \<Rightarrow> (Inl (DenyListDown e), ev @ [ConsultedDenyList (cl_token_id c)])
                 | Inr denied \<Rightarrow>
                     if denied then (Inl Revoked, ev @ [ConsultedDenyList (cl_token_id c)])
                     else next cx (ev @ [ConsultedDenyList (cl_token_id c)]))))"

section \<open>Acting for a person (delegation.go)\<close>

definition act_on_behalf :: "deps \<Rightarrow> request \<Rightarrow> 'r unary \<Rightarrow> 'r unary" where
  "act_on_behalf D req next cx ev =
     (if rq_delegation req = [] then next cx ev
      else if api_key_from cx \<noteq> None then (Inl KeyCannotDelegate, ev)
      else (case claims_from cx of
          None \<Rightarrow> (Inl BeforeAuthentication, ev)
        | Some c \<Rightarrow>
            if \<not> has_scope c ActOnBehalfScope then (Inl NoActOnBehalf, ev)
            else (case resolve_delegation D of
                None \<Rightarrow> (Inl NoUsableDelegation, ev)
              | Some resolve \<Rightarrow>
                  (case resolve (rq_delegation req) of
                     Inl DelegationUnusable \<Rightarrow> (Inl NoUsableDelegation, ev @ [ResolvedDelegation (rq_delegation req)])
                   | Inl ResolveFailed \<Rightarrow> (Inl ResolverDown, ev @ [ResolvedDelegation (rq_delegation req)])
                   | Inr g \<Rightarrow> next (cx\<lparr>cx_grant := Some g\<rparr>) (ev @ [ResolvedDelegation (rq_delegation req)])))))"

section \<open>The declared scope (scope.go)\<close>

definition HumanScopes :: "string list" where
  "HumanScopes =
     [''agents:ask'', ''audit:read'', ''billing:manage'', ''billing:read'', ''corpus:read'',
      ''dashboard:read'', ''findings:act'', ''findings:read'', ''integrations:read'',
      ''integrations:write'', ''memory:read'', ''memory:write'', ''model:read'', ''model:write'',
      ''notifications:read'', ''notifications:write'', ''onboarding:read'', ''onboarding:write'',
      ''org:manage'', ''org:read'', ''records:ai-systems:write'', ''records:dsar:write'',
      ''records:read'', ''records:ropa:write'']"

definition human :: "string \<Rightarrow> bool" where
  "human want \<longleftrightarrow> want = ScopeOpenID \<or> list_ex (\<lambda>held. held = want) HumanScopes"

definition holds :: "scope_interceptor \<Rightarrow> claims \<Rightarrow> bool \<Rightarrow> string \<Rightarrow> bool" where
  "holds si c delegated want =
     (if delegated then human want
      else if human_client si \<noteq> [] \<and> cl_client_id c = human_client si then human want
      else has_scope c want)"

definition scope_stage :: "scope_interceptor \<Rightarrow> request \<Rightarrow> 'r unary \<Rightarrow> 'r unary" where
  "scope_stage si req next cx ev =
     (if claims_from cx = None \<and> api_key_from cx = None then (Inl BeforeAuthentication, ev)
      else (case required si (rq_procedure req) of
          None \<Rightarrow> (Inl (NoRequiredScope (rq_procedure req)), ev)
        | Some declared \<Rightarrow>
            (case api_key_from cx of
               Some key \<Rightarrow>
                 if \<not> key_holds key declared then (Inl (KeyLacksScope declared), ev) else next cx ev
             | None \<Rightarrow>
                 (case claims_from cx of
                    None \<Rightarrow> (Inl BeforeAuthentication, ev)
                  | Some c \<Rightarrow>
                      if \<not> holds si c (grant_from cx \<noteq> None) declared
                      then (Inl (TokenLacksScope declared), ev)
                      else next cx ev))))"

section \<open>The tenant's transaction (tenancy.go)\<close>

definition open_tenant ::
  "deps \<Rightarrow> request_ctx \<Rightarrow> string \<Rightarrow> string \<Rightarrow> events \<Rightarrow> (open_error + tenant_store) \<times> events" where
  "open_tenant D cx subject org ev =
     (case api_key_from cx of
        Some key \<Rightarrow>
          if org \<noteq> [] \<and> org \<noteq> pl_org key then (Inl NotAMember, ev)
          else (begin_key D key, ev @ [OpenedTenant])
      | None \<Rightarrow>
          (case grant_from cx of
             None \<Rightarrow> (begin_tenant D subject org, ev @ [OpenedTenant])
           | Some g \<Rightarrow>
               if org \<noteq> [] \<and> org \<noteq> gr_org g then (Inl NotAMember, ev)
               else (begin_delegated D g, ev @ [OpenedTenant])))"

definition tenancy :: "deps \<Rightarrow> request \<Rightarrow> 'r unary \<Rightarrow> 'r unary" where
  "tenancy D req next cx ev =
     (if claims_from cx = None \<and> api_key_from cx = None then (Inl BeforeAuthentication, ev)
      else
        (let subject = (case claims_from cx of Some c \<Rightarrow> cl_subject c | None \<Rightarrow> []) in
         (case open_tenant D cx subject (rq_org req) ev of
            (Inl NotAMember, ev1) \<Rightarrow> (Inl TenantNotMember, ev1)
          | (Inl OpenFailed, ev1) \<Rightarrow> (Inl TenantDown, ev1)
          | (Inr t, ev1) \<Rightarrow>
              (case next (cx\<lparr>cx_tenant := Some t\<rparr>) ev1 of
                 (Inl e, ev2) \<Rightarrow> (Inl e, ev2 @ [RolledBack])
               | (Inr r, ev2) \<Rightarrow>
                   if commit_tenant D t then (Inr r, ev2 @ [Committed]) else (Inl CommitDown, ev2)))))"

section \<open>The chains (server.go)\<close>

definition handle :: "(request_ctx \<Rightarrow> rpc_error + 'r) \<Rightarrow> 'r unary" where
  "handle h cx ev = (h cx, ev @ [Handled cx])"

definition chain ::
  "deps \<Rightarrow> scope_interceptor \<Rightarrow> request \<Rightarrow> (request_ctx \<Rightarrow> rpc_error + 'r) \<Rightarrow> (rpc_error + 'r) \<times> events" where
  "chain D si req h =
     auth D req (jti D (act_on_behalf D req (scope_stage si req (tenancy D req (handle h))))) empty_ctx []"

definition internal_chain ::
  "deps \<Rightarrow> scope_interceptor \<Rightarrow> request \<Rightarrow> (request_ctx \<Rightarrow> rpc_error + 'r) \<Rightarrow> (rpc_error + 'r) \<times> events" where
  "internal_chain D si req h =
     auth (D\<lparr>authenticate_key := None\<rparr>) req (jti D (scope_stage si req (handle h))) empty_ctx []"

section \<open>The contract of a stage\<close>

definition quiet :: "events \<Rightarrow> bool" where
  "quiet es \<longleftrightarrow> (\<forall>e \<in> set es. \<forall>cx. e \<noteq> Handled cx \<and> e \<noteq> Committed \<and> e \<noteq> RolledBack)"

lemma quiet_simps [simp]:
  "quiet []" "quiet (es @ fs) \<longleftrightarrow> quiet es \<and> quiet fs"
  "quiet [VerifiedToken raw]" "quiet [CheckedKey raw]" "quiet [ConsultedDenyList raw]"
  "quiet [ResolvedDelegation raw]" "quiet [OpenedTenant]"
  by (auto simp: quiet_def)

lemma quiet_handled: "quiet es \<Longrightarrow> Handled cx \<notin> set es"
  by (auto simp: quiet_def)

text \<open>
  A stage in front of the handler either refuses, and then nothing after it ran, or hands a
  context it admits to the next stage, once.
\<close>

definition outcome ::
  "(request_ctx \<Rightarrow> request_ctx \<Rightarrow> bool) \<Rightarrow> 'r unary \<Rightarrow> request_ctx \<Rightarrow> events \<Rightarrow> (rpc_error + 'r) \<times> events \<Rightarrow> bool" where
  "outcome admits next cx ev out \<longleftrightarrow>
     (\<exists>e es. out = (Inl e, ev @ es) \<and> quiet es)
     \<or> (\<exists>cx' es. out = next cx' (ev @ es) \<and> quiet es \<and> admits cx cx')"

lemma outcome_intros:
  "outcome A n cx ev (Inl e, ev)"
  "quiet es \<Longrightarrow> outcome A n cx ev (Inl e, ev @ es)"
  "A cx cx' \<Longrightarrow> outcome A n cx ev (n cx' ev)"
  "quiet es \<Longrightarrow> A cx cx' \<Longrightarrow> outcome A n cx ev (n cx' (ev @ es))"
  unfolding outcome_def by (metis append_Nil2 quiet_simps(1), blast, metis append_Nil2 quiet_simps(1), blast)

locale guard_stage =
  fixes stage :: "'r unary \<Rightarrow> 'r unary"
    and admits :: "request_ctx \<Rightarrow> request_ctx \<Rightarrow> bool"
  assumes stage_outcome: "outcome admits next cx ev (stage next cx ev)"
begin

lemma handled_through:
  assumes "Handled c \<in> set (snd (stage next cx ev))" and "quiet ev"
  obtains cx' es where "admits cx cx'" "quiet (ev @ es)" "stage next cx ev = next cx' (ev @ es)"
  proof -
  have "\<nexists>e es. stage next cx ev = (Inl e, ev @ es) \<and> quiet es"
    using assms quiet_handled by (metis quiet_simps(2) snd_conv)
  with stage_outcome [of "next" cx ev] obtain cx' es where
    "stage next cx ev = next cx' (ev @ es)" "quiet es" "admits cx cx'"
    by (auto simp: outcome_def)
  with assms(2) that show thesis by simp
qed

lemma lift_property:
  assumes "\<And>cx ev. quiet ev \<Longrightarrow> P (next cx ev)" and "\<And>e ev. quiet ev \<Longrightarrow> P (Inl e, ev)" and "quiet ev"
  shows "P (stage next cx ev)"
  using stage_outcome [of "next" cx ev] assms by (auto simp: outcome_def)

end

definition auth_admits :: "deps \<Rightarrow> request \<Rightarrow> request_ctx \<Rightarrow> request_ctx \<Rightarrow> bool" where
  "auth_admits D req cx cx' \<longleftrightarrow>
     (\<exists>credential keys p. api_key_credential (rq_authorization req) = Some credential
        \<and> authenticate_key D = Some keys \<and> keys credential = Inr p \<and> cx' = cx\<lparr>cx_key := Some p\<rparr>)
     \<or> (\<exists>raw c. api_key_credential (rq_authorization req) = None
        \<and> header_token (rq_authorization req) = Inr raw \<and> verify D raw = Inr c
        \<and> cx' = cx\<lparr>cx_claims := Some c, cx_token := raw\<rparr>)"

definition jti_admits :: "deps \<Rightarrow> request_ctx \<Rightarrow> request_ctx \<Rightarrow> bool" where
  "jti_admits D cx cx' \<longleftrightarrow> cx' = cx \<and> (api_key_from cx \<noteq> None
     \<or> (\<exists>c. claims_from cx = Some c \<and> cl_token_id c \<noteq> [] \<and> token_denied D (cl_token_id c) = Inr False))"

definition behalf_admits :: "deps \<Rightarrow> request \<Rightarrow> request_ctx \<Rightarrow> request_ctx \<Rightarrow> bool" where
  "behalf_admits D req cx cx' \<longleftrightarrow>
     (rq_delegation req = [] \<and> cx' = cx)
     \<or> (rq_delegation req \<noteq> [] \<and> api_key_from cx = None
        \<and> (\<exists>c resolve g. claims_from cx = Some c \<and> has_scope c ActOnBehalfScope
             \<and> resolve_delegation D = Some resolve \<and> resolve (rq_delegation req) = Inr g
             \<and> cx' = cx\<lparr>cx_grant := Some g\<rparr>))"

definition scope_admits :: "scope_interceptor \<Rightarrow> request \<Rightarrow> request_ctx \<Rightarrow> request_ctx \<Rightarrow> bool" where
  "scope_admits si req cx cx' \<longleftrightarrow> cx' = cx \<and> (\<exists>declared. required si (rq_procedure req) = Some declared
     \<and> (case api_key_from cx of
          Some key \<Rightarrow> declared \<in> set (pl_scopes key)
        | None \<Rightarrow> (\<exists>c. claims_from cx = Some c \<and> holds si c (grant_from cx \<noteq> None) declared)))"

interpretation auth_stage: guard_stage "auth D req" "auth_admits D req" for D req
  by unfold_locales (auto simp: auth_def authenticate_api_key_def auth_admits_def intro!: outcome_intros
      split: option.split sum.split key_auth_error.split)

interpretation jti_stage: guard_stage "jti D" "jti_admits D" for D
  by unfold_locales (auto simp: jti_def jti_admits_def intro!: outcome_intros split: option.split sum.split)

interpretation behalf_stage: guard_stage "act_on_behalf D req" "behalf_admits D req" for D req
  by unfold_locales (auto simp: act_on_behalf_def behalf_admits_def intro!: outcome_intros
      split: option.split sum.split resolve_error.split)

interpretation scope_interceptor: guard_stage "scope_stage si req" "scope_admits si req" for si req
  by unfold_locales (auto simp: scope_stage_def scope_admits_def key_holds_def intro!: outcome_intros
      split: option.split)

section \<open>What reaches the handler\<close>


lemma open_tenant_quiet: "open_tenant D cx s org ev = (r, ev') \<Longrightarrow> \<exists>es. ev' = ev @ es \<and> quiet es"
  by (auto simp: open_tenant_def split: option.splits if_splits intro: exI [of _ "[]"])





definition settled :: "(rpc_error + 'r) \<times> events \<Rightarrow> bool" where
  "settled out \<longleftrightarrow> ((\<exists>r. fst out = Inr r) \<longleftrightarrow> Committed \<in> set (snd out))
     \<and> \<not> (Committed \<in> set (snd out) \<and> RolledBack \<in> set (snd out))"

lemma settled_refusal: "quiet ev \<Longrightarrow> settled (Inl e, ev)"
  by (auto simp: settled_def quiet_def)

lemma tenancy_settled:
  assumes "quiet ev"
  shows "settled (tenancy D req (handle h) cx ev)"
proof (cases "claims_from cx = None \<and> api_key_from cx = None")
  case True
  with assms show ?thesis by (simp add: tenancy_def settled_refusal)
next
  case False
  define subject where "subject = (case claims_from cx of Some c \<Rightarrow> cl_subject c | None \<Rightarrow> [])"
  obtain r ev1 where o: "open_tenant D cx subject (rq_org req) ev = (r, ev1)" by force
  have q: "quiet ev1" using open_tenant_quiet [OF o] assms by auto
  show ?thesis
  proof (cases r)
    case (Inl e)
    with False o q show ?thesis
      by (cases e) (auto simp: tenancy_def subject_def Let_def settled_refusal)
  next
    case (Inr t)
    with False o q show ?thesis
      by (cases "h (cx\<lparr>cx_tenant := Some t\<rparr>)")
        (auto simp: tenancy_def subject_def Let_def handle_def settled_def quiet_def)
  qed
qed

section \<open>Claims\<close>



text \<open>
  The deny-list fails closed and comes first: a verified token that is denied, or whose denial
  cannot be read, is refused, and nothing but its verification and that one lookup happened.
\<close>

theorem denied_token_costs_nothing:
  assumes "api_key_credential (rq_authorization req) = None" and "header_token (rq_authorization req) = Inr raw"
    and "verify D raw = Inr cl" and "cl_token_id cl \<noteq> []" and "token_denied D (cl_token_id cl) \<noteq> Inr False"
  shows "(\<exists>e. fst (chain D si req h) = Inl e \<and> (e = Revoked \<or> (\<exists>d. e = DenyListDown d)))
    \<and> snd (chain D si req h) = [VerifiedToken raw, ConsultedDenyList (cl_token_id cl)]"
proof -
  have "api_key_from (empty_ctx\<lparr>cx_claims := Some cl, cx_token := raw\<rparr>) = None"
    "claims_from (empty_ctx\<lparr>cx_claims := Some cl, cx_token := raw\<rparr>) = Some cl"
    by (simp_all add: api_key_from_def empty_ctx_def claims_from_def)
  with assms show ?thesis
    by (cases "token_denied D (cl_token_id cl)") (auto simp: chain_def auth_def jti_def)
qed

text \<open>
  A response means a committed transaction and nothing else does: the chain returns a result
  exactly when the transaction was committed, and never both commits and rolls back.
\<close>

theorem response_iff_committed:
  "((\<exists>r. fst (chain D si req h) = Inr r) \<longleftrightarrow> Committed \<in> set (snd (chain D si req h)))
   \<and> \<not> (Committed \<in> set (snd (chain D si req h)) \<and> RolledBack \<in> set (snd (chain D si req h)))"
proof -
  have "settled (chain D si req h)"
    unfolding chain_def
    by (rule auth_stage.lift_property [where P = settled, OF jti_stage.lift_property [where P = settled,
        OF behalf_stage.lift_property [where P = settled, OF scope_interceptor.lift_property [where P = settled,
        OF tenancy_settled settled_refusal] settled_refusal] settled_refusal] settled_refusal]) simp_all
  then show ?thesis by (simp add: settled_def)
qed

definition example_claims :: claims where
  "example_claims = \<lparr>cl_issuer = ''https://idp'', cl_subject = ''386'', cl_email = [], cl_email_verified = True,
     cl_name = [], cl_scopes = [''openid'', ''internal:ingest''], cl_client_id = ''worker'',
     cl_token_id = ''t1'', cl_expires = 0\<rparr>"

definition example_deps :: "bool \<Rightarrow> deps" where
  "example_deps denied = \<lparr>verify = (\<lambda>raw. if raw = ''tok'' then Inr example_claims else Inl TokenInvalid),
     authenticate_key = None, token_denied = (\<lambda>_. Inr denied), resolve_delegation = None,
     begin_tenant = (\<lambda>subject org. Inr \<lparr>tn_org = ''org'', tn_role = ''owner'', tn_user = subject\<rparr>),
     begin_delegated = (\<lambda>_. Inl NotAMember), begin_key = (\<lambda>_. Inl NotAMember),
     commit_tenant = (\<lambda>_. True)\<rparr>"

definition example_request :: request where
  "example_request = \<lparr>rq_authorization = ''Bearer tok'', rq_delegation = [], rq_org = [],
     rq_procedure = ''/kindlast.platform.v1.IngestService/Ingest''\<rparr>"

definition example_scopes :: scope_interceptor where
  "example_scopes = \<lparr>required = (\<lambda>p. if p = ''/kindlast.platform.v1.IngestService/Ingest''
       then Some ''internal:ingest'' else None), human_client = ''web''\<rparr>"

lemma example_header:
  "api_key_credential ''Bearer tok'' = None" "header_token ''Bearer tok'' = Inr ''tok''"
proof -
  have "cut ''Bearer tok'' '' '' = (''Bearer'', ''tok'', True)" "trim_space ''tok'' = ''tok''" by code_simp+
  moreover have "runes ''Bearer'' = [66, 101, 97, 114, 101, 114]" by code_simp
  then have "equal_fold ''Bearer'' ''Bearer''" "\<not> equal_fold ''Bearer'' APIKeyScheme"
    by (simp_all add: equal_fold_def in_class_def fold_char_def ascii_lower_char_def APIKeyScheme_def)
  ultimately show "api_key_credential ''Bearer tok'' = None" "header_token ''Bearer tok'' = Inr ''tok''"
    by (simp_all add: api_key_credential_def header_token_def)
qed





theorem denied_token_costs_nothing_witness:
  "snd (chain (example_deps True) example_scopes example_request (\<lambda>_. Inr ()))
     = [VerifiedToken ''tok'', ConsultedDenyList ''t1'']"
  using denied_token_costs_nothing [of example_request "''tok''" "example_deps True" example_claims
      example_scopes "\<lambda>_. Inr ()"]
  by (simp add: example_request_def example_header example_deps_def) (simp add: example_claims_def)

end
