(* ===== verification/Registers.thy ===== *)
theory Registers
  imports Memory_Facts
begin

text \<open>
  The registers an approval can create an entry in, and the two ways a proposal for such an
  entry is made (\<open>internal/domain/records/registers.go\<close>, \<open>draft.go\<close>; the payload encoding of
  \<open>internal/store/postgres/hands.go\<close>): the columns of each register, the check every proposed
  column passes, the deterministic draft from what the organisation has recorded, and the
  JSON shape the Executor reads.
\<close>

definition RegisterProcessingActivities :: string where
  "RegisterProcessingActivities = ''processing_activities''"
definition RegisterAISystems :: string where "RegisterAISystems = ''ai_systems''"
definition RegisterDSARs :: string where "RegisterDSARs = ''dsars''"

record field =
  f_name :: string
  f_label :: string
  f_required :: bool
  f_list_valued :: bool
  f_description :: string

record register =
  rg_name :: string
  rg_label :: string
  rg_fields :: "field list"

text \<open>\<open>lawfulBases\<close>: the keys of the map, sorted, joined with commas and a last \<open>or\<close>.\<close>

fun join_or :: "nat \<Rightarrow> nat \<Rightarrow> string list \<Rightarrow> string" where
  "join_or n i [] = []"
| "join_or n i (b # bs) =
     (if i = 0 then b else if i = n - 1 then '' or '' @ b else '', '' @ b) @ join_or n (Suc i) bs"

definition lawful_bases_text :: string where
  "lawful_bases_text = join_or (length (sort lawful_bases)) 0 (sort lawful_bases)"

definition activity_fields :: "field list" where
  "activity_fields =
    [\<lparr>f_name = ''name'', f_label = ''what the activity is called'', f_required = True,
      f_list_valued = False,
      f_description = ''A short name a colleague would recognise, such as \"Payroll\" or \"Customer support tickets\".''\<rparr>,
     \<lparr>f_name = ''purpose'', f_label = ''why you process this data'', f_required = True,
      f_list_valued = False,
      f_description = ''What the organisation is trying to achieve by processing it, in its own terms.''\<rparr>,
     \<lparr>f_name = ''legal_basis'', f_label = ''the lawful basis you rely on'', f_required = True,
      f_list_valued = False,
      f_description = ''One of the Article 6(1) bases: '' @ lawful_bases_text @ ''.''\<rparr>,
     \<lparr>f_name = ''data_categories'', f_label = ''the kinds of personal data involved'',
      f_required = True, f_list_valued = True,
      f_description = ''The categories of personal data, such as names, contact details or payroll data.''\<rparr>,
     \<lparr>f_name = ''recipients'', f_label = ''who else receives the data'', f_required = False,
      f_list_valued = True,
      f_description = ''Anyone outside the organisation who receives this data, including processors and vendors.''\<rparr>,
     \<lparr>f_name = ''retention_period'', f_label = ''how long you keep it'', f_required = True,
      f_list_valued = False,
      f_description = ''How long the data is kept, or the criteria that decide, such as \"seven years after the tax year ends\".''\<rparr>]"

definition ai_system_fields :: "field list" where
  "ai_system_fields =
    [\<lparr>f_name = ''name'', f_label = ''what the system is called'', f_required = True,
      f_list_valued = False,
      f_description = ''A short name for the system, as people in the organisation refer to it.''\<rparr>,
     \<lparr>f_name = ''vendor'', f_label = ''who supplies it'', f_required = False, f_list_valued = False,
      f_description = ''The provider of the system, or the organisation itself when it built it.''\<rparr>,
     \<lparr>f_name = ''purpose'', f_label = ''what it is used for'', f_required = True,
      f_list_valued = False,
      f_description = ''What the system is used to do, in the organisation's own terms.''\<rparr>,
     \<lparr>f_name = ''risk_classification'', f_label = ''its risk classification under the AI Act'',
      f_required = True, f_list_valued = False,
      f_description = ''One of: prohibited, high, limited, minimal, unclassified. Leave this for a person unless the organisation has recorded the classification itself: it is a legal judgement under Annex III, not something to infer.''\<rparr>,
     \<lparr>f_name = ''documentation_status'', f_label = ''how far its documentation has got'',
      f_required = False, f_list_valued = False,
      f_description = ''Where the technical documentation stands, such as \"not started\" or \"drafted\".''\<rparr>]"

definition dsar_fields :: "field list" where
  "dsar_fields =
    [\<lparr>f_name = ''requester'', f_label = ''who asked'', f_required = True, f_list_valued = False,
      f_description = ''The person who made the request, as they identified themselves.''\<rparr>,
     \<lparr>f_name = ''request_type'', f_label = ''what they asked for'', f_required = True,
      f_list_valued = False,
      f_description = ''The right being exercised, such as access, erasure or rectification.''\<rparr>,
     \<lparr>f_name = ''handler'', f_label = ''who is dealing with it'', f_required = False,
      f_list_valued = False,
      f_description = ''The person or team inside the organisation responsible for answering.''\<rparr>,
     \<lparr>f_name = ''received_at'', f_label = ''when it arrived'', f_required = True,
      f_list_valued = False,
      f_description = ''The date the request was received, as an RFC 3339 timestamp. Never infer this: the statutory deadline runs from it.''\<rparr>]"

definition registers :: "(string \<times> register) list" where
  "registers =
    [(''create_ropa'', \<lparr>rg_name = RegisterProcessingActivities,
        rg_label = ''your Article 30 record of processing activities'', rg_fields = activity_fields\<rparr>),
     (''create_ai_system'', \<lparr>rg_name = RegisterAISystems,
        rg_label = ''your AI Act register of systems'', rg_fields = ai_system_fields\<rparr>),
     (''create_dsar'', \<lparr>rg_name = RegisterDSARs,
        rg_label = ''your record of data-subject requests'', rg_fields = dsar_fields\<rparr>)]"

definition register_for :: "string \<Rightarrow> register option" where
  "register_for action = map_of registers action"

definition field_names :: "register \<Rightarrow> string list" where
  "field_names r = sort (map f_name (rg_fields r))"

definition register_field :: "register \<Rightarrow> string \<Rightarrow> field option" where
  "register_field r n = find (\<lambda>f. f_name f = n) (rg_fields r)"

section \<open>Proposed columns and their check\<close>

record prepared_field =
  pp_name :: string
  pp_values :: "string list"
  pp_from_fact :: string

record left_for_you =
  lf_name :: string
  lf_why :: string

datatype record_error =
    ErrUnknownField string string "string list"
  | ErrTooManyValues string nat
  | ErrNoValue string
  | ErrUnknownFact string string
  | ErrNoFact string

definition validate_column ::
  "register \<Rightarrow> (string \<Rightarrow> bool) \<Rightarrow> prepared_field \<Rightarrow> record_error option" where
  "validate_column r known p =
     (case register_field r (pp_name p) of
        None \<Rightarrow> Some (ErrUnknownField (pp_name p) (rg_name r) (field_names r))
      | Some f \<Rightarrow>
          if pp_values p = [] then Some (ErrNoValue (pp_name p))
          else if \<not> f_list_valued f \<and> 1 < length (pp_values p)
            then Some (ErrTooManyValues (pp_name p) (length (pp_values p)))
          else if list_ex (\<lambda>v. v = []) (pp_values p) then Some (ErrNoValue (pp_name p))
          else if pp_from_fact p = [] then Some (ErrNoFact (pp_name p))
          else if \<not> known (pp_from_fact p) then Some (ErrUnknownFact (pp_name p) (pp_from_fact p))
          else None)"

definition validate_prepared ::
  "register \<Rightarrow> prepared_field list \<Rightarrow> (string \<Rightarrow> bool) \<Rightarrow> record_error option" where
  "validate_prepared r ps known = first_error (validate_column r known) ps"

section \<open>The draft from recorded facts\<close>

definition DraftSource :: string where "DraftSource = ''profile_facts''"

record draft_fact =
  df_key :: string
  df_values :: "string list"

record draft =
  dr_fields :: "prepared_field list"
  dr_left :: "left_for_you list"

definition draft_empty :: "draft \<Rightarrow> bool" where
  "draft_empty d \<longleftrightarrow> length (dr_fields d) = 0"

definition count_of :: "nat \<Rightarrow> string \<Rightarrow> string \<Rightarrow> string" where
  "count_of n one_form many_form =
     (if n = 1 then ''1 '' @ one_form else itoa (int n) @ '' '' @ many_form)"

definition explanation :: "draft \<Rightarrow> register \<Rightarrow> string" where
  "explanation d r =
     (let label = (if rg_label r = [] then ''the register'' else rg_label r)
      in ''Approving this adds one entry to '' @ label @ ''. ''
         @ count_of (length (dr_fields d)) ''column is'' ''columns are''
         @ '' filled from what you have already told us about your organisation, and ''
         @ count_of (length (dr_left d)) ''column is'' ''columns are'' @ '' left for you.'')"

record mapping =
  mp_field :: string
  mp_fact :: string
  mp_when_missing :: string

definition mappings :: "(string \<times> mapping list) list" where
  "mappings =
    [(RegisterProcessingActivities,
      [\<lparr>mp_field = ''data_categories'', mp_fact = ''data_categories'',
        mp_when_missing = ''you have not told us which kinds of personal data you hold, so this is yours to list''\<rparr>,
       \<lparr>mp_field = ''recipients'', mp_fact = ''vendor_list'',
        mp_when_missing = ''you have not told us who outside the organisation handles this data, so this is yours to list''\<rparr>,
       \<lparr>mp_field = ''legal_basis'', mp_fact = ''lawful_bases'',
        mp_when_missing = ''you have not told us which Article 6(1) basis you rely on, so this is yours to name''\<rparr>])]"

definition unmapped :: "(string \<times> (string \<times> string) list) list" where
  "unmapped =
    [(RegisterProcessingActivities,
      [(''name'', ''you have not told us what this activity is called, so the entry needs a name a colleague would recognise''),
       (''purpose'', ''you have not told us why you process this data, and the purpose is the part of an Article 30 entry only you can write''),
       (''retention_period'', ''you have not told us how long you keep it, or what decides when it goes'')]),
     (RegisterAISystems,
      [(''name'', ''you have not told us what this system is called inside the organisation''),
       (''vendor'', ''you have not told us who supplies it''),
       (''purpose'', ''you have not told us what this system is used to do''),
       (''risk_classification'', ''its classification under the AI Act is a legal judgement about this system under Annex III, so it is yours to make rather than ours to guess''),
       (''documentation_status'', ''you have not told us how far its technical documentation has got'')]),
     (RegisterDSARs,
      [(''requester'', ''a data-subject request comes from a person, and nobody has said who''),
       (''request_type'', ''nobody has said which right is being exercised''),
       (''handler'', ''you have not told us who is dealing with this''),
       (''received_at'', ''the Article 12(3) deadline runs from the day the request arrived, so that date is yours to give and never ours to infer'')])]"

text \<open>Lookups in a Go map that is missing the key give the zero value.\<close>

definition register_mappings :: "register \<Rightarrow> mapping list" where
  "register_mappings r = (case map_of mappings (rg_name r) of Some ms \<Rightarrow> ms | None \<Rightarrow> [])"

definition fact_named :: "draft_fact list \<Rightarrow> string \<Rightarrow> draft_fact" where
  "fact_named facts k =
     (case map_of (rev (map (\<lambda>f. (df_key f, f)) facts)) k of
        Some f \<Rightarrow> f | None \<Rightarrow> \<lparr>df_key = [], df_values = []\<rparr>)"

definition mapping_for :: "register \<Rightarrow> string \<Rightarrow> mapping option" where
  "mapping_for r n = map_of (rev (map (\<lambda>m. (mp_field m, m)) (register_mappings r))) n"

definition default_reason :: "(string \<Rightarrow> string) \<Rightarrow> field \<Rightarrow> string" where
  "default_reason uni f =
     ''you have not recorded anything that says '' @ to_lower uni (f_label f)
     @ '', so this is yours to fill''"

definition reason_for :: "(string \<Rightarrow> string) \<Rightarrow> register \<Rightarrow> field \<Rightarrow> string" where
  "reason_for uni r f =
     (case map_of unmapped (rg_name r) of
        None \<Rightarrow> default_reason uni f
      | Some whys \<Rightarrow> (case map_of whys (f_name f) of Some why \<Rightarrow> why | None \<Rightarrow> default_reason uni f))"

definition draft_field :: "field \<Rightarrow> mapping \<Rightarrow> draft_fact \<Rightarrow> prepared_field \<times> string" where
  "draft_field f m recorded =
     (let vs = filter (\<lambda>v. trim_space v \<noteq> []) (df_values recorded);
          none = \<lparr>pp_name = [], pp_values = [], pp_from_fact = []\<rparr>
      in if length vs = 0 then (none, mp_when_missing m)
         else if \<not> f_list_valued f \<and> 1 < length vs then
           (none, ''you have recorded more than one ('' @ join '', '' vs
             @ ''), and this column names the one this entry relies on, which is yours to pick'')
         else (\<lparr>pp_name = f_name f, pp_values = vs, pp_from_fact = mp_fact m\<rparr>, []))"

fun draft_loop :: "(string \<Rightarrow> string) \<Rightarrow> register \<Rightarrow> draft_fact list \<Rightarrow> field list \<Rightarrow> draft" where
  "draft_loop uni r facts [] = \<lparr>dr_fields = [], dr_left = []\<rparr>"
| "draft_loop uni r facts (f # fs) =
     (let d = draft_loop uni r facts fs;
          leave = \<lambda>why. d\<lparr>dr_left := \<lparr>lf_name = f_name f, lf_why = why\<rparr> # dr_left d\<rparr>
      in case mapping_for r (f_name f) of
           None \<Rightarrow> leave (reason_for uni r f)
         | Some m \<Rightarrow>
             (let (p, why) = draft_field f m (fact_named facts (mp_fact m))
              in if why \<noteq> [] then leave why else d\<lparr>dr_fields := p # dr_fields d\<rparr>))"

definition draft_from_facts :: "(string \<Rightarrow> string) \<Rightarrow> register \<Rightarrow> draft_fact list \<Rightarrow> draft" where
  "draft_from_facts uni r facts = draft_loop uni r facts (rg_fields r)"

section \<open>The payload\<close>

text \<open>\<open>payloadValue\<close> and \<open>decodeValues\<close>: one column to JSON, and JSON back to its values.\<close>

definition payload_value :: "field \<Rightarrow> prepared_field \<Rightarrow> json" where
  "payload_value f p =
     (if f_list_valued f then JArr (map JStr (pp_values p))
      else (case pp_values p of [] \<Rightarrow> JStr [] | v # _ \<Rightarrow> JStr v))"

definition decode_values :: "json \<Rightarrow> string list" where
  "decode_values j =
     (case unmarshal_string j of
        Some s \<Rightarrow> if s = [] then [] else [s]
      | None \<Rightarrow> (case unmarshal_strings j of Some ss \<Rightarrow> filter (\<lambda>s. s \<noteq> []) ss | None \<Rightarrow> []))"

text \<open>\<open>proposedFrom\<close>: the columns of the register a payload holds something for.\<close>

definition proposed_from :: "register \<Rightarrow> json \<Rightarrow> prepared_field list" where
  "proposed_from r payload =
     (case unmarshal_object payload of
        None \<Rightarrow> []
      | Some raw \<Rightarrow>
          map (\<lambda>f. \<lparr>pp_name = f_name f, pp_values = decode_values (the (map_of raw (f_name f))),
                   pp_from_fact = []\<rparr>)
            (filter (\<lambda>f. map_of raw (f_name f) \<noteq> None
                       \<and> decode_values (the (map_of raw (f_name f))) \<noteq> []) (rg_fields r)))"

text \<open>
  The payload object both writers build: a Go map filled in order, so a column proposed twice
  keeps the last value; a column the register does not have is skipped.
\<close>

fun payload_entries :: "register \<Rightarrow> prepared_field list \<Rightarrow> (string \<times> json) list" where
  "payload_entries r [] = []"
| "payload_entries r (p # ps) =
     (case register_field r (pp_name p) of
        None \<Rightarrow> payload_entries r ps
      | Some f \<Rightarrow> (pp_name p, payload_value f p) # payload_entries r ps)"

definition payload_of :: "register \<Rightarrow> prepared_field list \<Rightarrow> (string \<times> json) list" where
  "payload_of r ps = last_wins (payload_entries r ps)"

section \<open>The registers\<close>

lemma register_cases:
  assumes "register_for a = Some r"
  obtains (ropa) "a = ''create_ropa''" "rg_name r = RegisterProcessingActivities" "rg_fields r = activity_fields"
  | (ai) "a = ''create_ai_system''" "rg_name r = RegisterAISystems" "rg_fields r = ai_system_fields"
  | (dsar) "a = ''create_dsar''" "rg_name r = RegisterDSARs" "rg_fields r = dsar_fields"
proof -
  from assms have "(a, r) \<in> set registers" unfolding register_for_def by (rule map_of_SomeD)
  then consider "a = ''create_ropa''" "rg_name r = RegisterProcessingActivities" "rg_fields r = activity_fields"
    | "a = ''create_ai_system''" "rg_name r = RegisterAISystems" "rg_fields r = ai_system_fields"
    | "a = ''create_dsar''" "rg_name r = RegisterDSARs" "rg_fields r = dsar_fields"
    unfolding registers_def list.set insert_iff prod.inject empty_iff by (elim disjE conjE) simp_all
  then show ?thesis by cases (fact that)+
qed

lemmas register_fields = activity_fields_def ai_system_fields_def dsar_fields_def

lemma register_names_distinct: "register_for a = Some r \<Longrightarrow> distinct (map f_name (rg_fields r))"
  by (erule register_cases) (simp_all add: register_fields)

lemma register_fieldD: "register_field r n = Some f \<Longrightarrow> f \<in> set (rg_fields r) \<and> f_name f = n"
  unfolding register_field_def by (rule find_SomeD)

lemma register_field_mem:
  "distinct (map f_name (rg_fields r)) \<Longrightarrow> f \<in> set (rg_fields r) \<Longrightarrow>
     register_field r (f_name f) = Some f"
  unfolding register_field_def by (rule find_by_key)

lemma mapping_forD:
  "mapping_for r n = Some m \<Longrightarrow> mp_field m = n \<and> mp_fact m \<noteq> [] \<and> mp_when_missing m \<noteq> []"
  by (auto simp: mapping_for_def register_mappings_def mappings_def split: option.splits if_splits
      dest!: map_of_SomeD)

lemma fact_named_known:
  "df_values (fact_named facts k) \<noteq> [] \<Longrightarrow> k \<in> df_key ` set facts"
  by (auto simp: fact_named_def split: option.splits dest!: map_of_SomeD)

lemma reason_for_not_Nil [simp]: "reason_for uni r f \<noteq> []"
  by (auto simp: reason_for_def default_reason_def unmapped_def split: option.splits if_splits
      dest!: map_of_SomeD)

text \<open>One column of the draft: filled with values that pass the check, or left with a reason.\<close>

lemma draft_field_filled:
  assumes "draft_field f m rec = (p, [])" and "mp_when_missing m \<noteq> []"
  shows "pp_name p = f_name f \<and> pp_from_fact p = mp_fact m
    \<and> pp_values p \<noteq> [] \<and> set (pp_values p) \<subseteq> set (df_values rec)
    \<and> [] \<notin> set (pp_values p) \<and> (f_list_valued f \<or> length (pp_values p) = 1)"
proof -
  let ?vs = "filter (\<lambda>v. trim_space v \<noteq> []) (df_values rec)"
  from assms have "?vs \<noteq> []" and *: "\<not> (\<not> f_list_valued f \<and> 1 < length ?vs)"
    and p: "p = \<lparr>pp_name = f_name f, pp_values = ?vs, pp_from_fact = mp_fact m\<rparr>"
    by (auto simp: draft_field_def Let_def simp del: length_0_conv split: if_splits)
  moreover from \<open>?vs \<noteq> []\<close> have "length ?vs = 1 \<or> 1 < length ?vs" by (cases ?vs) auto
  ultimately show ?thesis by auto
qed

lemma draft_loop_valid:
  assumes "distinct (map f_name (rg_fields r))" and "set fs \<subseteq> set (rg_fields r)"
    and "p \<in> set (dr_fields (draft_loop uni r facts fs))"
  shows "validate_column r (\<lambda>k. k \<in> df_key ` set facts) p = None"
  using assms(2,3)
proof (induction fs)
  case Nil
  then show ?case by simp
next
  case (Cons f fs)
  show ?case
  proof (cases "p \<in> set (dr_fields (draft_loop uni r facts fs))")
    case True
    with Cons show ?thesis by simp
  next
    case False
    with Cons.prems(2) obtain m where m: "mapping_for r (f_name f) = Some m"
      "draft_field f m (fact_named facts (mp_fact m)) = (p, [])"
      by (auto simp: Let_def split: option.splits prod.splits if_splits)
    from mapping_forD [OF m(1)] have mp: "mp_fact m \<noteq> []" "mp_when_missing m \<noteq> []" by simp_all
    from draft_field_filled [OF m(2) mp(2)]
    have p: "pp_name p = f_name f" "pp_from_fact p = mp_fact m" "pp_values p \<noteq> []"
      "set (pp_values p) \<subseteq> set (df_values (fact_named facts (mp_fact m)))"
      "[] \<notin> set (pp_values p)" "f_list_valued f \<or> length (pp_values p) = 1" by simp_all
    from p(3,4) have "df_values (fact_named facts (mp_fact m)) \<noteq> []" by auto
    then have known: "mp_fact m \<in> df_key ` set facts" by (rule fact_named_known)
    have "register_field r (f_name f) = Some f"
      using Cons.prems(1) by (intro register_field_mem [OF assms(1)]) simp
    with p known mp(1) show ?thesis
      by (auto simp: validate_column_def list_ex_iff)
  qed
qed

lemma draft_loop_covers:
  assumes "distinct (map f_name fs)"
  shows "let d = draft_loop uni r facts fs; filled = pp_name ` set (dr_fields d) in
    map pp_name (dr_fields d) = filter (\<lambda>n. n \<in> filled) (map f_name fs)
    \<and> map lf_name (dr_left d) = filter (\<lambda>n. n \<notin> filled) (map f_name fs)
    \<and> (\<forall>l \<in> set (dr_left d). lf_why l \<noteq> [])"
  using assms
proof (induction fs)
  case Nil
  then show ?case by simp
next
  case (Cons f fs)
  let ?d = "draft_loop uni r facts fs"
  let ?filled = "pp_name ` set (dr_fields ?d)"
  from Cons have IH: "map pp_name (dr_fields ?d) = filter (\<lambda>n. n \<in> ?filled) (map f_name fs)"
    "map lf_name (dr_left ?d) = filter (\<lambda>n. n \<notin> ?filled) (map f_name fs)"
    "\<forall>l \<in> set (dr_left ?d). lf_why l \<noteq> []" by (simp_all add: Let_def)
  have "set (map pp_name (dr_fields ?d)) \<subseteq> set (map f_name fs)" unfolding IH(1) by auto
  then have sub: "?filled \<subseteq> f_name ` set fs" by simp
  with Cons.prems have fresh: "f_name f \<notin> ?filled" by auto
  consider (left) why where "draft_loop uni r facts (f # fs) =
      ?d\<lparr>dr_left := \<lparr>lf_name = f_name f, lf_why = why\<rparr> # dr_left ?d\<rparr>" "why \<noteq> []"
    | (filled) p where "draft_loop uni r facts (f # fs) = ?d\<lparr>dr_fields := p # dr_fields ?d\<rparr>"
      "pp_name p = f_name f"
  proof (cases "mapping_for r (f_name f)")
    case None
    then show ?thesis by (intro that(1)) (auto simp: Let_def)
  next
    case (Some m)
    obtain p why where pw: "draft_field f m (fact_named facts (mp_fact m)) = (p, why)" by fastforce
    show ?thesis
    proof (cases "why = []")
      case True
      with pw Some draft_field_filled [of f m _ p] mapping_forD [OF Some] show ?thesis
        by (intro that(2)) (auto simp: Let_def)
    next
      case False
      with pw Some show ?thesis by (intro that(1)) (auto simp: Let_def)
    qed
  qed
  then show ?case
  proof cases
    case left
    with IH fresh show ?thesis by (simp add: Let_def)
  next
    case filled
    have "filter (\<lambda>n. n = f_name f \<or> n \<in> ?filled) (map f_name fs)
        = filter (\<lambda>n. n \<in> ?filled) (map f_name fs)"
      "filter (\<lambda>n. n \<noteq> f_name f \<and> n \<notin> ?filled) (map f_name fs)
        = filter (\<lambda>n. n \<notin> ?filled) (map f_name fs)"
      using Cons.prems by (auto intro!: filter_cong)
    with filled IH show ?thesis by (simp add: Let_def)
  qed
qed

section \<open>The payload round trip\<close>

lemma decode_payload_value:
  assumes "validate_column r known p = None" and "register_field r (pp_name p) = Some f"
  shows "decode_values (payload_value f p) = pp_values p"
proof -
  have ne: "pp_values p \<noteq> []" "[] \<notin> set (pp_values p)" "f_list_valued f \<or> length (pp_values p) \<le> 1"
    using assms by (auto simp: validate_column_def list_ex_iff split: if_splits)
  show ?thesis
  proof (cases "f_list_valued f")
    case True
    have "filter (\<lambda>s. s \<noteq> []) (pp_values p) = pp_values p" using ne(2) by (auto intro: filter_True)
    with True show ?thesis
      by (simp add: payload_value_def decode_values_def comp_def all_some_map)
  next
    case False
    with ne obtain v where v: "pp_values p = [v]" by (cases "pp_values p") auto
    with ne have "v \<noteq> []" by auto
    with False v show ?thesis by (simp add: payload_value_def decode_values_def)
  qed
qed

lemma map_of_payload_entries:
  assumes "validate_prepared r ps known = None" and "distinct (map pp_name ps)"
  shows "map_of (payload_entries r ps) n =
    (case find (\<lambda>p. pp_name p = n) ps of None \<Rightarrow> None
     | Some p \<Rightarrow> Some (payload_value (the (register_field r n)) p))"
  using assms
proof (induction ps)
  case Nil
  then show ?case by simp
next
  case (Cons p ps)
  then have "register_field r (pp_name p) \<noteq> None" "validate_prepared r ps known = None"
    by (auto simp: validate_prepared_def validate_column_def split: option.splits)
  then show ?case using Cons by auto
qed

lemma payload_entries_keys:
  "validate_prepared r ps known = None \<Longrightarrow> map fst (payload_entries r ps) = map pp_name ps"
  by (induction ps) (auto simp: validate_prepared_def validate_column_def split: option.splits)

lemma payload_of_valid:
  "validate_prepared r ps known = None \<Longrightarrow> distinct (map pp_name ps) \<Longrightarrow>
     payload_of r ps = payload_entries r ps"
  by (simp add: payload_of_def last_wins_id payload_entries_keys)

section \<open>Claims\<close>

text \<open>
  The draft accounts for every column of its register: the columns it fills and the columns
  it leaves are, each in the register's order, a partition of the register's columns; every
  column left carries a reason; and what it fills passes the check a model's plan is put
  through, so every value is attributed to a fact the organisation has recorded.
\<close>

theorem draft_accounts_for_every_column:
  assumes "register_for action = Some r"
  shows "let d = draft_from_facts uni r facts; filled = pp_name ` set (dr_fields d) in
    validate_prepared r (dr_fields d) (\<lambda>k. k \<in> df_key ` set facts) = None
    \<and> map pp_name (dr_fields d) = filter (\<lambda>n. n \<in> filled) (map f_name (rg_fields r))
    \<and> map lf_name (dr_left d) = filter (\<lambda>n. n \<notin> filled) (map f_name (rg_fields r))
    \<and> (\<forall>l \<in> set (dr_left d). lf_why l \<noteq> [])"
proof -
  have d: "distinct (map f_name (rg_fields r))" using assms by (rule register_names_distinct)
  then have "validate_prepared r (dr_fields (draft_from_facts uni r facts))
      (\<lambda>k. k \<in> df_key ` set facts) = None"
    unfolding validate_prepared_def first_error_None draft_from_facts_def
    by (auto intro: draft_loop_valid)
  with draft_loop_covers [OF d, of uni r facts] show ?thesis
    by (simp add: Let_def draft_from_facts_def)
qed

definition example_facts :: "draft_fact list" where
  "example_facts =
    [\<lparr>df_key = ''data_categories'', df_values = [''names'', ''payroll'']\<rparr>,
     \<lparr>df_key = ''lawful_bases'', df_values = [''contract'', ''consent'']\<rparr>]"

theorem draft_accounts_for_every_column_witness:
  "let d = draft_from_facts id (the (register_for ''create_ropa'')) example_facts;
       filled = pp_name ` set (dr_fields d) in
    validate_prepared (the (register_for ''create_ropa'')) (dr_fields d)
      (\<lambda>k. k \<in> df_key ` set example_facts) = None
    \<and> map pp_name (dr_fields d)
        = filter (\<lambda>n. n \<in> filled) (map f_name (rg_fields (the (register_for ''create_ropa''))))
    \<and> map lf_name (dr_left d)
        = filter (\<lambda>n. n \<notin> filled) (map f_name (rg_fields (the (register_for ''create_ropa''))))
    \<and> (\<forall>l \<in> set (dr_left d). lf_why l \<noteq> [])"
  by (rule draft_accounts_for_every_column [of "''create_ropa''"])
    (simp add: register_for_def registers_def)

text \<open>
  What a validated plan writes into the payload is what the next run is shown as already
  proposed: every prepared column comes back with its values, and nothing else does.
\<close>

theorem prepared_columns_read_back:
  assumes "register_for action = Some r" and "validate_prepared r ps known = None"
    and "distinct (map pp_name ps)"
  shows "(\<lambda>p. (pp_name p, pp_values p)) ` set (proposed_from r (JObj (payload_of r ps)))
    = (\<lambda>p. (pp_name p, pp_values p)) ` set ps"
    (is "?sh ` set ?back = ?sh ` set ps")
proof -
  let ?raw = "payload_entries r ps"
  have names: "distinct (map f_name (rg_fields r))" using assms(1) by (rule register_names_distinct)
  have raw: "unmarshal_object (JObj (payload_of r ps)) = Some ?raw"
    using assms(2,3) by (simp add: payload_of_valid last_wins_id payload_entries_keys)
  have col: "register_field r (pp_name p) \<noteq> None \<and> pp_values p \<noteq> []
      \<and> map_of ?raw (pp_name p) = Some (payload_value (the (register_field r (pp_name p))) p)
      \<and> decode_values (payload_value (the (register_field r (pp_name p))) p) = pp_values p"
    if "p \<in> set ps" for p
  proof -
    from that assms(2) have v: "validate_column r known p = None"
      by (simp add: validate_prepared_def first_error_None)
    then have reg: "register_field r (pp_name p) \<noteq> None" "pp_values p \<noteq> []"
      by (auto simp: validate_column_def split: option.splits if_splits)
    have "find (\<lambda>q. pp_name q = pp_name p) ps = Some p"
      using assms(3) that by (rule find_by_key)
    with map_of_payload_entries [OF assms(2,3), of "pp_name p"] reg v show ?thesis
      by (auto intro: decode_payload_value)
  qed
  have dom_raw: "map_of ?raw n = None" if "n \<notin> pp_name ` set ps" for n
    using that payload_entries_keys [OF assms(2)]
    by (metis (no_types, lifting) map_of_eq_None_iff list.set_map)
  show ?thesis
  proof (intro subset_antisym subsetI)
    fix x assume "x \<in> ?sh ` set ?back"
    then obtain f where f: "f \<in> set (rg_fields r)" "map_of ?raw (f_name f) \<noteq> None"
      "x = (f_name f, decode_values (the (map_of ?raw (f_name f))))"
      unfolding proposed_from_def raw by auto
    with dom_raw [of "f_name f"] obtain p where "p \<in> set ps" "pp_name p = f_name f" by fastforce
    with col [of p] f(3) show "x \<in> ?sh ` set ps" by force
  next
    fix x assume "x \<in> ?sh ` set ps"
    then obtain p where p: "p \<in> set ps" "x = (pp_name p, pp_values p)" by auto
    from col [OF p(1)] obtain f where f: "register_field r (pp_name p) = Some f"
      "map_of ?raw (pp_name p) = Some (payload_value f p)"
      "decode_values (payload_value f p) = pp_values p" "pp_values p \<noteq> []" by auto
    from register_fieldD [OF f(1)] have "f \<in> set (rg_fields r)" "f_name f = pp_name p" by auto
    with f p(2) show "x \<in> ?sh ` set ?back"
      unfolding proposed_from_def raw by (force simp: image_iff)
  qed
qed

theorem prepared_columns_read_back_witness:
  "let r = the (register_for ''create_ropa'');
       ps = [\<lparr>pp_name = ''recipients'', pp_values = [''Acme''], pp_from_fact = ''vendor_list''\<rparr>,
             \<lparr>pp_name = ''purpose'', pp_values = [''payroll''], pp_from_fact = ''industry''\<rparr>]
   in (\<lambda>p. (pp_name p, pp_values p)) ` set (proposed_from r (JObj (payload_of r ps)))
      = (\<lambda>p. (pp_name p, pp_values p)) ` set ps"
  unfolding Let_def
proof (rule prepared_columns_read_back [of "''create_ropa''" _ _ "\<lambda>k. True"])
  show "register_for ''create_ropa'' = Some (the (register_for ''create_ropa''))"
    by (simp add: register_for_def registers_def)
  show "validate_prepared (the (register_for ''create_ropa''))
      [\<lparr>pp_name = ''recipients'', pp_values = [''Acme''], pp_from_fact = ''vendor_list''\<rparr>,
       \<lparr>pp_name = ''purpose'', pp_values = [''payroll''], pp_from_fact = ''industry''\<rparr>] (\<lambda>k. True) = None"
    by code_simp
  show "distinct (map pp_name
      [\<lparr>pp_name = ''recipients'', pp_values = [''Acme''], pp_from_fact = ''vendor_list''\<rparr>,
       \<lparr>pp_name = ''purpose'', pp_values = [''payroll''], pp_from_fact = ''industry''\<rparr>])"
    by simp
qed

end
