(* ===== verification/Posture.thy ===== *)
theory Posture
  imports KL_Prelude
begin

text \<open>
  The dashboard's band (\<open>internal/domain/findings/posture.go\<close>): one of four values computed from
  the severities of the open findings and the deadlines among them, the sentence shown with
  it, and the tally by severity.
\<close>

datatype posture = NotAssessed | Green | Amber | Red

definition NearTermDays :: int where "NearTermDays = 30"

record deadline =
  dl_severity :: string
  dl_days :: int

record posture_inputs =
  open_severities :: "string list"
  deadlines :: "deadline list"
  assessed :: bool

definition has_severity :: "string list \<Rightarrow> string \<Rightarrow> bool" where
  "has_severity ss want \<longleftrightarrow> list_ex (\<lambda>s. s = want) ss"

definition overdue :: "deadline list \<Rightarrow> string \<Rightarrow> bool" where
  "overdue ds s \<longleftrightarrow> list_ex (\<lambda>d. dl_severity d = s \<and> dl_days d < 0) ds"

definition near_term :: "deadline list \<Rightarrow> string \<Rightarrow> bool" where
  "near_term ds s \<longleftrightarrow>
     list_ex (\<lambda>d. dl_severity d = s \<and> 0 \<le> dl_days d \<and> dl_days d \<le> NearTermDays) ds"

definition compute_posture :: "posture_inputs \<Rightarrow> posture" where
  "compute_posture i =
     (if \<not> assessed i then NotAssessed
      else if has_severity (open_severities i) ''critical'' \<or> overdue (deadlines i) ''critical'' then Red
      else if has_severity (open_severities i) ''high'' \<or> near_term (deadlines i) ''high''
        \<or> near_term (deadlines i) ''critical'' then Amber
      else Green)"

definition headline :: "posture \<Rightarrow> string" where
  "headline p =
     (case p of
        NotAssessed \<Rightarrow> ''Not assessed yet. The Watcher has not run for this organisation.''
      | Red \<Rightarrow> ''Action required. You have something critical open.''
      | Amber \<Rightarrow> ''Needs attention. A few things are coming due.''
      | Green \<Rightarrow> ''You're on track. Nothing urgent right now.'')"

record severity_counts =
  n_critical :: nat
  n_high :: nat
  n_medium :: nat
  n_low :: nat

definition total :: "severity_counts \<Rightarrow> nat" where
  "total c = n_critical c + n_high c + n_medium c + n_low c"

definition count_one :: "severity_counts \<Rightarrow> string \<Rightarrow> severity_counts" where
  "count_one c s =
     (if s = ''critical'' then c\<lparr>n_critical := n_critical c + 1\<rparr>
      else if s = ''high'' then c\<lparr>n_high := n_high c + 1\<rparr>
      else if s = ''medium'' then c\<lparr>n_medium := n_medium c + 1\<rparr>
      else if s = ''low'' then c\<lparr>n_low := n_low c + 1\<rparr>
      else c)"

definition count_severities :: "string list \<Rightarrow> severity_counts" where
  "count_severities ss =
     foldl count_one \<lparr>n_critical = 0, n_high = 0, n_medium = 0, n_low = 0\<rparr> ss"

instantiation posture :: linorder
begin

definition posture_rank :: "posture \<Rightarrow> nat" where
  "posture_rank p = (case p of NotAssessed \<Rightarrow> 3 | Red \<Rightarrow> 2 | Amber \<Rightarrow> 1 | Green \<Rightarrow> 0)"

definition less_eq_posture :: "posture \<Rightarrow> posture \<Rightarrow> bool" where
  "less_eq_posture p q \<longleftrightarrow> posture_rank p \<le> posture_rank q"

definition less_posture :: "posture \<Rightarrow> posture \<Rightarrow> bool" where
  "less_posture p q \<longleftrightarrow> posture_rank p < posture_rank q"

instance
  by standard
    (auto simp: less_eq_posture_def less_posture_def posture_rank_def split: posture.splits)

end

lemmas posture_order = less_eq_posture_def less_posture_def posture_rank_def

lemma compute_posture_mono:
  "assessed i = assessed j \<Longrightarrow> set (open_severities i) \<subseteq> set (open_severities j) \<Longrightarrow>
     set (deadlines i) \<subseteq> set (deadlines j) \<Longrightarrow> compute_posture i \<le> compute_posture j"
  by (auto simp: compute_posture_def posture_order has_severity_def overdue_def near_term_def
      list_ex_iff)

lemma count_one_simps:
  "n_critical (count_one c s) = n_critical c + (if s = ''critical'' then 1 else 0)"
  "n_high (count_one c s) = n_high c + (if s = ''high'' then 1 else 0)"
  "n_medium (count_one c s) = n_medium c + (if s = ''medium'' then 1 else 0)"
  "n_low (count_one c s) = n_low c + (if s = ''low'' then 1 else 0)"
  by (simp_all add: count_one_def)

lemma foldl_count:
  "n_critical (foldl count_one c ss) = n_critical c + count_list ss ''critical''"
  "n_high (foldl count_one c ss) = n_high c + count_list ss ''high''"
  "n_medium (foldl count_one c ss) = n_medium c + count_list ss ''medium''"
  "n_low (foldl count_one c ss) = n_low c + count_list ss ''low''"
  by (induction ss arbitrary: c) (auto simp: count_one_simps)

lemma total_count:
  "total (count_severities ss)
     = length (filter (\<lambda>s. s \<in> {''critical'', ''high'', ''medium'', ''low''}) ss)"
proof -
  have "total (foldl count_one c ss)
      = total c + length (filter (\<lambda>s. s \<in> {''critical'', ''high'', ''medium'', ''low''}) ss)" for c
    by (induction ss arbitrary: c) (auto simp: total_def count_one_simps)
  then show ?thesis by (simp add: count_severities_def total_def)
qed

end
