(* ===== verification/Act_Path.thy ===== *)
theory Act_Path
  imports Registers Posture Signal_Store
begin

text \<open>
  What a person can do with a finding, and what the product does with the decision
  (\<open>internal/domain/findings/findings.go\<close>, \<open>internal/store/postgres/findings.go\<close>,
  \<open>executor.go\<close>, \<open>hands.go\<close>, and the Analyst's half of \<open>sweep.go\<close>).  The tables are lists in
  one state record; every operation is one transaction, a function to an error (nothing
  written) or an answer and the new state.  A query under row level security sees the rows of
  the session's organisation while the session's user is a member of it.
\<close>

section \<open>Domain rules (findings.go)\<close>

definition ActionCreateROPA :: string where "ActionCreateROPA = ''create_ropa''"
definition ActionCreateDSAR :: string where "ActionCreateDSAR = ''create_dsar''"
definition ActionCreateAISystem :: string where "ActionCreateAISystem = ''create_ai_system''"
definition RiskHigh :: string where "RiskHigh = ''high''"

definition executes :: "string \<Rightarrow> bool" where
  "executes a \<longleftrightarrow> a = ActionCreateROPA \<or> a = ActionCreateDSAR \<or> a = ActionCreateAISystem"

definition requires_review :: "string \<Rightarrow> string \<Rightarrow> bool \<Rightarrow> bool" where
  "requires_review a risk reviewed \<longleftrightarrow> a = ActionCreateAISystem \<and> risk = RiskHigh \<and> \<not> reviewed"

record receipt =
  rc_present :: bool
  rc_valid :: bool
  rc_at :: instant

datatype act_error =
    ReviewRequired
  | ReceiptRequired
  | ReceiptMalformed
  | ReceiptInFuture
  | NoSuchFinding
  | NothingToPrepare
  | AlreadyEnqueued
  | InvalidPlan record_error
  | RowRefused string
  | RowMissing

definition check_receipt :: "string \<Rightarrow> receipt \<Rightarrow> instant \<Rightarrow> act_error option" where
  "check_receipt a r at =
     (if a \<noteq> ActionCreateDSAR then None
      else if \<not> rc_present r then Some ReceiptRequired
      else if \<not> rc_valid r then Some ReceiptMalformed
      else if rc_at r > at then Some ReceiptInFuture
      else None)"

record acted =
  ac_applied :: bool
  ac_record :: "nat option"
  ac_table :: string
  ac_until :: "instant option"

definition not_applied :: acted where
  "not_applied = \<lparr>ac_applied = False, ac_record = None, ac_table = [], ac_until = None\<rparr>"

section \<open>Tables\<close>

record approval_plan =
  pl_at :: instant
  pl_source :: string
  pl_explanation :: string
  pl_fields :: "prepared_field list"
  pl_left :: "left_for_you list"

text \<open>
  A row of \<open>findings\<close>.  The keys of its \<open>metadata\<close> object that the program reads or writes are
  fields: the three signal keys, \<open>payload\<close> and \<open>approval_plan\<close>.
\<close>

record finding_row =
  fr_id :: nat
  fr_profile :: string
  fr_org :: string
  fr_signal :: nat
  fr_obligation :: string
  fr_slug :: "string option"
  fr_detected :: string
  fr_severity :: string
  fr_proposed :: string
  fr_regulatory :: "string option"
  fr_url :: "string option"
  fr_context :: string
  fr_effort :: string
  fr_action :: string
  fr_status :: string
  fr_created :: instant
  fr_signal_kind :: string
  fr_signal_dedup :: string
  fr_signal_meta :: "(string \<times> meta) list"
  fr_payload :: "(string \<times> json) list option"
  fr_plan :: "approval_plan option"
  fr_approved_by :: "string option"
  fr_reviewed :: bool
  fr_reason :: "string option"
  fr_snoozed :: "instant option"

record activity_row =
  av_id :: nat
  av_profile :: string
  av_org :: string
  av_created_by :: string
  av_finding :: nat
  av_name :: string
  av_purpose :: "string option"
  av_legal_basis :: "string option"
  av_categories :: "string list"
  av_recipients :: "string list"
  av_retention :: "string option"

record dsar_row =
  dq_id :: nat
  dq_org :: string
  dq_created_by :: string
  dq_finding :: nat
  dq_subject :: "string option"
  dq_type :: "string option"
  dq_handler :: "string option"
  dq_status :: string
  dq_received :: instant
  dq_due :: instant

record ai_row =
  ai_id :: nat
  ai_profile :: string
  ai_org :: string
  ai_created_by :: string
  ai_finding :: nat
  ai_name :: string
  ai_vendor :: "string option"
  ai_purpose :: "string option"
  ai_risk :: string
  ai_documentation :: string
  ai_reviewed_at :: instant

datatype row_snapshot =
    FindingSnap finding_row
  | ActivitySnap activity_row
  | DsarSnap dsar_row
  | AiSnap ai_row

record audit_row =
  au_org :: string
  au_user :: string
  au_role :: "string option"
  au_finding :: nat
  au_action :: string
  au_table :: string
  au_target :: nat
  au_before :: "row_snapshot option"
  au_after :: "row_snapshot option"
  au_approver :: string
  au_at :: instant

record executor_job =
  jb_id :: nat
  jb_org :: string
  jb_finding :: nat
  jb_action :: string
  jb_approver :: string
  jb_status :: string
  jb_attempts :: nat
  jb_error :: "act_error option"

record review_flag =
  rv_org :: string
  rv_by :: string
  rv_profile :: string
  rv_slug :: string
  rv_finding :: nat
  rv_count :: nat
  rv_reasons :: "string list"

record act_db =
  db_findings :: "finding_row list"
  db_next :: nat
  db_audit :: "audit_row list"
  db_jobs :: "executor_job list"
  db_flags :: "review_flag list"
  db_activities :: "activity_row list"
  db_dsars :: "dsar_row list"
  db_ai :: "ai_row list"
  db_members :: "((string \<times> string) \<times> string) list"

record session =
  se_org :: string
  se_user :: string
  se_now :: instant

section \<open>Queries under row level security\<close>

definition role_of :: "act_db \<Rightarrow> string \<Rightarrow> string \<Rightarrow> string option" where
  "role_of db org user = map_of (db_members db) (org, user)"

definition visible :: "session \<Rightarrow> act_db \<Rightarrow> string \<Rightarrow> bool" where
  "visible s db org \<longleftrightarrow> org = se_org s \<and> role_of db (se_org s) (se_user s) \<noteq> None"

definition finding_of :: "session \<Rightarrow> nat \<Rightarrow> act_db \<Rightarrow> finding_row option" where
  "finding_of s n db = find (\<lambda>r. fr_id r = n \<and> visible s db (fr_org r)) (db_findings db)"

text \<open>\<open>update findings set ... where ... returning\<close>: the row after the update, when one matched.\<close>

definition update_finding ::
  "(finding_row \<Rightarrow> bool) \<Rightarrow> (finding_row \<Rightarrow> finding_row) \<Rightarrow> act_db \<Rightarrow> (finding_row \<times> act_db) option" where
  "update_finding P f db =
     (case find P (db_findings db) of
        None \<Rightarrow> None
      | Some r \<Rightarrow> Some (f r, db\<lparr>db_findings := map (\<lambda>r. if P r then f r else r) (db_findings db)\<rparr>))"

text \<open>\<open>metadata -> 'payload' ->> key\<close>, with the text of a value that is not a string as a parameter.\<close>

definition payload_text :: "(json \<Rightarrow> string) \<Rightarrow> finding_row \<Rightarrow> string \<Rightarrow> string option" where
  "payload_text jt r key =
     (case fr_payload r of None \<Rightarrow> None
      | Some p \<Rightarrow> (case map_of p key of
            None \<Rightarrow> None
          | Some JNull \<Rightarrow> None
          | Some (JStr s) \<Rightarrow> Some s
          | Some j \<Rightarrow> Some (jt j)))"

definition coalesce :: "'a option \<Rightarrow> 'a \<Rightarrow> 'a" where
  "coalesce x d = (case x of None \<Rightarrow> d | Some y \<Rightarrow> y)"

definition nullif_blank :: "string option \<Rightarrow> string option" where
  "nullif_blank x = (case x of None \<Rightarrow> None | Some s \<Rightarrow> if s = [] then None else Some s)"

definition btrim :: "string \<Rightarrow> string" where
  "btrim s = rev (dropWhile (\<lambda>c. c = CHR '' '') (rev (dropWhile (\<lambda>c. c = CHR '' '') s)))"

definition text_array :: "(json \<Rightarrow> string) \<Rightarrow> finding_row \<Rightarrow> string \<Rightarrow> string list" where
  "text_array jt r key =
     (case fr_payload r of None \<Rightarrow> []
      | Some p \<Rightarrow> (case map_of p key of
            Some (JArr js) \<Rightarrow> map (\<lambda>j. case j of JStr s \<Rightarrow> s | _ \<Rightarrow> jt j) js
          | _ \<Rightarrow> []))"

section \<open>The audit trail\<close>

definition finding_snapshot :: "session \<Rightarrow> nat \<Rightarrow> act_db \<Rightarrow> row_snapshot option" where
  "finding_snapshot s n db = map_option FindingSnap (finding_of s n db)"

definition audit_row_for ::
  "session \<Rightarrow> act_db \<Rightarrow> nat \<Rightarrow> string \<Rightarrow> string \<Rightarrow> nat \<Rightarrow> row_snapshot option \<Rightarrow> row_snapshot option \<Rightarrow> audit_row" where
  "audit_row_for s db n action tab target before after =
     \<lparr>au_org = se_org s, au_user = se_user s, au_role = role_of db (se_org s) (se_user s),
      au_finding = n, au_action = action, au_table = tab, au_target = target,
      au_before = before, au_after = after, au_approver = se_user s, au_at = se_now s\<rparr>"

text \<open>\<open>recordAudit\<close> for a decision: the state after is read here, after the write.\<close>

definition record_audit ::
  "session \<Rightarrow> nat \<Rightarrow> string \<Rightarrow> row_snapshot option \<Rightarrow> act_db \<Rightarrow> act_db" where
  "record_audit s n action before db =
     db\<lparr>db_audit := db_audit db
          @ [audit_row_for s db n action ''findings'' n before (finding_snapshot s n db)]\<rparr>"

text \<open>\<open>order by occurred_at desc limit 1\<close>; of rows with one time stamp the last written is taken.\<close>

fun latest :: "audit_row option \<Rightarrow> audit_row list \<Rightarrow> audit_row option" where
  "latest best [] = best"
| "latest best (a # as) =
     latest (case best of None \<Rightarrow> Some a | Some b \<Rightarrow> if au_at b \<le> au_at a then Some a else Some b) as"

definition with_created_record :: "session \<Rightarrow> nat \<Rightarrow> act_db \<Rightarrow> acted \<Rightarrow> acted" where
  "with_created_record s n db acted =
     (case latest None (filter (\<lambda>a. au_finding a = n \<and> au_table a \<noteq> ''findings''
                                   \<and> visible s db (au_org a)) (db_audit db)) of
        None \<Rightarrow> acted
      | Some a \<Rightarrow> acted\<lparr>ac_record := Some (au_target a), ac_table := au_table a\<rparr>)"

section \<open>Approving\<close>

record execution_plan =
  ep_action :: string
  ep_risk :: string
  ep_receipt :: receipt
  ep_now :: instant

text \<open>
  \<open>executionPlan\<close>.  \<open>ts now s\<close> is the value of the text \<open>s\<close> as a \<open>timestamptz\<close> when the database's
  clock reads \<open>now\<close>, or \<open>None\<close> when it is not one: inputs such as \<open>today\<close> depend on the clock.
\<close>

definition plan_of_row ::
  "(json \<Rightarrow> string) \<Rightarrow> (instant \<Rightarrow> string \<Rightarrow> instant option) \<Rightarrow> instant \<Rightarrow> finding_row \<Rightarrow> execution_plan" where
  "plan_of_row jt ts at r =
     (let received = coalesce (payload_text jt r ''received_at'') []
      in \<lparr>ep_action = fr_action r,
          ep_risk = coalesce (payload_text jt r ''risk_classification'') [],
          ep_receipt = \<lparr>rc_present = (received \<noteq> []), rc_valid = (ts at received \<noteq> None),
                        rc_at = coalesce (ts at received) zero_time\<rparr>,
          ep_now = at\<rparr>)"

definition plan_for_finding ::
  "(json \<Rightarrow> string) \<Rightarrow> (instant \<Rightarrow> string \<Rightarrow> instant option) \<Rightarrow> session \<Rightarrow> nat \<Rightarrow> act_db \<Rightarrow> execution_plan" where
  "plan_for_finding jt ts s n db =
     (case finding_of s n db of
        Some r \<Rightarrow> plan_of_row jt ts (se_now s) r
      | None \<Rightarrow> \<lparr>ep_action = [], ep_risk = [],
                 ep_receipt = \<lparr>rc_present = False, rc_valid = False, rc_at = zero_time\<rparr>,
                 ep_now = zero_time\<rparr>)"

text \<open>\<open>on conflict (finding_id) do nothing\<close>: one job per finding.\<close>

definition enqueue_job :: "session \<Rightarrow> nat \<Rightarrow> string \<Rightarrow> act_db \<Rightarrow> act_db" where
  "enqueue_job s n action db =
     (if list_ex (\<lambda>j. jb_finding j = n) (db_jobs db) then db
      else db\<lparr>db_jobs := db_jobs db @
               [\<lparr>jb_id = db_next db, jb_org = se_org s, jb_finding = n, jb_action = action,
                 jb_approver = se_user s, jb_status = ''pending'', jb_attempts = 0, jb_error = None\<rparr>],
              db_next := Suc (db_next db)\<rparr>)"

text \<open>
  \<open>ApproveFinding\<close> in its two halves: what it reads and checks before anything is written,
  and the writes.  \<open>Inl\<close> of the first half ends the call, with an answer or with an error.
\<close>

definition approve_check ::
  "(json \<Rightarrow> string) \<Rightarrow> (instant \<Rightarrow> string \<Rightarrow> instant option) \<Rightarrow> session \<Rightarrow> nat \<Rightarrow> bool \<Rightarrow> act_db
     \<Rightarrow> (act_error + acted) + (row_snapshot option \<times> execution_plan)" where
  "approve_check jt ts s n reviewed db =
     (case map_option fr_status (finding_of s n db) of
        None \<Rightarrow> Inl (Inr not_applied)
      | Some status \<Rightarrow>
          if status = ''approved'' then Inl (Inr (with_created_record s n db not_applied))
          else (let snap = finding_snapshot s n db; plan = plan_for_finding jt ts s n db
                in if requires_review (ep_action plan) (ep_risk plan) reviewed then Inl (Inl ReviewRequired)
                   else (case check_receipt (ep_action plan) (ep_receipt plan) (ep_now plan) of
                           Some e \<Rightarrow> Inl (Inl e)
                         | None \<Rightarrow> Inr (snap, plan))))"

definition approve_write ::
  "session \<Rightarrow> nat \<Rightarrow> bool \<Rightarrow> row_snapshot option \<Rightarrow> execution_plan \<Rightarrow> act_db \<Rightarrow> acted \<times> act_db" where
  "approve_write s n reviewed snap plan db =
     (case update_finding (\<lambda>r. fr_id r = n \<and> visible s db (fr_org r) \<and> fr_status r \<noteq> ''approved'')
             (\<lambda>r. r\<lparr>fr_status := ''approved'', fr_approved_by := Some (se_user s),
                    fr_reviewed := reviewed\<rparr>) db of
        None \<Rightarrow> (with_created_record s n db not_applied, db)
      | Some (_, db1) \<Rightarrow>
          (let acted = with_created_record s n db1 (not_applied\<lparr>ac_applied := True\<rparr>);
               db2 = record_audit s n ''approve_finding'' snap db1;
               db3 = (if executes (ep_action plan) then enqueue_job s n (ep_action plan) db2 else db2)
           in (acted, db3)))"

text \<open>An id the caller sent is \<open>None\<close> when \<open>uuid.Parse\<close> refuses it.\<close>

definition approve_finding ::
  "(json \<Rightarrow> string) \<Rightarrow> (instant \<Rightarrow> string \<Rightarrow> instant option) \<Rightarrow> session \<Rightarrow> nat option \<Rightarrow> bool \<Rightarrow> act_db
     \<Rightarrow> act_error + (acted \<times> act_db)" where
  "approve_finding jt ts s fid reviewed db =
     (case fid of
        None \<Rightarrow> Inr (not_applied, db)
      | Some n \<Rightarrow>
          (case approve_check jt ts s n reviewed db of
             Inl (Inl e) \<Rightarrow> Inl e
           | Inl (Inr acted) \<Rightarrow> Inr (acted, db)
           | Inr (snap, plan) \<Rightarrow> Inr (approve_write s n reviewed snap plan db)))"

section \<open>Rejecting\<close>

definition RejectionsBeforeProductReview :: nat where "RejectionsBeforeProductReview = 3"

definition rejected_like :: "session \<Rightarrow> act_db \<Rightarrow> string \<Rightarrow> string \<Rightarrow> finding_row list" where
  "rejected_like s db profile slug =
     filter (\<lambda>r. fr_profile r = profile \<and> fr_slug r = Some slug \<and> fr_status r = ''rejected''
               \<and> visible s db (fr_org r)) (db_findings db)"

text \<open>
  \<open>array_agg(distinct ...)\<close> without the nulls, which Postgres returns sorted (here by bytes).
\<close>

definition distinct_reasons :: "finding_row list \<Rightarrow> string list" where
  "distinct_reasons rs =
     sort (remdups (map (\<lambda>r. the (fr_reason r)) (filter (\<lambda>r. fr_reason r \<noteq> None) rs)))"

definition flag_for_product_review :: "session \<Rightarrow> string \<Rightarrow> string \<Rightarrow> nat \<Rightarrow> act_db \<Rightarrow> act_db" where
  "flag_for_product_review s profile slug n db =
     (let rs = rejected_like s db profile slug
      in if length rs < RejectionsBeforeProductReview then db
         else if list_ex (\<lambda>f. rv_profile f = profile \<and> rv_slug f = slug) (db_flags db) then db
         else db\<lparr>db_flags := db_flags db @
                  [\<lparr>rv_org = se_org s, rv_by = se_user s, rv_profile = profile, rv_slug = slug,
                    rv_finding = n, rv_count = length rs, rv_reasons = distinct_reasons rs\<rparr>]\<rparr>)"

definition reject_finding :: "session \<Rightarrow> nat option \<Rightarrow> string \<Rightarrow> act_db \<Rightarrow> acted \<times> act_db" where
  "reject_finding s fid reason db =
     (case fid of
        None \<Rightarrow> (not_applied, db)
      | Some n \<Rightarrow>
          (let before = finding_snapshot s n db
           in case update_finding
                (\<lambda>r. fr_id r = n \<and> visible s db (fr_org r) \<and> fr_status r \<noteq> ''rejected'')
                (\<lambda>r. r\<lparr>fr_status := ''rejected'', fr_reason := nullif_empty (btrim reason),
                       fr_snoozed := None\<rparr>) db of
              None \<Rightarrow> (not_applied, db)
            | Some (r, db1) \<Rightarrow>
                (let db2 = (case fr_slug r of
                       None \<Rightarrow> db1
                     | Some slug \<Rightarrow> flag_for_product_review s (fr_profile r) slug n db1)
                 in (not_applied\<lparr>ac_applied := True\<rparr>, record_audit s n ''reject_finding'' before db2))))"

section \<open>Snoozing\<close>

definition MinSnoozeDays :: int where "MinSnoozeDays = 1"
definition MaxSnoozeDays :: int where "MaxSnoozeDays = 365"
definition DefaultSnoozeDays :: int where "DefaultSnoozeDays = 7"

definition clamp_snooze_days :: "int \<Rightarrow> int" where
  "clamp_snooze_days d =
     (if d \<le> 0 then DefaultSnoozeDays
      else if d < MinSnoozeDays then MinSnoozeDays
      else if d > MaxSnoozeDays then MaxSnoozeDays
      else d)"

definition snooze_finding :: "session \<Rightarrow> nat option \<Rightarrow> int \<Rightarrow> act_db \<Rightarrow> acted \<times> act_db" where
  "snooze_finding s fid days db =
     (case fid of
        None \<Rightarrow> (not_applied, db)
      | Some n \<Rightarrow>
          (let before = finding_snapshot s n db;
               til = se_now s + clamp_snooze_days days * day_ns
           in case update_finding (\<lambda>r. fr_id r = n \<and> visible s db (fr_org r))
                (\<lambda>r. r\<lparr>fr_status := ''snoozed'', fr_snoozed := Some til\<rparr>) db of
              None \<Rightarrow> (not_applied, db)
            | Some (r, db1) \<Rightarrow>
                (not_applied\<lparr>ac_applied := fr_snoozed r \<noteq> None, ac_until := fr_snoozed r\<rparr>,
                 record_audit s n ''snooze_finding'' before db1)))"

text \<open>\<open>ExpireSnoozes\<close>: every organisation's deferrals that have run out.\<close>

definition snooze_over :: "instant \<Rightarrow> finding_row \<Rightarrow> bool" where
  "snooze_over at r \<longleftrightarrow> fr_status r = ''snoozed'' \<and> (\<exists>u \<in> set_option (fr_snoozed r). u \<le> at)"

definition expire_snoozes :: "instant \<Rightarrow> act_db \<Rightarrow> nat \<times> act_db" where
  "expire_snoozes at db =
     (length (filter (snooze_over at) (db_findings db)),
      db\<lparr>db_findings := map (\<lambda>r. if snooze_over at r
                               then r\<lparr>fr_status := ''pending'', fr_snoozed := None\<rparr> else r)
                           (db_findings db)\<rparr>)"

section \<open>The dashboard\<close>

record dashboard =
  da_posture :: posture
  da_headline :: string
  da_counts :: severity_counts

definition pending_rows :: "session \<Rightarrow> act_db \<Rightarrow> finding_row list" where
  "pending_rows s db =
     filter (\<lambda>r. fr_status r = ''pending'' \<and> visible s db (fr_org r)) (db_findings db)"

definition days_in_metadata :: "(string \<times> meta) list \<Rightarrow> int option" where
  "days_in_metadata m = (case map_of m ''days_remaining'' of Some (MInt d) \<Rightarrow> Some d | _ \<Rightarrow> None)"

fun posture_rows :: "finding_row list \<Rightarrow> string list \<times> deadline list" where
  "posture_rows [] = ([], [])"
| "posture_rows (r # rs) =
     (let (ss, ds) = posture_rows rs
      in (fr_severity r # ss,
          if fr_signal_kind r = ''deadline'' then
            (case days_in_metadata (fr_signal_meta r) of
               Some d \<Rightarrow> \<lparr>dl_severity = fr_severity r, dl_days = d\<rparr> # ds
             | None \<Rightarrow> ds)
          else ds))"

definition dashboard_of :: "session \<Rightarrow> instant option \<Rightarrow> act_db \<Rightarrow> dashboard" where
  "dashboard_of s last_watched db =
     (let (ss, ds) = posture_rows (pending_rows s db);
          p = compute_posture \<lparr>open_severities = ss, deadlines = ds, assessed = (last_watched \<noteq> None)\<rparr>
      in \<lparr>da_posture = p, da_headline = headline p, da_counts = count_severities ss\<rparr>)"

end
