(* ===== verification/Executor.thy ===== *)
theory Executor
  imports Act_Path
begin

text \<open>
  What happens to a finding without a person: the Analyst writes it and drafts its payload
  (\<open>internal/store/postgres/sweep.go\<close>), the Hands proposes a record (\<open>hands.go\<close>), and the
  Executor creates the record an approval asked for (\<open>executor.go\<close>).
\<close>

section \<open>Creating a record (executor.go)\<close>

record execution =
  en_settled :: bool
  en_record :: "nat option"
  en_table :: string

definition nothing_executed :: execution where
  "nothing_executed = \<lparr>en_settled = False, en_record = None, en_table = []\<rparr>"

definition audit_created ::
  "session \<Rightarrow> nat \<Rightarrow> string \<Rightarrow> string \<Rightarrow> nat \<Rightarrow> row_snapshot \<Rightarrow> act_db \<Rightarrow> act_db" where
  "audit_created s n action tab target after db =
     db\<lparr>db_audit := db_audit db @ [audit_row_for s db n action tab target None (Some after)]\<rparr>"

text \<open>The name a record gets: the payload's, or the sentence the finding was raised with.\<close>

definition record_name :: "(json \<Rightarrow> string) \<Rightarrow> finding_row \<Rightarrow> string" where
  "record_name jt r =
     coalesce (nullif_blank (map_option btrim (payload_text jt r ''name''))) (fr_detected r)"

definition activity_of :: "(json \<Rightarrow> string) \<Rightarrow> session \<Rightarrow> nat \<Rightarrow> finding_row \<Rightarrow> activity_row" where
  "activity_of jt s k r =
     \<lparr>av_id = k, av_profile = fr_profile r, av_org = fr_org r, av_created_by = se_user s,
      av_finding = fr_id r, av_name = record_name jt r,
      av_purpose = payload_text jt r ''purpose'',
      av_legal_basis = payload_text jt r ''legal_basis'',
      av_categories = text_array jt r ''data_categories'',
      av_recipients = text_array jt r ''recipients'',
      av_retention = payload_text jt r ''retention_period''\<rparr>"

definition create_ropa ::
  "(json \<Rightarrow> string) \<Rightarrow> session \<Rightarrow> nat \<Rightarrow> act_db \<Rightarrow> act_error + (execution \<times> act_db)" where
  "create_ropa jt s n db =
     (case find (\<lambda>a. av_finding a = n \<and> visible s db (av_org a)) (db_activities db) of
        Some a \<Rightarrow> Inr (\<lparr>en_settled = False, en_record = Some (av_id a),
                         en_table = ''processing_activities''\<rparr>, db)
      | None \<Rightarrow>
          (case finding_of s n db of
             None \<Rightarrow> Inl RowMissing
           | Some r \<Rightarrow>
               (let a = activity_of jt s (db_next db) r;
                    db1 = db\<lparr>db_activities := db_activities db @ [a], db_next := Suc (db_next db)\<rparr>
                in Inr (\<lparr>en_settled = False, en_record = Some (av_id a),
                         en_table = ''processing_activities''\<rparr>,
                        audit_created s n ''create_ropa'' ''processing_activities'' (av_id a)
                          (ActivitySnap a) db1))))"

text \<open>
  \<open>received_at\<close> is not null in the table, so a payload without one is refused by the insert;
  a text that is not a timestamp fails the cast.
\<close>

definition dsar_of ::
  "(json \<Rightarrow> string) \<Rightarrow> (instant \<Rightarrow> string \<Rightarrow> instant option) \<Rightarrow> session \<Rightarrow> nat \<Rightarrow> finding_row
     \<Rightarrow> act_error + dsar_row" where
  "dsar_of jt ts s k r =
     (case payload_text jt r ''received_at'' of
        None \<Rightarrow> Inl (RowRefused ''received_at'')
      | Some t \<Rightarrow>
          (case ts (se_now s) t of
             None \<Rightarrow> Inl (RowRefused ''received_at'')
           | Some at \<Rightarrow>
               Inr \<lparr>dq_id = k, dq_org = fr_org r, dq_created_by = se_user s, dq_finding = fr_id r,
                    dq_subject = payload_text jt r ''requester'',
                    dq_type = payload_text jt r ''request_type'',
                    dq_handler = payload_text jt r ''handler'', dq_status = ''open'',
                    dq_received = at, dq_due = at + 30 * day_ns\<rparr>))"

definition create_dsar ::
  "(json \<Rightarrow> string) \<Rightarrow> (instant \<Rightarrow> string \<Rightarrow> instant option) \<Rightarrow> session \<Rightarrow> nat \<Rightarrow> act_db
     \<Rightarrow> act_error + (execution \<times> act_db)" where
  "create_dsar jt ts s n db =
     (case find (\<lambda>d. dq_finding d = n \<and> visible s db (dq_org d)) (db_dsars db) of
        Some d \<Rightarrow> Inr (\<lparr>en_settled = False, en_record = Some (dq_id d), en_table = ''dsars''\<rparr>, db)
      | None \<Rightarrow>
          (case finding_of s n db of
             None \<Rightarrow> Inl RowMissing
           | Some r \<Rightarrow>
               (case dsar_of jt ts s (db_next db) r of
                  Inl e \<Rightarrow> Inl e
                | Inr d \<Rightarrow>
                    (let db1 = db\<lparr>db_dsars := db_dsars db @ [d], db_next := Suc (db_next db)\<rparr>
                     in Inr (\<lparr>en_settled = False, en_record = Some (dq_id d), en_table = ''dsars''\<rparr>,
                             audit_created s n ''create_dsar'' ''dsars'' (dq_id d) (DsarSnap d) db1)))))"

text \<open>The two check constraints of the table \<open>ai_systems\<close>.\<close>

definition risk_classes :: "string list" where
  "risk_classes = [''unacceptable'', ''high'', ''limited'', ''minimal'', ''unclassified'']"

definition documentation_states :: "string list" where
  "documentation_states = [''missing'', ''in_progress'', ''complete'']"

definition ai_of :: "(json \<Rightarrow> string) \<Rightarrow> session \<Rightarrow> nat \<Rightarrow> finding_row \<Rightarrow> act_error + ai_row" where
  "ai_of jt s k r =
     (let risk = coalesce (nullif_blank (payload_text jt r ''risk_classification'')) ''unclassified'';
          doc = coalesce (nullif_blank (payload_text jt r ''documentation_status'')) ''missing''
      in if risk \<notin> set risk_classes then Inl (RowRefused ''risk_classification'')
         else if doc \<notin> set documentation_states then Inl (RowRefused ''documentation_status'')
         else Inr \<lparr>ai_id = k, ai_profile = fr_profile r, ai_org = fr_org r, ai_created_by = se_user s,
                   ai_finding = fr_id r, ai_name = record_name jt r,
                   ai_vendor = payload_text jt r ''vendor'',
                   ai_purpose = payload_text jt r ''purpose'', ai_risk = risk,
                   ai_documentation = doc, ai_reviewed_at = se_now s\<rparr>)"

definition create_ai_system ::
  "(json \<Rightarrow> string) \<Rightarrow> session \<Rightarrow> nat \<Rightarrow> act_db \<Rightarrow> act_error + (execution \<times> act_db)" where
  "create_ai_system jt s n db =
     (case find (\<lambda>a. ai_finding a = n \<and> visible s db (ai_org a)) (db_ai db) of
        Some a \<Rightarrow> Inr (\<lparr>en_settled = False, en_record = Some (ai_id a), en_table = ''ai_systems''\<rparr>, db)
      | None \<Rightarrow>
          (case finding_of s n db of
             None \<Rightarrow> Inl RowMissing
           | Some r \<Rightarrow>
               (case ai_of jt s (db_next db) r of
                  Inl e \<Rightarrow> Inl e
                | Inr a \<Rightarrow>
                    (let db1 = db\<lparr>db_ai := db_ai db @ [a], db_next := Suc (db_next db)\<rparr>
                     in Inr (\<lparr>en_settled = False, en_record = Some (ai_id a), en_table = ''ai_systems''\<rparr>,
                             audit_created s n ''create_ai_system'' ''ai_systems'' (ai_id a) (AiSnap a) db1)))))"

definition create_record ::
  "(json \<Rightarrow> string) \<Rightarrow> (instant \<Rightarrow> string \<Rightarrow> instant option) \<Rightarrow> session \<Rightarrow> nat \<Rightarrow> string \<Rightarrow> act_db
     \<Rightarrow> act_error + (execution \<times> act_db)" where
  "create_record jt ts s n action db =
     (if action = ActionCreateROPA then create_ropa jt s n db
      else if action = ActionCreateDSAR then create_dsar jt ts s n db
      else if action = ActionCreateAISystem then create_ai_system jt s n db
      else Inr (nothing_executed, db))"

section \<open>The job (executor.go)\<close>

definition job_of :: "nat \<Rightarrow> act_db \<Rightarrow> executor_job option" where
  "job_of k db = find (\<lambda>j. jb_id j = k) (db_jobs db)"

definition update_job :: "nat \<Rightarrow> (executor_job \<Rightarrow> executor_job) \<Rightarrow> act_db \<Rightarrow> act_db" where
  "update_job k f db = db\<lparr>db_jobs := map (\<lambda>j. if jb_id j = k then f j else j) (db_jobs db)\<rparr>"

definition settle_job :: "executor_job \<Rightarrow> executor_job" where
  "settle_job j = j\<lparr>jb_status := ''done'', jb_attempts := Suc (jb_attempts j), jb_error := None\<rparr>"

text \<open>
  \<open>ExecuteJob\<close>: the session is made of the job's organisation and approver; the claim reads the
  row again under the policy, so a job whose approver has left is not there.
\<close>

definition job_session :: "executor_job \<Rightarrow> instant \<Rightarrow> session" where
  "job_session j at = \<lparr>se_org = jb_org j, se_user = jb_approver j, se_now = at\<rparr>"

definition execute_job ::
  "(json \<Rightarrow> string) \<Rightarrow> (instant \<Rightarrow> string \<Rightarrow> instant option) \<Rightarrow> nat \<Rightarrow> instant \<Rightarrow> act_db
     \<Rightarrow> act_error + (execution \<times> act_db)" where
  "execute_job jt ts k at db =
     (case job_of k db of
        None \<Rightarrow> Inr (nothing_executed, db)
      | Some j \<Rightarrow>
          (let s = job_session j at
           in if \<not> visible s db (jb_org j) then Inr (nothing_executed, db)
              else if jb_status j \<noteq> ''pending'' then Inr (nothing_executed, db)
              else (case create_record jt ts s (jb_finding j) (jb_action j) db of
                      Inl e \<Rightarrow> Inl e
                    | Inr (e, db1) \<Rightarrow>
                        Inr (e\<lparr>en_settled := True\<rparr>, update_job k settle_job db1))))"

definition record_failed_execution :: "nat \<Rightarrow> act_error \<Rightarrow> instant \<Rightarrow> act_db \<Rightarrow> act_db" where
  "record_failed_execution k cause at db =
     (case job_of k db of
        None \<Rightarrow> db
      | Some j \<Rightarrow>
          if visible (job_session j at) db (jb_org j) \<and> jb_status j = ''pending''
          then update_job k (\<lambda>j. j\<lparr>jb_attempts := Suc (jb_attempts j), jb_error := Some cause\<rparr>) db
          else db)"

text \<open>The service's call: a failure is recorded on the row, best effort, and reported.\<close>

definition execute_call ::
  "(json \<Rightarrow> string) \<Rightarrow> (instant \<Rightarrow> string \<Rightarrow> instant option) \<Rightarrow> nat \<Rightarrow> instant \<Rightarrow> act_db
     \<Rightarrow> (act_error + execution) \<times> act_db" where
  "execute_call jt ts k at db =
     (case execute_job jt ts k at db of
        Inl e \<Rightarrow> (Inl e, record_failed_execution k e at db)
      | Inr (e, db') \<Rightarrow> (Inr e, db'))"

section \<open>Proposing a record (hands.go)\<close>

definition HandsSource :: string where "HandsSource = ''hands''"

record plan =
  pn_explanation :: string
  pn_fields :: "prepared_field list"
  pn_left :: "left_for_you list"

definition org_finding :: "string \<Rightarrow> nat \<Rightarrow> act_db \<Rightarrow> finding_row option" where
  "org_finding org n db = find (\<lambda>r. fr_id r = n \<and> fr_org r = org) (db_findings db)"

text \<open>\<open>ApprovalContextFor\<close>: the register comes from the finding's action type, every time.\<close>

definition approval_register :: "string \<Rightarrow> nat option \<Rightarrow> act_db \<Rightarrow> act_error + register" where
  "approval_register org fid db =
     (case fid of None \<Rightarrow> Inl NoSuchFinding
      | Some n \<Rightarrow>
          (case org_finding org n db of None \<Rightarrow> Inl NoSuchFinding
           | Some r \<Rightarrow>
               (case register_for (fr_action r) of
                  None \<Rightarrow> Inl NothingToPrepare | Some reg \<Rightarrow> Inr reg)))"

text \<open>\<open>existing || new\<close> on objects: the right side wins for the keys it carries.\<close>

definition merge_object ::
  "(string \<times> json) list \<Rightarrow> (string \<times> json) list \<Rightarrow> (string \<times> json) list" where
  "merge_object old new = filter (\<lambda>(k, _). k \<notin> fst ` set new) old @ new"

definition enqueued :: "nat \<Rightarrow> act_db \<Rightarrow> bool" where
  "enqueued n db \<longleftrightarrow> list_ex (\<lambda>j. jb_finding j = n) (db_jobs db)"

definition enqueued_in :: "string \<Rightarrow> nat \<Rightarrow> act_db \<Rightarrow> bool" where
  "enqueued_in org n db \<longleftrightarrow> list_ex (\<lambda>j. jb_finding j = n \<and> jb_org j = org) (db_jobs db)"

definition prepare_record ::
  "string \<Rightarrow> nat option \<Rightarrow> register \<Rightarrow> plan \<Rightarrow> instant \<Rightarrow> act_db \<Rightarrow> act_error + act_db" where
  "prepare_record org fid reg p at db =
     (case fid of None \<Rightarrow> Inl NoSuchFinding
      | Some n \<Rightarrow>
          if enqueued_in org n db then Inl AlreadyEnqueued
          else
            (case update_finding (\<lambda>r. fr_id r = n \<and> fr_org r = org \<and> \<not> enqueued_in org n db)
               (\<lambda>r. r\<lparr>fr_payload := Some (merge_object (coalesce (fr_payload r) [])
                                             (payload_of reg (pn_fields p))),
                      fr_plan := Some \<lparr>pl_at = at, pl_source = HandsSource,
                        pl_explanation = pn_explanation p, pl_fields = pn_fields p,
                        pl_left = pn_left p\<rparr>\<rparr>) db of
               None \<Rightarrow> Inl AlreadyEnqueued
             | Some (_, db') \<Rightarrow> Inr db'))"

text \<open>The service's \<open>PrepareRecord\<close>: the register read again, the columns checked, the write.\<close>

definition prepare_call ::
  "string \<Rightarrow> nat option \<Rightarrow> (string \<Rightarrow> bool) \<Rightarrow> plan \<Rightarrow> instant \<Rightarrow> act_db \<Rightarrow> act_error + act_db" where
  "prepare_call org fid known p at db =
     (case approval_register org fid db of
        Inl e \<Rightarrow> Inl e
      | Inr reg \<Rightarrow>
          (case validate_prepared reg (pn_fields p) known of
             Some e \<Rightarrow> Inl (InvalidPlan e)
           | None \<Rightarrow> prepare_record org fid reg p at db))"

section \<open>The Analyst's writes (sweep.go)\<close>

text \<open>\<open>openSignalsToAnalyse\<close>: an open row as the Analyst reads it.\<close>

definition analysable_of :: "wf_row \<Rightarrow> analysed_signal" where
  "analysable_of w =
     \<lparr>as_id = wf_id w, as_kind = wf_kind w, as_title = wf_title w, as_dedup_key = wf_dedup w,
      as_severity = wf_severity w, days_remaining = days_in_metadata (wf_meta w),
      as_metadata = wf_meta w\<rparr>"

definition open_signals :: "string \<Rightarrow> signal_db \<Rightarrow> wf_row list" where
  "open_signals pid sdb = filter (\<lambda>w. wf_profile w = pid \<and> wf_status w = ''open'') (wf_rows sdb)"

definition cited_obligation_of :: "cited_obligation list \<Rightarrow> string \<Rightarrow> cited_obligation option" where
  "cited_obligation_of corpus slug =
     (if slug = [] then None else find (\<lambda>ob. co_slug ob = slug) corpus)"

definition new_finding ::
  "string \<Rightarrow> nat \<Rightarrow> wf_row \<Rightarrow> cited_obligation \<Rightarrow> sweep_finding \<Rightarrow> instant \<Rightarrow> finding_row" where
  "new_finding pid k w ob f at =
     \<lparr>fr_id = k, fr_profile = pid, fr_org = wf_org w, fr_signal = wf_id w, fr_obligation = co_id ob,
      fr_slug = Some (coalesce (wf_slug w) []), fr_detected = fd_detected f,
      fr_severity = fd_severity f, fr_proposed = fd_proposed_action f,
      fr_regulatory = nullif_empty (fd_regulatory_obligation f),
      fr_url = nullif_empty (fd_citation_url f), fr_context = fd_supporting_context f,
      fr_effort = fd_effort f, fr_action = fd_action_type f, fr_status = ''pending'',
      fr_created = at, fr_signal_kind = wf_kind w, fr_signal_dedup = wf_dedup w,
      fr_signal_meta = wf_meta w, fr_payload = None, fr_plan = None, fr_approved_by = None,
      fr_reviewed = False, fr_reason = None, fr_snoozed = None\<rparr>"

definition refresh_finding :: "wf_row \<Rightarrow> cited_obligation \<Rightarrow> sweep_finding \<Rightarrow> finding_row \<Rightarrow> finding_row" where
  "refresh_finding w ob f r =
     r\<lparr>fr_obligation := co_id ob, fr_slug := Some (coalesce (wf_slug w) []),
       fr_severity := fd_severity f,
       fr_regulatory := nullif_empty (fd_regulatory_obligation f),
       fr_url := nullif_empty (fd_citation_url f), fr_context := fd_supporting_context f,
       fr_action := fd_action_type f, fr_signal_kind := wf_kind w, fr_signal_dedup := wf_dedup w,
       fr_signal_meta := wf_meta w\<rparr>"

definition write_finding ::
  "string \<Rightarrow> wf_row \<Rightarrow> cited_obligation \<Rightarrow> sweep_finding \<Rightarrow> instant \<Rightarrow> act_db \<Rightarrow> act_db" where
  "write_finding pid w ob f at db =
     (case update_finding (\<lambda>r. fr_signal r = wf_id w) (refresh_finding w ob f) db of
        Some (_, db') \<Rightarrow> db'
      | None \<Rightarrow> db\<lparr>db_findings := db_findings db @ [new_finding pid (db_next db) w ob f at],
                   db_next := Suc (db_next db)\<rparr>)"

definition draft_applies :: "nat \<Rightarrow> act_db \<Rightarrow> finding_row \<Rightarrow> bool" where
  "draft_applies sig db r \<longleftrightarrow>
     fr_signal r = sig \<and> fr_status r \<noteq> ''approved'' \<and> fr_status r \<noteq> ''rejected''
     \<and> coalesce (fr_payload r) [] = [] \<and> fr_plan r = None \<and> \<not> enqueued (fr_id r) db"

definition draft_payload ::
  "(string \<Rightarrow> string) \<Rightarrow> wf_row \<Rightarrow> string \<Rightarrow> draft_fact list \<Rightarrow> instant \<Rightarrow> act_db \<Rightarrow> act_db" where
  "draft_payload uni w action facts at db =
     (case register_for action of
        None \<Rightarrow> db
      | Some reg \<Rightarrow>
          (let d = draft_from_facts uni reg facts
           in if draft_empty d then db
              else if validate_prepared reg (dr_fields d) (\<lambda>k. k \<in> df_key ` set facts) \<noteq> None then db
              else (case update_finding (draft_applies (wf_id w) db)
                      (\<lambda>r. r\<lparr>fr_payload := Some (payload_of reg (dr_fields d)),
                             fr_plan := Some \<lparr>pl_at = at, pl_source = DraftSource,
                               pl_explanation = explanation d reg, pl_fields = dr_fields d,
                               pl_left = dr_left d\<rparr>\<rparr>) db of
                      None \<Rightarrow> db
                    | Some (_, db') \<Rightarrow> db')))"

fun analyse_signals ::
  "(string \<Rightarrow> string) \<Rightarrow> string \<Rightarrow> string list \<Rightarrow> cited_obligation list \<Rightarrow> draft_fact list \<Rightarrow> instant
     \<Rightarrow> wf_row list \<Rightarrow> act_db \<Rightarrow> nat \<times> act_db" where
  "analyse_signals uni pid cats corpus facts at [] db = (0, db)"
| "analyse_signals uni pid cats corpus facts at (w # ws) db =
     (case cited_obligation_of corpus (coalesce (wf_slug w) []) of
        None \<Rightarrow> analyse_signals uni pid cats corpus facts at ws db
      | Some ob \<Rightarrow>
          (let f = convert uni (analysable_of w) ob cats;
               db1 = write_finding pid w ob f at db;
               db2 = draft_payload uni w (fd_action_type f) facts at db1;
               (n, db3) = analyse_signals uni pid cats corpus facts at ws db2
           in (Suc n, db3)))"

text \<open>\<open>runAnalyst\<close>: the newest profile's open signals; nothing without a profile.\<close>

definition run_analyst ::
  "(string \<Rightarrow> string) \<Rightarrow> profile option \<Rightarrow> cited_obligation list \<Rightarrow> draft_fact list \<Rightarrow> instant
     \<Rightarrow> signal_db \<Rightarrow> act_db \<Rightarrow> nat \<times> act_db" where
  "run_analyst uni prof corpus facts at sdb db =
     (case prof of
        None \<Rightarrow> (0, db)
      | Some p \<Rightarrow> analyse_signals uni (pf_id p) (data_categories p) corpus facts at
                    (open_signals (pf_id p) sdb) db)"

end
