(* ===== verification/Act_Lifecycle.thy ===== *)
theory Act_Lifecycle
  imports Executor
begin

text \<open>
  The life of a finding as a transition system: every operation that touches the tables of
  \<open>Act_Path\<close> is a step, the transactions running one after the other, and the invariant that
  ties a compliance record to the decision it rests on holds in every reachable state.
\<close>

section \<open>Steps\<close>

inductive act_step ::
  "(json \<Rightarrow> string) \<Rightarrow> (instant \<Rightarrow> string \<Rightarrow> instant option) \<Rightarrow> act_db \<Rightarrow> act_db \<Rightarrow> bool"
  for jt ts where
  approve: "approve_finding jt ts s fid reviewed db = Inr (acted, db') \<Longrightarrow> act_step jt ts db db'"
| reject: "reject_finding s fid reason db = (acted, db') \<Longrightarrow> act_step jt ts db db'"
| snooze: "snooze_finding s fid days db = (acted, db') \<Longrightarrow> act_step jt ts db db'"
| expire: "expire_snoozes at db = (n, db') \<Longrightarrow> act_step jt ts db db'"
| prepare: "prepare_call org fid known p at db = Inr db' \<Longrightarrow> act_step jt ts db db'"
| execute: "execute_call jt ts k at db = (res, db') \<Longrightarrow> act_step jt ts db db'"
| analyse: "run_analyst uni prof corpus facts at sdb db = (n, db') \<Longrightarrow> act_step jt ts db db'"
| members: "act_step jt ts db (db\<lparr>db_members := ms\<rparr>)"

definition act_init :: "act_db \<Rightarrow> bool" where
  "act_init db \<longleftrightarrow> db_findings db = [] \<and> db_audit db = [] \<and> db_jobs db = [] \<and> db_flags db = []
     \<and> db_activities db = [] \<and> db_dsars db = [] \<and> db_ai db = []"

text \<open>What a row of any register shares with the others.\<close>

record created =
  cr_table :: string
  cr_id :: nat
  cr_org :: string
  cr_finding :: nat
  cr_by :: string

definition created_rows :: "act_db \<Rightarrow> created list" where
  "created_rows db =
     map (\<lambda>a. \<lparr>cr_table = ''processing_activities'', cr_id = av_id a, cr_org = av_org a,
                cr_finding = av_finding a, cr_by = av_created_by a\<rparr>) (db_activities db)
     @ map (\<lambda>d. \<lparr>cr_table = ''dsars'', cr_id = dq_id d, cr_org = dq_org d,
                cr_finding = dq_finding d, cr_by = dq_created_by d\<rparr>) (db_dsars db)
     @ map (\<lambda>a. \<lparr>cr_table = ''ai_systems'', cr_id = ai_id a, cr_org = ai_org a,
                cr_finding = ai_finding a, cr_by = ai_created_by a\<rparr>) (db_ai db)"

section \<open>The invariant\<close>

text \<open>An audit row that says a person approved the finding, and the finding as it then was.\<close>

definition approval_of :: "audit_row \<Rightarrow> nat \<Rightarrow> string \<Rightarrow> string \<Rightarrow> finding_row \<Rightarrow> bool" where
  "approval_of a n org user f \<longleftrightarrow>
     au_action a = ''approve_finding'' \<and> au_finding a = n \<and> au_org a = org
     \<and> au_user a = user \<and> au_approver a = user \<and> au_after a = Some (FindingSnap f)
     \<and> fr_status f = ''approved''"

definition checked_at ::
  "(json \<Rightarrow> string) \<Rightarrow> (instant \<Rightarrow> string \<Rightarrow> instant option) \<Rightarrow> string \<Rightarrow> finding_row \<Rightarrow> instant \<Rightarrow> bool" where
  "checked_at jt ts action f at \<longleftrightarrow>
     (let plan = plan_of_row jt ts at f
      in \<not> requires_review action (ep_risk plan) (fr_reviewed f)
         \<and> check_receipt action (ep_receipt plan) at = None)"

definition job_backed ::
  "(json \<Rightarrow> string) \<Rightarrow> (instant \<Rightarrow> string \<Rightarrow> instant option) \<Rightarrow> act_db \<Rightarrow> executor_job \<Rightarrow> bool" where
  "job_backed jt ts db j \<longleftrightarrow>
     (\<exists>r \<in> set (db_findings db). fr_id r = jb_finding j \<and> fr_org r = jb_org j
        \<and> (\<exists>a \<in> set (db_audit db). \<exists>f. approval_of a (jb_finding j) (jb_org j) (jb_approver j) f
             \<and> fr_payload f = fr_payload r \<and> checked_at jt ts (jb_action j) f (au_at a)))"

definition record_backed :: "act_db \<Rightarrow> created \<Rightarrow> bool" where
  "record_backed db c \<longleftrightarrow>
     (\<exists>j \<in> set (db_jobs db). jb_status j = ''done'' \<and> jb_finding j = cr_finding c
        \<and> jb_org j = cr_org c \<and> jb_approver j = cr_by c)
     \<and> (\<exists>a \<in> set (db_audit db). au_table a = cr_table c \<and> au_target a = cr_id c
          \<and> au_finding a = cr_finding c \<and> au_org a = cr_org c \<and> au_approver a = cr_by c)"

definition ai_reviewed :: "act_db \<Rightarrow> ai_row \<Rightarrow> bool" where
  "ai_reviewed db x \<longleftrightarrow>
     (\<exists>a \<in> set (db_audit db). \<exists>f. approval_of a (ai_finding x) (ai_org x) (ai_created_by x) f
        \<and> (ai_risk x = RiskHigh \<longrightarrow> fr_reviewed f))"

definition dsar_received :: "(instant \<Rightarrow> string \<Rightarrow> instant option) \<Rightarrow> act_db \<Rightarrow> dsar_row \<Rightarrow> bool" where
  "dsar_received ts db x \<longleftrightarrow>
     (\<exists>a \<in> set (db_audit db). \<exists>f t at u. approval_of a (dq_finding x) (dq_org x) (dq_created_by x) f
        \<and> ts at t = Some (dq_received x) \<and> ts (au_at a) t = Some u \<and> u \<le> au_at a)
     \<and> dq_due x = dq_received x + 30 * day_ns"

definition fresh_ids :: "act_db \<Rightarrow> bool" where
  "fresh_ids db \<longleftrightarrow> distinct (map fr_id (db_findings db)) \<and> (\<forall>r \<in> set (db_findings db). fr_id r < db_next db)"

definition act_inv ::
  "(json \<Rightarrow> string) \<Rightarrow> (instant \<Rightarrow> string \<Rightarrow> instant option) \<Rightarrow> act_db \<Rightarrow> bool" where
  "act_inv jt ts db \<longleftrightarrow>
     fresh_ids db
     \<and> distinct (map jb_id (db_jobs db)) \<and> (\<forall>j \<in> set (db_jobs db). jb_id j < db_next db)
     \<and> distinct (map jb_finding (db_jobs db))
     \<and> (\<forall>j \<in> set (db_jobs db). job_backed jt ts db j)
     \<and> distinct (map cr_finding (created_rows db))
     \<and> (\<forall>c \<in> set (created_rows db). record_backed db c)
     \<and> (\<forall>x \<in> set (db_ai db). ai_reviewed db x)
     \<and> (\<forall>x \<in> set (db_dsars db). dsar_received ts db x)"

lemma act_inv_fresh: "act_inv jt ts db \<Longrightarrow> fresh_ids db"
  unfolding act_inv_def by blast

lemma act_inv_jobs:
  "act_inv jt ts db \<Longrightarrow> j \<in> set (db_jobs db) \<Longrightarrow> job_backed jt ts db j"
  "act_inv jt ts db \<Longrightarrow> j \<in> set (db_jobs db) \<Longrightarrow> jb_id j < db_next db"
  "act_inv jt ts db \<Longrightarrow> distinct (map jb_finding (db_jobs db))"
  unfolding act_inv_def by blast+

lemma act_inv_records:
  "act_inv jt ts db \<Longrightarrow> c \<in> set (created_rows db) \<Longrightarrow> record_backed db c"
  "act_inv jt ts db \<Longrightarrow> distinct (map cr_finding (created_rows db))"
  "act_inv jt ts db \<Longrightarrow> x \<in> set (db_ai db) \<Longrightarrow> ai_reviewed db x"
  "act_inv jt ts db \<Longrightarrow> y \<in> set (db_dsars db) \<Longrightarrow> dsar_received ts db y"
  unfolding act_inv_def by blast+

lemma act_inv_init: "act_init db \<Longrightarrow> act_inv jt ts db"
  by (simp add: act_init_def act_inv_def created_rows_def fresh_ids_def)

section \<open>Steps that leave jobs and records alone\<close>

definition job_key :: "executor_job \<Rightarrow> nat \<times> string \<times> nat \<times> string \<times> string \<times> string" where
  "job_key j = (jb_id j, jb_org j, jb_finding j, jb_action j, jb_approver j, jb_status j)"

text \<open>
  The findings of the new state: the old ones, each with its id and organisation, and with its
  payload where a job exists for it; and new ones under fresh ids.
\<close>

definition kept_in :: "act_db \<Rightarrow> act_db \<Rightarrow> finding_row \<Rightarrow> finding_row \<Rightarrow> bool" where
  "kept_in db db' r r' \<longleftrightarrow> r' \<in> set (db_findings db') \<and> fr_id r' = fr_id r \<and> fr_org r' = fr_org r
     \<and> (enqueued (fr_id r) db \<longrightarrow> fr_payload r' = fr_payload r)"

definition keeps_findings :: "act_db \<Rightarrow> act_db \<Rightarrow> bool" where
  "keeps_findings db db' \<longleftrightarrow>
     (\<forall>r \<in> set (db_findings db). \<exists>r'. kept_in db db' r r') \<and> (fresh_ids db \<longrightarrow> fresh_ids db')"

definition soft :: "act_db \<Rightarrow> act_db \<Rightarrow> bool" where
  "soft db db' \<longleftrightarrow>
     keeps_findings db db' \<and> map job_key (db_jobs db') = map job_key (db_jobs db)
     \<and> db_activities db' = db_activities db \<and> db_dsars db' = db_dsars db \<and> db_ai db' = db_ai db
     \<and> set (db_audit db) \<subseteq> set (db_audit db') \<and> db_next db \<le> db_next db'"

lemma job_key_simps [simp]:
  "job_key (j\<lparr>jb_attempts := n, jb_error := e\<rparr>) = job_key j"
  "job_key (j\<lparr>jb_attempts := n\<rparr>) = job_key j"
  by (simp_all add: job_key_def)

lemma job_keys_map:
  assumes "map job_key js' = map job_key js"
  shows "map jb_id js' = map jb_id js" and "map jb_finding js' = map jb_finding js"
proof -
  have "map jb_id js = map (\<lambda>k. fst k) (map job_key js)"
    "map jb_finding js = map (\<lambda>k. fst (snd (snd k))) (map job_key js)" for js
    by (simp_all add: job_key_def comp_def)
  with assms show "map jb_id js' = map jb_id js" "map jb_finding js' = map jb_finding js" by metis+
qed

lemma job_keys_mem:
  assumes "map job_key js' = map job_key js" and "j' \<in> set js'"
  shows "\<exists>j \<in> set js. job_key j = job_key j'"
proof -
  have "job_key j' \<in> set (map job_key js')" using assms(2) by simp
  with assms(1) show ?thesis by auto
qed

lemma enqueued_iff: "enqueued n db \<longleftrightarrow> n \<in> jb_finding ` set (db_jobs db)"
  by (auto simp: enqueued_def list_ex_iff)

lemma soft_enqueued: "soft db db' \<Longrightarrow> enqueued n db' = enqueued n db"
  unfolding enqueued_iff soft_def using job_keys_map(2) by (metis list.set_map)

lemma keeps_findings_trans:
  assumes "keeps_findings a b" and "keeps_findings b c" and "\<And>n. enqueued n b = enqueued n a"
  shows "keeps_findings a c"
proof -
  have "\<exists>r''. kept_in a c r r''" if "r \<in> set (db_findings a)" for r
  proof -
    from assms(1) that obtain r' where r': "kept_in a b r r'" unfolding keeps_findings_def by blast
    then have "r' \<in> set (db_findings b)" by (simp add: kept_in_def)
    with assms(2) obtain r'' where "kept_in b c r' r''" unfolding keeps_findings_def by blast
    with r' assms(3) have "kept_in a c r r''" by (simp add: kept_in_def)
    then show ?thesis ..
  qed
  with assms(1,2) show ?thesis by (simp add: keeps_findings_def)
qed

lemma soft_trans: "soft a b \<Longrightarrow> soft b c \<Longrightarrow> soft a c"
proof -
  assume ab: "soft a b" and bc: "soft b c"
  have "\<And>n. enqueued n b = enqueued n a" using ab by (rule soft_enqueued)
  with ab bc have "keeps_findings a c"
    unfolding soft_def using keeps_findings_trans by blast
  with ab bc show ?thesis unfolding soft_def by auto
qed

lemma job_backed_soft:
  assumes "soft db db'" and "job_backed jt ts db j" and "job_key j' = job_key j" and "j \<in> set (db_jobs db)"
  shows "job_backed jt ts db' j'"
proof -
  from assms(2) obtain r a f where r: "r \<in> set (db_findings db)" "fr_id r = jb_finding j"
    "fr_org r = jb_org j" "a \<in> set (db_audit db)"
    "approval_of a (jb_finding j) (jb_org j) (jb_approver j) f"
    "fr_payload f = fr_payload r" "checked_at jt ts (jb_action j) f (au_at a)"
    unfolding job_backed_def by blast
  from assms(4) r(2) have enq: "enqueued (fr_id r) db" by (simp add: enqueued_iff)
  from assms(1) r(1) obtain r' where r': "r' \<in> set (db_findings db')" "fr_id r' = fr_id r"
    "fr_org r' = fr_org r" "enqueued (fr_id r) db \<longrightarrow> fr_payload r' = fr_payload r"
    unfolding soft_def keeps_findings_def kept_in_def by blast
  from assms(1) r(4) have a: "a \<in> set (db_audit db')" unfolding soft_def by blast
  from assms(3) have key: "jb_finding j' = jb_finding j" "jb_org j' = jb_org j"
    "jb_approver j' = jb_approver j" "jb_action j' = jb_action j" by (simp_all add: job_key_def)
  show ?thesis
    unfolding job_backed_def
    by (rule bexI [OF _ r'(1)]) (use r r' a key enq in auto)
qed

lemma record_backed_soft:
  assumes "soft db db'" and "record_backed db c"
  shows "record_backed db' c"
proof -
  from assms(2) obtain j a where j: "j \<in> set (db_jobs db)" "jb_status j = ''done''"
    "jb_finding j = cr_finding c" "jb_org j = cr_org c" "jb_approver j = cr_by c"
    and a: "a \<in> set (db_audit db)" "au_table a = cr_table c" "au_target a = cr_id c"
      "au_finding a = cr_finding c" "au_org a = cr_org c" "au_approver a = cr_by c"
    unfolding record_backed_def by blast
  from assms(1) have "map job_key (db_jobs db) = map job_key (db_jobs db')" by (simp add: soft_def)
  from job_keys_mem [OF this j(1)] obtain j' where "j' \<in> set (db_jobs db')" "job_key j' = job_key j"
    by blast
  moreover from assms(1) a(1) have "a \<in> set (db_audit db')" unfolding soft_def by blast
  ultimately show ?thesis
    unfolding record_backed_def using j a by (auto simp: job_key_def)
qed

lemma ai_reviewed_mono:
  "set (db_audit db) \<subseteq> set (db_audit db') \<Longrightarrow> ai_reviewed db x \<Longrightarrow> ai_reviewed db' x"
  unfolding ai_reviewed_def by blast

lemma dsar_received_mono:
  "set (db_audit db) \<subseteq> set (db_audit db') \<Longrightarrow> dsar_received ts db x \<Longrightarrow> dsar_received ts db' x"
  unfolding dsar_received_def by blast

lemma act_inv_soft:
  assumes "act_inv jt ts db" and "soft db db'"
  shows "act_inv jt ts db'"
proof -
  from assms(2) have keys: "map job_key (db_jobs db') = map job_key (db_jobs db)"
    and rec: "created_rows db' = created_rows db" "db_ai db' = db_ai db" "db_dsars db' = db_dsars db"
    and audit: "set (db_audit db) \<subseteq> set (db_audit db')" and grow: "db_next db \<le> db_next db'"
    by (auto simp: soft_def created_rows_def)
  have jobs: "job_backed jt ts db' j'" if "j' \<in> set (db_jobs db')" for j'
  proof -
    from job_keys_mem [OF keys that] obtain j where "j \<in> set (db_jobs db)" "job_key j = job_key j'" by blast
    with assms(1) show ?thesis
      using job_backed_soft [OF assms(2), of jt ts j j'] by (simp add: act_inv_def)
  qed
  have ids: "jb_id j' < db_next db'" if "j' \<in> set (db_jobs db')" for j'
  proof -
    from job_keys_mem [OF keys that] obtain j where "j \<in> set (db_jobs db)" "job_key j = job_key j'" by blast
    with assms(1) grow show ?thesis by (auto simp: act_inv_def job_key_def)
  qed
  have fresh: "fresh_ids db'"
    using assms by (simp add: act_inv_def soft_def keeps_findings_def)
  from assms(1) show ?thesis
    unfolding act_inv_def rec job_keys_map [OF keys]
    using jobs ids fresh record_backed_soft [OF assms(2)] ai_reviewed_mono [OF audit]
      dsar_received_mono [OF audit] by blast
qed

section \<open>The soft operations\<close>

lemma kept_in_same:
  "db_findings db' = db_findings db \<Longrightarrow> r \<in> set (db_findings db) \<Longrightarrow> kept_in db db' r r"
  by (simp add: kept_in_def)

lemma soft_same_findings:
  assumes "db_findings db' = db_findings db" and "map job_key (db_jobs db') = map job_key (db_jobs db)"
    and "db_activities db' = db_activities db" and "db_dsars db' = db_dsars db" and "db_ai db' = db_ai db"
    and "set (db_audit db) \<subseteq> set (db_audit db')" and "db_next db' = db_next db"
  shows "soft db db'"
proof -
  have "fresh_ids db' = fresh_ids db" using assms by (simp add: fresh_ids_def)
  then show ?thesis
    using assms unfolding soft_def keeps_findings_def by (auto intro: kept_in_same)
qed

lemma soft_refl: "soft db db"
  by (rule soft_same_findings) simp_all

lemma soft_audit: "soft db (db\<lparr>db_audit := db_audit db @ xs\<rparr>)"
  by (rule soft_same_findings) simp_all

lemma soft_map:
  assumes "\<And>r. r \<in> set (db_findings db) \<Longrightarrow> fr_id (g r) = fr_id r \<and> fr_org (g r) = fr_org r
      \<and> (enqueued (fr_id r) db \<longrightarrow> fr_payload (g r) = fr_payload r)"
  shows "soft db (db\<lparr>db_findings := map g (db_findings db)\<rparr>)"
proof -
  let ?db = "db\<lparr>db_findings := map g (db_findings db)\<rparr>"
  have ids: "map fr_id (map g (db_findings db)) = map fr_id (db_findings db)"
    using assms by simp
  have "kept_in db ?db r (g r)" if "r \<in> set (db_findings db)" for r
    using assms [OF that] that by (simp add: kept_in_def)
  moreover have "fresh_ids db \<Longrightarrow> fresh_ids ?db"
    using ids assms by (simp add: fresh_ids_def comp_def del: map_map)
  ultimately show ?thesis
    unfolding soft_def keeps_findings_def by auto
qed

lemma soft_update:
  assumes "update_finding P f db = Some (r, db')"
    and "\<And>r. r \<in> set (db_findings db) \<Longrightarrow> P r \<Longrightarrow> fr_id (f r) = fr_id r \<and> fr_org (f r) = fr_org r
      \<and> (enqueued (fr_id r) db \<longrightarrow> fr_payload (f r) = fr_payload r)"
  shows "soft db db'"
proof -
  from assms(1) have "db' = db\<lparr>db_findings := map (\<lambda>r. if P r then f r else r) (db_findings db)\<rparr>"
    by (auto simp: update_finding_def split: option.splits)
  moreover have "soft db (db\<lparr>db_findings := map (\<lambda>r. if P r then f r else r) (db_findings db)\<rparr>)"
    by (rule soft_map) (use assms(2) in auto)
  ultimately show ?thesis by simp
qed

lemma soft_insert:
  assumes "fr_id r = db_next db"
  shows "soft db (db\<lparr>db_findings := db_findings db @ [r], db_next := Suc (db_next db)\<rparr>)"
proof -
  let ?db = "db\<lparr>db_findings := db_findings db @ [r], db_next := Suc (db_next db)\<rparr>"
  have "kept_in db ?db x x" if "x \<in> set (db_findings db)" for x
    using that by (simp add: kept_in_def)
  moreover have "fresh_ids db \<Longrightarrow> fresh_ids ?db"
    using assms by (auto simp: fresh_ids_def less_Suc_eq)
  ultimately show ?thesis unfolding soft_def keeps_findings_def by auto
qed

lemma soft_record_audit: "soft db (record_audit s n action before db)"
  unfolding record_audit_def by (rule soft_audit)

lemma soft_flag: "soft db (flag_for_product_review s p slug n db)"
  by (rule soft_same_findings) (simp_all add: flag_for_product_review_def Let_def)

lemma soft_reject: "reject_finding s fid reason db = (acted, db') \<Longrightarrow> soft db db'"
proof (cases fid)
  case None
  then show "reject_finding s fid reason db = (acted, db') \<Longrightarrow> soft db db'"
    by (simp add: reject_finding_def soft_refl)
next
  case (Some n)
  assume rej: "reject_finding s fid reason db = (acted, db')"
  let ?P = "\<lambda>r. fr_id r = n \<and> visible s db (fr_org r) \<and> fr_status r \<noteq> ''rejected''"
  let ?f = "\<lambda>r. r\<lparr>fr_status := ''rejected'', fr_reason := nullif_empty (btrim reason), fr_snoozed := None\<rparr>"
  show "soft db db'"
  proof (cases "update_finding ?P ?f db")
    case None
    with rej Some show ?thesis by (simp add: reject_finding_def soft_refl)
  next
    case (Some rdb)
    obtain r db1 where rdb: "rdb = (r, db1)" by fastforce
    have "soft db db1" by (rule soft_update [OF Some [unfolded rdb]]) simp
    moreover have "soft db1 (case fr_slug r of None \<Rightarrow> db1
        | Some slug \<Rightarrow> flag_for_product_review s (fr_profile r) slug n db1)" (is "soft db1 ?db2")
      by (simp add: soft_refl soft_flag split: option.split)
    moreover have "soft ?db2 db'"
      using rej Some rdb \<open>fid = Some n\<close> by (auto simp: reject_finding_def soft_record_audit)
    ultimately show ?thesis by (blast intro: soft_trans)
  qed
qed

lemma soft_snooze: "snooze_finding s fid days db = (acted, db') \<Longrightarrow> soft db db'"
proof (cases fid)
  case None
  then show "snooze_finding s fid days db = (acted, db') \<Longrightarrow> soft db db'"
    by (simp add: snooze_finding_def soft_refl)
next
  case (Some n)
  assume sn: "snooze_finding s fid days db = (acted, db')"
  let ?til = "se_now s + clamp_snooze_days days * day_ns"
  let ?P = "\<lambda>r. fr_id r = n \<and> visible s db (fr_org r)"
  let ?f = "\<lambda>r. r\<lparr>fr_status := ''snoozed'', fr_snoozed := Some ?til\<rparr>"
  show "soft db db'"
  proof (cases "update_finding ?P ?f db")
    case None
    with sn Some show ?thesis by (simp add: snooze_finding_def soft_refl)
  next
    case (Some rdb)
    obtain r db1 where rdb: "rdb = (r, db1)" by fastforce
    have "soft db db1" by (rule soft_update [OF Some [unfolded rdb]]) simp
    moreover have "soft db1 db'"
      using sn Some rdb \<open>fid = Some n\<close> by (auto simp: snooze_finding_def soft_record_audit)
    ultimately show ?thesis by (rule soft_trans)
  qed
qed

lemma soft_expire: "expire_snoozes at db = (n, db') \<Longrightarrow> soft db db'"
  unfolding expire_snoozes_def prod.inject by (elim conjE, hypsubst) (rule soft_map, simp)

lemma finding_unique:
  "fresh_ids db \<Longrightarrow> r \<in> set (db_findings db) \<Longrightarrow> r' \<in> set (db_findings db) \<Longrightarrow>
     fr_id r = fr_id r' \<Longrightarrow> r = r'"
  by (auto simp: fresh_ids_def distinct_map dest: inj_onD)

lemma enqueued_same_org:
  assumes "act_inv jt ts db" and "r \<in> set (db_findings db)" and "enqueued (fr_id r) db"
  shows "enqueued_in (fr_org r) (fr_id r) db"
proof -
  from assms(3) obtain j where j: "j \<in> set (db_jobs db)" "jb_finding j = fr_id r"
    by (auto simp: enqueued_iff)
  with assms(1) have "job_backed jt ts db j" by (simp add: act_inv_def)
  then obtain r' where "r' \<in> set (db_findings db)" "fr_id r' = jb_finding j" "fr_org r' = jb_org j"
    unfolding job_backed_def by blast
  with j assms finding_unique [of db r' r] have "jb_org j = fr_org r" by (simp add: act_inv_def)
  with j show ?thesis by (auto simp: enqueued_in_def list_ex_iff)
qed

lemma soft_prepare:
  assumes "act_inv jt ts db" and "prepare_call org fid known p at db = Inr db'"
  shows "soft db db'"
proof -
  from assms(2) obtain reg where "prepare_record org fid reg p at db = Inr db'"
    by (auto simp: prepare_call_def split: sum.splits option.splits)
  then obtain n r where n: "\<not> enqueued_in org n db" and
    upd: "update_finding (\<lambda>r. fr_id r = n \<and> fr_org r = org \<and> \<not> enqueued_in org n db)
        (\<lambda>r. r\<lparr>fr_payload := Some (merge_object (coalesce (fr_payload r) []) (payload_of reg (pn_fields p))),
               fr_plan := Some \<lparr>pl_at = at, pl_source = HandsSource, pl_explanation = pn_explanation p,
                 pl_fields = pn_fields p, pl_left = pn_left p\<rparr>\<rparr>) db = Some (r, db')"
    by (auto simp: prepare_record_def split: option.splits if_splits)
  show ?thesis
    by (rule soft_update [OF upd]) (use n enqueued_same_org [OF assms(1)] in auto)
qed

lemma soft_write_finding: "soft db (write_finding pid w ob f at db)"
proof (cases "update_finding (\<lambda>r. fr_signal r = wf_id w) (refresh_finding w ob f) db")
  case None
  then show ?thesis by (simp add: write_finding_def soft_insert new_finding_def)
next
  case (Some rdb)
  obtain r db' where "rdb = (r, db')" by fastforce
  with Some have "update_finding (\<lambda>r. fr_signal r = wf_id w) (refresh_finding w ob f) db = Some (r, db')"
    by simp
  then have "soft db db'" by (rule soft_update) (simp add: refresh_finding_def)
  with Some \<open>rdb = (r, db')\<close> show ?thesis by (simp add: write_finding_def)
qed

lemma soft_draft: "soft db (draft_payload uni w action facts at db)"
proof (cases "register_for action")
  case None
  then show ?thesis by (simp add: draft_payload_def soft_refl)
next
  case (Some reg)
  let ?d = "draft_from_facts uni reg facts"
  let ?f = "\<lambda>r. r\<lparr>fr_payload := Some (payload_of reg (dr_fields ?d)),
     fr_plan := Some \<lparr>pl_at = at, pl_source = DraftSource, pl_explanation = explanation ?d reg,
       pl_fields = dr_fields ?d, pl_left = dr_left ?d\<rparr>\<rparr>"
  have "soft db db'" if "update_finding (draft_applies (wf_id w) db) ?f db = Some (r, db')" for r db'
    using that by (rule soft_update) (simp add: draft_applies_def)
  with Some show ?thesis
    by (auto simp: draft_payload_def Let_def soft_refl split: option.split)
qed

lemma soft_analyse: "soft db (snd (analyse_signals uni pid cats corpus facts at ws db))"
proof (induction ws arbitrary: db)
  case Nil
  then show ?case by (simp add: soft_refl)
next
  case (Cons w ws)
  show ?case
  proof (cases "cited_obligation_of corpus (coalesce (wf_slug w) [])")
    case None
    with Cons show ?thesis by simp
  next
    case (Some ob)
    let ?f = "convert uni (analysable_of w) ob cats"
    let ?db1 = "write_finding pid w ob ?f at db"
    let ?db2 = "draft_payload uni w (fd_action_type ?f) facts at ?db1"
    have "soft db ?db1" by (rule soft_write_finding)
    moreover have "soft ?db1 ?db2" by (rule soft_draft)
    moreover have "soft ?db2 (snd (analyse_signals uni pid cats corpus facts at ws ?db2))"
      by (rule Cons.IH)
    ultimately have "soft db (snd (analyse_signals uni pid cats corpus facts at ws ?db2))"
      by (blast intro: soft_trans)
    with Some show ?thesis by (simp add: Let_def split_beta)
  qed
qed

lemma soft_run_analyst: "run_analyst uni prof corpus facts at sdb db = (n, db') \<Longrightarrow> soft db db'"
proof (cases prof)
  case None
  then show "run_analyst uni prof corpus facts at sdb db = (n, db') \<Longrightarrow> soft db db'"
    by (simp add: run_analyst_def soft_refl)
next
  case (Some p)
  assume "run_analyst uni prof corpus facts at sdb db = (n, db')"
  with Some have "db' = snd (analyse_signals uni (pf_id p) (data_categories p) corpus facts at
      (open_signals (pf_id p) sdb) db)" by (simp add: run_analyst_def)
  then show "soft db db'" by (simp add: soft_analyse)
qed

lemma soft_failed: "soft db (record_failed_execution k cause at db)"
  by (rule soft_same_findings)
    (simp_all add: record_failed_execution_def update_job_def Let_def split: option.split)

lemmas soft_steps = soft_reject soft_snooze soft_expire soft_run_analyst

section \<open>Approving\<close>

lemma finding_ofD:
  "finding_of s n db = Some r \<Longrightarrow>
     r \<in> set (db_findings db) \<and> fr_id r = n \<and> visible s db (fr_org r) \<and> fr_org r = se_org s"
  unfolding finding_of_def by (drule find_SomeD) (auto simp: visible_def)

lemma finding_of_eq:
  assumes "fresh_ids db" and "r \<in> set (db_findings db)" and "fr_id r = n" and "visible s db (fr_org r)"
  shows "finding_of s n db = Some r"
proof -
  have "finding_of s n db \<noteq> None"
    using assms(2-4) by (auto simp: finding_of_def find_None_iff)
  then obtain r' where r': "finding_of s n db = Some r'" by blast
  with finding_ofD [OF r'] finding_unique [OF assms(1), of r' r] assms(2,3) show ?thesis by auto
qed

lemma visible_cong [simp]:
  "visible s (db\<lparr>db_findings := fs\<rparr>) = visible s db" "visible s (db\<lparr>db_audit := as\<rparr>) = visible s db"
  "visible s (db\<lparr>db_jobs := js\<rparr>) = visible s db" "visible s (db\<lparr>db_next := k\<rparr>) = visible s db"
  by (simp_all add: visible_def role_of_def fun_eq_iff)

lemma approve_checkD:
  assumes "approve_check jt ts s n reviewed db = Inr (snap, plan)"
  shows "\<exists>r. finding_of s n db = Some r \<and> fr_status r \<noteq> ''approved''
    \<and> plan = plan_of_row jt ts (se_now s) r \<and> snap = Some (FindingSnap r)
    \<and> \<not> requires_review (fr_action r) (ep_risk plan) reviewed
    \<and> check_receipt (fr_action r) (ep_receipt plan) (se_now s) = None"
  using assms
  by (auto simp: approve_check_def plan_for_finding_def finding_snapshot_def Let_def plan_of_row_def
      split: option.splits if_splits)

definition approved_by :: "string \<Rightarrow> bool \<Rightarrow> finding_row \<Rightarrow> finding_row" where
  "approved_by user reviewed r =
     r\<lparr>fr_status := ''approved'', fr_approved_by := Some user, fr_reviewed := reviewed\<rparr>"

lemma approved_by_simps [simp]:
  "fr_id (approved_by u b r) = fr_id r" "fr_org (approved_by u b r) = fr_org r"
  "fr_payload (approved_by u b r) = fr_payload r" "fr_action (approved_by u b r) = fr_action r"
  "fr_reviewed (approved_by u b r) = b" "fr_status (approved_by u b r) = ''approved''"
  by (simp_all add: approved_by_def)

text \<open>The state between the decision and the job: the row approved and the decision recorded.\<close>

definition decided :: "session \<Rightarrow> nat \<Rightarrow> bool \<Rightarrow> row_snapshot option \<Rightarrow> act_db \<Rightarrow> act_db" where
  "decided s n reviewed snap db =
     record_audit s n ''approve_finding'' snap
       (db\<lparr>db_findings := map (\<lambda>r. if fr_id r = n \<and> visible s db (fr_org r) \<and> fr_status r \<noteq> ''approved''
                                   then approved_by (se_user s) reviewed r else r) (db_findings db)\<rparr>)"

lemma approve_write_eq:
  assumes "r \<in> set (db_findings db)" and "fr_id r = n" and "visible s db (fr_org r)"
    and "fr_status r \<noteq> ''approved''"
  shows "snd (approve_write s n reviewed snap plan db)
    = (if executes (ep_action plan) then enqueue_job s n (ep_action plan) (decided s n reviewed snap db)
       else decided s n reviewed snap db)"
proof -
  let ?P = "\<lambda>r. fr_id r = n \<and> visible s db (fr_org r) \<and> fr_status r \<noteq> ''approved''"
  have "find ?P (db_findings db) \<noteq> None"
    using assms by (auto simp: find_None_iff)
  then obtain r' where "find ?P (db_findings db) = Some r'" by blast
  then show ?thesis
    unfolding decided_def approved_by_def by (simp add: approve_write_def update_finding_def Let_def)
qed

lemma decided_soft: "soft db (decided s n reviewed snap db)"
proof -
  let ?db1 = "db\<lparr>db_findings := map (\<lambda>r. if fr_id r = n \<and> visible s db (fr_org r) \<and> fr_status r \<noteq> ''approved''
      then approved_by (se_user s) reviewed r else r) (db_findings db)\<rparr>"
  have "soft db ?db1" by (rule soft_map) (simp add: approved_by_def)
  then show ?thesis
    unfolding decided_def by (rule soft_trans) (rule soft_record_audit)
qed

lemma decided_approval:
  assumes fresh: "fresh_ids db" and r: "finding_of s n db = Some r" "fr_status r \<noteq> ''approved''"
  shows "\<exists>a \<in> set (db_audit (decided s n reviewed snap db)).
    approval_of a n (se_org s) (se_user s) (approved_by (se_user s) reviewed r)
    \<and> au_at a = se_now s \<and> au_before a = snap"
    and "approved_by (se_user s) reviewed r \<in> set (db_findings (decided s n reviewed snap db))"
proof -
  let ?r = "approved_by (se_user s) reviewed r"
  let ?g = "\<lambda>r. if fr_id r = n \<and> visible s db (fr_org r) \<and> fr_status r \<noteq> ''approved''
      then approved_by (se_user s) reviewed r else r"
  let ?db1 = "db\<lparr>db_findings := map ?g (db_findings db)\<rparr>"
  from finding_ofD [OF r(1)] have rn: "r \<in> set (db_findings db)" "fr_id r = n"
    "visible s db (fr_org r)" "fr_org r = se_org s" by blast+
  have "?g r \<in> ?g ` set (db_findings db)" using rn(1) by (rule imageI)
  moreover have "?g r = ?r" using rn r(2) by simp
  ultimately have mem: "?r \<in> set (db_findings ?db1)" by simp
  then show "?r \<in> set (db_findings (decided s n reviewed snap db))"
    by (simp add: decided_def record_audit_def)
  have "soft db ?db1" by (rule soft_map) (simp add: approved_by_def)
  with fresh have "fresh_ids ?db1" by (simp add: soft_def keeps_findings_def)
  then have "finding_of s n ?db1 = Some ?r"
    by (rule finding_of_eq [OF _ mem]) (use rn in simp_all)
  then show "\<exists>a \<in> set (db_audit (decided s n reviewed snap db)).
    approval_of a n (se_org s) (se_user s) ?r \<and> au_at a = se_now s \<and> au_before a = snap"
    by (simp add: decided_def record_audit_def finding_snapshot_def approval_of_def
        audit_row_for_def)
qed

lemma record_backed_more_jobs:
  assumes "record_backed db c" and "set (db_jobs db) \<subseteq> set (db_jobs db')" and "db_audit db' = db_audit db"
  shows "record_backed db' c"
  using assms unfolding record_backed_def by auto

lemma enqueue_inv:
  assumes inv: "act_inv jt ts db"
    and backed: "\<And>k. job_backed jt ts db \<lparr>jb_id = k, jb_org = se_org s, jb_finding = n,
      jb_action = action, jb_approver = se_user s, jb_status = ''pending'', jb_attempts = 0, jb_error = None\<rparr>"
  shows "act_inv jt ts (enqueue_job s n action db)"
proof (cases "enqueued n db")
  case True
  with inv show ?thesis by (simp add: enqueue_job_def enqueued_def)
next
  case False
  let ?j = "\<lparr>jb_id = db_next db, jb_org = se_org s, jb_finding = n, jb_action = action,
      jb_approver = se_user s, jb_status = ''pending'', jb_attempts = 0, jb_error = None\<rparr>"
  let ?db = "db\<lparr>db_jobs := db_jobs db @ [?j], db_next := Suc (db_next db)\<rparr>"
  have eq: "enqueue_job s n action db = ?db"
    using False by (simp add: enqueue_job_def enqueued_def)
  have fresh: "fresh_ids ?db" using inv by (auto simp: act_inv_def fresh_ids_def less_Suc_eq)
  have ids: "distinct (map jb_id (db_jobs ?db))" "\<forall>j \<in> set (db_jobs ?db). jb_id j < db_next ?db"
    using inv by (auto simp: act_inv_def less_Suc_eq)
  have per: "distinct (map jb_finding (db_jobs ?db))"
    using inv False by (auto simp: act_inv_def enqueued_iff)
  have jobs: "job_backed jt ts ?db j" if "j \<in> set (db_jobs ?db)" for j
  proof -
    have "job_backed jt ts db j"
      using that inv backed [of "db_next db"] by (auto simp: act_inv_def)
    then show ?thesis by (simp add: job_backed_def)
  qed
  have recs: "record_backed ?db c" if "c \<in> set (created_rows ?db)" for c
    using that inv record_backed_more_jobs [of db c ?db] by (auto simp: act_inv_def created_rows_def)
  have cr: "created_rows ?db = created_rows db" by (simp add: created_rows_def)
  show ?thesis
    unfolding eq act_inv_def
    using fresh ids per jobs recs inv
    by (simp add: act_inv_def cr ai_reviewed_def dsar_received_def)
qed

lemma approve_inv:
  assumes inv: "act_inv jt ts db" and app: "approve_finding jt ts s fid reviewed db = Inr (acted, db')"
  shows "act_inv jt ts db'"
proof (cases fid)
  case None
  with assms show ?thesis by (simp add: approve_finding_def)
next
  case (Some n)
  consider "db' = db" | snap plan where "approve_check jt ts s n reviewed db = Inr (snap, plan)"
    "db' = snd (approve_write s n reviewed snap plan db)"
    using app Some by (auto simp: approve_finding_def split: sum.splits)
  then show ?thesis
  proof cases
    case 1
    with inv show ?thesis by simp
  next
    case (2 snap plan)
    from approve_checkD [OF 2(1)] obtain r where r: "finding_of s n db = Some r"
      "fr_status r \<noteq> ''approved''" "plan = plan_of_row jt ts (se_now s) r"
      "\<not> requires_review (fr_action r) (ep_risk plan) reviewed"
      "check_receipt (fr_action r) (ep_receipt plan) (se_now s) = None" by blast
    let ?db2 = "decided s n reviewed snap db"
    let ?r = "approved_by (se_user s) reviewed r"
    have fresh: "fresh_ids db" using inv by (simp add: act_inv_def)
    have inv2: "act_inv jt ts ?db2" using inv decided_soft by (rule act_inv_soft)
    from decided_approval(1) [OF fresh r(1,2), of reviewed snap] obtain a where
      a: "a \<in> set (db_audit ?db2)" "approval_of a n (se_org s) (se_user s) ?r" "au_at a = se_now s"
      by blast
    have mem: "?r \<in> set (db_findings ?db2)" by (rule decided_approval(2) [OF fresh r(1,2)])
    have plan: "plan_of_row jt ts (se_now s) ?r = plan"
      by (simp add: r(3) plan_of_row_def approved_by_def payload_text_def)
    have "checked_at jt ts (fr_action r) ?r (au_at a)"
      using r(4,5) plan a(3) by (simp add: checked_at_def Let_def)
    with a mem finding_ofD [OF r(1)] have "job_backed jt ts ?db2
      \<lparr>jb_id = k, jb_org = se_org s, jb_finding = n, jb_action = fr_action r,
        jb_approver = se_user s, jb_status = ''pending'', jb_attempts = 0, jb_error = None\<rparr>" for k
      unfolding job_backed_def by (intro bexI [OF _ mem]) (auto intro!: bexI [OF _ a(1)])
    with inv2 have "act_inv jt ts (enqueue_job s n (fr_action r) ?db2)" by (rule enqueue_inv)
    moreover have "ep_action plan = fr_action r" by (simp add: r(3) plan_of_row_def Let_def)
    moreover have rn: "r \<in> set (db_findings db)" "fr_id r = n" "visible s db (fr_org r)"
      using finding_ofD [OF r(1)] by blast+
    ultimately show ?thesis
      using 2(2) inv2 approve_write_eq [OF rn r(2), of reviewed snap plan] by simp
  qed
qed

section \<open>Executing\<close>

lemma job_ofD: "job_of k db = Some j \<Longrightarrow> j \<in> set (db_jobs db) \<and> jb_id j = k"
  unfolding job_of_def by (rule find_SomeD)

lemma settle_job_simps [simp]:
  "jb_id (settle_job j) = jb_id j" "jb_org (settle_job j) = jb_org j"
  "jb_finding (settle_job j) = jb_finding j" "jb_action (settle_job j) = jb_action j"
  "jb_approver (settle_job j) = jb_approver j" "jb_status (settle_job j) = ''done''"
  by (simp_all add: settle_job_def)

lemma settle_inv:
  assumes inv: "act_inv jt ts db"
  shows "act_inv jt ts (update_job k settle_job db)"
proof -
  let ?g = "\<lambda>j. if jb_id j = k then settle_job j else j"
  let ?db = "update_job k settle_job db"
  have jobs: "db_jobs ?db = map ?g (db_jobs db)" by (simp add: update_job_def)
  have ids: "map jb_id (db_jobs ?db) = map jb_id (db_jobs db)"
    "map jb_finding (db_jobs ?db) = map jb_finding (db_jobs db)" by (simp_all add: jobs)
  have rest: "db_findings ?db = db_findings db" "db_audit ?db = db_audit db" "db_next ?db = db_next db"
    "db_ai ?db = db_ai db" "db_dsars ?db = db_dsars db" "created_rows ?db = created_rows db"
    "fresh_ids ?db = fresh_ids db"
    by (simp_all add: update_job_def created_rows_def fresh_ids_def)
  have keys: "jb_id (?g j) = jb_id j" "jb_finding (?g j) = jb_finding j" "jb_org (?g j) = jb_org j"
    "jb_approver (?g j) = jb_approver j" "jb_action (?g j) = jb_action j" for j by simp_all
  have per_job: "job_backed jt ts ?db j' \<and> jb_id j' < db_next db" if "j' \<in> set (db_jobs ?db)" for j'
  proof -
    from that jobs obtain j where j: "j \<in> set (db_jobs db)" "j' = ?g j" by auto
    from act_inv_jobs(1) [OF inv j(1)] have "job_backed jt ts ?db j'"
      unfolding job_backed_def rest j(2) keys .
    moreover have "jb_id j' < db_next db"
      unfolding j(2) keys using act_inv_jobs(2) [OF inv j(1)] .
    ultimately show ?thesis ..
  qed
  have recs: "record_backed ?db c" if "c \<in> set (created_rows db)" for c
  proof -
    from inv that have "record_backed db c" by (rule act_inv_records)
    then obtain j where j: "j \<in> set (db_jobs db)" "jb_status j = ''done''" "jb_finding j = cr_finding c"
      "jb_org j = cr_org c" "jb_approver j = cr_by c" unfolding record_backed_def by blast
    from j(1) have "?g j \<in> set (db_jobs ?db)" unfolding jobs set_map by (rule imageI)
    moreover have "jb_status (?g j) = ''done''" using j(2) by simp
    moreover have "jb_finding (?g j) = cr_finding c" "jb_org (?g j) = cr_org c"
      "jb_approver (?g j) = cr_by c" unfolding keys using j(3-5) .
    ultimately have "\<exists>j \<in> set (db_jobs ?db). jb_status j = ''done'' \<and> jb_finding j = cr_finding c
        \<and> jb_org j = cr_org c \<and> jb_approver j = cr_by c" by (intro bexI conjI)
    then show ?thesis
      using \<open>record_backed db c\<close> unfolding record_backed_def rest(2) by (intro conjI) (assumption, elim conjE)
  qed
  from inv show ?thesis
    unfolding act_inv_def rest ids ai_reviewed_def dsar_received_def using per_job recs by blast
qed

text \<open>One more row in one register, with its audit row, for a job that is settled.\<close>

lemma add_record_inv:
  assumes inv: "act_inv jt ts db"
    and same: "db_findings db' = db_findings db" "db_jobs db' = db_jobs db" "db_next db' = Suc (db_next db)"
      "db_audit db' = db_audit db @ [a]"
    and rows: "created_rows db = xs @ ys" "created_rows db' = xs @ c # ys"
    and new: "cr_finding c \<notin> cr_finding ` set (created_rows db)" "record_backed db' c"
    and ai: "\<And>x. x \<in> set (db_ai db') \<Longrightarrow> x \<in> set (db_ai db) \<or> ai_reviewed db x"
    and dsars: "\<And>x. x \<in> set (db_dsars db') \<Longrightarrow> x \<in> set (db_dsars db) \<or> dsar_received ts db x"
  shows "act_inv jt ts db'"
proof -
  have audit: "set (db_audit db) \<subseteq> set (db_audit db')" by (auto simp: same)
  have "distinct (map cr_finding (created_rows db'))"
    using inv new(1) by (auto simp: act_inv_def rows)
  moreover have "record_backed db' d" if "d \<in> set (created_rows db')" for d
  proof (cases "d = c")
    case True
    with new show ?thesis by simp
  next
    case False
    with that rows inv have "record_backed db d" by (auto simp: act_inv_def)
    then show ?thesis unfolding record_backed_def same using audit by auto
  qed
  moreover have "job_backed jt ts db' j" if "j \<in> set (db_jobs db')" for j
  proof -
    from that same inv have "job_backed jt ts db j" by (simp add: act_inv_def)
    then show ?thesis unfolding job_backed_def same(1) using audit by blast
  qed
  moreover have "ai_reviewed db' x" if "x \<in> set (db_ai db')" for x
    using ai [OF that] inv ai_reviewed_mono [OF audit] by (auto simp: act_inv_def)
  moreover have "dsar_received ts db' x" if "x \<in> set (db_dsars db')" for x
    using dsars [OF that] inv dsar_received_mono [OF audit] by (auto simp: act_inv_def)
  ultimately show ?thesis
    using inv by (auto simp: act_inv_def same fresh_ids_def less_Suc_eq)
qed

lemma no_record_yet:
  assumes inv: "act_inv jt ts db" and j: "j \<in> set (db_jobs db)" "jb_status j \<noteq> ''done''"
  shows "jb_finding j \<notin> cr_finding ` set (created_rows db)"
proof
  assume "jb_finding j \<in> cr_finding ` set (created_rows db)"
  then obtain c where c: "c \<in> set (created_rows db)" "cr_finding c = jb_finding j" by auto
  with inv have "record_backed db c" by (simp add: act_inv_def)
  then obtain j' where j': "j' \<in> set (db_jobs db)" "jb_status j' = ''done''" "jb_finding j' = cr_finding c"
    unfolding record_backed_def by blast
  with inv j c have "j' = j" by (auto simp: act_inv_def distinct_map dest: inj_onD)
  with j(2) j'(2) show False by simp
qed

text \<open>What a job's finding looks like when the job runs, and the approval it rests on.\<close>

lemma job_approval:
  assumes inv: "act_inv jt ts db" and j: "j \<in> set (db_jobs db)"
    and r: "finding_of (job_session j at) (jb_finding j) db = Some r"
  shows "\<exists>a \<in> set (db_audit db). \<exists>f. approval_of a (fr_id r) (fr_org r) (jb_approver j) f
    \<and> fr_payload f = fr_payload r \<and> checked_at jt ts (jb_action j) f (au_at a)"
proof -
  from inv j have "job_backed jt ts db j" by (simp add: act_inv_def)
  then obtain r' a f where r': "r' \<in> set (db_findings db)" "fr_id r' = jb_finding j"
    "fr_org r' = jb_org j" and a: "a \<in> set (db_audit db)"
    "approval_of a (jb_finding j) (jb_org j) (jb_approver j) f" "fr_payload f = fr_payload r'"
    "checked_at jt ts (jb_action j) f (au_at a)" unfolding job_backed_def by blast
  from finding_ofD [OF r] have rn: "r \<in> set (db_findings db)" "fr_id r = jb_finding j" by simp_all
  with r' inv have "r' = r" by (intro finding_unique [of db]) (simp_all add: act_inv_def)
  with a r' show ?thesis by auto
qed

lemma payload_text_cong: "fr_payload f = fr_payload r \<Longrightarrow> payload_text jt f k = payload_text jt r k"
  by (simp add: payload_text_def)

lemma ai_reviewed_new:
  assumes inv: "act_inv jt ts db" and j: "j \<in> set (db_jobs db)" "jb_action j = ActionCreateAISystem"
    and r: "finding_of (job_session j at) (jb_finding j) db = Some r"
    and x: "ai_of jt (job_session j at) k r = Inr x"
  shows "ai_reviewed db x"
proof -
  from job_approval [OF inv j(1) r] obtain a f where a: "a \<in> set (db_audit db)"
    "approval_of a (fr_id r) (fr_org r) (jb_approver j) f" "fr_payload f = fr_payload r"
    "checked_at jt ts ActionCreateAISystem f (au_at a)" unfolding j(2) by blast
  from x have xs: "ai_finding x = fr_id r" "ai_org x = fr_org r" "ai_created_by x = jb_approver j"
    "ai_risk x = coalesce (nullif_blank (payload_text jt r ''risk_classification'')) ''unclassified''"
    by (auto simp: ai_of_def Let_def job_session_def split: if_splits)
  have "fr_reviewed f" if "ai_risk x = RiskHigh"
  proof -
    from that xs(4) have "payload_text jt r ''risk_classification'' = Some RiskHigh"
      by (auto simp: coalesce_def nullif_blank_def RiskHigh_def split: option.splits if_splits)
    then have "ep_risk (plan_of_row jt ts (au_at a) f) = RiskHigh"
      using payload_text_cong [OF a(3)] by (simp add: plan_of_row_def Let_def coalesce_def)
    with a(4) show ?thesis by (simp add: checked_at_def Let_def requires_review_def)
  qed
  with a xs show ?thesis unfolding ai_reviewed_def by auto
qed

lemma dsar_received_new:
  assumes inv: "act_inv jt ts db" and j: "j \<in> set (db_jobs db)" "jb_action j = ActionCreateDSAR"
    and r: "finding_of (job_session j at) (jb_finding j) db = Some r"
    and x: "dsar_of jt ts (job_session j at) k r = Inr x"
  shows "dsar_received ts db x"
proof -
  from job_approval [OF inv j(1) r] obtain a f where a: "a \<in> set (db_audit db)"
    "approval_of a (fr_id r) (fr_org r) (jb_approver j) f" "fr_payload f = fr_payload r"
    "checked_at jt ts ActionCreateDSAR f (au_at a)" unfolding j(2) by blast
  from x obtain t where t: "payload_text jt r ''received_at'' = Some t" "ts at t = Some (dq_received x)"
    and xs: "dq_finding x = fr_id r" "dq_org x = fr_org r" "dq_created_by x = jb_approver j"
      "dq_due x = dq_received x + 30 * day_ns"
    by (auto simp: dsar_of_def job_session_def split: option.splits)
  have "payload_text jt f ''received_at'' = Some t" using payload_text_cong [OF a(3)] t(1) by simp
  with a(4) obtain u where "ts (au_at a) t = Some u" "u \<le> au_at a"
    by (auto simp: checked_at_def Let_def plan_of_row_def coalesce_def check_receipt_def
        split: if_splits)
  moreover have "approval_of a (dq_finding x) (dq_org x) (dq_created_by x) f"
    using a(2) unfolding xs .
  ultimately show ?thesis
    unfolding dsar_received_def using t(2) xs(4) by (intro conjI bexI [OF _ a(1)] exI)
qed

definition with_audit :: "act_db \<Rightarrow> audit_row \<Rightarrow> act_db" where
  "with_audit db a = db\<lparr>db_audit := db_audit db @ [a]\<rparr>"

lemma settled_job_mem:
  assumes "j \<in> set (db_jobs db)" and "jb_id j = k"
  shows "settle_job j \<in> set (db_jobs (update_job k settle_job db))"
  using assms by (force simp: update_job_def)

text \<open>The three registers share the rest of the argument.\<close>

lemma executed_row_inv:
  assumes inv: "act_inv jt ts db" and j: "j \<in> set (db_jobs db)" "jb_id j = k" "jb_status j = ''pending''"
    and db1: "db_findings db1 = db_findings db" "db_jobs db1 = db_jobs db"
      "db_next db1 = Suc (db_next db)" "db_audit db1 = db_audit db @ [a]"
    and rows: "created_rows db = xs @ ys" "created_rows db1 = xs @ c # ys"
    and c: "cr_finding c = jb_finding j" "cr_org c = jb_org j" "cr_by c = jb_approver j"
    and a: "au_table a = cr_table c" "au_target a = cr_id c" "au_finding a = cr_finding c"
      "au_org a = cr_org c" "au_approver a = cr_by c"
    and ai: "\<And>x. x \<in> set (db_ai db1) \<Longrightarrow> x \<in> set (db_ai db) \<or> ai_reviewed db x"
    and dsars: "\<And>x. x \<in> set (db_dsars db1) \<Longrightarrow> x \<in> set (db_dsars db) \<or> dsar_received ts db x"
  shows "act_inv jt ts (update_job k settle_job db1)"
proof -
  let ?db = "update_job k settle_job db" and ?db' = "update_job k settle_job db1"
  have cr: "created_rows (update_job k settle_job d) = created_rows d" for d
    by (simp add: created_rows_def update_job_def)
  have proj: "db_findings (update_job k settle_job d) = db_findings d"
    "db_next (update_job k settle_job d) = db_next d" "db_audit (update_job k settle_job d) = db_audit d"
    "db_ai (update_job k settle_job d) = db_ai d" "db_dsars (update_job k settle_job d) = db_dsars d" for d
    by (simp_all add: update_job_def)
  have jobs: "db_jobs ?db' = db_jobs ?db" by (simp add: update_job_def db1)
  have fin: "cr_finding c \<notin> cr_finding ` set (created_rows ?db)"
    unfolding cr c(1) by (rule no_record_yet [OF inv j(1)]) (use j(3) in simp)
  have "settle_job j \<in> set (db_jobs ?db')"
    unfolding jobs using j(1,2) by (rule settled_job_mem)
  moreover have "a \<in> set (db_audit ?db')" by (simp add: proj db1)
  ultimately have backed: "record_backed ?db' c"
    unfolding record_backed_def using a c by (intro conjI bexI) simp_all
  have keep: "ai_reviewed ?db = ai_reviewed db" "dsar_received ts ?db = dsar_received ts db"
    by (simp_all add: fun_eq_iff ai_reviewed_def dsar_received_def proj)
  show ?thesis
  proof (rule add_record_inv [OF settle_inv [OF inv, of k], where a = a and xs = xs and ys = ys and c = c])
    show "db_findings ?db' = db_findings ?db" "db_next ?db' = Suc (db_next ?db)"
      "db_audit ?db' = db_audit ?db @ [a]" by (simp_all add: proj db1)
    show "x \<in> set (db_ai ?db') \<Longrightarrow> x \<in> set (db_ai ?db) \<or> ai_reviewed ?db x" for x
      unfolding proj keep by (rule ai)
    show "x \<in> set (db_dsars ?db') \<Longrightarrow> x \<in> set (db_dsars ?db) \<or> dsar_received ts ?db x" for x
      unfolding proj keep by (rule dsars)
  qed (use jobs fin backed rows in \<open>simp_all add: cr\<close>)
qed

definition ropa_row_db :: "(json \<Rightarrow> string) \<Rightarrow> session \<Rightarrow> nat \<Rightarrow> finding_row \<Rightarrow> act_db \<Rightarrow> act_db" where
  "ropa_row_db jt s n r db =
     audit_created s n ''create_ropa'' ''processing_activities'' (db_next db)
       (ActivitySnap (activity_of jt s (db_next db) r))
       (db\<lparr>db_activities := db_activities db @ [activity_of jt s (db_next db) r],
           db_next := Suc (db_next db)\<rparr>)"

definition dsar_row_db :: "session \<Rightarrow> nat \<Rightarrow> dsar_row \<Rightarrow> act_db \<Rightarrow> act_db" where
  "dsar_row_db s n d db =
     audit_created s n ''create_dsar'' ''dsars'' (dq_id d) (DsarSnap d)
       (db\<lparr>db_dsars := db_dsars db @ [d], db_next := Suc (db_next db)\<rparr>)"

definition ai_row_db :: "session \<Rightarrow> nat \<Rightarrow> ai_row \<Rightarrow> act_db \<Rightarrow> act_db" where
  "ai_row_db s n x db =
     audit_created s n ''create_ai_system'' ''ai_systems'' (ai_id x) (AiSnap x)
       (db\<lparr>db_ai := db_ai db @ [x], db_next := Suc (db_next db)\<rparr>)"

lemma activity_of_simps [simp]:
  "av_id (activity_of jt s k r) = k" "av_org (activity_of jt s k r) = fr_org r"
  "av_finding (activity_of jt s k r) = fr_id r" "av_created_by (activity_of jt s k r) = se_user s"
  by (simp_all add: activity_of_def)

lemma create_ropaD:
  "create_ropa jt s n db = Inr (e, db1) \<Longrightarrow>
     db1 = db \<or> (\<exists>r. finding_of s n db = Some r \<and> db1 = ropa_row_db jt s n r db)"
  by (cases "find (\<lambda>a. av_finding a = n \<and> visible s db (av_org a)) (db_activities db)")
    (auto simp: create_ropa_def ropa_row_db_def Let_def split: option.splits)

lemma create_dsarD:
  "create_dsar jt ts s n db = Inr (e, db1) \<Longrightarrow>
     db1 = db \<or> (\<exists>r d. finding_of s n db = Some r \<and> dsar_of jt ts s (db_next db) r = Inr d
       \<and> db1 = dsar_row_db s n d db)"
  by (cases "find (\<lambda>d. dq_finding d = n \<and> visible s db (dq_org d)) (db_dsars db)")
    (auto simp: create_dsar_def dsar_row_db_def Let_def split: option.splits sum.splits)

lemma create_ai_systemD:
  "create_ai_system jt s n db = Inr (e, db1) \<Longrightarrow>
     db1 = db \<or> (\<exists>r x. finding_of s n db = Some r \<and> ai_of jt s (db_next db) r = Inr x
       \<and> db1 = ai_row_db s n x db)"
  by (cases "find (\<lambda>a. ai_finding a = n \<and> visible s db (ai_org a)) (db_ai db)")
    (auto simp: create_ai_system_def ai_row_db_def Let_def split: option.splits sum.splits)

lemma create_recordD:
  assumes "create_record jt ts s n action db = Inr (e, db1)"
  obtains (same) "db1 = db"
  | (ropa) r where "finding_of s n db = Some r" "db1 = ropa_row_db jt s n r db"
  | (dsar) r d where "finding_of s n db = Some r" "action = ActionCreateDSAR"
      "dsar_of jt ts s (db_next db) r = Inr d" "db1 = dsar_row_db s n d db"
  | (ai) r x where "finding_of s n db = Some r" "action = ActionCreateAISystem"
      "ai_of jt s (db_next db) r = Inr x" "db1 = ai_row_db s n x db"
proof -
  consider "action = ActionCreateROPA" "create_ropa jt s n db = Inr (e, db1)"
    | "action = ActionCreateDSAR" "create_dsar jt ts s n db = Inr (e, db1)"
    | "action = ActionCreateAISystem" "create_ai_system jt s n db = Inr (e, db1)"
    | "db1 = db"
    using assms by (simp add: create_record_def split: if_splits)
  then show ?thesis
  proof cases
    case 1
    from create_ropaD [OF 1(2)] same ropa show ?thesis by blast
  next
    case 2
    from create_dsarD [OF 2(2)] same dsar 2(1) show ?thesis by blast
  next
    case 3
    from create_ai_systemD [OF 3(2)] same ai 3(1) show ?thesis by blast
  next
    case 4
    then show ?thesis by (rule same)
  qed
qed

lemma execute_inv:
  assumes inv: "act_inv jt ts db" and run: "execute_job jt ts k at db = Inr (e, db')"
  shows "act_inv jt ts db'"
proof (cases "job_of k db")
  case None
  with assms show ?thesis by (simp add: execute_job_def)
next
  case (Some j)
  let ?s = "job_session j at" and ?n = "jb_finding j"
  from job_ofD [OF Some] have j: "j \<in> set (db_jobs db)" "jb_id j = k" by simp_all
  show ?thesis
  proof (cases "visible ?s db (jb_org j) \<and> jb_status j = ''pending''")
    case False
    with run Some inv show ?thesis by (auto simp: execute_job_def Let_def split: if_splits)
  next
    case True
    with run Some obtain e1 db1 where cr: "create_record jt ts ?s ?n (jb_action j) db = Inr (e1, db1)"
      and db': "db' = update_job k settle_job db1"
      by (auto simp: execute_job_def Let_def split: sum.splits)
    have user: "se_user ?s = jb_approver j" "se_org ?s = jb_org j" by (simp_all add: job_session_def)
    have seen: "fr_id r = ?n \<and> fr_org r = jb_org j" if "finding_of ?s ?n db = Some r" for r
      using finding_ofD [OF that] user by simp
    from cr show ?thesis
    proof (cases rule: create_recordD)
      case same
      then show ?thesis using settle_inv [OF inv] by (simp add: db')
    next
      case (ropa r)
      show ?thesis
        unfolding db' ropa(2)
        by (rule executed_row_inv [OF inv j True [THEN conjunct2],
              where xs = "map (\<lambda>a. \<lparr>cr_table = ''processing_activities'', cr_id = av_id a, cr_org = av_org a,
                cr_finding = av_finding a, cr_by = av_created_by a\<rparr>) (db_activities db)"
              and c = "\<lparr>cr_table = ''processing_activities'', cr_id = db_next db, cr_org = jb_org j,
                cr_finding = ?n, cr_by = jb_approver j\<rparr>"])
          (use seen [OF ropa(1)] user in
            \<open>simp_all add: ropa_row_db_def audit_created_def audit_row_for_def created_rows_def, simp_all\<close>)
    next
      case (dsar r d)
      have d: "dq_finding d = ?n" "dq_org d = jb_org j" "dq_created_by d = jb_approver j"
        using dsar(3) seen [OF dsar(1)] user by (auto simp: dsar_of_def split: option.splits)
      have new: "dsar_received ts db d" using inv j(1) dsar(2,1,3) by (rule dsar_received_new)
      show ?thesis
        unfolding db' dsar(4)
        by (rule executed_row_inv [OF inv j True [THEN conjunct2],
              where xs = "map (\<lambda>a. \<lparr>cr_table = ''processing_activities'', cr_id = av_id a, cr_org = av_org a,
                cr_finding = av_finding a, cr_by = av_created_by a\<rparr>) (db_activities db)
                @ map (\<lambda>d. \<lparr>cr_table = ''dsars'', cr_id = dq_id d, cr_org = dq_org d,
                cr_finding = dq_finding d, cr_by = dq_created_by d\<rparr>) (db_dsars db)"
              and c = "\<lparr>cr_table = ''dsars'', cr_id = dq_id d, cr_org = jb_org j,
                cr_finding = ?n, cr_by = jb_approver j\<rparr>"])
          (use d new user in \<open>simp_all add: dsar_row_db_def audit_created_def audit_row_for_def created_rows_def, auto\<close>)
    next
      case (ai r x)
      have x: "ai_finding x = ?n" "ai_org x = jb_org j" "ai_created_by x = jb_approver j"
        using ai(3) seen [OF ai(1)] user by (auto simp: ai_of_def Let_def split: if_splits)
      have new: "ai_reviewed db x" using inv j(1) ai(2,1,3) by (rule ai_reviewed_new)
      show ?thesis
        unfolding db' ai(4)
        by (rule executed_row_inv [OF inv j True [THEN conjunct2],
              where xs = "created_rows db" and ys = "[]"
              and c = "\<lparr>cr_table = ''ai_systems'', cr_id = ai_id x, cr_org = jb_org j,
                cr_finding = ?n, cr_by = jb_approver j\<rparr>"])
          (use x new user in \<open>simp_all add: ai_row_db_def audit_created_def audit_row_for_def created_rows_def, auto\<close>)
    qed
  qed
qed

section \<open>Every step keeps the invariant\<close>

lemma execute_call_inv:
  assumes inv: "act_inv jt ts db" and run: "execute_call jt ts k at db = (res, db')"
  shows "act_inv jt ts db'"
proof (cases "execute_job jt ts k at db")
  case (Inl e)
  with run have "db' = record_failed_execution k e at db" by (simp add: execute_call_def)
  then show ?thesis using act_inv_soft [OF inv soft_failed] by simp
next
  case (Inr p)
  obtain e db1 where "p = (e, db1)" by fastforce
  with Inr run show ?thesis using execute_inv [OF inv] by (simp add: execute_call_def)
qed

lemma members_soft: "soft db (db\<lparr>db_members := ms\<rparr>)"
  by (rule soft_same_findings) simp_all

lemma act_step_inv: "act_inv jt ts db \<Longrightarrow> act_step jt ts db db' \<Longrightarrow> act_inv jt ts db'"
  by (erule act_step.cases)
    (auto intro: approve_inv execute_call_inv act_inv_soft soft_steps soft_prepare members_soft)

interpretation act: transition_invariant act_init "act_step jt ts" "act_inv jt ts" for jt ts
  by unfold_locales (auto intro: act_inv_init act_step_inv)

text \<open>The states the program reaches from empty tables.\<close>

definition act_reachable ::
  "(json \<Rightarrow> string) \<Rightarrow> (instant \<Rightarrow> string \<Rightarrow> instant option) \<Rightarrow> act_db \<Rightarrow> bool" where
  "act_reachable jt ts db \<longleftrightarrow> (\<exists>db0. act_init db0 \<and> (act_step jt ts)\<^sup>*\<^sup>* db0 db)"

lemma reachable_inv: "act_reachable jt ts db \<Longrightarrow> act_inv jt ts db"
  unfolding act_reachable_def by (blast intro: act.inv_reachable)

lemma reachable_step: "act_reachable jt ts db \<Longrightarrow> act_step jt ts db db' \<Longrightarrow> act_reachable jt ts db'"
  unfolding act_reachable_def by (blast intro: rtranclp.rtrancl_into_rtrancl)

lemma reachable_init: "act_init db \<Longrightarrow> act_reachable jt ts db"
  unfolding act_reachable_def by blast

end
