(* ===== verification/Act_Claims.thy ===== *)
theory Act_Claims
  imports Act_Lifecycle
begin

text \<open>
  What the life of a finding guarantees, and where it falls short: the properties of the act
  path, with a run of the system as their witness.
\<close>

section \<open>A run\<close>

definition jt0 :: "json \<Rightarrow> string" where "jt0 j = []"

definition ts0 :: "instant \<Rightarrow> string \<Rightarrow> instant option" where
  "ts0 at s = (if s = ''2026-01-01'' then Some 5 else None)"

definition ex_start :: act_db where
  "ex_start = \<lparr>db_findings = [], db_next = 0, db_audit = [], db_jobs = [], db_flags = [],
     db_activities = [], db_dsars = [], db_ai = [],
     db_members = [((''o1'', ''ada''), ''owner''), ((''o1'', ''bob''), ''member'')]\<rparr>"

definition ex_signal :: "nat \<Rightarrow> string \<Rightarrow> wf_row" where
  "ex_signal n slug = \<lparr>wf_id = n, wf_profile = ''p1'', wf_org = ''o1'', wf_kind = KindProfileGap,
     wf_slug = Some slug, wf_severity = ''high'', wf_title = ''t'', wf_detail = None, wf_dedup = slug,
     wf_meta = [], wf_source = ''detector'', wf_status = ''open''\<rparr>"

definition ex_obligation :: "string \<Rightarrow> string \<Rightarrow> cited_obligation" where
  "ex_obligation slug action = \<lparr>co_id = slug, co_slug = slug, co_summary = [], co_severity = ''high'',
     co_action_type = action,
     co_citation = \<lparr>cit_kind = [], cit_celex = [], article_number = 0, recital_number = 0,
       annex_label = [], paragraph_label = []\<rparr>\<rparr>"

definition ex_signals :: signal_db where
  "ex_signals = \<lparr>wf_rows = [ex_signal 1 ''ai'', ex_signal 2 ''ask''], next_wf_id = 3, last_run = (\<lambda>_. None)\<rparr>"

definition ex_corpus :: "cited_obligation list" where
  "ex_corpus = [ex_obligation ''ai'' ''create_ai_system'', ex_obligation ''ask'' ''create_dsar'']"

definition ex_swept :: act_db where
  "ex_swept = snd (run_analyst id (Some example_profile) ex_corpus [] 10 ex_signals ex_start)"

definition ex_plan :: "string \<Rightarrow> string \<Rightarrow> plan" where
  "ex_plan column v = \<lparr>pn_explanation = [],
     pn_fields = [\<lparr>pp_name = column, pp_values = [v], pp_from_fact = ''industry''\<rparr>], pn_left = []\<rparr>"

definition ex_known :: "string \<Rightarrow> bool" where "ex_known k \<longleftrightarrow> k = ''industry''"

definition prepared :: "nat \<Rightarrow> string \<Rightarrow> string \<Rightarrow> act_db \<Rightarrow> act_db" where
  "prepared n column v db = projr (prepare_call ''o1'' (Some n) ex_known (ex_plan column v) 20 db)"

definition ada :: session where "ada = \<lparr>se_org = ''o1'', se_user = ''ada'', se_now = 30\<rparr>"

definition approved :: "nat \<Rightarrow> bool \<Rightarrow> act_db \<Rightarrow> act_db" where
  "approved n reviewed db = snd (projr (approve_finding jt0 ts0 ada (Some n) reviewed db))"

definition executed :: "nat \<Rightarrow> act_db \<Rightarrow> act_db" where
  "executed k db = snd (execute_call jt0 ts0 k 40 db)"

definition ex_prepared :: act_db where
  "ex_prepared = prepared 1 ''received_at'' ''2026-01-01'' (prepared 0 ''risk_classification'' ''high'' ex_swept)"

definition ex_approved :: act_db where
  "ex_approved = approved 1 False (approved 0 True ex_prepared)"

definition ex_done :: act_db where
  "ex_done = executed 3 (executed 2 ex_approved)"

lemma reach_prepared:
  "act_reachable jt0 ts0 db \<Longrightarrow> \<not> isl (prepare_call ''o1'' (Some n) ex_known (ex_plan c v) 20 db) \<Longrightarrow>
     act_reachable jt0 ts0 (prepared n c v db)"
  by (erule reachable_step, rule act_step.prepare [where fid = "Some n" and org = "''o1''"
        and known = ex_known and p = "ex_plan c v" and at = 20])
    (auto simp: prepared_def split: sum.splits)

lemma reach_approved:
  "act_reachable jt0 ts0 db \<Longrightarrow> \<not> isl (approve_finding jt0 ts0 ada (Some n) b db) \<Longrightarrow>
     act_reachable jt0 ts0 (approved n b db)"
  by (erule reachable_step, rule act_step.approve [where s = ada and fid = "Some n" and reviewed = b
        and acted = "fst (projr (approve_finding jt0 ts0 ada (Some n) b db))"])
    (auto simp: approved_def split: sum.splits)

lemma reach_executed: "act_reachable jt0 ts0 db \<Longrightarrow> act_reachable jt0 ts0 (executed k db)"
  by (erule reachable_step, rule act_step.execute [where k = k and at = 40
        and res = "fst (execute_call jt0 ts0 k 40 db)"]) (simp add: executed_def)

lemma reach_swept: "act_reachable jt0 ts0 ex_swept"
proof -
  have "act_reachable jt0 ts0 ex_start"
    by (rule reachable_init) (simp add: act_init_def ex_start_def)
  then show ?thesis
    unfolding ex_swept_def by (rule reachable_step) (rule act_step.analyse, rule prod.collapse [symmetric])
qed

lemma reach_ex_prepared: "act_reachable jt0 ts0 ex_prepared"
  unfolding ex_prepared_def
  by (intro reach_prepared reach_swept) (code_simp, code_simp)

lemma reach_ex_approved: "act_reachable jt0 ts0 ex_approved"
  unfolding ex_approved_def
  by (intro reach_approved reach_ex_prepared) (code_simp, code_simp)

lemma reach_ex_done: "act_reachable jt0 ts0 ex_done"
  unfolding ex_done_def by (intro reach_executed reach_ex_approved)

section \<open>What a record rests on\<close>



text \<open>
  The clock of a data-subject request never starts in the future of the decision that
  logged it: every request the Executor created was received no later than the moment its
  approval was recorded, and is due thirty days after its receipt, provided the receipt date
  in the payload is an absolute one.
\<close>

theorem request_clock_runs_from_receipt:
  assumes "act_reachable jt ts db" and "x \<in> set (db_dsars db)" and "\<forall>s t t'. ts t s = ts t' s"
  shows "\<exists>a \<in> set (db_audit db). au_action a = ''approve_finding'' \<and> au_finding a = dq_finding x
    \<and> au_approver a = dq_created_by x \<and> dq_received x \<le> au_at a
    \<and> dq_due x = dq_received x + 30 * day_ns"
proof -
  have "dsar_received ts db x"
    using reachable_inv [OF assms(1)] assms(2) by (rule act_inv_records)
  then obtain a f t at u where a: "a \<in> set (db_audit db)"
    "approval_of a (dq_finding x) (dq_org x) (dq_created_by x) f" "ts at t = Some (dq_received x)"
    "ts (au_at a) t = Some u" "u \<le> au_at a" "dq_due x = dq_received x + 30 * day_ns"
    unfolding dsar_received_def by blast
  from assms(3) have "ts at t = ts (au_at a) t" by blast
  with a(3-5) have "dq_received x \<le> au_at a" by simp
  with a show ?thesis unfolding approval_of_def by blast
qed

theorem request_clock_runs_from_receipt_witness:
  "\<exists>x \<in> set (db_dsars ex_done). \<exists>a \<in> set (db_audit ex_done). au_action a = ''approve_finding''
     \<and> au_finding a = dq_finding x \<and> au_approver a = dq_created_by x \<and> dq_received x \<le> au_at a
     \<and> dq_due x = dq_received x + 30 * day_ns"
proof -
  have "db_dsars ex_done \<noteq> []" by code_simp
  then have x: "hd (db_dsars ex_done) \<in> set (db_dsars ex_done)" by simp
  from request_clock_runs_from_receipt [OF reach_ex_done x] x show ?thesis
    by (auto simp: ts0_def)
qed

text \<open>
  C17: One decision makes at most one record: over all three registers no two entries come from
  the same finding, and each entry belongs to a settled job of its finding and organisation,
  was created in the name of the person who approved it, and has its own row in the audit
  trail.
\<close>

theorem one_record_per_decision:
  assumes "act_reachable jt ts db"
  shows "distinct (map cr_finding (created_rows db))
    \<and> (\<forall>c \<in> set (created_rows db).
        (\<exists>j \<in> set (db_jobs db). jb_finding j = cr_finding c \<and> jb_status j = ''done''
           \<and> jb_org j = cr_org c \<and> jb_approver j = cr_by c)
        \<and> (\<exists>a \<in> set (db_audit db). au_table a = cr_table c \<and> au_target a = cr_id c
             \<and> au_finding a = cr_finding c \<and> au_approver a = cr_by c))"
proof -
  note inv = reachable_inv [OF assms]
  have "record_backed db c" if "c \<in> set (created_rows db)" for c
    using inv that by (rule act_inv_records)
  with act_inv_records(2) [OF inv] show ?thesis unfolding record_backed_def by blast
qed

theorem one_record_per_decision_witness:
  "length (created_rows ex_done) = 2 \<and> distinct (map cr_finding (created_rows ex_done))"
proof
  show "length (created_rows ex_done) = 2" by code_simp
  show "distinct (map cr_finding (created_rows ex_done))"
    using one_record_per_decision [OF reach_ex_done] by blast
qed

section \<open>Decisions\<close>

text \<open>
  C18: An approval is all or nothing: it is applied exactly when a finding the caller can see
  was not approved yet and its checks pass, and then it leaves the finding approved by the
  caller, exactly one audit row with the finding before and after, and a job for a finding
  whose action creates a record and for no other; in every other case, refusals included,
  nothing is written.
\<close>

theorem approval_is_all_or_nothing:
  assumes "fresh_ids db" and "approve_finding jt ts s (Some n) reviewed db = Inr (acted, db')"
  shows "if ac_applied acted then
      \<exists>r. finding_of s n db = Some r \<and> fr_status r \<noteq> ''approved''
        \<and> \<not> requires_review (fr_action r) (ep_risk (plan_of_row jt ts (se_now s) r)) reviewed
        \<and> finding_of s n db' = Some (approved_by (se_user s) reviewed r)
        \<and> (\<exists>a. db_audit db' = db_audit db @ [a]
             \<and> approval_of a n (se_org s) (se_user s) (approved_by (se_user s) reviewed r)
             \<and> au_before a = Some (FindingSnap r))
        \<and> (enqueued n db' \<longleftrightarrow> enqueued n db \<or> executes (fr_action r))
    else db' = db"
proof -
  have wcr: "ac_applied (with_created_record s n d acted) = ac_applied acted" for d acted
    by (simp add: with_created_record_def split: option.split)
  consider (same) "db' = db" "\<not> ac_applied acted"
    | (wrote) snap plan where "approve_check jt ts s n reviewed db = Inr (snap, plan)"
      "(acted, db') = approve_write s n reviewed snap plan db"
    using assms(2)
    by (auto simp: approve_finding_def approve_check_def not_applied_def wcr Let_def
        split: sum.splits option.splits if_splits)
  then show ?thesis
  proof cases
    case same
    then show ?thesis by simp
  next
    case (wrote snap plan)
    from approve_checkD [OF wrote(1)] obtain r where r: "finding_of s n db = Some r"
      "fr_status r \<noteq> ''approved''" "plan = plan_of_row jt ts (se_now s) r" "snap = Some (FindingSnap r)"
      "\<not> requires_review (fr_action r) (ep_risk plan) reviewed" by blast
    have rn: "r \<in> set (db_findings db)" "fr_id r = n" "visible s db (fr_org r)"
      using finding_ofD [OF r(1)] by blast+
    let ?d = "decided s n reviewed snap db" and ?r = "approved_by (se_user s) reviewed r"
    have act: "ep_action plan = fr_action r" by (simp add: r(3) plan_of_row_def Let_def)
    have db': "db' = (if executes (fr_action r) then enqueue_job s n (fr_action r) ?d else ?d)"
      using approve_write_eq [OF rn r(2), of reviewed snap plan] wrote(2) act
      by (metis snd_conv)
    have "find (\<lambda>r. fr_id r = n \<and> visible s db (fr_org r) \<and> fr_status r \<noteq> ''approved'') (db_findings db) \<noteq> None"
      using rn r(2) by (auto simp: find_None_iff)
    then have app: "ac_applied acted"
      using wrote(2) by (auto simp: approve_write_def update_finding_def Let_def wcr not_applied_def)
    have fresh: "fresh_ids ?d"
      using decided_soft [of db s n reviewed snap] assms(1) by (simp add: soft_def keeps_findings_def)
    have mem: "?r \<in> set (db_findings ?d)" by (rule decided_approval(2) [OF assms(1) r(1,2)])
    have vis: "visible s ?d (fr_org r)"
      using rn(3) by (simp add: decided_def record_audit_def)
    have here: "finding_of s n ?d = Some ?r"
      by (rule finding_of_eq [OF fresh mem]) (use rn vis in simp_all)
    have here': "finding_of s n db' = Some ?r"
      using here by (simp add: db' enqueue_job_def finding_of_def visible_def role_of_def)
    have audit: "db_audit db' = db_audit ?d" by (simp add: db' enqueue_job_def)
    obtain a where a: "db_audit ?d = db_audit db @ [a]" "au_before a = snap"
      "approval_of a n (se_org s) (se_user s) ?r"
    proof
      let ?db1 = "db\<lparr>db_findings := db_findings ?d\<rparr>"
      have snapshot: "finding_snapshot s n ?db1 = Some (FindingSnap ?r)"
        using here by (simp add: finding_snapshot_def finding_of_def decided_def record_audit_def
            visible_def role_of_def)
      show "db_audit ?d = db_audit db @ [audit_row_for s ?db1 n ''approve_finding'' ''findings'' n snap
          (finding_snapshot s n ?db1)]"
        by (simp add: decided_def record_audit_def)
      show "approval_of (audit_row_for s ?db1 n ''approve_finding'' ''findings'' n snap
          (finding_snapshot s n ?db1)) n (se_org s) (se_user s) ?r"
        by (simp add: approval_of_def audit_row_for_def snapshot)
    qed (simp add: audit_row_for_def)
    have jobs: "db_jobs ?d = db_jobs db" by (simp add: decided_def record_audit_def)
    have "enqueued n db' \<longleftrightarrow> enqueued n db \<or> executes (fr_action r)"
      by (auto simp: db' enqueue_job_def enqueued_def jobs)
    with r app here' a audit show ?thesis by auto
  qed
qed

theorem approval_is_all_or_nothing_witness:
  "finding_of ada 0 (approved 0 True ex_prepared)
     = Some (approved_by ''ada'' True (the (finding_of ada 0 ex_prepared)))
   \<and> enqueued 0 (approved 0 True ex_prepared)"
proof -
  have fresh: "fresh_ids ex_prepared"
    using reachable_inv [OF reach_ex_prepared] by (rule act_inv_fresh)
  obtain acted where run: "approve_finding jt0 ts0 ada (Some 0) True ex_prepared
      = Inr (acted, approved 0 True ex_prepared)"
  proof -
    have "\<not> isl (approve_finding jt0 ts0 ada (Some 0) True ex_prepared)" by code_simp
    with that show ?thesis
      by (cases "approve_finding jt0 ts0 ada (Some 0) True ex_prepared") (auto simp: approved_def)
  qed
  have "ac_applied (fst (projr (approve_finding jt0 ts0 ada (Some 0) True ex_prepared)))" by code_simp
  with run have app: "ac_applied acted" by simp
  have ex: "executes (fr_action (the (finding_of ada 0 ex_prepared)))" by code_simp
  from approval_is_all_or_nothing [OF fresh run] app ex show ?thesis
    by (auto simp: ada_def)
qed

section \<open>Where the pipeline falls short\<close>




lemma payload_text_lookup:
  "payload_text jt r k = Some v \<Longrightarrow> fr_payload r = fr_payload r' \<Longrightarrow> payload_text jt r' k = Some v"
  by (simp add: payload_text_def)

text \<open>A job the database refuses to settle stays as it was, whoever runs it and however often.\<close>

definition stuck :: "(json \<Rightarrow> string) \<Rightarrow> nat \<Rightarrow> finding_row \<Rightarrow> string \<Rightarrow> act_db \<Rightarrow> bool" where
  "stuck jt k r org db \<longleftrightarrow>
     (\<exists>j. job_of k db = Some j \<and> jb_status j = ''pending'' \<and> jb_action j = ActionCreateAISystem
        \<and> jb_org j = org \<and> role_of db org (jb_approver j) \<noteq> None
        \<and> find (\<lambda>x. fr_id x = jb_finding j \<and> fr_org x = org) (db_findings db) = Some r)
     \<and> db_ai db = []"

lemma job_of_update:
  "(\<And>j. jb_id (f j) = jb_id j) \<Longrightarrow> job_of k (update_job k f db) = map_option f (job_of k db)"
proof -
  assume id: "\<And>j. jb_id (f j) = jb_id j"
  have "find (\<lambda>j. jb_id j = k) (map (\<lambda>j. if jb_id j = k then f j else j) js)
      = map_option f (find (\<lambda>j. jb_id j = k) js)" for js
    by (induction js) (auto simp: id)
  then show ?thesis by (simp add: job_of_def update_job_def)
qed

lemma stuck_step:
  assumes st: "stuck jt k r org db"
    and bad: "payload_text jt r ''documentation_status'' = Some v" "v \<noteq> []" "v \<notin> set documentation_states"
    and risk: "payload_text jt r ''risk_classification'' = None"
  shows "\<exists>db'. execute_call jt ts k at db = (Inl (RowRefused ''documentation_status''), db')
    \<and> stuck jt k r org db'"
proof -
  from st obtain j where j: "job_of k db = Some j" "jb_status j = ''pending''"
    "jb_action j = ActionCreateAISystem" "jb_org j = org" "role_of db org (jb_approver j) \<noteq> None"
    "find (\<lambda>x. fr_id x = jb_finding j \<and> fr_org x = org) (db_findings db) = Some r" "db_ai db = []"
    unfolding stuck_def by blast
  have vis: "visible (job_session j at) db o' \<longleftrightarrow> o' = org" for o'
    using j(4,5) by (auto simp: visible_def job_session_def)
  have f: "finding_of (job_session j at) (jb_finding j) db = Some r"
    using j(6) by (simp add: finding_of_def vis)
  have "ai_of jt (job_session j at) (db_next db) r = Inl (RowRefused ''documentation_status'')"
    using bad risk by (simp add: ai_of_def Let_def coalesce_def nullif_blank_def risk_classes_def)
  then have "create_record jt ts (job_session j at) (jb_finding j) (jb_action j) db
      = Inl (RowRefused ''documentation_status'')"
    by (simp add: create_record_def j(3,7) create_ai_system_def f ActionCreateROPA_def
        ActionCreateDSAR_def ActionCreateAISystem_def)
  then have ex: "execute_job jt ts k at db = Inl (RowRefused ''documentation_status'')"
    using j(1,2,4) vis by (simp add: execute_job_def Let_def)
  let ?f = "\<lambda>j. j\<lparr>jb_attempts := Suc (jb_attempts j), jb_error := Some (RowRefused ''documentation_status'')\<rparr>"
  have rec: "record_failed_execution k (RowRefused ''documentation_status'') at db = update_job k ?f db"
    using j(1,2,4) vis by (simp add: record_failed_execution_def)
  have upd: "job_of k (update_job k ?f db) = Some (?f j)" using j(1) by (simp add: job_of_update)
  have "stuck jt k r org (update_job k ?f db)"
    unfolding stuck_def
    by (intro conjI exI [of _ "?f j"] upd) (use j in \<open>simp_all add: update_job_def role_of_def\<close>)
  with ex rec show ?thesis by (simp add: execute_call_def)
qed

text \<open>A run of the Executor at each of the given times.\<close>

fun execute_attempts ::
  "(json \<Rightarrow> string) \<Rightarrow> (instant \<Rightarrow> string \<Rightarrow> instant option) \<Rightarrow> nat \<Rightarrow> instant list \<Rightarrow> act_db
     \<Rightarrow> (act_error + execution) list \<times> act_db" where
  "execute_attempts jt ts k [] db = ([], db)"
| "execute_attempts jt ts k (at # ats) db =
     (let (res, db1) = execute_call jt ts k at db; (rs, db2) = execute_attempts jt ts k ats db1
      in (res # rs, db2))"

lemma attempts_stuck:
  assumes "payload_text jt r ''documentation_status'' = Some v" "v \<noteq> []" "v \<notin> set documentation_states"
    and "payload_text jt r ''risk_classification'' = None" and "stuck jt k r org db"
  shows "fst (execute_attempts jt ts k ats db) = map (\<lambda>_. Inl (RowRefused ''documentation_status'')) ats
    \<and> stuck jt k r org (snd (execute_attempts jt ts k ats db))"
  using assms(5)
proof (induction ats arbitrary: db)
  case Nil
  then show ?case by simp
next
  case (Cons at ats)
  from stuck_step [OF Cons.prems assms(1-4)] obtain db1 where db1:
    "execute_call jt ts k at db = (Inl (RowRefused ''documentation_status''), db1)" "stuck jt k r org db1"
    by blast
  with Cons.IH [OF db1(2)] show ?case by (simp add: Let_def split_beta)
qed

text \<open>
  A value the register itself suggests for a column makes an approval nobody can carry out.
  The description of \<open>documentation_status\<close> offers the words "not started"; a plan with that
  value passes the check and the approval, and then every attempt of the Executor, however
  many, is refused by the table's constraint: the finding stays approved, the job pending,
  and the register empty.
\<close>

theorem suggested_value_never_executes:
  "(let db = approved 0 False (prepared 0 ''documentation_status'' ''not started'' ex_swept) in
      fst (execute_attempts jt0 ts0 2 ats db) = map (\<lambda>_. Inl (RowRefused ''documentation_status'')) ats
      \<and> db_ai (snd (execute_attempts jt0 ts0 2 ats db)) = []
      \<and> map_option jb_status (job_of 2 (snd (execute_attempts jt0 ts0 2 ats db))) = Some ''pending'')
   \<and> act_reachable jt0 ts0 (approved 0 False (prepared 0 ''documentation_status'' ''not started'' ex_swept))"
proof -
  let ?db = "approved 0 False (prepared 0 ''documentation_status'' ''not started'' ex_swept)"
  let ?r = "the (finding_of ada 0 ?db)"
  have "act_reachable jt0 ts0 ?db"
    by (intro reach_approved reach_prepared reach_swept) (code_simp, code_simp)
  moreover have t: "payload_text jt0 ?r ''documentation_status'' = Some ''not started''" by code_simp
  have n: "payload_text jt0 ?r ''risk_classification'' = None" by code_simp
  have v: "''not started'' \<noteq> []" "''not started'' \<notin> set documentation_states"
    by (simp_all add: documentation_states_def)
  have "stuck jt0 2 ?r ''o1'' ?db"
    unfolding stuck_def
  proof (intro conjI exI [of _ "the (job_of 2 ?db)"])
    show "job_of 2 ?db = Some (the (job_of 2 ?db))" by code_simp
    show "jb_status (the (job_of 2 ?db)) = ''pending''" by code_simp
    show "jb_action (the (job_of 2 ?db)) = ActionCreateAISystem" by code_simp
    show "jb_org (the (job_of 2 ?db)) = ''o1''" by code_simp
    show "role_of ?db ''o1'' (jb_approver (the (job_of 2 ?db))) \<noteq> None" by code_simp
    show "find (\<lambda>x. fr_id x = jb_finding (the (job_of 2 ?db)) \<and> fr_org x = ''o1'') (db_findings ?db)
        = Some ?r" by code_simp
    show "db_ai ?db = []" by code_simp
  qed
  from attempts_stuck [OF t v n this, of ts0 ats] have
    "fst (execute_attempts jt0 ts0 2 ats ?db) = map (\<lambda>_. Inl (RowRefused ''documentation_status'')) ats"
    "stuck jt0 2 ?r ''o1'' (snd (execute_attempts jt0 ts0 2 ats ?db))" by blast+
  ultimately show ?thesis
    unfolding Let_def stuck_def by auto
qed

section \<open>The dashboard\<close>

lemma posture_rows_severities: "fst (posture_rows rs) = map fr_severity rs"
  by (induction rs) (auto simp: Let_def split_beta)

lemma posture_rows_deadlines:
  "d \<in> set (snd (posture_rows rs)) \<Longrightarrow> dl_severity d \<in> set (map fr_severity rs)"
  by (induction rs) (auto simp: Let_def split_beta split: if_splits option.splits)

text \<open>
  The dashboard's band is decided by the severities of the open findings alone: a deadline
  reaches it only as a finding whose own severity is already counted, so neither the thirty
  day window nor the passing of a deadline ever changes the band, and a critical deadline that
  is still ahead shows as red, never as the amber the rule reserves for it.
\<close>

theorem deadlines_never_move_the_band:
  "da_posture (dashboard_of s watched db) =
     (if watched = None then NotAssessed
      else if \<exists>r \<in> set (pending_rows s db). fr_severity r = ''critical'' then Red
      else if \<exists>r \<in> set (pending_rows s db). fr_severity r = ''high'' then Amber
      else Green)"
proof -
  let ?rs = "pending_rows s db"
  have late: "overdue (snd (posture_rows ?rs)) sev \<Longrightarrow> sev \<in> fr_severity ` set ?rs"
    "near_term (snd (posture_rows ?rs)) sev \<Longrightarrow> sev \<in> fr_severity ` set ?rs" for sev
    using posture_rows_deadlines [of _ ?rs] by (auto simp: overdue_def near_term_def list_ex_iff)
  have "has_severity (fst (posture_rows ?rs)) sev \<longleftrightarrow> sev \<in> fr_severity ` set ?rs" for sev
    by (auto simp: has_severity_def list_ex_iff posture_rows_severities)
  moreover have "(\<exists>r \<in> set ?rs. fr_severity r = sev) \<longleftrightarrow> sev \<in> fr_severity ` set ?rs" for sev
    by auto
  moreover note late [of "''critical''"] late [of "''high''"]
  ultimately show ?thesis
    unfolding dashboard_of_def compute_posture_def split_beta Let_def
    by (cases "''critical'' \<in> fr_severity ` set ?rs"; cases "''high'' \<in> fr_severity ` set ?rs") auto
qed

end
