(* ===== verification/Act_Refinement.thy ===== *)
theory Act_Refinement
  imports Act_Claims
begin

text \<open>
  The life of a finding as a reader of the product would describe it: a status, and how far the
  decision has been carried out.  The tables and their transactions refine this machine.
\<close>

section \<open>The abstract ledger\<close>

datatype stage = NoJob | Queued | CarriedOut

type_synonym ledger = "nat \<Rightarrow> (string \<times> stage) option"

inductive ledger_step :: "ledger \<Rightarrow> ledger \<Rightarrow> bool" where
  raise: "m n = None \<Longrightarrow> ledger_step m (m(n \<mapsto> (''pending'', NoJob)))"
| approve: "m n = Some (st, g) \<Longrightarrow> st \<noteq> ''approved'' \<Longrightarrow> ledger_step m (m(n \<mapsto> (''approved'', g)))"
| approve_queue: "m n = Some (st, NoJob) \<Longrightarrow> st \<noteq> ''approved'' \<Longrightarrow>
    ledger_step m (m(n \<mapsto> (''approved'', Queued)))"
| reject: "m n = Some (st, g) \<Longrightarrow> st \<noteq> ''rejected'' \<Longrightarrow> ledger_step m (m(n \<mapsto> (''rejected'', g)))"
| postpone: "m n = Some (st, g) \<Longrightarrow> ledger_step m (m(n \<mapsto> (''snoozed'', g)))"
| resurface: "m n = Some (''snoozed'', g) \<Longrightarrow> ledger_step m (m(n \<mapsto> (''pending'', g)))"
| carry_out: "m n = Some (st, Queued) \<Longrightarrow> ledger_step m (m(n \<mapsto> (st, CarriedOut)))"

text \<open>What the ledger promises: a finding is never lost and its stage only advances.\<close>

fun stage_rank :: "stage \<Rightarrow> nat" where
  "stage_rank NoJob = 0"
| "stage_rank Queued = 1"
| "stage_rank CarriedOut = 2"

lemma ledger_steps_advance:
  "ledger_step\<^sup>*\<^sup>* m m' \<Longrightarrow> m n = Some (st, g) \<Longrightarrow>
     \<exists>st' g'. m' n = Some (st', g') \<and> stage_rank g \<le> stage_rank g'"
proof (induction rule: rtranclp_induct)
  case base
  then show ?case by blast
next
  case (step y z)
  then obtain st' g' where y: "y n = Some (st', g')" "stage_rank g \<le> stage_rank g'" by blast
  from step(2) y(1) have "\<exists>st'' g''. z n = Some (st'', g'') \<and> stage_rank g' \<le> stage_rank g''"
    by cases auto
  with y(2) show ?case by (meson le_trans)
qed

section \<open>Reading the tables as a ledger\<close>










section \<open>Each operation, read on the ledger\<close>

lemma record_audit_same [simp]:
  "db_findings (record_audit s n a b db) = db_findings db" "db_jobs (record_audit s n a b db) = db_jobs db"
  by (simp_all add: record_audit_def)




















section \<open>Claims\<close>



end
