(* ===== verification/Feed.thy ===== *)
theory Feed
  imports Act_Claims Go_Encoding "HOL-Library.Product_Lexorder"
begin

text \<open>
  Paging (\<open>internal/store/postgres/findings.go\<close>: \<open>Findings\<close>, the cursor; \<open>records.go\<close>:
  \<open>Dsars\<close>, \<open>clampPageSize\<close>).  A list is read a page at a time by a position in its order, so
  that rows written while it is read neither shift nor hide the ones already there.
\<close>

definition DefaultPageSize :: int where "DefaultPageSize = 25"
definition MaxPageSize :: int where "MaxPageSize = 100"

definition clamp_page_size :: "int \<Rightarrow> nat" where
  "clamp_page_size n =
     nat (if n \<le> 0 then DefaultPageSize else if n > MaxPageSize then MaxPageSize else n)"

section \<open>The cursor\<close>

text \<open>
  \<open>fmt\<close> and \<open>pt\<close> stand for formatting a time as RFC 3339 with nanoseconds in UTC and parsing it,
  \<open>idt\<close> and \<open>pid\<close> for the text of a uuid and its parser.
\<close>

definition encode_cursor :: "(instant \<Rightarrow> string) \<Rightarrow> instant \<Rightarrow> string \<Rightarrow> string" where
  "encode_cursor fmt at ident = b64_encode (fmt at @ ''|'' @ ident)"

datatype cursor_error = BadCursor

definition decode_cursor ::
  "(string \<Rightarrow> instant option) \<Rightarrow> (string \<Rightarrow> nat option) \<Rightarrow> string \<Rightarrow> cursor_error + (instant \<times> nat)" where
  "decode_cursor pt pid c =
     (case b64_decode c of
        None \<Rightarrow> Inl BadCursor
      | Some raw \<Rightarrow>
          (let (at, ident, found) = cut raw ''|'' in
           if \<not> found then Inl BadCursor
           else (case pt at of None \<Rightarrow> Inl BadCursor
             | Some t \<Rightarrow> (case pid ident of None \<Rightarrow> Inl BadCursor | Some n \<Rightarrow> Inr (t, n)))))"

section \<open>A page\<close>

text \<open>One row more than asked for is read, and says whether there is another page.\<close>

definition cut_page :: "nat \<Rightarrow> ('r \<Rightarrow> 'k) \<Rightarrow> 'r list \<Rightarrow> 'r list \<times> 'k option" where
  "cut_page limit key rs =
     (let got = take (limit + 1) rs
      in if length got > limit then (take limit got, Some (key (got ! (limit - 1)))) else (got, None))"

definition finding_key :: "finding_row \<Rightarrow> instant \<times> nat" where
  "finding_key r = (fr_created r, fr_id r)"

definition feed_rows :: "session \<Rightarrow> string \<Rightarrow> act_db \<Rightarrow> finding_row list" where
  "feed_rows s status db =
     filter (\<lambda>r. visible s db (fr_org r) \<and> (status \<noteq> [] \<longrightarrow> fr_status r = status)) (db_findings db)"

definition findings_at ::
  "session \<Rightarrow> string \<Rightarrow> int \<Rightarrow> act_db \<Rightarrow> (instant \<times> nat) option \<Rightarrow> finding_row list \<times> (instant \<times> nat) option" where
  "findings_at s status sz db c =
     cut_page (clamp_page_size sz) finding_key
       (rev (sort_key finding_key
          (filter (\<lambda>r. case c of None \<Rightarrow> True | Some k \<Rightarrow> finding_key r < k) (feed_rows s status db))))"

definition page_reply ::
  "(instant \<Rightarrow> string) \<Rightarrow> (nat \<Rightarrow> string) \<Rightarrow> finding_row list \<times> (instant \<times> nat) option \<Rightarrow> finding_row list \<times> string" where
  "page_reply fmt idt reply =
     (case reply of (rs, None) \<Rightarrow> (rs, []) | (rs, Some (at, n)) \<Rightarrow> (rs, encode_cursor fmt at (idt n)))"

definition findings_page ::
  "(instant \<Rightarrow> string) \<Rightarrow> (string \<Rightarrow> instant option) \<Rightarrow> (nat \<Rightarrow> string) \<Rightarrow> (string \<Rightarrow> nat option)
     \<Rightarrow> session \<Rightarrow> string \<Rightarrow> int \<Rightarrow> act_db \<Rightarrow> string \<Rightarrow> cursor_error + (finding_row list \<times> string)" where
  "findings_page fmt pt idt pid s status sz db c =
     (if c = [] then Inr (page_reply fmt idt (findings_at s status sz db None))
      else (case decode_cursor pt pid c of
              Inl e \<Rightarrow> Inl e
            | Inr k \<Rightarrow> Inr (page_reply fmt idt (findings_at s status sz db (Some k)))))"

text \<open>The request log ascends, by due date: the comparison flips with the order.\<close>

definition dsar_key :: "dsar_row \<Rightarrow> instant \<times> nat" where
  "dsar_key r = (dq_due r, dq_id r)"

definition log_rows :: "session \<Rightarrow> string \<Rightarrow> act_db \<Rightarrow> dsar_row list" where
  "log_rows s status db =
     filter (\<lambda>r. visible s db (dq_org r) \<and> (status \<noteq> [] \<longrightarrow> dq_status r = status)) (db_dsars db)"

definition dsars_at ::
  "session \<Rightarrow> string \<Rightarrow> int \<Rightarrow> act_db \<Rightarrow> (instant \<times> nat) option \<Rightarrow> dsar_row list \<times> (instant \<times> nat) option" where
  "dsars_at s status sz db c =
     cut_page (clamp_page_size sz) dsar_key
       (sort_key dsar_key
          (filter (\<lambda>r. case c of None \<Rightarrow> True | Some k \<Rightarrow> k < dsar_key r) (log_rows s status db)))"

section \<open>Reading a list to its end\<close>

text \<open>
  A reader that follows the cursor, the tables being in state \<open>st i\<close> at its \<open>i\<close>-th request, and
  gives up after \<open>n\<close> requests.
\<close>

primrec walk_pages ::
  "('s \<Rightarrow> 'k option \<Rightarrow> 'r list \<times> 'k option) \<Rightarrow> (nat \<Rightarrow> 's) \<Rightarrow> nat \<Rightarrow> nat \<Rightarrow> 'k option \<Rightarrow> 'r list option" where
  "walk_pages page st 0 i c = None"
| "walk_pages page st (Suc n) i c =
     (let (xs, c') = page (st i) c
      in case c' of None \<Rightarrow> Some xs
         | Some k \<Rightarrow> map_option ((@) xs) (walk_pages page st n (Suc i) (Some k)))"

definition beyond :: "('k \<Rightarrow> 'k \<Rightarrow> bool) \<Rightarrow> 'k option \<Rightarrow> 'k \<Rightarrow> bool" where
  "beyond before c k = (case c of None \<Rightarrow> True | Some k0 \<Rightarrow> before k0 k)"

text \<open>
  What a list read by position promises: a page is in order and holds rows beyond the position
  only; every row beyond it is on the page or beyond the position the page hands back, which
  is that of the page's last row.
\<close>

locale keyset_list =
  fixes before :: "'k \<Rightarrow> 'k \<Rightarrow> bool"
    and key :: "'r \<Rightarrow> 'k"
    and rows :: "'s \<Rightarrow> 'r list"
    and page :: "'s \<Rightarrow> 'k option \<Rightarrow> 'r list \<times> 'k option"
    and ok :: "'s \<Rightarrow> bool"
  assumes trans: "before k k1 \<Longrightarrow> before k1 k2 \<Longrightarrow> before k k2"
    and irrefl: "\<not> before k k"
    and ordered: "ok s \<Longrightarrow> page s c = (xs, c') \<Longrightarrow> sorted_wrt before (map key xs)"
    and sound: "ok s \<Longrightarrow> page s c = (xs, c') \<Longrightarrow> r \<in> set xs \<Longrightarrow> r \<in> set (rows s) \<and> beyond before c (key r)"
    and more: "ok s \<Longrightarrow> page s c = (xs, Some k) \<Longrightarrow> xs \<noteq> [] \<and> k = key (last xs)"
    and complete: "ok s \<Longrightarrow> page s c = (xs, c') \<Longrightarrow> r \<in> set (rows s) \<Longrightarrow> beyond before c (key r) \<Longrightarrow>
      r \<in> set xs \<or> (\<exists>k. c' = Some k \<and> before k (key r))"
begin

lemma beyond_trans: "beyond before c k \<Longrightarrow> before k k' \<Longrightarrow> beyond before c k'"
  by (auto simp: beyond_def intro: trans split: option.splits)

lemma walk_Suc:
  assumes "walk_pages page st (Suc n) i c = Some ys"
  obtains (final) "page (st i) c = (ys, None)"
  | (next_page) xs k zs where "page (st i) c = (xs, Some k)" "walk_pages page st n (Suc i) (Some k) = Some zs"
      "ys = xs @ zs"
  using assms by (auto simp: Let_def split: prod.splits option.splits)

lemma walk_ordered:
  assumes ok: "\<And>i. ok (st i)"
  shows "walk_pages page st n i c = Some ys \<Longrightarrow>
    sorted_wrt before (map key ys) \<and> (\<forall>y \<in> set ys. beyond before c (key y))"
proof (induction n arbitrary: i c ys)
  case 0
  then show ?case by simp
next
  case (Suc n)
  from Suc.prems show ?case
  proof (cases rule: walk_Suc)
    case final
    then show ?thesis using ordered [OF ok final] sound [OF ok final] by blast
  next
    case (next_page xs k zs)
    note page = next_page(1)
    from more [OF ok page] have k: "xs \<noteq> []" "k = key (last xs)" by blast+
    from Suc.IH [OF next_page(2)] have zs: "sorted_wrt before (map key zs)"
      "\<And>z. z \<in> set zs \<Longrightarrow> before k (key z)" by (auto simp: beyond_def)
    have xs: "sorted_wrt before (map key xs)" using ordered [OF ok page] .
    have last_max: "x \<in> set xs \<Longrightarrow> x = last xs \<or> before (key x) (key (last xs))" for x
      using xs k(1) by (induction xs) (auto split: if_splits)
    have "before (key x) (key z)" if "x \<in> set xs" "z \<in> set zs" for x z
      using last_max [OF that(1)] zs(2) [OF that(2)] k(2) by (auto intro: trans)
    moreover have bx: "beyond before c (key x)" if "x \<in> set xs" for x
      using sound [OF ok page that] by blast
    moreover have "beyond before c (key z)" if "z \<in> set zs" for z
      using bx [of "last xs"] k zs(2) [OF that] by (auto intro: beyond_trans)
    ultimately show ?thesis
      using xs zs(1) next_page(3) by (auto simp: sorted_wrt_append)
  qed
qed

lemma walk_complete:
  assumes ok: "\<And>i. ok (st i)" and there: "\<And>i. k \<in> key ` set (rows (st i))"
  shows "walk_pages page st n i c = Some ys \<Longrightarrow> beyond before c k \<Longrightarrow> k \<in> key ` set ys"
proof (induction n arbitrary: i c ys)
  case 0
  then show ?case by simp
next
  case (Suc n)
  from there [of i] obtain r where r: "r \<in> set (rows (st i))" "k = key r" by auto
  from Suc.prems(1) show ?case
  proof (cases rule: walk_Suc)
    case final
    from complete [OF ok final r(1)] Suc.prems(2) r(2) show ?thesis by auto
  next
    case (next_page xs k' zs)
    from complete [OF ok next_page(1) r(1)] Suc.prems(2) r(2)
    consider "r \<in> set xs" | "before k' k" by auto
    then show ?thesis
    proof cases
      case 1
      with next_page(3) r(2) show ?thesis by auto
    next
      case 2
      then have "beyond before (Some k') k" by (simp add: beyond_def)
      from Suc.IH [OF next_page(2) this] next_page(3) show ?thesis by auto
    qed
  qed
qed

lemma walk_sound:
  assumes ok: "ok s"
  shows "walk_pages page (\<lambda>_. s) n i c = Some ys \<Longrightarrow> set ys \<subseteq> set (rows s)"
proof (induction n arbitrary: i c ys)
  case 0
  then show ?case by simp
next
  case (Suc n)
  from Suc.prems show ?case
    by (cases rule: walk_Suc) (use sound [OF ok] Suc.IH in \<open>fastforce+\<close>)
qed

lemma walk_ends:
  assumes ok: "ok s"
  shows "length (filter (\<lambda>r. beyond before c (key r)) (rows s)) < n \<Longrightarrow> walk_pages page (\<lambda>_. s) n i c \<noteq> None"
proof (induction n arbitrary: i c)
  case 0
  then show ?case by simp
next
  case (Suc n)
  obtain xs c' where page: "page s c = (xs, c')" by fastforce
  show ?case
  proof (cases c')
    case None
    with page show ?thesis by simp
  next
    case (Some k)
    note page = page [unfolded Some]
    from more [OF ok page] have k: "xs \<noteq> []" "k = key (last xs)" by blast+
    from sound [OF ok page] k have l: "last xs \<in> set (rows s)" "beyond before c k" by auto
    have sub: "beyond before (Some k) (key r) \<Longrightarrow> beyond before c (key r)" for r
      using l(2) beyond_trans by (auto simp: beyond_def)
    have "length (filter (\<lambda>r. beyond before (Some k) (key r)) (rows s))
        < length (filter (\<lambda>r. beyond before c (key r)) (rows s))"
    proof -
      have "filter (\<lambda>r. beyond before (Some k) (key r)) (rows s)
          = filter (\<lambda>r. beyond before (Some k) (key r)) (filter (\<lambda>r. beyond before c (key r)) (rows s))"
        using sub by (auto intro: filter_cong)
      also have "length \<dots> < length (filter (\<lambda>r. beyond before c (key r)) (rows s))"
        by (rule length_filter_less [of "last xs"])
          (use l k irrefl in \<open>auto simp: beyond_def\<close>)
      finally show ?thesis .
    qed
    with Suc.prems have "walk_pages page (\<lambda>_. s) n (Suc i) (Some k) \<noteq> None" by (intro Suc.IH) simp
    with page show ?thesis by simp
  qed
qed

end

section \<open>The two lists keep the promise\<close>

lemma cut_page_eq:
  "0 < limit \<Longrightarrow> cut_page limit key rs =
     (if limit < length rs then (take limit rs, Some (key (rs ! (limit - 1)))) else (rs, None))"
  by (auto simp: cut_page_def Let_def min_def nth_take)

lemma clamp_page_size_pos: "0 < clamp_page_size n"
  by (simp add: clamp_page_size_def DefaultPageSize_def MaxPageSize_def)

lemma cut_page_law:
  assumes pos: "0 < limit" and sorted: "sorted_wrt before (map key rs)" and cut: "cut_page limit key rs = (xs, c')"
  shows "sorted_wrt before (map key xs)" and "set xs \<subseteq> set rs"
    and "c' = Some k \<Longrightarrow> xs \<noteq> [] \<and> k = key (last xs)"
    and "r \<in> set rs \<Longrightarrow> r \<in> set xs \<or> (\<exists>k. c' = Some k \<and> before k (key r))"
proof -
  note eq = cut [unfolded cut_page_eq [OF pos]]
  show "sorted_wrt before (map key xs)" "set xs \<subseteq> set rs"
    using sorted eq by (auto split: if_splits simp: take_map [symmetric] sorted_wrt_take dest: in_set_takeD)
  show "c' = Some k \<Longrightarrow> xs \<noteq> [] \<and> k = key (last xs)"
    using eq pos by (cases "rs = []") (auto split: if_splits simp: last_conv_nth min_def)
  assume r: "r \<in> set rs"
  show "r \<in> set xs \<or> (\<exists>k. c' = Some k \<and> before k (key r))"
  proof (cases "limit < length rs")
    case False
    with eq r show ?thesis by auto
  next
    case True
    from r obtain i where i: "i < length rs" "r = rs ! i" by (auto simp: in_set_conv_nth)
    show ?thesis
    proof (cases "i < limit")
      case True
      with i eq \<open>limit < length rs\<close> show ?thesis by (auto simp: in_set_conv_nth)
    next
      case False
      with i pos have "before (map key rs ! (limit - 1)) (map key rs ! i)"
        by (intro sorted_wrt_nth_less [OF sorted]) auto
      with eq True i pos show ?thesis by auto
    qed
  qed
qed

lemma sorted_by_key:
  fixes key :: "'r \<Rightarrow> 'k :: linorder"
  assumes "distinct (map key rs)"
  shows "sorted_wrt (<) (map key (sort_key key rs))"
proof -
  have "distinct (map key (sort_key key rs))" using assms by (auto simp: distinct_map)
  then show ?thesis by (simp add: strict_sorted_iff)
qed

lemma rev_sorted_by_key:
  fixes key :: "'r \<Rightarrow> 'k :: linorder"
  assumes "distinct (map key rs)"
  shows "sorted_wrt (\<lambda>a b. b < a) (map key (rev (sort_key key rs)))"
  using sorted_by_key [OF assms] by (simp add: rev_map [symmetric] sorted_wrt_rev)

definition feed_ok :: "act_db \<Rightarrow> bool" where
  "feed_ok db \<longleftrightarrow> distinct (map fr_id (db_findings db))"

definition log_ok :: "act_db \<Rightarrow> bool" where
  "log_ok db \<longleftrightarrow> distinct (map dq_id (db_dsars db))"

lemma distinct_keys_filter:
  assumes "distinct (map id_of rs)" and "\<And>r. key r = (f r, id_of r)"
  shows "distinct (map key (filter P rs))"
proof -
  have "distinct (map key rs)"
    using assms by (auto simp: distinct_map inj_on_def)
  then show ?thesis by (rule distinct_map_filter)
qed

text \<open>
  A store that sorts the rows beyond the position and cuts a page off them is such a list.
\<close>

lemma keyset_listI:
  assumes "\<And>k k1 k2. before k k1 \<Longrightarrow> before k1 k2 \<Longrightarrow> before k k2" and "\<And>k. \<not> before k k"
    and sel: "\<And>s c. ok s \<Longrightarrow> sorted_wrt before (map key (sel s c))"
    and mem: "\<And>s c. set (sel s c) = {r \<in> set (rows s). beyond before c (key r)}"
    and page: "\<And>s c. page s c = cut_page limit key (sel s c)" and pos: "0 < limit"
  shows "keyset_list before key rows page ok"
proof
  fix s c xs c' assume "ok s" and "page s c = (xs, c')"
  then have cut: "cut_page limit key (sel s c) = (xs, c')" by (simp add: page)
  note law = cut_page_law [OF pos sel [OF \<open>ok s\<close>] cut]
  show "sorted_wrt before (map key xs)" by (rule law(1))
  show "r \<in> set xs \<Longrightarrow> r \<in> set (rows s) \<and> beyond before c (key r)" for r
    using law(2) mem by blast
  show "r \<in> set (rows s) \<Longrightarrow> beyond before c (key r) \<Longrightarrow>
      r \<in> set xs \<or> (\<exists>k. c' = Some k \<and> before k (key r))" for r
    using law(4) [of r] mem by blast
next
  fix s c xs k assume "ok s" and "page s c = (xs, Some k)"
  then have "cut_page limit key (sel s c) = (xs, Some k)" by (simp add: page)
  from cut_page_law(3) [OF pos sel [OF \<open>ok s\<close>] this refl]
  show "xs \<noteq> [] \<and> k = key (last xs)" .
qed (use assms in blast)+

interpretation feed: keyset_list "\<lambda>a b. b < a" finding_key "feed_rows s status"
  "findings_at s status sz" feed_ok for s status sz
proof (rule keyset_listI [where limit = "clamp_page_size sz" and sel = "\<lambda>db c.
    rev (sort_key finding_key
      (filter (\<lambda>r. case c of None \<Rightarrow> True | Some k \<Rightarrow> finding_key r < k) (feed_rows s status db)))"])
  fix db c assume "feed_ok db"
  then show "sorted_wrt (\<lambda>a b. b < a) (map finding_key (rev (sort_key finding_key
      (filter (\<lambda>r. case c of None \<Rightarrow> True | Some k \<Rightarrow> finding_key r < k) (feed_rows s status db)))))"
    unfolding feed_rows_def filter_filter
    by (intro rev_sorted_by_key distinct_keys_filter [where id_of = fr_id and f = fr_created])
      (simp_all add: feed_ok_def finding_key_def)
qed (auto simp: findings_at_def clamp_page_size_pos beyond_def split: option.splits)

interpretation dsar_log: keyset_list "(<)" dsar_key "log_rows s status" "dsars_at s status sz" log_ok
  for s status sz
proof (rule keyset_listI [where limit = "clamp_page_size sz" and sel = "\<lambda>db c.
    sort_key dsar_key
      (filter (\<lambda>r. case c of None \<Rightarrow> True | Some k \<Rightarrow> k < dsar_key r) (log_rows s status db))"])
  fix db c assume "log_ok db"
  then show "sorted_wrt (<) (map dsar_key (sort_key dsar_key
      (filter (\<lambda>r. case c of None \<Rightarrow> True | Some k \<Rightarrow> k < dsar_key r) (log_rows s status db))))"
    unfolding log_rows_def filter_filter
    by (intro sorted_by_key distinct_keys_filter [where id_of = dq_id and f = dq_due])
      (simp_all add: log_ok_def dsar_key_def)
qed (auto simp: dsars_at_def clamp_page_size_pos beyond_def split: option.splits)

section \<open>What a reader of the lists gets\<close>

lemma reachable_feed_ok: "act_reachable jt ts db \<Longrightarrow> feed_ok db"
  by (drule reachable_inv, drule act_inv_fresh) (simp add: fresh_ids_def feed_ok_def)

lemma beyond_None [simp]: "beyond before None k"
  by (simp add: beyond_def)

text \<open>
  C15: The feed never skips or repeats a finding while it is being written to: whatever happens
  between the requests of a reader who follows the cursors, the findings shown are strictly
  descending in creation time and id, and every finding that the filter admits at each of the
  requests is shown.
\<close>

theorem feed_never_skips:
  assumes "\<And>i. act_reachable jt ts (st i)"
    and "walk_pages (findings_at s status sz) st n 0 None = Some ys"
  shows "sorted_wrt (\<lambda>a b. b < a) (map finding_key ys)
    \<and> {k. \<forall>i. k \<in> finding_key ` set (feed_rows s status (st i))} \<subseteq> finding_key ` set ys"
proof -
  have ok: "feed_ok (st i)" for i using assms(1) by (rule reachable_feed_ok)
  from feed.walk_ordered [OF ok assms(2)] feed.walk_complete [OF ok _ assms(2)] show ?thesis by auto
qed

lemma ex_swept_walked:
  "walk_pages (findings_at ada [] 1) (\<lambda>_. ex_swept) 3 0 None
     = Some (the (walk_pages (findings_at ada [] 1) (\<lambda>_. ex_swept) 3 0 None))"
proof -
  have "length (filter (\<lambda>r. beyond (\<lambda>a b. b < a) None (finding_key r)) (feed_rows ada [] ex_swept)) < 3"
    by code_simp
  from feed.walk_ends [OF reachable_feed_ok [OF reach_swept] this]
  show ?thesis by simp
qed

theorem feed_never_skips_witness:
  "finding_key ` set (feed_rows ada [] ex_swept)
     \<subseteq> finding_key ` set (the (walk_pages (findings_at ada [] 1) (\<lambda>_. ex_swept) 3 0 None))"
  using feed_never_skips [of jt0 ts0 "\<lambda>_. ex_swept", OF reach_swept ex_swept_walked] by auto

text \<open>
  Paging the request log is reading it: when nothing is written meanwhile, a reader who
  makes more requests than there are rows, with any page size, gets the whole log the filter
  admits, in the order of the due dates.
\<close>

theorem paged_log_is_the_log:
  assumes "log_ok db" and "length (log_rows s status db) < n"
  shows "walk_pages (dsars_at s status sz) (\<lambda>_. db) n 0 None = Some (sort_key dsar_key (log_rows s status db))"
proof -
  have "walk_pages (dsars_at s status sz) (\<lambda>_. db) n 0 None \<noteq> None"
    using dsar_log.walk_ends [OF assms(1)] assms(2) by simp
  then obtain ys where w: "walk_pages (dsars_at s status sz) (\<lambda>_. db) n 0 None = Some ys" by blast
  have d: "distinct (map dsar_key (log_rows s status db))"
    using assms(1) unfolding log_rows_def
    by (intro distinct_keys_filter [where id_of = dq_id and f = dq_due])
      (simp_all add: log_ok_def dsar_key_def)
  have sorted: "sorted_wrt (<) (map dsar_key ys)"
    using dsar_log.walk_ordered [OF assms(1) w] by blast
  have sub: "set ys \<subseteq> set (log_rows s status db)" by (rule dsar_log.walk_sound [OF assms(1) w])
  have "dsar_key ` set (log_rows s status db) \<subseteq> dsar_key ` set ys"
    using dsar_log.walk_complete [OF assms(1) _ w] by auto
  then have "set (log_rows s status db) \<subseteq> set ys"
    using sub d by (auto simp: distinct_map inj_on_def)
  with sub have eq: "set ys = set (sort_key dsar_key (log_rows s status db))" by auto
  have inj: "inj_on dsar_key (set ys \<union> set (sort_key dsar_key (log_rows s status db)))"
    using d eq by (simp add: distinct_map)
  have "map dsar_key ys = map dsar_key (sort_key dsar_key (log_rows s status db))"
    using sorted sorted_by_key [OF d] eq
    by (intro sorted_distinct_set_unique) (auto simp: strict_sorted_iff)
  then have "ys = sort_key dsar_key (log_rows s status db)"
    using inj by (rule map_inj_on)
  with w show ?thesis by simp
qed

theorem paged_log_is_the_log_witness:
  "walk_pages (dsars_at ada [] 1) (\<lambda>_. ex_done) 2 0 None = Some (sort_key dsar_key (log_rows ada [] ex_done))"
  by (rule paged_log_is_the_log; code_simp)

lemma cut_page_last: "0 < limit \<Longrightarrow> cut_page limit key rs = (xs, Some k) \<Longrightarrow> xs \<noteq> [] \<and> k = key (last xs)"
  by (cases "rs = []") (auto simp: cut_page_eq last_conv_nth min_def split: if_splits)

lemma decode_encode_cursor:
  "pt (fmt at) = Some at \<Longrightarrow> CHR ''|'' \<notin> set (fmt at) \<Longrightarrow> pid (idt n) = Some n \<Longrightarrow>
     decode_cursor pt pid (encode_cursor fmt at (idt n)) = Inr (at, n)"
  by (simp add: decode_cursor_def encode_cursor_def cut_at_byte)

lemma encode_cursor_not_Nil: "encode_cursor fmt at s \<noteq> []"
  using length_b64_encode [of "fmt at @ ''|'' @ s"] by (auto simp: encode_cursor_def)

text \<open>
  The token a page of the feed ends with is understood when it is presented again: the
  answer is the page that follows the last row shown, in whatever state and with whatever
  filter and size it is asked for, when the times and ids of the rows parse back from their
  texts and a time is written without the separator.
\<close>

theorem next_page_follows_the_last_row:
  assumes "\<forall>r \<in> set rs. pt (fmt (fr_created r)) = Some (fr_created r)
      \<and> CHR ''|'' \<notin> set (fmt (fr_created r)) \<and> pid (idt (fr_id r)) = Some (fr_id r)"
    and "findings_page fmt pt idt pid s status sz db c = Inr (rs, tok)" and "tok \<noteq> []"
  shows "findings_page fmt pt idt pid s' status' sz' db' tok
    = Inr (page_reply fmt idt (findings_at s' status' sz' db' (Some (finding_key (last rs)))))"
proof -
  obtain c' where "Inr (rs, tok) = (Inr (page_reply fmt idt (findings_at s status sz db c'))
      :: cursor_error + _)"
    using assms(2) by (auto simp: findings_page_def dest: sym split: if_splits sum.splits)
  then obtain k where k: "findings_at s status sz db c' = (rs, Some k)"
      "tok = encode_cursor fmt (fst k) (idt (snd k))"
    using assms(3) by (auto simp: page_reply_def split: prod.splits option.splits)
  from cut_page_last [OF clamp_page_size_pos k(1) [unfolded findings_at_def]]
  have last: "rs \<noteq> []" "k = finding_key (last rs)" by blast+
  then have "last rs \<in> set rs" by simp
  with assms(1) last k(2) have "decode_cursor pt pid tok = Inr (finding_key (last rs))"
    by (auto simp: finding_key_def intro!: decode_encode_cursor)
  with assms(3) show ?thesis by (simp add: findings_page_def)
qed

definition ex_number :: "nat \<Rightarrow> string" where "ex_number n = replicate n CHR ''0''"

definition ex_page :: "string \<Rightarrow> cursor_error + (finding_row list \<times> string)" where
  "ex_page = findings_page (\<lambda>t. ex_number (nat t)) (\<lambda>s. Some (int (length s))) ex_number
     (\<lambda>s. Some (length s)) ada [] 1 ex_swept"

theorem next_page_follows_the_last_row_witness:
  "ex_page (snd (projr (ex_page [])))
     = Inr (page_reply (\<lambda>t. ex_number (nat t)) ex_number
         (findings_at ada [] 1 ex_swept (Some (finding_key (last (fst (projr (ex_page []))))))))"
proof -
  have "\<forall>r \<in> set (fst (projr (ex_page []))). 0 \<le> fr_created r" by code_simp
  then have rows: "\<forall>r \<in> set (fst (projr (ex_page []))).
      Some (int (length (ex_number (nat (fr_created r))))) = Some (fr_created r)
      \<and> CHR ''|'' \<notin> set (ex_number (nat (fr_created r)))
      \<and> Some (length (ex_number (fr_id r))) = Some (fr_id r)" by (simp add: ex_number_def)
  have "\<not> isl (ex_page [])" by code_simp
  then have page: "ex_page [] = Inr (fst (projr (ex_page [])), snd (projr (ex_page [])))"
    by (cases "ex_page []") auto
  have tok: "snd (projr (ex_page [])) \<noteq> []" by code_simp
  show ?thesis
    unfolding ex_page_def
    by (rule next_page_follows_the_last_row [OF rows [unfolded ex_page_def] page [unfolded ex_page_def] tok [unfolded ex_page_def]])
qed

end
