(* ===== verification/Onboarding.thy ===== *)
theory Onboarding
  imports Memory_Facts "HOL-Library.AList"
begin

text \<open>
  The first conversation (\<open>internal/domain/onboarding\<close>): \<open>onboarding.go\<close> (the script, which
  question comes next, how an answer becomes a value), \<open>session.go\<close> (what a transcript says)
  and \<open>projection.go\<close> (the profile row the facts become).  A Go map is an association list with
  distinct keys, written through \<open>AList.update\<close>.
\<close>

section \<open>The script\<close>

definition NoneChoice :: string where "NoneChoice = ''none''"
definition UnsureChoice :: string where "UnsureChoice = ''unsure''"

record offered =
  of_value :: string
  of_label :: string
  of_exclusive :: bool

record question =
  qn_key :: string
  qn_prompt :: string
  qn_help :: string
  qn_basis :: string
  qn_options :: "offered list"

abbreviation offer :: "string \<Rightarrow> string \<Rightarrow> bool \<Rightarrow> offered" where
  "offer v l e \<equiv> \<lparr>of_value = v, of_label = l, of_exclusive = e\<rparr>"

definition script :: "question list" where
  "script =
    [\<lparr>qn_key = ''data_categories'',
       qn_prompt = ''What kinds of personal information does your company hold?'',
       qn_help = ''Pick everything that applies. If you are unsure whether something counts, pick it.'',
       qn_basis = [],
       qn_options = [offer ''contact_details'' ''Names and contact details'' False,
         offer ''account'' ''Account, device or online identifiers'' False,
         offer ''payment'' ''Payment or financial details'' False,
         offer ''health'' ''Health or medical information'' False,
         offer ''biometric'' ''Biometric or genetic information'' False,
         offer ''location'' ''Location or movement data'' False,
         offer ''employment'' ''Employment and HR records'' False,
         offer ''behaviour'' ''Behaviour, usage or tracking data'' False,
         offer ''children'' ''Information about children'' False,
         offer NoneChoice ''None of this'' True]\<rparr>,
      \<lparr>qn_key = ''lawful_bases'',
       qn_prompt = ''On what grounds do you use it?'',
       qn_help = ''Pick every one you rely on. Most organisations rely on more than one.'',
       qn_basis = ''gdpr-art-6-lawful-basis'',
       qn_options = [offer ''consent'' ''The person agreed to it'' False,
         offer ''contract'' ''We need it to deliver what they asked for'' False,
         offer ''legal_obligation'' ''We are under a separate legal obligation to hold it'' False,
         offer ''vital_interests'' ''Somebody's life could depend on it'' False,
         offer ''public_task'' ''We carry out a public task'' False,
         offer ''legitimate_interests'' ''We have a business reason and weighed it against their interests'' False]\<rparr>,
      \<lparr>qn_key = ''vendor_list'',
       qn_prompt = ''Which other companies handle that information for you?'',
       qn_help = ''The suppliers who touch personal information on your behalf, and the ones they use in turn.'',
       qn_basis = ''gdpr-art-28-processor-contracts'',
       qn_options = [offer ''hosting'' ''Hosting or cloud infrastructure'' False,
         offer ''payments'' ''Payments'' False,
         offer ''email'' ''Email and marketing'' False,
         offer ''analytics'' ''Analytics and product tracking'' False,
         offer ''support'' ''Support desk or CRM'' False,
         offer ''hr'' ''HR and payroll'' False,
         offer ''ai_vendors'' ''AI or model providers'' False,
         offer NoneChoice ''Nobody outside the company touches it'' True,
         offer UnsureChoice ''I could not say'' True]\<rparr>,
      \<lparr>qn_key = ''transfers_outside_eu'',
       qn_prompt = ''Does any of that information leave the EU or the EEA?'',
       qn_help = ''Anything hosted, backed up, or supported from outside the EU or EEA is inside this question.'',
       qn_basis = ''gdpr-chapter-v-international-transfers'',
       qn_options = []\<rparr>,
      \<lparr>qn_key = ''transfer_destinations'',
       qn_prompt = ''Where does it go?'',
       qn_help = ''Name the places you know about. If nobody has checked, skip this one rather than guessing.'',
       qn_basis = [],
       qn_options = [offer ''united_states'' ''United States'' False,
         offer ''united_kingdom'' ''United Kingdom'' False,
         offer ''canada'' ''Canada'' False,
         offer ''india'' ''India'' False,
         offer ''australia'' ''Australia'' False,
         offer ''japan'' ''Japan'' False,
         offer ''elsewhere'' ''Somewhere else'' False]\<rparr>,
      \<lparr>qn_key = ''high_risk_processing'',
       qn_prompt = ''Does what you do with that information create a serious risk to the people it is about?'',
       qn_help = ''Answer for how it looks from where you sit. \"Not sure\" is a real answer here and is treated as one.'',
       qn_basis = ''gdpr-art-35-dpia'',
       qn_options = []\<rparr>,
      \<lparr>qn_key = ''large_scale_monitoring'',
       qn_prompt = ''Do you track or monitor people regularly, systematically, and at scale?'',
       qn_help = ''Continuous behavioural tracking, location histories, or cameras covering places the public can walk into.'',
       qn_basis = ''gdpr-art-37-dpo-appointment'',
       qn_options = []\<rparr>,
      \<lparr>qn_key = ''has_ropa'',
       qn_prompt = ''Do you keep a record of processing activities?'',
       qn_help = ''A written list of what you do with personal information and why. It is often a spreadsheet.'',
       qn_basis = ''gdpr-art-30-ropa'',
       qn_options = []\<rparr>,
      \<lparr>qn_key = ''has_dpo'',
       qn_prompt = ''Have you appointed a data protection officer?'',
       qn_help = ''A named person formally appointed to be responsible for data protection.'',
       qn_basis = ''gdpr-art-37-dpo-appointment'',
       qn_options = []\<rparr>,
      \<lparr>qn_key = ''ai_systems'',
       qn_prompt = ''Which AI is in use, inside your product or by your team?'',
       qn_help = ''Include the ones that feel too ordinary to mention.'',
       qn_basis = ''ai-act-art-4-ai-literacy'',
       qn_options = [offer ''assistants'' ''Bought-in assistants and copilots'' False,
         offer ''in_product'' ''AI features inside our own product'' False,
         offer ''built'' ''Models we build or fine-tune ourselves'' False,
         offer ''embedded'' ''AI inside tools we bought for something else'' False,
         offer NoneChoice ''None that we know of'' True,
         offer UnsureChoice ''I could not say'' True]\<rparr>,
      \<lparr>qn_key = ''high_risk_ai_system'',
       qn_prompt = ''Does any of that AI fall inside the EU AI Act's high-risk list?'',
       qn_help = ''The list is quoted below, straight from what Kindlast holds. Answer \"not sure\" if nobody has checked.'',
       qn_basis = ''ai-act-annex-iii-high-risk-systems'',
       qn_options = []\<rparr>]"

definition question_for :: "string \<Rightarrow> question option" where
  "question_for key = find (\<lambda>q. qn_key q = key) script"

text \<open>\<open>memory.Kinds[q.Key]\<close>: a key outside the vocabulary would have the zero kind.\<close>

definition shape :: "question \<Rightarrow> fact_kind" where
  "shape q = (case kind_of (qn_key q) of Some k \<Rightarrow> k | None \<Rightarrow> KindText)"

definition offers :: "question \<Rightarrow> string \<Rightarrow> offered option" where
  "offers q v = find (\<lambda>c. of_value c = v) (qn_options q)"

definition answer_vocabulary :: "question \<Rightarrow> string" where
  "answer_vocabulary q = join '', '' (sort (map of_value (qn_options q)))"

definition TriStateChoices :: "string list" where
  "TriStateChoices = [''yes'', ''no'', ''unsure'']"

section \<open>Which question comes next\<close>

text \<open>\<open>ValueJSON\<close> is the empty text where an answer has no value: \<^term>\<open>None\<close>.\<close>

record answer =
  an_text :: string
  an_value :: "json option"
  an_skipped :: bool

type_synonym answers = "(string \<times> answer) list"

definition applicable :: "string \<Rightarrow> answers \<Rightarrow> bool" where
  "applicable key answers =
     (if key = ''transfer_destinations''
      then (case map_of answers ''transfers_outside_eu'' of
              None \<Rightarrow> True
            | Some a \<Rightarrow> an_skipped a \<or> an_value a \<noteq> Some (JStr ''no''))
      else if key = ''high_risk_ai_system''
      then (case map_of answers ''ai_systems'' of
              None \<Rightarrow> True
            | Some a \<Rightarrow> an_skipped a \<or> an_value a \<noteq> Some (JArr []))
      else True)"

definition answered :: "answers \<Rightarrow> string \<Rightarrow> bool" where
  "answered answers key \<longleftrightarrow> map_of answers key \<noteq> None"

definition next_question :: "answers \<Rightarrow> question option" where
  "next_question answers =
     find (\<lambda>q. applicable (qn_key q) answers \<and> \<not> answered answers (qn_key q)) script"

definition progress :: "answers \<Rightarrow> nat \<times> nat" where
  "progress answers =
     (let asked = filter (\<lambda>q. applicable (qn_key q) answers) script
      in (length asked, length (filter (\<lambda>q. answered answers (qn_key q)) asked)))"

section \<open>What an answer means\<close>

text \<open>
  \<open>Panicked\<close> is a slice expression out of range in \<open>splitList\<close>; the other errors are those
  \<open>Parse\<close> returns.  A payload is encoded and decoded again without loss, the answer being
  valid UTF-8 as the wire format guarantees.
\<close>

datatype onboarding_error =
    NotAQuestion string
  | EmptyAnswer
  | NotTriState
  | NotAWholeNumber
  | PickAtLeastOne
  | NotOffered string string
  | StandsAlone string
  | NameAtLeastOne
  | BadFact memory_error
  | Panicked

text \<open>\<open>strconv.Atoi\<close>: an optional sign and at least one digit, within 64 bits.\<close>

definition parse_int :: "nat \<Rightarrow> string \<Rightarrow> int option" where
  "parse_int bits s =
     (let digits = (if s \<noteq> [] \<and> hd s \<in> {CHR ''-'', CHR ''+''} then tl s else s);
          n = (if s \<noteq> [] \<and> hd s = CHR ''-'' then - int (nat_of_digits digits) else int (nat_of_digits digits))
      in if digits = [] \<or> \<not> list_all is_digit digits then None
         else if - (2 ^ (bits - 1)) \<le> n \<and> n < 2 ^ (bits - 1) then Some n else None)"

definition list_sep :: "char \<Rightarrow> bool" where
  "list_sep c \<longleftrightarrow> c \<in> {CHR '','', CHR '';'', CHR 0x0A, CHR 0x0D}"

text \<open>
  One item: the \<open>and \<close> of an Oxford comma is found in the lowered copy and cut from the
  original by the length of what follows, which is out of range when lowering lengthened it.
\<close>

definition split_item :: "(string \<Rightarrow> string) \<Rightarrow> string \<Rightarrow> string option" where
  "split_item uni field =
     (let f = trim_space field; low = to_lower uni f in
      if has_prefix low ''and ''
      then (let rest = drop 4 low in
            if length rest > length f then None else Some (trim_space (drop (length f - length rest) f)))
      else Some f)"

definition split_list :: "(string \<Rightarrow> string) \<Rightarrow> string \<Rightarrow> string list option" where
  "split_list uni s =
     map_option (filter (\<lambda>x. x \<noteq> [])) (all_some (map (split_item uni) (fields_bytes list_sep [] s)))"

fun pick :: "question \<Rightarrow> nat \<Rightarrow> string list \<Rightarrow> string list \<Rightarrow> onboarding_error + string list" where
  "pick q n seen [] = Inr []"
| "pick q n seen (t # ts) =
     (case offers q t of
        None \<Rightarrow> Inl (NotOffered t (answer_vocabulary q))
      | Some c \<Rightarrow>
          if of_exclusive c \<and> n > 1 then Inl (StandsAlone (of_label c))
          else if t \<in> set seen then pick q n seen ts
          else (case pick q n (t # seen) ts of Inl e \<Rightarrow> Inl e | Inr picked \<Rightarrow> Inr (t # picked)))"

definition parse_choices :: "(string \<Rightarrow> string) \<Rightarrow> question \<Rightarrow> string \<Rightarrow> onboarding_error + string list" where
  "parse_choices uni q s =
     (case split_list uni (to_lower uni s) of
        None \<Rightarrow> Inl Panicked
      | Some tokens \<Rightarrow>
          if tokens = [] then Inl PickAtLeastOne
          else (case pick q (length tokens) [] tokens of
                  Inl e \<Rightarrow> Inl e
                | Inr picked \<Rightarrow> Inr (if picked = [NoneChoice] then [] else picked)))"

definition texts :: "string list \<Rightarrow> json" where
  "texts xs = JArr (map JStr xs)"

definition free_list :: "(string \<Rightarrow> string) \<Rightarrow> string \<Rightarrow> onboarding_error + json" where
  "free_list uni s =
     (case split_list uni s of
        None \<Rightarrow> Inl Panicked
      | Some items \<Rightarrow> if items = [] then Inl NameAtLeastOne else Inr (texts items))"

definition payload_for ::
  "(string \<Rightarrow> string) \<Rightarrow> string \<Rightarrow> fact_kind \<Rightarrow> string \<Rightarrow> onboarding_error + json" where
  "payload_for uni key kind given =
     (case kind of
        KindText \<Rightarrow> Inr (JStr given)
      | KindTriState \<Rightarrow>
          (let low = to_lower uni given
           in if low \<in> set TriStateChoices then Inr (JStr low) else Inl NotTriState)
      | KindNumber \<Rightarrow>
          (case parse_int 64 given of
             None \<Rightarrow> Inl NotAWholeNumber
           | Some n \<Rightarrow> if n < 0 then Inl NotAWholeNumber else Inr (JNum (itoa n)))
      | KindList \<Rightarrow>
          (case question_for key of
             Some q \<Rightarrow> if qn_options q \<noteq> [] then map_sum id texts (parse_choices uni q given) else free_list uni given
           | None \<Rightarrow> free_list uni given))"

definition parse_answer :: "(string \<Rightarrow> string) \<Rightarrow> string \<Rightarrow> string \<Rightarrow> onboarding_error + json" where
  "parse_answer uni key s =
     (case kind_of key of
        None \<Rightarrow> Inl (NotAQuestion key)
      | Some kind \<Rightarrow>
          (let given = trim_space s in
           if given = [] then Inl EmptyAnswer
           else (case payload_for uni key kind given of
                   Inl e \<Rightarrow> Inl e
                 | Inr j \<Rightarrow> (case validate_value key (Decoded j) of Some e \<Rightarrow> Inl (BadFact e) | None \<Rightarrow> Inr j))))"

section \<open>What a transcript says (session.go)\<close>

definition StatusInProgress :: string where "StatusInProgress = ''in_progress''"
definition StatusCompleted :: string where "StatusCompleted = ''completed''"
definition StatusAbandoned :: string where "StatusAbandoned = ''abandoned''"
definition RoleUser :: string where "RoleUser = ''user''"
definition RoleAssistant :: string where "RoleAssistant = ''assistant''"
definition ReasonOnboardingConfirmed :: string where "ReasonOnboardingConfirmed = ''onboarding_confirmed''"
definition SkippedContent :: string where "SkippedContent = ''Skipped.''"

record turn =
  tn_role :: string
  tn_content :: string
  tn_key :: string
  tn_value :: "json option"
  tn_ordering :: int
  tn_by :: string

definition turn_skipped :: "turn \<Rightarrow> bool" where
  "turn_skipped t \<longleftrightarrow> tn_role t = RoleUser \<and> tn_key t \<noteq> [] \<and> tn_value t = None"

primrec answers_loop :: "turn list \<Rightarrow> answers \<Rightarrow> answers" where
  "answers_loop [] acc = acc"
| "answers_loop (t # ts) acc = answers_loop ts
     (if tn_role t \<noteq> RoleUser \<or> tn_key t = [] then acc
      else AList.update (tn_key t)
        \<lparr>an_text = tn_content t, an_value = tn_value t, an_skipped = turn_skipped t\<rparr> acc)"

definition answers_from :: "turn list \<Rightarrow> answers" where
  "answers_from ts = answers_loop ts []"

primrec facts_from :: "answers \<Rightarrow> (string \<times> json) list" where
  "facts_from [] = []"
| "facts_from (x # xs) =
     (case x of (key, a) \<Rightarrow>
        (case an_value a of
           Some v \<Rightarrow> if an_skipped a \<or> kind_of key = None then facts_from xs else (key, v) # facts_from xs
         | None \<Rightarrow> facts_from xs))"

text \<open>\<open>OrderedFacts\<close>: the script's keys in its order, then the others sorted.\<close>

definition ordered_facts :: "(string \<times> json) list \<Rightarrow> (string \<times> json) list" where
  "ordered_facts facts =
     (let scripted = filter (\<lambda>k. map_of facts k \<noteq> None) (map qn_key script);
          rest = sort (filter (\<lambda>k. k \<notin> set scripted) (map fst facts))
      in map (\<lambda>k. (k, the (map_of facts k))) (scripted @ rest))"

section \<open>The profile row (projection.go)\<close>

record projected =
  pj_industry :: string
  pj_jurisdictions :: "string list"
  pj_categories :: "string list"
  pj_subjects :: "string list"
  pj_ai_systems :: "string list"
  pj_has_dpo :: string
  pj_has_ropa :: string
  pj_transfers :: string
  pj_destinations :: "string list"
  pj_vendors :: string
  pj_staff :: "int option"

definition unknown :: string where "unknown = ''unsure''"

definition nothing_known :: projected where
  "nothing_known =
     \<lparr>pj_industry = [], pj_jurisdictions = [], pj_categories = [], pj_subjects = [], pj_ai_systems = [],
      pj_has_dpo = unknown, pj_has_ropa = unknown, pj_transfers = unknown, pj_destinations = [],
      pj_vendors = [], pj_staff = None\<rparr>"

datatype projection_error = InvalidFact memory_error | Undecoded string

text \<open>\<open>json.Unmarshal\<close> into an \<open>int32\<close>: the literal must be a whole number of 32 bits.\<close>

fun unmarshal_int32 :: "json \<Rightarrow> int option" where
  "unmarshal_int32 JNull = Some 0"
| "unmarshal_int32 (JNum s) = parse_int 32 s"
| "unmarshal_int32 _ = None"

definition project_column :: "string \<Rightarrow> json \<Rightarrow> projected \<Rightarrow> projected option" where
  "project_column key v out =
     (if key = ''industry'' then map_option (\<lambda>s. out\<lparr>pj_industry := s\<rparr>) (unmarshal_string v)
      else if key = ''eu_jurisdictions'' then map_option (\<lambda>s. out\<lparr>pj_jurisdictions := s\<rparr>) (unmarshal_strings v)
      else if key = ''data_categories'' then map_option (\<lambda>s. out\<lparr>pj_categories := s\<rparr>) (unmarshal_strings v)
      else if key = ''data_subjects'' then map_option (\<lambda>s. out\<lparr>pj_subjects := s\<rparr>) (unmarshal_strings v)
      else if key = ''ai_systems'' then map_option (\<lambda>s. out\<lparr>pj_ai_systems := s\<rparr>) (unmarshal_strings v)
      else if key = ''transfer_destinations'' then map_option (\<lambda>s. out\<lparr>pj_destinations := s\<rparr>) (unmarshal_strings v)
      else if key = ''has_dpo'' then map_option (\<lambda>s. out\<lparr>pj_has_dpo := s\<rparr>) (unmarshal_string v)
      else if key = ''has_ropa'' then map_option (\<lambda>s. out\<lparr>pj_has_ropa := s\<rparr>) (unmarshal_string v)
      else if key = ''transfers_outside_eu'' then map_option (\<lambda>s. out\<lparr>pj_transfers := s\<rparr>) (unmarshal_string v)
      else if key = ''vendor_list'' then map_option (\<lambda>s. out\<lparr>pj_vendors := join '', '' s\<rparr>) (unmarshal_strings v)
      else if key = ''staff_count'' then map_option (\<lambda>n. out\<lparr>pj_staff := Some n\<rparr>) (unmarshal_int32 v)
      else Some out)"

fun project_facts :: "(string \<times> json) list \<Rightarrow> projected \<Rightarrow> projection_error + projected" where
  "project_facts [] out = Inr out"
| "project_facts ((key, v) # facts) out =
     (if kind_of key = None then project_facts facts out
      else (case validate_value key (Decoded v) of
              Some e \<Rightarrow> Inl (InvalidFact e)
            | None \<Rightarrow>
                (case project_column key v out of
                   None \<Rightarrow> Inl (Undecoded key)
                 | Some out' \<Rightarrow> project_facts facts out')))"

definition project :: "(string \<times> json) list \<Rightarrow> projection_error + projected" where
  "project facts = project_facts facts nothing_known"

section \<open>The script's vocabulary\<close>

lemma script_keys:
  "map qn_key script =
    [''data_categories'', ''lawful_bases'', ''vendor_list'', ''transfers_outside_eu'',
     ''transfer_destinations'', ''high_risk_processing'', ''large_scale_monitoring'', ''has_ropa'',
     ''has_dpo'', ''ai_systems'', ''high_risk_ai_system'']"
  by (simp add: script_def)

lemma script_distinct: "distinct (map qn_key script)"
  by (simp add: script_keys)

lemma script_length: "length script = 11"
  using arg_cong [OF script_keys, of length] by simp

lemma question_for_mem: "q \<in> set script \<Longrightarrow> question_for (qn_key q) = Some q"
  unfolding question_for_def by (rule find_by_key [OF script_distinct])

lemma question_for_SomeD: "question_for key = Some q \<Longrightarrow> q \<in> set script \<and> qn_key q = key"
  unfolding question_for_def by (drule find_SomeD) simp

text \<open>Every token an option records is a word of small letters and underscores.\<close>

definition tap_chars :: string where
  "tap_chars = ''abcdefghijklmnopqrstuvwxyz_''"

definition tap_word :: "string \<Rightarrow> bool" where
  "tap_word s \<longleftrightarrow> s \<noteq> [] \<and> list_all (\<lambda>c. c \<in> set tap_chars) s"

definition option_words :: "question \<Rightarrow> bool" where
  "option_words q \<longleftrightarrow> list_all (\<lambda>c. tap_word (of_value c)) (qn_options q)
     \<and> distinct (map of_value (qn_options q))
     \<and> (qn_options q \<noteq> [] \<longleftrightarrow> kind_of (qn_key q) = Some KindList)
     \<and> list_all (\<lambda>c. of_value c = NoneChoice \<longrightarrow> of_exclusive c) (qn_options q)
     \<and> (qn_key q = ''lawful_bases'' \<longrightarrow> list_all (\<lambda>c. of_value c \<in> set lawful_bases) (qn_options q))"

lemma script_words: "list_all option_words script"
  by code_simp

lemma script_shapes: "list_all (\<lambda>q. kind_of (qn_key q) \<in> {Some KindList, Some KindTriState}) script"
  by code_simp

lemma tap_chars_plain:
  "list_all (\<lambda>c. of_char c < (128 :: nat) \<and> ascii_lower_char c = c
     \<and> list_all (\<lambda>q. hd q \<noteq> c \<and> last q \<noteq> c) space_seqs) (CHR '','' # tap_chars)"
  by code_simp

lemma tap_chars_no_sep: "list_all (\<lambda>c. \<not> list_sep c \<and> c \<noteq> CHR '' '') tap_chars"
  by code_simp

lemma tap_char:
  "c \<in> set (CHR '','' # tap_chars) \<Longrightarrow> of_char c < (128 :: nat)"
  "c \<in> set (CHR '','' # tap_chars) \<Longrightarrow> ascii_lower_char c = c"
  "c \<in> set (CHR '','' # tap_chars) \<Longrightarrow> q \<in> set space_seqs \<Longrightarrow> hd q \<noteq> c \<and> last q \<noteq> c"
  using tap_chars_plain unfolding list_all_iff by blast+

lemma tap_char_no_sep: "c \<in> set tap_chars \<Longrightarrow> \<not> list_sep c \<and> c \<noteq> CHR '' ''"
  using tap_chars_no_sep unfolding list_all_iff by blast

lemma tapped_trim: "set s \<subseteq> set (CHR '','' # tap_chars) \<Longrightarrow> trim_space s = s"
  by (rule trim_space_ascii_free) (blast dest: tap_char(3))

lemma tapped_lower: "set s \<subseteq> set (CHR '','' # tap_chars) \<Longrightarrow> to_lower uni s = s"
  unfolding to_lower_def is_ascii_def list_all_iff
  by (subst if_P) (blast intro: tap_char(1) map_idI tap_char(2))+

lemma tap_word_chars: "tap_word s \<Longrightarrow> c \<in> set s \<Longrightarrow> c \<in> set tap_chars"
  unfolding tap_word_def list_all_iff by blast

lemma tap_word_set: "tap_word s \<Longrightarrow> set s \<subseteq> set (CHR '','' # tap_chars)"
  using tap_word_chars by (meson list.set_intros(2) subsetI)

lemma tap_word_no_and: "tap_word s \<Longrightarrow> \<not> has_prefix s ''and ''"
proof
  assume "tap_word s" and "has_prefix s ''and ''"
  then have "CHR '' '' \<in> set s" by (auto simp: has_prefix_iff)
  with tap_word_chars [OF \<open>tap_word s\<close>] tap_char_no_sep show False by blast
qed

lemma split_item_tap: "tap_word s \<Longrightarrow> split_item uni s = Some s"
  using tapped_trim [OF tap_word_set] tapped_lower [OF tap_word_set] tap_word_no_and
  by (simp add: split_item_def Let_def)

lemma fields_bytes_run:
  "\<forall>c \<in> set t. \<not> sep c \<Longrightarrow> fields_bytes sep acc (t @ s) = fields_bytes sep (acc @ t) s"
  by (induction t arbitrary: acc) auto

lemma fields_bytes_join:
  assumes "sep d" and "\<forall>t \<in> set ts. t \<noteq> [] \<and> (\<forall>c \<in> set t. \<not> sep c)"
  shows "fields_bytes sep [] (join [d] ts) = ts"
  using assms(2)
proof (induction "[d]" ts rule: join.induct)
  case (2 x)
  then show ?case using fields_bytes_run [of x sep "[]" "[]"] by simp
next
  case (3 x y ys)
  then show ?case using fields_bytes_run [of x sep "[]" "[d] @ join [d] (y # ys)"] assms(1) by simp
qed simp

lemma set_join: "set (join sep ts) \<subseteq> set sep \<union> \<Union> (set (map set ts))"
  by (induction sep ts rule: join.induct) auto

lemma join_Nil: "\<forall>t \<in> set ts. t \<noteq> [] \<Longrightarrow> join sep ts = [] \<longleftrightarrow> ts = []"
  by (induction sep ts rule: join.induct) auto

lemma split_list_tapped:
  assumes "\<forall>t \<in> set ts. tap_word t"
  shows "split_list uni (join '','' ts) = Some ts"
proof -
  have sep: "\<forall>t \<in> set ts. t \<noteq> [] \<and> (\<forall>c \<in> set t. \<not> list_sep c)"
    using assms tap_word_chars tap_char_no_sep by (auto simp: tap_word_def)
  then have fields: "fields_bytes list_sep [] (join '','' ts) = ts"
    by (intro fields_bytes_join) (simp_all add: list_sep_def)
  have "map (split_item uni) ts = map Some ts"
    using assms split_item_tap by simp
  then have "all_some (map (split_item uni) ts) = Some ts" by (simp only: all_some_map)
  moreover have "filter (\<lambda>x. x \<noteq> []) ts = ts" using sep by (auto intro: filter_True)
  ultimately show ?thesis by (simp add: split_list_def fields)
qed

section \<open>What the parser accepts\<close>

definition pickable :: "question \<Rightarrow> nat \<Rightarrow> string \<Rightarrow> bool" where
  "pickable q n t \<longleftrightarrow> (\<exists>c. offers q t = Some c \<and> \<not> (of_exclusive c \<and> n > 1))"

lemma pick_Inr:
  "pick q n seen ts = Inr out \<longleftrightarrow> (\<forall>t \<in> set ts. pickable q n t) \<and> out = keep_first seen ts"
proof (induction ts arbitrary: seen out)
  case Nil
  then show ?case by auto
next
  case (Cons t ts)
  show ?case
  proof (cases "pickable q n t")
    case True
    then obtain c where "offers q t = Some c" "\<not> (of_exclusive c \<and> n > 1)" by (auto simp: pickable_def)
    then have "pick q n seen (t # ts) = Inr out \<longleftrightarrow>
        (if t \<in> set seen then pick q n seen ts = Inr out
         else (\<exists>p. pick q n (t # seen) ts = Inr p \<and> out = t # p))"
      by (cases "pick q n (t # seen) ts") auto
    with True show ?thesis by (auto simp: Cons.IH)
  next
    case False
    then show ?thesis by (auto simp: pickable_def split: option.splits)
  qed
qed


lemma offers_SomeD: "offers q t = Some c \<Longrightarrow> c \<in> set (qn_options q) \<and> of_value c = t"
  unfolding offers_def by (drule find_SomeD) simp

lemma offers_mem:
  "distinct (map of_value (qn_options q)) \<Longrightarrow> c \<in> set (qn_options q) \<Longrightarrow> offers q (of_value c) = Some c"
  unfolding offers_def by (rule find_by_key)

lemma parse_choices_Inr:
  "parse_choices uni q s = Inr picked \<longleftrightarrow> (\<exists>ts. split_list uni (to_lower uni s) = Some ts \<and> ts \<noteq> []
     \<and> (\<forall>t \<in> set ts. pickable q (length ts) t)
     \<and> picked = (if keep_first [] ts = [NoneChoice] then [] else keep_first [] ts))"
proof (cases "split_list uni (to_lower uni s)")
  case None
  then show ?thesis by (simp add: parse_choices_def)
next
  case (Some ts)
  show ?thesis
    using Some pick_Inr [of q "length ts" "[]" ts]
    by (cases "pick q (length ts) [] ts") (auto simp: parse_choices_def)
qed

lemma parse_answer_Inr:
  "parse_answer uni key s = Inr j \<longleftrightarrow> (\<exists>kind. kind_of key = Some kind \<and> trim_space s \<noteq> []
     \<and> payload_for uni key kind (trim_space s) = Inr j \<and> value_ok key j)"
  using validate_value_None [of key "Decoded j"]
  by (auto simp: parse_answer_def Let_def split: option.splits sum.splits)

lemma script_option_words: "q \<in> set script \<Longrightarrow> option_words q"
  using script_words unfolding list_all_iff by blast

text \<open>
  A question that offers answers is about a list, so what it accepts are the tokens picked.
\<close>

lemma asked_choices:
  assumes "q \<in> set script" and "qn_options q \<noteq> []"
  shows "parse_answer uni (qn_key q) s = Inr j \<longleftrightarrow> trim_space s \<noteq> []
    \<and> (\<exists>picked. parse_choices uni q (trim_space s) = Inr picked \<and> j = texts picked) \<and> value_ok (qn_key q) j"
proof -
  have kind: "kind_of (qn_key q) = Some KindList"
    using script_option_words [OF assms(1)] assms(2) by (simp add: option_words_def)
  have "payload_for uni (qn_key q) KindList t = map_sum id texts (parse_choices uni q t)" for t
    using assms question_for_mem by (simp add: payload_for_def)
  then show ?thesis
    by (cases "parse_choices uni q (trim_space s)") (auto simp: parse_answer_Inr kind)
qed

section \<open>Claims on answers\<close>

text \<open>
  C34: Whatever a person types, an answer that is accepted is a well-typed value of its fact, and
  for a question with options it holds, without repetition, tokens the question offers other
  than the one for none of them, with an exclusive one only alone.
\<close>

theorem accepted_answer_is_offered:
  assumes "parse_answer uni key s = Inr j"
  shows "value_ok key j \<and> (\<forall>q \<in> set script. qn_key q = key \<longrightarrow> qn_options q \<noteq> [] \<longrightarrow>
    (\<exists>picked. j = texts picked \<and> distinct picked
       \<and> set picked \<subseteq> of_value ` set (qn_options q) - {NoneChoice}
       \<and> (\<forall>c \<in> set (qn_options q). of_exclusive c \<longrightarrow> of_value c \<in> set picked \<longrightarrow> picked = [of_value c])))"
proof (intro conjI ballI impI)
  show "value_ok key j" using assms by (auto simp: parse_answer_Inr)
next
  fix q assume q: "q \<in> set script" "qn_key q = key" "qn_options q \<noteq> []"
  note words = script_option_words [OF q(1), unfolded option_words_def]
  from assms asked_choices [OF q(1,3)] q(2) obtain picked ts
    where j: "j = texts picked" and ok: "\<forall>t \<in> set ts. pickable q (length ts) t" and "ts \<noteq> []"
      and picked: "picked = (if keep_first [] ts = [NoneChoice] then [] else keep_first [] ts)"
    by (auto simp: parse_choices_Inr)
  have alone: "ts = [t]" if "t \<in> set ts" "offers q t = Some c" "of_exclusive c" for t c
    using ok that by (cases ts) (auto simp: pickable_def Suc_le_eq)
  have off: "\<exists>c \<in> set (qn_options q). offers q t = Some c \<and> of_value c = t" if "t \<in> set ts" for t
    using ok that offers_SomeD by (fastforce simp: pickable_def)
  have none: "ts = [NoneChoice]" if "NoneChoice \<in> set ts"
    using off [OF that] alone [OF that] words by (auto simp: list_all_iff)
  have sub: "set picked \<subseteq> set ts" using picked by auto
  have "NoneChoice \<notin> set picked"
    using none picked sub by (auto split: if_splits)
  moreover have "set picked \<subseteq> of_value ` set (qn_options q)"
    using sub off by force
  moreover have "picked = [of_value c]"
    if c: "c \<in> set (qn_options q)" "of_exclusive c" "of_value c \<in> set picked" for c
  proof -
    have "offers q (of_value c) = Some c" using words c(1) by (intro offers_mem) auto
    with alone [of "of_value c" c] c sub have "ts = [of_value c]" by auto
    with picked c(3) show ?thesis by (auto split: if_splits)
  qed
  moreover have "distinct picked" using picked by auto
  ultimately show "\<exists>picked. j = texts picked \<and> distinct picked
       \<and> set picked \<subseteq> of_value ` set (qn_options q) - {NoneChoice}
       \<and> (\<forall>c \<in> set (qn_options q). of_exclusive c \<longrightarrow> of_value c \<in> set picked \<longrightarrow> picked = [of_value c])"
    using j by blast
qed

text \<open>
  What the console sends is what is stored: the tokens of a question's own options, picked
  once each, an exclusive one only alone, joined with commas, are accepted and read as
  exactly that list, the token for none of them as the empty list.
\<close>

theorem tapped_answer_is_stored:
  assumes "q \<in> set script" and "ts \<noteq> []" and "distinct ts"
    and "set ts \<subseteq> of_value ` set (qn_options q)"
    and "\<forall>c \<in> set (qn_options q). of_exclusive c \<longrightarrow> of_value c \<in> set ts \<longrightarrow> ts = [of_value c]"
  shows "parse_answer uni (qn_key q) (join '','' ts) = Inr (texts (if ts = [NoneChoice] then [] else ts))"
proof -
  note words = script_option_words [OF assms(1), unfolded option_words_def]
  have opts: "qn_options q \<noteq> []" using assms(2,4) by auto
  have taps: "\<forall>t \<in> set ts. tap_word t" using words assms(4) by (auto simp: list_all_iff)
  then have chars: "set (join '','' ts) \<subseteq> set (CHR '','' # tap_chars)"
    using set_join [of "'',''" ts] tap_word_set by fastforce
  have "join '','' ts \<noteq> []" using taps assms(2) join_Nil [of ts "'',''"] by (simp add: tap_word_def)
  moreover have "pickable q (length ts) t" if t: "t \<in> set ts" for t
  proof -
    from t assms(4) obtain c where c: "c \<in> set (qn_options q)" "of_value c = t" by auto
    then have "offers q t = Some c" using words offers_mem by blast
    moreover have "of_exclusive c \<Longrightarrow> length ts = 1" using assms(5) c t by auto
    ultimately show ?thesis by (auto simp: pickable_def)
  qed
  then have "parse_choices uni q (join '','' ts) = Inr (if ts = [NoneChoice] then [] else ts)"
    using assms(2,3) split_list_tapped [OF taps] tapped_lower [OF chars]
    by (simp add: parse_choices_Inr keep_first_id)
  moreover have "value_ok (qn_key q) (texts (if ts = [NoneChoice] then [] else ts))"
    using words opts assms(4)
    by (auto simp: value_ok_def texts_def item_ok_def list_all_iff)
  ultimately show ?thesis
    using asked_choices [OF assms(1) opts] tapped_trim [OF chars] by simp
qed

theorem tapped_answer_is_stored_witness:
  "parse_answer id ''vendor_list'' ''hosting,email'' = Inr (JArr [JStr ''hosting'', JStr ''email''])"
proof -
  define q where "q = script ! 2"
  have "q \<in> set script" using script_length by (simp add: q_def)
  moreover have "set [''hosting'', ''email''] \<subseteq> of_value ` set (qn_options q)
      \<and> qn_key q = ''vendor_list''" by (simp add: q_def script_def)
  moreover have "\<forall>c \<in> set (qn_options q). of_exclusive c \<longrightarrow> of_value c \<in> set [''hosting'', ''email'']
      \<longrightarrow> [''hosting'', ''email''] = [of_value c]"
    by (simp add: q_def script_def NoneChoice_def UnsureChoice_def)
  ultimately show ?thesis
    using tapped_answer_is_stored [of q "[''hosting'', ''email'']" id] by (simp add: texts_def NoneChoice_def)
qed

theorem accepted_answer_is_offered_witness: "value_ok ''vendor_list'' (JArr [])"
proof -
  have "parse_answer id ''vendor_list'' '' None '' = Inr (JArr [])" by code_simp
  from accepted_answer_is_offered [OF this] show ?thesis by blast
qed

section \<open>The interview ends\<close>

definition unanswered :: "answers \<Rightarrow> nat" where
  "unanswered a = length (filter (\<lambda>q. \<not> answered a (qn_key q)) script)"

lemma next_question_SomeD:
  "next_question a = Some q \<Longrightarrow> q \<in> set script \<and> applicable (qn_key q) a \<and> \<not> answered a (qn_key q)"
  unfolding next_question_def by (drule find_SomeD) simp

lemma next_question_None:
  "next_question a = None \<longleftrightarrow> (\<forall>q \<in> set script. applicable (qn_key q) a \<longrightarrow> answered a (qn_key q))"
  by (auto simp: next_question_def find_None_iff)

lemma answered_update: "answered (AList.update k v a) key \<longleftrightarrow> key = k \<or> answered a key"
  by (simp add: answered_def update_conv')

lemma unanswered_update:
  assumes "q \<in> set script" and "\<not> answered a (qn_key q)"
  shows "unanswered (AList.update (qn_key q) v a) < unanswered a"
proof -
  have "filter (\<lambda>r. \<not> answered (AList.update (qn_key q) v a) (qn_key r)) script
      = filter (\<lambda>r. qn_key r \<noteq> qn_key q) (filter (\<lambda>r. \<not> answered a (qn_key r)) script)"
    by (simp add: answered_update conj_commute)
  moreover have "length (filter (\<lambda>r. qn_key r \<noteq> qn_key q) (filter (\<lambda>r. \<not> answered a (qn_key r)) script))
      < length (filter (\<lambda>r. \<not> answered a (qn_key r)) script)"
    using assms by (intro length_filter_less [of q]) auto
  ultimately show ?thesis by (simp add: unanswered_def)
qed

text \<open>A person who answers, in whatever way, the question asked, \<open>n\<close> times over.\<close>

primrec ask_through :: "nat \<Rightarrow> (answers \<Rightarrow> question \<Rightarrow> answer) \<Rightarrow> answers \<Rightarrow> answers" where
  "ask_through 0 f a = a"
| "ask_through (Suc n) f a =
     (case next_question a of
        None \<Rightarrow> a
      | Some q \<Rightarrow> ask_through n f (AList.update (qn_key q) (f a q) a))"

lemma ask_through_ends: "unanswered a \<le> n \<Longrightarrow> next_question (ask_through n f a) = None"
proof (induction n arbitrary: a)
  case 0
  then show ?case by (auto simp: unanswered_def next_question_None filter_empty_conv)
next
  case (Suc n)
  show ?case
  proof (cases "next_question a")
    case None
    then show ?thesis by simp
  next
    case (Some q)
    with next_question_SomeD have "unanswered (AList.update (qn_key q) (f a q) a) < unanswered a"
      by (blast intro: unanswered_update)
    with Suc Some show ?thesis by simp
  qed
qed

text \<open>
  C35: The interview ends: whatever answers and skips are given to the questions it asks, and
  wherever it was resumed, after eleven of them there is no further question.
\<close>

theorem interview_ends: "next_question (ask_through 11 f a) = None"
proof (rule ask_through_ends)
  have "unanswered a \<le> length script" by (simp add: unanswered_def)
  then show "unanswered a \<le> 11" by (simp add: script_length)
qed

text \<open>The line that says how far the interview is agrees with whether it goes on.\<close>

lemma filter_all: "length (filter P xs) = length xs \<longleftrightarrow> (\<forall>x \<in> set xs. P x)"
proof (induction xs)
  case (Cons x xs)
  have "length (filter P xs) \<noteq> Suc (length xs)" using length_filter_le [of P xs] by linarith
  with Cons show ?case by auto
qed simp

lemma progress_complete: "fst (progress a) = snd (progress a) \<longleftrightarrow> next_question a = None"
proof -
  let ?asked = "filter (\<lambda>q. applicable (qn_key q) a) script"
  have "fst (progress a) = snd (progress a) \<longleftrightarrow> (\<forall>q \<in> set ?asked. answered a (qn_key q))"
    unfolding progress_def Let_def fst_conv snd_conv
    by (subst eq_commute) (rule filter_all)
  then show ?thesis unfolding next_question_None by auto
qed

section \<open>The projection\<close>

lemma value_ok_cases:
  "value_ok key v \<Longrightarrow> kind_of key = Some KindList \<Longrightarrow> unmarshal_strings v \<noteq> None"
  "value_ok key v \<Longrightarrow> kind_of key \<in> {Some KindText, Some KindTriState} \<Longrightarrow> unmarshal_string v \<noteq> None"
proof -
  assume "value_ok key v" and "kind_of key = Some KindList"
  then obtain items where v: "v = JArr items" "\<forall>item \<in> set items. item_ok key item"
    by (auto simp: value_ok_def)
  then have "\<forall>item \<in> set items. unmarshal_string item \<noteq> None" by (auto simp: item_ok_def)
  then show "unmarshal_strings v \<noteq> None" using v(1) by (auto simp: all_some_None image_iff dest: sym)
next
  assume "value_ok key v" and "kind_of key \<in> {Some KindText, Some KindTriState}"
  then show "unmarshal_string v \<noteq> None" by (auto simp: value_ok_def)
qed

text \<open>
  The projection fails on one well-typed value only: a staff count that is no whole number of
  32 bits.
\<close>

definition staff_fits :: "json \<Rightarrow> bool" where
  "staff_fits v \<longleftrightarrow> unmarshal_int32 v \<noteq> None"

lemma project_column_None:
  assumes "value_ok key v"
  shows "project_column key v out = None \<longleftrightarrow> key = ''staff_count'' \<and> \<not> staff_fits v"
proof -
  note columns = value_ok_cases [OF assms]
  show ?thesis
    unfolding project_column_def staff_fits_def
    by (simp, intro conjI impI) (use columns in \<open>simp_all add: kind_of_def fact_kinds_def\<close>)
qed

lemma project_facts_total:
  assumes "\<forall>(key, v) \<in> set facts. value_ok key v"
  shows "isl (project_facts facts out) \<longleftrightarrow> (\<exists>v. (''staff_count'', v) \<in> set facts \<and> \<not> staff_fits v)"
  using assms
proof (induction facts out rule: project_facts.induct)
  case (2 key v facts out)
  then have ok: "value_ok key v" by simp
  then have known: "kind_of key \<noteq> None" by (auto simp: value_ok_def split: option.splits)
  have valid: "validate_value key (Decoded v) = None" using ok by (simp add: validate_value_None)
  show ?case
  proof (cases "project_column key v out")
    case None
    with project_column_None [OF ok, of out] have "key = ''staff_count''" "\<not> staff_fits v" by auto
    moreover have "isl (project_facts ((key, v) # facts) out)"
      by (subst project_facts.simps) (simp add: known valid None del: project_facts.simps)
    ultimately show ?thesis by auto
  next
    case (Some out')
    with project_column_None [OF ok, of out] have "key = ''staff_count'' \<Longrightarrow> staff_fits v" by auto
    moreover have "project_facts ((key, v) # facts) out = project_facts facts out'"
      by (subst project_facts.simps) (simp add: known valid Some del: project_facts.simps)
    moreover have "isl (project_facts facts out') \<longleftrightarrow> (\<exists>v. (''staff_count'', v) \<in> set facts \<and> \<not> staff_fits v)"
      using 2(2) [OF known valid Some] 2(3) by simp
    ultimately show ?thesis by auto
  qed
qed simp

end
