(* ===== verification/Org_Memory.thy ===== *)
theory Org_Memory
  imports Onboarding
begin

text \<open>
  The organisation memory as tables (\<open>internal/store/postgres/memory.go\<close> and \<open>onboarding.go\<close>):
  the facts with the interval each was believed, the profile row projected from the open ones,
  the interview with its transcript, and the trigger of the first sweep.  Row-level security
  shows a transaction the rows of one organisation only, so the state is that organisation's.

  \<open>jb\<close> stands for PostgreSQL's cast to \<open>jsonb\<close> and back to text: \<^term>\<open>None\<close> where the cast is
  refused.  A clock reading (\<open>clock_timestamp()\<close>) is an argument of the operation that takes it.
\<close>

section \<open>Tables\<close>

record fact_row =
  fw_id :: nat
  fw_fact :: fact

record profile_row =
  pw_id :: nat
  pw_session :: nat
  pw_by :: string
  pw_created :: instant
  pw_columns :: projected

record interview =
  iv_id :: nat
  iv_by :: string
  iv_status :: string
  iv_started :: instant
  iv_completed :: "instant option"

record turn_row =
  tw_session :: nat
  tw_turn :: turn

record trigger_row =
  tr_id :: nat
  tr_reason :: string
  tr_status :: string
  tr_attempts :: nat

record org_db =
  og_facts :: "fact_row list"
  og_profiles :: "profile_row list"
  og_sessions :: "interview list"
  og_turns :: "turn_row list"
  og_triggers :: "trigger_row list"
  og_ids :: nat

text \<open>Who is asking, and when the transaction began.\<close>

record asker =
  ak_user :: string
  ak_now :: instant

datatype memory_failure =
    FactRefused memory_error
  | NotJsonb
  | ClosedBeforeOpened
  | NoOpenValue
  | ProjectionFailed projection_error
  | NoSuchSession

definition newest :: "('a \<Rightarrow> instant) \<Rightarrow> 'a list \<Rightarrow> 'a option" where
  "newest at xs = (if xs = [] then None else Some (last (sort_key at xs)))"

section \<open>Facts\<close>

definition open_row :: "string \<Rightarrow> fact_row \<Rightarrow> bool" where
  "open_row key r \<longleftrightarrow> fact_key (fw_fact r) = key \<and> valid_to (fw_fact r) = None"

definition profile_facts :: "org_db \<Rightarrow> fact list" where
  "profile_facts db = sort_key fact_key (filter fact_current (map fw_fact (og_facts db)))"

definition fact_history :: "string \<Rightarrow> org_db \<Rightarrow> fact list" where
  "fact_history key db = rev (sort_key valid_from (filter (\<lambda>f. fact_key f = key) (map fw_fact (og_facts db))))"

definition current_fact :: "string \<Rightarrow> org_db \<Rightarrow> memory_failure + fact" where
  "current_fact key db =
     (case find (open_row key) (og_facts db) of None \<Rightarrow> Inl NoOpenValue | Some r \<Rightarrow> Inr (fw_fact r))"

definition open_fact_values :: "org_db \<Rightarrow> (string \<times> json) list" where
  "open_fact_values db = map (\<lambda>f. (fact_key f, fact_value f)) (profile_facts db)"

definition close_fact :: "nat \<Rightarrow> instant \<Rightarrow> org_db \<Rightarrow> org_db" where
  "close_fact n at db = db\<lparr>og_facts :=
     map (\<lambda>r. if fw_id r = n then r\<lparr>fw_fact := (fw_fact r)\<lparr>valid_to := Some at\<rparr>\<rparr> else r) (og_facts db)\<rparr>"

definition insert_fact :: "fact \<Rightarrow> org_db \<Rightarrow> org_db" where
  "insert_fact f db =
     db\<lparr>og_facts := og_facts db @ [\<lparr>fw_id = og_ids db, fw_fact = f\<rparr>], og_ids := og_ids db + 1\<rparr>"

section \<open>The profile row\<close>

definition save_profile :: "asker \<Rightarrow> nat \<Rightarrow> projected \<Rightarrow> org_db \<Rightarrow> nat \<times> org_db" where
  "save_profile a sid p db =
     (case find (\<lambda>r. pw_session r = sid) (og_profiles db) of
        Some r \<Rightarrow> (pw_id r, db\<lparr>og_profiles :=
          map (\<lambda>r. if pw_session r = sid then r\<lparr>pw_columns := p\<rparr> else r) (og_profiles db)\<rparr>)
      | None \<Rightarrow> (og_ids db, db\<lparr>og_profiles := og_profiles db @
          [\<lparr>pw_id = og_ids db, pw_session = sid, pw_by = ak_user a, pw_created = ak_now a, pw_columns = p\<rparr>],
          og_ids := og_ids db + 1\<rparr>))"

definition write_projection :: "asker \<Rightarrow> nat \<Rightarrow> org_db \<Rightarrow> memory_failure + (nat \<times> org_db)" where
  "write_projection a sid db =
     (case project (open_fact_values db) of
        Inl e \<Rightarrow> Inl (ProjectionFailed e)
      | Inr p \<Rightarrow> Inr (save_profile a sid p db))"

definition refresh_projection :: "asker \<Rightarrow> org_db \<Rightarrow> memory_failure + org_db" where
  "refresh_projection a db =
     (case newest pw_created (og_profiles db) of
        None \<Rightarrow> Inr db
      | Some p \<Rightarrow> map_sum id snd (write_projection a (pw_session p) db))"

definition has_profile :: "org_db \<Rightarrow> bool" where
  "has_profile db \<longleftrightarrow> og_profiles db \<noteq> []"

section \<open>Correcting a fact\<close>

definition record_fact ::
  "asker \<Rightarrow> instant \<Rightarrow> string \<Rightarrow> json \<Rightarrow> string \<Rightarrow> string \<Rightarrow> org_db \<Rightarrow> memory_failure + (fact \<times> bool \<times> org_db)" where
  "record_fact a at key v source note db =
     (let db1 = insert_fact \<lparr>fact_key = key, fact_value = v, fact_source = source, fact_evidence = [],
            valid_from = at, valid_to = None, recorded_by = ak_user a, fact_note = note\<rparr> db
      in case refresh_projection a db1 of
           Inl e \<Rightarrow> Inl e
         | Inr db2 \<Rightarrow> (case current_fact key db2 of Inl e \<Rightarrow> Inl e | Inr f \<Rightarrow> Inr (f, True, db2)))"

definition jsonb :: "(json \<Rightarrow> json option) \<Rightarrow> json_text \<Rightarrow> json option" where
  "jsonb jb raw = (case raw of Decoded j \<Rightarrow> jb j | _ \<Rightarrow> None)"

definition correct_fact ::
  "(json \<Rightarrow> json option) \<Rightarrow> asker \<Rightarrow> instant \<Rightarrow> string \<Rightarrow> json_text \<Rightarrow> string \<Rightarrow> string \<Rightarrow> org_db
     \<Rightarrow> memory_failure + (fact \<times> bool \<times> org_db)" where
  "correct_fact jb a at key raw source note db =
     (case validate_value key raw of
        Some e \<Rightarrow> Inl (FactRefused e)
      | None \<Rightarrow>
     (case validate_source source of
        Some e \<Rightarrow> Inl (FactRefused e)
      | None \<Rightarrow>
     (case jsonb jb raw of
        None \<Rightarrow> Inl NotJsonb
      | Some v \<Rightarrow>
     (case find (open_row key) (og_facts db) of
        None \<Rightarrow> record_fact a at key v source note db
      | Some r \<Rightarrow>
          if fact_value (fw_fact r) = v then Inr (fw_fact r, False, db)
          else if at < valid_from (fw_fact r) then Inl ClosedBeforeOpened
          else record_fact a at key v source note (close_fact (fw_id r) at db)))))"

section \<open>The interview\<close>

definition onboarding_session :: "org_db \<Rightarrow> interview option" where
  "onboarding_session db = newest iv_started (og_sessions db)"

definition start_session :: "asker \<Rightarrow> org_db \<Rightarrow> interview \<times> bool \<times> org_db" where
  "start_session a db =
     (let fresh = \<lparr>iv_id = og_ids db, iv_by = ak_user a, iv_status = StatusInProgress,
            iv_started = ak_now a, iv_completed = None\<rparr>;
          opened = (fresh, True, db\<lparr>og_sessions := og_sessions db @ [fresh], og_ids := og_ids db + 1\<rparr>)
      in case onboarding_session db of
           Some iv \<Rightarrow> if iv_status iv \<noteq> StatusAbandoned then (iv, False, db) else opened
         | None \<Rightarrow> opened)"

definition transcript :: "nat \<Rightarrow> org_db \<Rightarrow> turn list" where
  "transcript sid db =
     sort_key tn_ordering (map tw_turn (filter (\<lambda>r. tw_session r = sid) (og_turns db)))"

text \<open>\<open>coalesce(max(ordering), -1) + 1\<close>.\<close>

definition next_ordering :: "nat \<Rightarrow> org_db \<Rightarrow> int" where
  "next_ordering sid db =
     (case transcript sid db of [] \<Rightarrow> 0 | t # ts \<Rightarrow> tn_ordering (last (t # ts)) + 1)"

definition append_turn ::
  "(json \<Rightarrow> json option) \<Rightarrow> asker \<Rightarrow> nat \<Rightarrow> string \<Rightarrow> string \<Rightarrow> string \<Rightarrow> json option \<Rightarrow> org_db
     \<Rightarrow> memory_failure + org_db" where
  "append_turn jb a sid role content key value db =
     (let row = (\<lambda>v. \<lparr>tw_session = sid, tw_turn = \<lparr>tn_role = role, tn_content = content, tn_key = key,
            tn_value = v, tn_ordering = next_ordering sid db, tn_by = ak_user a\<rparr>\<rparr>)
      in case value of
           None \<Rightarrow> Inr (db\<lparr>og_turns := og_turns db @ [row None]\<rparr>)
         | Some j \<Rightarrow>
             (case jb j of
                None \<Rightarrow> Inl NotJsonb
              | Some v \<Rightarrow> Inr (db\<lparr>og_turns := og_turns db @ [row (Some v)]\<rparr>)))"

definition enqueue_trigger :: "string \<Rightarrow> org_db \<Rightarrow> org_db" where
  "enqueue_trigger reason db =
     db\<lparr>og_triggers := og_triggers db @
         [\<lparr>tr_id = og_ids db, tr_reason = reason, tr_status = ''pending'', tr_attempts = 0\<rparr>],
       og_ids := og_ids db + 1\<rparr>"

definition complete_session :: "asker \<Rightarrow> nat \<Rightarrow> org_db \<Rightarrow> org_db" where
  "complete_session a sid db = db\<lparr>og_sessions := map (\<lambda>iv. if iv_id iv = sid
     then iv\<lparr>iv_status := StatusCompleted,
        iv_completed := Some (case iv_completed iv of Some t \<Rightarrow> t | None \<Rightarrow> ak_now a)\<rparr>
     else iv) (og_sessions db)\<rparr>"

text \<open>\<open>SettleSweepTrigger\<close>: the relay, once the sweep ran or failed.\<close>

definition settle_trigger :: "nat \<Rightarrow> bool \<Rightarrow> org_db \<Rightarrow> bool \<times> org_db" where
  "settle_trigger n failed db =
     (let hit = (\<lambda>t. tr_id t = n \<and> tr_status t = ''pending'')
      in (list_ex hit (og_triggers db),
          db\<lparr>og_triggers := map (\<lambda>t. if hit t
            then t\<lparr>tr_attempts := tr_attempts t + 1, tr_status := if failed then ''pending'' else ''done''\<rparr>
            else t) (og_triggers db)\<rparr>))"

text \<open>The loop over the answers; \<open>clk key\<close> is the clock as the fact of that key is written.\<close>

definition confirm_fact ::
  "(json \<Rightarrow> json option) \<Rightarrow> asker \<Rightarrow> (string \<Rightarrow> instant) \<Rightarrow> string \<times> json \<Rightarrow> org_db \<Rightarrow> memory_failure + org_db" where
  "confirm_fact jb a clk x db =
     (case correct_fact jb a (clk (fst x)) (fst x) (Decoded (snd x)) ''onboarding'' [] db of
        Inl e \<Rightarrow> Inl e
      | Inr (f, changed, db') \<Rightarrow> Inr db')"

definition confirm_facts ::
  "(json \<Rightarrow> json option) \<Rightarrow> asker \<Rightarrow> (string \<Rightarrow> instant) \<Rightarrow> (string \<times> json) list \<Rightarrow> org_db
     \<Rightarrow> memory_failure + org_db" where
  "confirm_facts jb a clk facts = fold_res (confirm_fact jb a clk) (ordered_facts facts)"

lemma confirm_factD:
  assumes "confirm_fact jb a clk x db = Inr db'"
  obtains f changed where
    "correct_fact jb a (clk (fst x)) (fst x) (Decoded (snd x)) ''onboarding'' [] db = Inr (f, changed, db')"
  using assms by (auto simp: confirm_fact_def split: sum.splits)

definition confirm_onboarding ::
  "(json \<Rightarrow> json option) \<Rightarrow> asker \<Rightarrow> (string \<Rightarrow> instant) \<Rightarrow> nat \<Rightarrow> (string \<times> json) list \<Rightarrow> org_db
     \<Rightarrow> memory_failure + (nat \<times> org_db)" where
  "confirm_onboarding jb a clk sid facts db =
     (case confirm_facts jb a clk facts db of
        Inl e \<Rightarrow> Inl e
      | Inr db1 \<Rightarrow>
     (case write_projection a sid db1 of
        Inl e \<Rightarrow> Inl e
      | Inr (pid, db2) \<Rightarrow>
     (case find (\<lambda>iv. iv_id iv = sid) (og_sessions db2) of
        None \<Rightarrow> Inl NoSuchSession
      | Some previous \<Rightarrow>
          (let db3 = complete_session a sid db2
           in Inr (pid, if iv_status previous \<noteq> StatusCompleted
                        then enqueue_trigger ReasonOnboardingConfirmed db3 else db3)))))"

section \<open>The history of one fact\<close>

text \<open>
  The specification of a history: each value ends where the next begins, the intervals are not
  reversed, and the last one is open.
\<close>

fun chained :: "fact list \<Rightarrow> bool" where
  "chained [] \<longleftrightarrow> True"
| "chained [f] \<longleftrightarrow> valid_to f = None"
| "chained (f # g # fs) \<longleftrightarrow>
     valid_to f = Some (valid_from g) \<and> valid_from f \<le> valid_from g \<and> chained (g # fs)"

definition holds_at :: "instant \<Rightarrow> fact \<Rightarrow> bool" where
  "holds_at t f \<longleftrightarrow> valid_from f \<le> t \<and> (case valid_to f of None \<Rightarrow> True | Some u \<Rightarrow> t < u)"

lemma chained_later: "chained (f # fs) \<Longrightarrow> g \<in> set fs \<Longrightarrow> valid_from f \<le> valid_from g"
  by (induction "f # fs" arbitrary: f fs rule: chained.induct) fastforce+

lemma chained_one:
  "chained fs \<Longrightarrow> length (filter (holds_at t) fs) = (if \<exists>f \<in> set fs. valid_from f \<le> t then 1 else 0)"
proof (induction fs rule: chained.induct)
  case (3 f g fs)
  then have ih: "length (filter (holds_at t) (g # fs)) = (if \<exists>h \<in> set (g # fs). valid_from h \<le> t then 1 else 0)"
    by simp
  have g: "(\<exists>h \<in> set (g # fs). valid_from h \<le> t) \<longleftrightarrow> valid_from g \<le> t"
    using chained_later [of g fs] 3(2) by force
  have f: "holds_at t f \<longleftrightarrow> valid_from f \<le> t \<and> t < valid_from g"
    using 3(2) by (simp add: holds_at_def)
  have "(\<exists>h \<in> set (f # g # fs). valid_from h \<le> t) \<longleftrightarrow> valid_from f \<le> t"
    using chained_later [of f "g # fs"] 3(2) by force
  then show ?case using ih 3(2) unfolding g by (auto simp: f)
qed (auto simp: holds_at_def)

lemma chained_closed: "chained fs \<Longrightarrow> f \<in> set (butlast fs) \<Longrightarrow> valid_to f \<noteq> None"
  by (induction fs rule: chained.induct) (auto split: if_splits)

lemma chained_current: "chained fs \<Longrightarrow> filter fact_current fs = (if fs = [] then [] else [last fs])"
  by (induction fs rule: chained.induct) (auto simp: fact_current_def)

lemma chained_last_open: "chained fs \<Longrightarrow> fs \<noteq> [] \<Longrightarrow> valid_to (last fs) = None"
  by (induction fs rule: chained.induct) auto

lemma chained_extend:
  "chained fs \<Longrightarrow> fs \<noteq> [] \<Longrightarrow> valid_from (last fs) \<le> valid_from g \<Longrightarrow> valid_to g = None \<Longrightarrow>
     chained (butlast fs @ [(last fs)\<lparr>valid_to := Some (valid_from g)\<rparr>, g])"
proof (induction fs rule: chained.induct)
  case (3 f h fs)
  then show ?case by (cases fs) auto
qed auto

section \<open>The fact table\<close>

definition rows_of :: "string \<Rightarrow> org_db \<Rightarrow> fact_row list" where
  "rows_of key db = filter (\<lambda>r. fact_key (fw_fact r) = key) (og_facts db)"

definition facts_inv :: "org_db \<Rightarrow> bool" where
  "facts_inv db \<longleftrightarrow> distinct (map fw_id (og_facts db)) \<and> (\<forall>r \<in> set (og_facts db). fw_id r < og_ids db)
     \<and> (\<forall>key. chained (map fw_fact (rows_of key db)))
     \<and> (\<forall>r \<in> set (og_facts db). value_ok (fact_key (fw_fact r)) (fact_value (fw_fact r)))"

lemma facts_invD:
  "facts_inv db \<Longrightarrow> distinct (map fw_id (og_facts db))"
  "facts_inv db \<Longrightarrow> r \<in> set (og_facts db) \<Longrightarrow> fw_id r < og_ids db"
  "facts_inv db \<Longrightarrow> chained (map fw_fact (rows_of key db))"
  "facts_inv db \<Longrightarrow> r \<in> set (og_facts db) \<Longrightarrow> value_ok (fact_key (fw_fact r)) (fact_value (fw_fact r))"
  unfolding facts_inv_def by blast+

lemma facts_inv_cong:
  "og_facts db' = og_facts db \<Longrightarrow> og_ids db \<le> og_ids db' \<Longrightarrow> facts_inv db \<Longrightarrow> facts_inv db'"
  by (auto simp: facts_inv_def rows_of_def)

definition close_row :: "instant \<Rightarrow> fact_row \<Rightarrow> fact_row" where
  "close_row at r = r\<lparr>fw_fact := (fw_fact r)\<lparr>valid_to := Some at\<rparr>\<rparr>"

lemma close_row_simps [simp]:
  "fw_id (close_row at r) = fw_id r" "fact_key (fw_fact (close_row at r)) = fact_key (fw_fact r)"
  "fw_fact (close_row at r) = (fw_fact r)\<lparr>valid_to := Some at\<rparr>"
  by (simp_all add: close_row_def)

text \<open>Recording a value: the open one of its key, where there is one, is closed at its start.\<close>

definition supersede :: "fact \<Rightarrow> org_db \<Rightarrow> org_db" where
  "supersede g db = insert_fact g
     (case find (open_row (fact_key g)) (og_facts db) of
        None \<Rightarrow> db
      | Some r \<Rightarrow> close_fact (fw_id r) (valid_from g) db)"

lemma find_filter: "find P (filter Q xs) = find (\<lambda>x. Q x \<and> P x) xs"
  by (induction xs) auto

lemma find_last: "xs \<noteq> [] \<Longrightarrow> \<forall>x \<in> set (butlast xs). \<not> P x \<Longrightarrow> P (last xs) \<Longrightarrow> find P xs = Some (last xs)"
  by (induction xs) (auto split: if_splits)

lemma find_open_last:
  assumes "facts_inv db"
  shows "find (open_row key) (og_facts db) = (if rows_of key db = [] then None else Some (last (rows_of key db)))"
proof (cases "rows_of key db = []")
  case True
  then show ?thesis by (auto simp: find_None_iff rows_of_def filter_empty_conv open_row_def)
next
  case False
  let ?rs = "rows_of key db"
  note chain = facts_invD(3) [OF assms, of key]
  have "\<forall>r \<in> set (butlast ?rs). valid_to (fw_fact r) \<noteq> None"
    using chained_closed [OF chain] by (auto simp: map_butlast [symmetric])
  moreover have "valid_to (fw_fact (last ?rs)) = None"
    using chained_last_open [OF chain] False by (simp add: last_map)
  ultimately have "find (\<lambda>r. valid_to (fw_fact r) = None) ?rs = Some (last ?rs)"
    using False by (intro find_last) auto
  with False show ?thesis
    by (simp add: rows_of_def find_filter open_row_def [abs_def])
qed

lemma map_one:
  "distinct (map f xs) \<Longrightarrow> xs \<noteq> [] \<Longrightarrow>
     map (\<lambda>x. if f x = f (last xs) then g x else x) xs = butlast xs @ [g (last xs)]"
proof (induction xs)
  case (Cons x xs)
  show ?case
  proof (cases "xs = []")
    case False
    with Cons.prems have "f x \<noteq> f (last xs)" by (metis distinct.simps(2) image_eqI last_in_set list.set_map list.simps(9))
    with Cons False show ?thesis by simp
  qed simp
qed simp

lemma rows_of_close:
  "fact_key (fw_fact r) = key' \<Longrightarrow> distinct (map fw_id (og_facts db)) \<Longrightarrow> r \<in> set (og_facts db) \<Longrightarrow>
     rows_of key (close_fact (fw_id r) at db)
       = map (\<lambda>x. if fw_id x = fw_id r then close_row at x else x) (rows_of key db)"
  by (auto simp: rows_of_def close_fact_def filter_map comp_def close_row_def intro!: map_cong filter_cong)

lemma rows_of_insert:
  "rows_of key (insert_fact g db)
     = rows_of key db @ (if fact_key g = key then [\<lparr>fw_id = og_ids db, fw_fact = g\<rparr>] else [])"
  by (simp add: rows_of_def insert_fact_def)

lemma rows_of_supersede:
  assumes "facts_inv db"
  shows "rows_of key (supersede g db)
    = (if key = fact_key g
       then (if rows_of key db = [] then [] else butlast (rows_of key db) @ [close_row (valid_from g) (last (rows_of key db))])
         @ [\<lparr>fw_id = og_ids db, fw_fact = g\<rparr>]
       else rows_of key db)"
proof (cases "rows_of (fact_key g) db = []")
  case True
  with find_open_last [OF assms, of "fact_key g"] show ?thesis
    by (auto simp: supersede_def rows_of_insert)
next
  case False
  let ?rs = "rows_of (fact_key g) db" and ?r = "last (rows_of (fact_key g) db)"
  have mem: "?r \<in> set ?rs" using False by simp
  then have r: "?r \<in> set (og_facts db)" "fact_key (fw_fact ?r) = fact_key g" by (simp_all add: rows_of_def)
  note dist = facts_invD(1) [OF assms]
  note closed = rows_of_close [OF r(2) dist r(1), of key "valid_from g"]
  have same: "map (\<lambda>x. if fw_id x = fw_id ?r then close_row (valid_from g) x else x) (rows_of key db) = rows_of key db"
    if "key \<noteq> fact_key g"
  proof (rule map_idI)
    fix x assume "x \<in> set (rows_of key db)"
    then have "x \<in> set (og_facts db)" "fact_key (fw_fact x) = key" by (simp_all add: rows_of_def)
    with r that dist have "fw_id x \<noteq> fw_id ?r" by (metis distinct_map inj_onD)
    then show "(if fw_id x = fw_id ?r then close_row (valid_from g) x else x) = x" by simp
  qed
  have "distinct (map fw_id ?rs)" unfolding rows_of_def by (rule distinct_map_filter [OF dist])
  with map_one [of fw_id ?rs "close_row (valid_from g)"] False same closed find_open_last [OF assms, of "fact_key g"]
  show ?thesis by (auto simp: supersede_def rows_of_insert close_fact_def)
qed

lemma set_rows_of: "set (og_facts db) = (\<Union>key. set (rows_of key db))"
  by (auto simp: rows_of_def)

lemma ids_supersede: "map fw_id (og_facts (supersede g db)) = map fw_id (og_facts db) @ [og_ids db]"
  "og_ids (supersede g db) = Suc (og_ids db)"
  by (auto simp: supersede_def insert_fact_def close_fact_def split: option.splits)

lemma last_row_mem: "rows_of key db \<noteq> [] \<Longrightarrow> last (rows_of key db) \<in> set (og_facts db)"
  using last_in_set [of "rows_of key db"] by (simp add: rows_of_def)

lemma supersede_inv:
  assumes inv: "facts_inv db" and open_: "valid_to g = None" and ok: "value_ok (fact_key g) (fact_value g)"
    and later: "rows_of (fact_key g) db \<noteq> [] \<Longrightarrow> valid_from (fw_fact (last (rows_of (fact_key g) db))) \<le> valid_from g"
  shows "facts_inv (supersede g db)"
  unfolding facts_inv_def
proof (intro conjI allI ballI)
  show "distinct (map fw_id (og_facts (supersede g db)))"
    using facts_invD(1) [OF inv] facts_invD(2) [OF inv] by (fastforce simp: ids_supersede)
next
  fix r assume "r \<in> set (og_facts (supersede g db))"
  then have "fw_id r \<in> set (map fw_id (og_facts (supersede g db)))" by simp
  then show "fw_id r < og_ids (supersede g db)"
    using facts_invD(2) [OF inv] by (auto simp: ids_supersede less_Suc_eq)
next
  fix key
  note chain = facts_invD(3) [OF inv, of "fact_key g"]
  show "chained (map fw_fact (rows_of key (supersede g db)))"
    using chained_extend [OF chain _ _ open_] later facts_invD(3) [OF inv, of key] open_
    by (simp add: rows_of_supersede [OF inv] map_butlast last_map)
next
  fix r assume "r \<in> set (og_facts (supersede g db))"
  then have r: "r \<in> set (rows_of (fact_key (fw_fact r)) (supersede g db))" by (simp add: rows_of_def)
  have sub: "x \<in> set (rows_of key db) \<Longrightarrow> value_ok (fact_key (fw_fact x)) (fact_value (fw_fact x))" for x key
    using facts_invD(4) [OF inv] by (auto simp: rows_of_def)
  let ?rs = "rows_of (fact_key g) db"
  consider (old) key where "r \<in> set (rows_of key db)" | (closed) "?rs \<noteq> []" "r = close_row (valid_from g) (last ?rs)"
    | (new) "fw_fact r = g"
    using r by (auto simp: rows_of_supersede [OF inv] split: if_splits dest: in_set_butlastD)
  then show "value_ok (fact_key (fw_fact r)) (fact_value (fw_fact r))"
  proof cases
    case closed
    then show ?thesis using sub [of "last ?rs" "fact_key g"] by simp
  qed (use sub ok in auto)
qed

text \<open>What a table never loses: a closed row stays as it is.\<close>

definition keeps_closed :: "org_db \<Rightarrow> org_db \<Rightarrow> bool" where
  "keeps_closed db db' \<longleftrightarrow> (\<forall>r \<in> set (og_facts db). valid_to (fw_fact r) \<noteq> None \<longrightarrow> r \<in> set (og_facts db'))"

lemma keeps_closed_trans: "keeps_closed a b \<Longrightarrow> keeps_closed b c \<Longrightarrow> keeps_closed a c"
  by (simp add: keeps_closed_def)

lemma keeps_closed_same: "og_facts db' = og_facts db \<Longrightarrow> keeps_closed db db'"
  by (simp add: keeps_closed_def)

lemma supersede_keeps: "facts_inv db \<Longrightarrow> keeps_closed db (supersede g db)"
  unfolding keeps_closed_def
proof (intro ballI impI)
  fix r assume inv: "facts_inv db" and r: "r \<in> set (og_facts db)" and closed: "valid_to (fw_fact r) \<noteq> None"
  let ?key = "fact_key (fw_fact r)"
  have mem: "r \<in> set (rows_of ?key db)" using r by (simp add: rows_of_def)
  then have "rows_of ?key db \<noteq> []" by auto
  with chained_last_open [OF facts_invD(3) [OF inv]] have "valid_to (fw_fact (last (rows_of ?key db))) = None"
    by (simp add: last_map)
  with closed have "r \<noteq> last (rows_of ?key db)" by auto
  with mem have "r \<in> set (butlast (rows_of ?key db))"
    by (metis append_butlast_last_id empty_iff empty_set in_set_conv_decomp_last rotate1.simps(2) set_ConsD set_rotate1 Un_iff set_append)
  then have "r \<in> set (rows_of ?key (supersede g db))" using mem by (auto simp: rows_of_supersede [OF inv])
  then show "r \<in> set (og_facts (supersede g db))" by (simp add: rows_of_def)
qed

section \<open>Open values\<close>

lemma open_values_cong: "og_facts db' = og_facts db \<Longrightarrow> open_fact_values db' = open_fact_values db"
  by (simp add: open_fact_values_def profile_facts_def)

lemma open_values_mem:
  assumes "facts_inv db"
  shows "(key, v) \<in> set (open_fact_values db)
    \<longleftrightarrow> rows_of key db \<noteq> [] \<and> fact_value (fw_fact (last (rows_of key db))) = v"
proof -
  let ?fs = "map fw_fact (rows_of key db)"
  have "(key, v) \<in> set (open_fact_values db)
      \<longleftrightarrow> (\<exists>f \<in> set (filter fact_current ?fs). fact_value f = v)"
    by (auto simp: open_fact_values_def profile_facts_def rows_of_def)
  also have "\<dots> \<longleftrightarrow> ?fs \<noteq> [] \<and> fact_value (last ?fs) = v"
    by (simp add: chained_current [OF facts_invD(3) [OF assms]])
  finally show ?thesis by (auto simp: last_map)
qed

lemma open_values_ok: "facts_inv db \<Longrightarrow> (key, v) \<in> set (open_fact_values db) \<Longrightarrow> value_ok key v"
  using facts_invD(4) [of db] by (auto simp: open_fact_values_def profile_facts_def)

lemma open_values_supersede:
  assumes "facts_inv db" and "valid_to g = None" and "value_ok (fact_key g) (fact_value g)"
    and "rows_of (fact_key g) db \<noteq> [] \<Longrightarrow> valid_from (fw_fact (last (rows_of (fact_key g) db))) \<le> valid_from g"
  shows "(key, v) \<in> set (open_fact_values (supersede g db))
    \<longleftrightarrow> (if key = fact_key g then v = fact_value g else (key, v) \<in> set (open_fact_values db))"
proof -
  have "facts_inv (supersede g db)" by (rule supersede_inv [OF assms(1-3)]) (rule assms(4))
  then show ?thesis
    by (auto simp: open_values_mem assms(1) rows_of_supersede [OF assms(1)])
qed

section \<open>Corrections\<close>

lemma refresh_projection_frame:
  assumes "refresh_projection a db = Inr db'"
  shows "og_facts db' = og_facts db" "og_sessions db' = og_sessions db" "og_turns db' = og_turns db"
    "og_triggers db' = og_triggers db" "og_ids db \<le> og_ids db'"
  using assms
  by (auto simp: refresh_projection_def write_projection_def save_profile_def split: option.splits sum.splits)

definition new_fact :: "asker \<Rightarrow> instant \<Rightarrow> string \<Rightarrow> json \<Rightarrow> string \<Rightarrow> string \<Rightarrow> fact" where
  "new_fact a at key v source note =
     \<lparr>fact_key = key, fact_value = v, fact_source = source, fact_evidence = [],
      valid_from = at, valid_to = None, recorded_by = ak_user a, fact_note = note\<rparr>"

lemma new_fact_simps [simp]:
  "fact_key (new_fact a at key v source note) = key" "fact_value (new_fact a at key v source note) = v"
  "valid_from (new_fact a at key v source note) = at" "valid_to (new_fact a at key v source note) = None"
  by (simp_all add: new_fact_def)

lemma correct_factD:
  assumes inv: "facts_inv db" and "correct_fact jb a at key raw source note db = Inr (f, changed, db')"
  obtains (same) v where "jsonb jb raw = Some v" "db' = db" "(key, v) \<in> set (open_fact_values db)" "\<not> changed"
  | (new) v where "jsonb jb raw = Some v" "validate_value key raw = None"
      "refresh_projection a (supersede (new_fact a at key v source note) db) = Inr db'" "changed"
      "rows_of key db \<noteq> [] \<Longrightarrow> valid_from (fw_fact (last (rows_of key db))) \<le> at"
      "(key, v) \<notin> set (open_fact_values db)"
proof -
  from assms(2) obtain v where valid: "validate_value key raw = None" and v: "jsonb jb raw = Some v"
    by (auto simp: correct_fact_def split: option.splits)
  show ?thesis
  proof (cases "rows_of key db = []")
    case True
    with assms(2) valid v find_open_last [OF inv, of key]
    have "refresh_projection a (supersede (new_fact a at key v source note) db) = Inr db'" "changed"
      by (auto simp: correct_fact_def record_fact_def supersede_def new_fact_def Let_def split: option.splits sum.splits)
    with new valid v True open_values_mem [OF inv, of key v] show ?thesis by blast
  next
    case False
    let ?r = "last (rows_of key db)"
    from False find_open_last [OF inv, of key] have found: "find (open_row key) (og_facts db) = Some ?r" by simp
    show ?thesis
    proof (cases "fact_value (fw_fact ?r) = v")
      case True
      with assms(2) valid v found have "db' = db" "\<not> changed"
        by (auto simp: correct_fact_def split: option.splits)
      with same v True False open_values_mem [OF inv, of key v] show ?thesis by blast
    next
      case False2: False
      with assms(2) valid v found
      have "refresh_projection a (supersede (new_fact a at key v source note) db) = Inr db'" "changed"
          "valid_from (fw_fact ?r) \<le> at"
        by (auto simp: correct_fact_def record_fact_def supersede_def new_fact_def Let_def
            split: option.splits sum.splits if_splits)
      with new valid v False2 open_values_mem [OF inv, of key v] show ?thesis by blast
    qed
  qed
qed

end
