(* ===== verification/Interview.thy ===== *)
theory Interview
  imports Org_Memory
begin

text \<open>
  The two services that write the organisation memory: \<open>internal/service/onboarding\<close> (the
  interview) and \<open>internal/service/memory\<close> (a person correcting a fact).  A handler runs in one
  transaction, which an error rolls back, so a failing call leaves the state it started from.
\<close>

section \<open>Values on the wire (service/memory)\<close>

datatype tri_state = TriYes | TriNo | TriUnsure | TriUnspecified

datatype wire_value =
    WireText string
  | WireNumber int
  | WireList "string list"
  | WireTri tri_state
  | WireUnset

definition value_to_json :: "wire_value \<Rightarrow> json option" where
  "value_to_json w =
     (case w of
        WireText s \<Rightarrow> Some (JStr s)
      | WireNumber n \<Rightarrow> Some (JNum (itoa n))
      | WireList xs \<Rightarrow> Some (texts xs)
      | WireTri TriYes \<Rightarrow> Some (JStr ''yes'')
      | WireTri TriNo \<Rightarrow> Some (JStr ''no'')
      | WireTri TriUnsure \<Rightarrow> Some (JStr ''unsure'')
      | WireTri TriUnspecified \<Rightarrow> None
      | WireUnset \<Rightarrow> None)"

text \<open>\<open>f64\<close> stands for decoding a number literal as a float and converting it to \<open>int64\<close>.\<close>

definition as_text :: "json \<Rightarrow> string option" where
  "as_text j = (case j of JStr s \<Rightarrow> Some s | _ \<Rightarrow> None)"

definition json_to_value :: "(string \<Rightarrow> int) \<Rightarrow> string \<Rightarrow> json \<Rightarrow> wire_value option" where
  "json_to_value f64 key j =
     (case kind_of key of
        None \<Rightarrow> None
      | Some KindText \<Rightarrow> map_option WireText (as_text j)
      | Some KindNumber \<Rightarrow> (case j of JNum s \<Rightarrow> Some (WireNumber (f64 s)) | _ \<Rightarrow> None)
      | Some KindTriState \<Rightarrow>
          (case as_text j of
             None \<Rightarrow> None
           | Some t \<Rightarrow> if t = ''yes'' then Some (WireTri TriYes) else if t = ''no'' then Some (WireTri TriNo)
               else if t = ''unsure'' then Some (WireTri TriUnsure) else None)
      | Some KindList \<Rightarrow>
          (case j of JArr items \<Rightarrow> map_option WireList (all_some (map as_text items)) | _ \<Rightarrow> None))"

datatype correct_error = UnknownKey | NeedsAValue | CorrectionRefused memory_failure | NotRendered

definition rendered :: "(string \<Rightarrow> int) \<Rightarrow> fact \<Rightarrow> bool" where
  "rendered f64 f \<longleftrightarrow> json_to_value f64 (fact_key f) (fact_value f) \<noteq> None"

text \<open>\<open>CorrectFact\<close>: the key is \<^term>\<open>None\<close> for an enum value outside the table.\<close>

definition correct_call ::
  "(json \<Rightarrow> json option) \<Rightarrow> (string \<Rightarrow> int) \<Rightarrow> asker \<Rightarrow> instant \<Rightarrow> string option \<Rightarrow> wire_value \<Rightarrow> string
     \<Rightarrow> org_db \<Rightarrow> correct_error + (fact \<times> bool \<times> org_db)" where
  "correct_call jb f64 a at key w note db =
     (case key of
        None \<Rightarrow> Inl UnknownKey
      | Some k \<Rightarrow>
          (case value_to_json w of
             None \<Rightarrow> Inl NeedsAValue
           | Some j \<Rightarrow>
               (case correct_fact jb a at k (Decoded j) ''human'' note db of
                  Inl e \<Rightarrow> Inl (CorrectionRefused e)
                | Inr (f, changed, db1) \<Rightarrow> if rendered f64 f then Inr (f, changed, db1) else Inl NotRendered)))"

section \<open>The interview (service/onboarding)\<close>

definition greeting :: string where
  "greeting = ''Hello. I am going to ask eleven short questions so Kindlast knows what your organisation actually does. Every one is a tap, your answers are saved as you give them, and if you cannot answer one you can pass on it and we will move on.''"

datatype interview_error =
    NotAKey
  | NotPartOfInterview
  | NotStarted
  | AlreadyFinished
  | AnswerRefused onboarding_error
  | NothingAnswered
  | StoreFailed memory_failure
  | FactsNotRendered

record draft_entry =
  dr_key :: string
  dr_value :: wire_value
  dr_answer :: string

record onboarding_state =
  os_session :: "nat option"
  os_status :: string
  os_profile_exists :: bool
  os_ready :: bool
  os_total :: nat
  os_answered :: nat
  os_question :: "question option"
  os_transcript :: "turn list"
  os_draft :: "draft_entry list"

fun draft_entries :: "(string \<Rightarrow> int) \<Rightarrow> answers \<Rightarrow> question list \<Rightarrow> draft_entry list" where
  "draft_entries f64 ans [] = []"
| "draft_entries f64 ans (q # qs) =
     (case map_of ans (qn_key q) of
        None \<Rightarrow> draft_entries f64 ans qs
      | Some a \<Rightarrow>
          (case an_value a of
             None \<Rightarrow> draft_entries f64 ans qs
           | Some v \<Rightarrow>
               if an_skipped a then draft_entries f64 ans qs
               else (case json_to_value f64 (qn_key q) v of
                       None \<Rightarrow> draft_entries f64 ans qs
                     | Some w \<Rightarrow> \<lparr>dr_key = qn_key q, dr_value = w, dr_answer = an_text a\<rparr> # draft_entries f64 ans qs)))"

definition build_state :: "(string \<Rightarrow> int) \<Rightarrow> interview \<Rightarrow> turn list \<Rightarrow> bool \<Rightarrow> onboarding_state" where
  "build_state f64 iv ts profile_exists =
     (let ans = answers_from ts; (total, answered) = progress ans; q = next_question ans
      in \<lparr>os_session = Some (iv_id iv), os_status = iv_status iv, os_profile_exists = profile_exists,
          os_ready = (q = None), os_total = total, os_answered = answered, os_question = q,
          os_transcript = ts, os_draft = draft_entries f64 ans script\<rparr>)"

definition current_state :: "(string \<Rightarrow> int) \<Rightarrow> org_db \<Rightarrow> onboarding_state" where
  "current_state f64 db =
     (case onboarding_session db of
        None \<Rightarrow> \<lparr>os_session = None, os_status = [], os_profile_exists = has_profile db, os_ready = False,
          os_total = length script, os_answered = 0, os_question = None, os_transcript = [], os_draft = []\<rparr>
      | Some iv \<Rightarrow> build_state f64 iv (transcript (iv_id iv) db) (has_profile db))"

definition already_asked :: "turn list \<Rightarrow> string \<Rightarrow> bool" where
  "already_asked ts key \<longleftrightarrow> ts \<noteq> [] \<and> tn_role (last ts) = RoleAssistant \<and> tn_key (last ts) = key"

definition ask_next :: "(json \<Rightarrow> json option) \<Rightarrow> asker \<Rightarrow> interview \<Rightarrow> org_db \<Rightarrow> interview_error + org_db" where
  "ask_next jb a iv db =
     (let ts = transcript (iv_id iv) db
      in case next_question (answers_from ts) of
           Some q \<Rightarrow>
             if already_asked ts (qn_key q) then Inr db
             else map_sum StoreFailed id (append_turn jb a (iv_id iv) RoleAssistant (qn_prompt q) (qn_key q) None db)
         | None \<Rightarrow> Inr db)"

definition state_after_asking ::
  "(json \<Rightarrow> json option) \<Rightarrow> (string \<Rightarrow> int) \<Rightarrow> asker \<Rightarrow> interview \<Rightarrow> org_db
     \<Rightarrow> interview_error + (onboarding_state \<times> org_db)" where
  "state_after_asking jb f64 a iv db =
     (case ask_next jb a iv db of
        Inl e \<Rightarrow> Inl e
      | Inr db1 \<Rightarrow> Inr (build_state f64 iv (transcript (iv_id iv) db1) (has_profile db1), db1))"

definition start_onboarding ::
  "(json \<Rightarrow> json option) \<Rightarrow> (string \<Rightarrow> int) \<Rightarrow> asker \<Rightarrow> org_db
     \<Rightarrow> interview_error + (bool \<times> onboarding_state \<times> org_db)" where
  "start_onboarding jb f64 a db =
     (let (iv, created, db1) = start_session a db
      in case (if created then append_turn jb a (iv_id iv) RoleAssistant greeting [] None db1 else Inr db1) of
           Inl e \<Rightarrow> Inl (StoreFailed e)
         | Inr db2 \<Rightarrow> map_sum id (Pair created) (state_after_asking jb f64 a iv db2))"

definition finish_if_done ::
  "(json \<Rightarrow> json option) \<Rightarrow> asker \<Rightarrow> (string \<Rightarrow> instant) \<Rightarrow> interview \<Rightarrow> org_db
     \<Rightarrow> memory_failure + (interview \<times> org_db)" where
  "finish_if_done jb a clk iv db =
     (if iv_status iv = StatusCompleted then Inr (iv, db)
      else let ans = answers_from (transcript (iv_id iv) db); facts = facts_from ans in
        if next_question ans \<noteq> None \<or> facts = [] then Inr (iv, db)
        else (case confirm_onboarding jb a clk (iv_id iv) facts db of
                Inl e \<Rightarrow> Inl e
              | Inr (pid, db1) \<Rightarrow> Inr (iv\<lparr>iv_status := StatusCompleted\<rparr>, db1)))"

definition believe_answer ::
  "(json \<Rightarrow> json option) \<Rightarrow> asker \<Rightarrow> instant \<Rightarrow> string \<Rightarrow> json option \<Rightarrow> org_db \<Rightarrow> memory_failure + org_db" where
  "believe_answer jb a at key value db =
     (case value of
        None \<Rightarrow> Inr db
      | Some v \<Rightarrow> map_sum id (snd \<circ> snd) (correct_fact jb a at key (Decoded v) ''onboarding'' [] db))"

definition record_answer ::
  "(json \<Rightarrow> json option) \<Rightarrow> asker \<Rightarrow> instant \<Rightarrow> (string \<Rightarrow> instant) \<Rightarrow> interview \<Rightarrow> string \<Rightarrow> string
     \<Rightarrow> json option \<Rightarrow> org_db \<Rightarrow> memory_failure + (interview \<times> org_db)" where
  "record_answer jb a at clk iv key content value db =
     (case append_turn jb a (iv_id iv) RoleUser content key value db of
        Inl e \<Rightarrow> Inl e
      | Inr db1 \<Rightarrow>
     (case believe_answer jb a at key value db1 of
        Inl e \<Rightarrow> Inl e
      | Inr db2 \<Rightarrow> finish_if_done jb a clk iv db2))"

definition answer_question ::
  "(json \<Rightarrow> json option) \<Rightarrow> (string \<Rightarrow> string) \<Rightarrow> (string \<Rightarrow> int) \<Rightarrow> asker \<Rightarrow> instant \<Rightarrow> (string \<Rightarrow> instant)
     \<Rightarrow> string option \<Rightarrow> bool \<Rightarrow> string \<Rightarrow> org_db \<Rightarrow> interview_error + (onboarding_state \<times> org_db)" where
  "answer_question jb uni f64 a at clk key skip content db =
     (case key of
        None \<Rightarrow> Inl NotAKey
      | Some k \<Rightarrow>
          if question_for k = None then Inl NotPartOfInterview
          else
     (case onboarding_session db of
        None \<Rightarrow> Inl NotStarted
      | Some iv \<Rightarrow>
          if iv_status iv = StatusCompleted then Inl AlreadyFinished
          else
     (case (if skip then Inr None else map_sum AnswerRefused Some (parse_answer uni k content)) of
        Inl e \<Rightarrow> Inl e
      | Inr value \<Rightarrow>
     (case record_answer jb a at clk iv k (if skip then SkippedContent else content) value db of
        Inl e \<Rightarrow> Inl (StoreFailed e)
      | Inr (iv', db1) \<Rightarrow> state_after_asking jb f64 a iv' db1))))"

definition confirm_profile ::
  "(json \<Rightarrow> json option) \<Rightarrow> (string \<Rightarrow> int) \<Rightarrow> asker \<Rightarrow> (string \<Rightarrow> instant) \<Rightarrow> org_db
     \<Rightarrow> interview_error + (nat \<times> onboarding_state \<times> org_db)" where
  "confirm_profile jb f64 a clk db =
     (case onboarding_session db of
        None \<Rightarrow> Inl NotStarted
      | Some iv \<Rightarrow>
          (let facts = facts_from (answers_from (transcript (iv_id iv) db)) in
           if facts = [] then Inl NothingAnswered
           else (case confirm_onboarding jb a clk (iv_id iv) facts db of
                   Inl e \<Rightarrow> Inl (StoreFailed e)
                 | Inr (pid, db1) \<Rightarrow>
                     if list_all (rendered f64) (profile_facts db1) then Inr (pid, current_state f64 db1, db1)
                     else Inl FactsNotRendered)))"

section \<open>The life of an organisation's memory\<close>

inductive org_step ::
  "(json \<Rightarrow> json option) \<Rightarrow> (string \<Rightarrow> string) \<Rightarrow> (string \<Rightarrow> int) \<Rightarrow> org_db \<Rightarrow> org_db \<Rightarrow> bool"
  for jb uni f64 where
  start: "start_onboarding jb f64 a db = Inr (created, st, db') \<Longrightarrow> org_step jb uni f64 db db'"
| answer: "answer_question jb uni f64 a at clk key skip content db = Inr (st, db') \<Longrightarrow> org_step jb uni f64 db db'"
| confirm: "confirm_profile jb f64 a clk db = Inr (pid, st, db') \<Longrightarrow> org_step jb uni f64 db db'"
| correct: "correct_call jb f64 a at key w why db = Inr (f, changed, db') \<Longrightarrow> org_step jb uni f64 db db'"
| settle: "settle_trigger n failed db = (hit, db') \<Longrightarrow> org_step jb uni f64 db db'"

definition org_init :: "org_db \<Rightarrow> bool" where
  "org_init db \<longleftrightarrow> og_facts db = [] \<and> og_profiles db = [] \<and> og_sessions db = [] \<and> og_turns db = []
     \<and> og_triggers db = []"

end
