(* ===== verification/Memory_Life.thy ===== *)
theory Memory_Life
  imports Interview
begin

text \<open>
  What holds of an organisation's memory whatever the two services do, in whatever order: the
  invariant of the tables, and the properties that rest on it.
\<close>

section \<open>The invariant\<close>

text \<open>What is relied on of the cast to \<open>jsonb\<close>: it keeps a value of the type its fact has.\<close>

definition jsonb_keeps :: "(json \<Rightarrow> json option) \<Rightarrow> bool" where
  "jsonb_keeps jb \<longleftrightarrow> (\<forall>key v v'. jb v = Some v' \<longrightarrow> value_ok key v \<longrightarrow> value_ok key v')"

definition mirrored :: "org_db \<Rightarrow> profile_row \<Rightarrow> bool" where
  "mirrored db p \<longleftrightarrow> project (open_fact_values db) = Inr (pw_columns p)"

definition not_begun :: "org_db \<Rightarrow> bool" where
  "not_begun db \<longleftrightarrow> og_sessions db = [] \<and> og_profiles db = [] \<and> og_triggers db = []"

definition under_way :: "org_db \<Rightarrow> bool" where
  "under_way db \<longleftrightarrow> (\<exists>iv. og_sessions db = [iv] \<and> iv_status iv = StatusInProgress)
     \<and> og_profiles db = [] \<and> og_triggers db = []"

definition finished :: "org_db \<Rightarrow> bool" where
  "finished db \<longleftrightarrow> (\<exists>iv p t. og_sessions db = [iv] \<and> iv_status iv = StatusCompleted
     \<and> og_profiles db = [p] \<and> pw_session p = iv_id iv \<and> mirrored db p \<and> og_triggers db = [t])"

definition org_inv :: "org_db \<Rightarrow> bool" where
  "org_inv db \<longleftrightarrow> facts_inv db \<and> (not_begun db \<or> under_way db \<or> finished db)"

lemma org_invD: "org_inv db \<Longrightarrow> facts_inv db" "org_inv db \<Longrightarrow> not_begun db \<or> under_way db \<or> finished db"
  by (simp_all add: org_inv_def)

lemma org_inv_init: "org_init db \<Longrightarrow> org_inv db"
  by (simp add: org_init_def org_inv_def facts_inv_def rows_of_def not_begun_def)

lemma StatusInProgress_neq [simp]: "StatusInProgress \<noteq> StatusCompleted" "StatusCompleted \<noteq> StatusInProgress"
  "StatusInProgress \<noteq> StatusAbandoned" "StatusCompleted \<noteq> StatusAbandoned"
  by (simp_all add: StatusInProgress_def StatusCompleted_def StatusAbandoned_def)

text \<open>What a step that leaves the interview alone keeps.\<close>

definition same_interview :: "org_db \<Rightarrow> org_db \<Rightarrow> bool" where
  "same_interview db db' \<longleftrightarrow> og_sessions db' = og_sessions db \<and> og_triggers db' = og_triggers db
     \<and> og_turns db' = og_turns db"

lemma mirrored_cong: "og_facts db' = og_facts db \<Longrightarrow> mirrored db' p = mirrored db p"
  by (drule open_values_cong) (simp add: mirrored_def)

lemma org_inv_cong:
  assumes "og_facts db' = og_facts db" "og_sessions db' = og_sessions db" "og_profiles db' = og_profiles db"
    "og_triggers db' = og_triggers db" "og_ids db \<le> og_ids db'" "org_inv db"
  shows "org_inv db'"
proof -
  have "not_begun db' \<longleftrightarrow> not_begun db" "under_way db' \<longleftrightarrow> under_way db" "finished db' \<longleftrightarrow> finished db"
    unfolding not_begun_def under_way_def finished_def assms(2-4) mirrored_cong [OF assms(1)] by (rule refl)+
  then show ?thesis using facts_inv_cong [OF assms(1,5)] assms(6) unfolding org_inv_def by blast
qed

lemma newest_single [simp]: "newest at [x] = Some x" "newest at [] = None"
  by (simp_all add: newest_def)

section \<open>Corrections keep it\<close>

lemma write_projection_mirrored:
  assumes "write_projection a sid db = Inr (pid, db')"
    and "og_profiles db = [] \<or> (\<exists>p. og_profiles db = [p] \<and> pw_session p = sid)"
  obtains p where "og_profiles db' = [p]" "pw_session p = sid" "mirrored db' p"
    "og_facts db' = og_facts db" "og_sessions db' = og_sessions db" "og_turns db' = og_turns db"
    "og_triggers db' = og_triggers db" "og_ids db \<le> og_ids db'"
proof -
  from assms(1) obtain pj where "project (open_fact_values db) = Inr pj" "save_profile a sid pj db = (pid, db')"
    by (auto simp: write_projection_def split: sum.splits)
  with assms(2) that show ?thesis
    by (fastforce simp: save_profile_def mirrored_def open_fact_values_def profile_facts_def)
qed

lemma refresh_inv:
  assumes inv: "facts_inv db" and r: "refresh_projection a db = Inr db'"
    and state: "not_begun db0 \<or> under_way db0 \<or> finished db0"
    and same: "og_sessions db = og_sessions db0" "og_triggers db = og_triggers db0" "og_profiles db = og_profiles db0"
  shows "org_inv db'"
proof -
  note frame = refresh_projection_frame [OF r]
  have facts: "facts_inv db'" by (rule facts_inv_cong [OF frame(1,5) inv])
  show ?thesis
  proof (cases "finished db0")
    case False
    with state have "og_profiles db = []" using same by (auto simp: not_begun_def under_way_def)
    with r have "db' = db" by (simp add: refresh_projection_def)
    with state False same facts show ?thesis by (auto simp: org_inv_def not_begun_def under_way_def)
  next
    case True
    then obtain iv p t where f: "og_sessions db = [iv]" "iv_status iv = StatusCompleted"
      "og_profiles db = [p]" "pw_session p = iv_id iv" "og_triggers db = [t]" using same by (auto simp: finished_def)
    with r obtain pid where "write_projection a (iv_id iv) db = Inr (pid, db')"
      by (cases "write_projection a (iv_id iv) db") (auto simp: refresh_projection_def)
    then obtain p' where "og_profiles db' = [p']" "pw_session p' = iv_id iv" "mirrored db' p'"
      by (rule write_projection_mirrored) (use f in auto)
    with f frame facts show ?thesis by (simp add: org_inv_def finished_def)
  qed
qed

lemma supersede_frame [simp]:
  "og_sessions (supersede g db) = og_sessions db" "og_profiles (supersede g db) = og_profiles db"
  "og_triggers (supersede g db) = og_triggers db" "og_turns (supersede g db) = og_turns db"
  by (simp_all add: supersede_def insert_fact_def close_fact_def split: option.splits)

lemma validated: "jsonb_keeps jb \<Longrightarrow> validate_value key raw = None \<Longrightarrow> jsonb jb raw = Some v \<Longrightarrow> value_ok key v"
  by (auto simp: validate_value_None jsonb_def jsonb_keeps_def)

lemma correct_fact_inv:
  assumes jb: "jsonb_keeps jb" and inv: "org_inv db"
    and c: "correct_fact jb a at key raw source note db = Inr (f, changed, db')"
  shows "org_inv db'" and "keeps_closed db db'" and "same_interview db db'"
proof -
  have "org_inv db' \<and> keeps_closed db db' \<and> same_interview db db'"
    using org_invD(1) [OF inv] c
  proof (cases rule: correct_factD)
    case (same v)
    with inv show ?thesis by (simp add: keeps_closed_def same_interview_def)
  next
    case (new v)
    let ?g = "new_fact a at key v source note"
    note facts = org_invD(1) [OF inv]
    have sup: "facts_inv (supersede ?g db)"
      by (rule supersede_inv [OF facts]) (use new validated [OF jb new(2,1)] in simp_all)
    have "org_inv db'"
      by (rule refresh_inv [OF sup new(3) org_invD(2) [OF inv]]) simp_all
    moreover have "keeps_closed db db'"
      using supersede_keeps [OF facts, of ?g] refresh_projection_frame(1) [OF new(3)]
      by (simp add: keeps_closed_def)
    ultimately show ?thesis
      using refresh_projection_frame [OF new(3)] by (simp add: same_interview_def)
  qed
  then show "org_inv db'" "keeps_closed db db'" "same_interview db db'" by blast+
qed

lemma same_interview_trans: "same_interview a b \<Longrightarrow> same_interview b c \<Longrightarrow> same_interview a c"
  by (simp add: same_interview_def)

lemma same_interview_refl: "same_interview db db" "keeps_closed db db"
  by (simp_all add: same_interview_def keeps_closed_def)

lemma confirm_facts_inv:
  assumes jb: "jsonb_keeps jb" and inv: "org_inv db" and c: "confirm_facts jb a clk facts db = Inr db'"
  shows "org_inv db' \<and> keeps_closed db db' \<and> same_interview db db'"
  using c unfolding confirm_facts_def
proof (rule fold_res_inv [where P = "\<lambda>d. org_inv d \<and> keeps_closed db d \<and> same_interview db d"])
  show "org_inv db \<and> keeps_closed db db \<and> same_interview db db"
    using inv same_interview_refl by blast
next
  fix x s s' assume P: "org_inv s \<and> keeps_closed db s \<and> same_interview db s"
    and "confirm_fact jb a clk x s = Inr s'"
  then obtain f ch where
    "correct_fact jb a (clk (fst x)) (fst x) (Decoded (snd x)) ''onboarding'' [] s = Inr (f, ch, s')"
    by (blast elim: confirm_factD)
  from correct_fact_inv [OF jb _ this] P
  show "org_inv s' \<and> keeps_closed db s' \<and> same_interview db s'"
    by (blast intro: keeps_closed_trans same_interview_trans)
qed

section \<open>The interview keeps it\<close>

lemma confirm_onboardingD:
  assumes "confirm_onboarding jb a clk sid facts db = Inr (pid, db')"
  obtains db1 db2 iv where "confirm_facts jb a clk facts db = Inr db1"
    "write_projection a sid db1 = Inr (pid, db2)" "find (\<lambda>iv. iv_id iv = sid) (og_sessions db2) = Some iv"
    "db' = (if iv_status iv \<noteq> StatusCompleted
      then enqueue_trigger ReasonOnboardingConfirmed (complete_session a sid db2) else complete_session a sid db2)"
  using assms by (auto simp: confirm_onboarding_def Let_def split: sum.splits option.splits)

lemma confirm_onboarding_inv:
  assumes jb: "jsonb_keeps jb" and inv: "org_inv db" and iv: "og_sessions db = [iv]"
    and c: "confirm_onboarding jb a clk (iv_id iv) facts db = Inr (pid, db')"
  shows "org_inv db'" and "keeps_closed db db'" and "finished db'"
proof -
  from c obtain db1 db2 iv2 where s: "confirm_facts jb a clk facts db = Inr db1"
    "write_projection a (iv_id iv) db1 = Inr (pid, db2)" "find (\<lambda>v. iv_id v = iv_id iv) (og_sessions db2) = Some iv2"
    "db' = (if iv_status iv2 \<noteq> StatusCompleted
      then enqueue_trigger ReasonOnboardingConfirmed (complete_session a (iv_id iv) db2)
      else complete_session a (iv_id iv) db2)" by (rule confirm_onboardingD)
  from confirm_facts_inv [OF jb inv s(1)]
  have i1: "org_inv db1" "keeps_closed db db1" "og_sessions db1 = [iv]" using iv by (auto simp: same_interview_def)
  have profiles: "og_profiles db1 = [] \<or> (\<exists>p. og_profiles db1 = [p] \<and> pw_session p = iv_id iv)"
    using org_invD(2) [OF i1(1)] i1(3) by (auto simp: not_begun_def under_way_def finished_def)
  from s(2) profiles obtain p where p: "og_profiles db2 = [p]" "pw_session p = iv_id iv" "mirrored db2 p"
    "og_facts db2 = og_facts db1" "og_sessions db2 = [iv]" "og_triggers db2 = og_triggers db1" "og_ids db1 \<le> og_ids db2"
    using i1(3) by (metis write_projection_mirrored)
  have iv2: "iv2 = iv" using s(3) p(5) by simp
  have facts: "og_facts db' = og_facts db1" "og_ids db1 \<le> og_ids db'"
    using s(4) p by (auto simp: enqueue_trigger_def complete_session_def)
  have trig: "og_triggers db1 = [] \<longleftrightarrow> iv_status iv \<noteq> StatusCompleted" "length (og_triggers db1) \<le> 1"
    using org_invD(2) [OF i1(1)] i1(3) by (auto simp: not_begun_def under_way_def finished_def)
  have "mirrored db' p" using p(3) facts(1) p(4) by (metis mirrored_cong)
  then show fin: "finished db'"
    using s(4) p iv2 trig
    by (cases "og_triggers db1") (auto simp: finished_def enqueue_trigger_def complete_session_def)
  show "org_inv db'"
    unfolding org_inv_def using fin facts_inv_cong [OF facts org_invD(1) [OF i1(1)]] by blast
  show "keeps_closed db db'" using i1(2) facts(1) by (simp add: keeps_closed_def)
qed

definition same_but_turns :: "org_db \<Rightarrow> org_db \<Rightarrow> bool" where
  "same_but_turns db db' \<longleftrightarrow> og_facts db' = og_facts db \<and> og_sessions db' = og_sessions db
     \<and> og_profiles db' = og_profiles db \<and> og_triggers db' = og_triggers db \<and> og_ids db' = og_ids db"

lemma same_but_turns_inv: "same_but_turns db db' \<Longrightarrow> org_inv db \<Longrightarrow> org_inv db'"
  by (rule org_inv_cong [of db' db]) (simp_all add: same_but_turns_def)

lemma same_but_turns_keeps: "same_but_turns db db' \<Longrightarrow> keeps_closed db db'"
  by (simp add: same_but_turns_def keeps_closed_def)

lemma append_turn_same: "append_turn jb a sid role content key value db = Inr db' \<Longrightarrow> same_but_turns db db'"
  by (auto simp: append_turn_def Let_def same_but_turns_def split: option.splits)

lemma same_but_turns_refl: "same_but_turns db db"
  by (simp add: same_but_turns_def)

lemma same_but_turns_trans: "same_but_turns a b \<Longrightarrow> same_but_turns b c \<Longrightarrow> same_but_turns a c"
  by (simp add: same_but_turns_def)

lemma ask_next_same: "ask_next jb a iv db = Inr db' \<Longrightarrow> same_but_turns db db'"
  by (auto simp: ask_next_def Let_def map_sum_Inr same_but_turns_refl dest: append_turn_same
      split: option.splits if_splits)

lemma state_after_asking_same: "state_after_asking jb f64 a iv db = Inr (st, db') \<Longrightarrow> same_but_turns db db'"
  by (auto simp: state_after_asking_def dest: ask_next_same split: sum.splits)

lemma start_session_inv:
  assumes "org_inv db" and s: "start_session a db = (iv, created, db')"
  shows "org_inv db'" and "keeps_closed db db'" and "og_sessions db' = [iv]"
    and "\<not> created \<Longrightarrow> db' = db"
proof -
  have "org_inv db' \<and> keeps_closed db db' \<and> og_sessions db' = [iv] \<and> (\<not> created \<longrightarrow> db' = db)"
  proof (cases "not_begun db")
    case True
    with s have new: "db' = db\<lparr>og_sessions := [iv], og_ids := og_ids db + 1\<rparr>" "iv_status iv = StatusInProgress" "created"
      by (auto simp: start_session_def onboarding_session_def not_begun_def Let_def)
    then have "facts_inv db'" by (intro facts_inv_cong [OF _ _ org_invD(1) [OF assms(1)]]) simp_all
    with True new show ?thesis
      by (simp add: org_inv_def under_way_def not_begun_def keeps_closed_def)
  next
    case False
    then obtain v where "og_sessions db = [v]" "iv_status v \<noteq> StatusAbandoned"
      using org_invD(2) [OF assms(1)] by (auto simp: under_way_def finished_def)
    with s have "iv = v" "db' = db" "\<not> created"
      by (auto simp: start_session_def onboarding_session_def Let_def)
    with \<open>og_sessions db = [v]\<close> assms(1) show ?thesis by (simp add: keeps_closed_def)
  qed
  then show "org_inv db'" "keeps_closed db db'" "og_sessions db' = [iv]" "\<not> created \<Longrightarrow> db' = db" by blast+
qed

lemma start_onboarding_inv:
  assumes "org_inv db" and s: "start_onboarding jb f64 a db = Inr (created, st, db')"
  shows "org_inv db' \<and> keeps_closed db db'"
proof -
  obtain iv c db1 where s1: "start_session a db = (iv, c, db1)" by (cases "start_session a db")
  with s obtain db2 where "same_but_turns db1 db2" "same_but_turns db2 db'"
    by (auto simp: start_onboarding_def map_sum_Inr same_but_turns_refl
        dest: append_turn_same state_after_asking_same split: sum.splits if_splits)
  then have "same_but_turns db1 db'" by (rule same_but_turns_trans)
  with start_session_inv [OF assms(1) s1] show ?thesis
    by (blast intro: same_but_turns_inv same_but_turns_keeps keeps_closed_trans)
qed

lemma finish_if_done_inv:
  assumes jb: "jsonb_keeps jb" and inv: "org_inv db" and iv: "og_sessions db = [iv]"
    and f: "finish_if_done jb a clk iv db = Inr (iv', db')"
  shows "org_inv db' \<and> keeps_closed db db'"
proof -
  have "db' = db \<or> (\<exists>facts pid. confirm_onboarding jb a clk (iv_id iv) facts db = Inr (pid, db'))"
    using f by (auto simp: finish_if_done_def Let_def split: if_splits sum.splits)
  then show ?thesis
    using inv same_interview_refl(2) confirm_onboarding_inv [OF jb inv iv] by blast
qed

lemma believe_answer_inv:
  assumes jb: "jsonb_keeps jb" and inv: "org_inv db" and b: "believe_answer jb a at key value db = Inr db'"
  shows "org_inv db' \<and> keeps_closed db db' \<and> same_interview db db'"
proof (cases "value")
  case None
  with b inv show ?thesis by (simp add: believe_answer_def same_interview_refl)
next
  case (Some v)
  with b obtain f c where "correct_fact jb a at key (Decoded v) ''onboarding'' [] db = Inr (f, c, db')"
    by (auto simp: believe_answer_def map_sum_Inr)
  from correct_fact_inv [OF jb inv this] show ?thesis by blast
qed

lemma record_answer_inv:
  assumes jb: "jsonb_keeps jb" and inv: "org_inv db" and iv: "og_sessions db = [iv]"
    and r: "record_answer jb a at clk iv key content value db = Inr (iv', db')"
  shows "org_inv db' \<and> keeps_closed db db'"
proof -
  from r obtain db1 db2 where s: "append_turn jb a (iv_id iv) RoleUser content key value db = Inr db1"
    "believe_answer jb a at key value db1 = Inr db2" "finish_if_done jb a clk iv db2 = Inr (iv', db')"
    by (auto simp: record_answer_def split: sum.splits)
  note same = append_turn_same [OF s(1)]
  from believe_answer_inv [OF jb same_but_turns_inv [OF same inv] s(2)]
  have 2: "org_inv db2" "keeps_closed db1 db2" "og_sessions db2 = [iv]"
    using same iv by (auto simp: same_but_turns_def same_interview_def)
  from finish_if_done_inv [OF jb 2(1,3) s(3)] 2(2) same_but_turns_keeps [OF same]
  show ?thesis by (blast intro: keeps_closed_trans)
qed

lemma answer_questionD:
  assumes "answer_question jb uni f64 a at clk key skip content db = Inr (st, db')"
  obtains k iv val iv' db1 where "key = Some k" "question_for k \<noteq> None" "onboarding_session db = Some iv"
    "iv_status iv \<noteq> StatusCompleted" "skip \<and> val = None \<or> \<not> skip \<and> (\<exists>v. val = Some v \<and> parse_answer uni k content = Inr v)"
    "record_answer jb a at clk iv k (if skip then SkippedContent else content) val db = Inr (iv', db1)"
    "state_after_asking jb f64 a iv' db1 = Inr (st, db')"
  using assms
  by (auto simp: answer_question_def map_sum_Inr split: option.splits if_splits sum.splits)

lemma onboarding_session_single: "org_inv db \<Longrightarrow> onboarding_session db = Some iv \<Longrightarrow> og_sessions db = [iv]"
  using org_invD(2) [of db] by (auto simp: onboarding_session_def not_begun_def under_way_def finished_def)

lemma answer_question_inv:
  assumes jb: "jsonb_keeps jb" and inv: "org_inv db"
    and r: "answer_question jb uni f64 a at clk key skip content db = Inr (st, db')"
  shows "org_inv db' \<and> keeps_closed db db'"
  using r
proof (rule answer_questionD)
  fix k iv val iv' db1
  assume "onboarding_session db = Some iv"
    and rec: "record_answer jb a at clk iv k (if skip then SkippedContent else content) val db = Inr (iv', db1)"
    and st: "state_after_asking jb f64 a iv' db1 = Inr (st, db')"
  from record_answer_inv [OF jb inv onboarding_session_single [OF inv this(1)] rec]
    state_after_asking_same [OF st]
  show ?thesis by (blast intro: same_but_turns_inv same_but_turns_keeps keeps_closed_trans)
qed

lemma confirm_profileD:
  assumes "confirm_profile jb f64 a clk db = Inr (pid, st, db')"
  obtains iv where "onboarding_session db = Some iv"
    "confirm_onboarding jb a clk (iv_id iv) (facts_from (answers_from (transcript (iv_id iv) db))) db = Inr (pid, db')"
  using assms by (auto simp: confirm_profile_def Let_def split: option.splits if_splits sum.splits)

lemma confirm_profile_inv:
  assumes jb: "jsonb_keeps jb" and inv: "org_inv db" and r: "confirm_profile jb f64 a clk db = Inr (pid, st, db')"
  shows "org_inv db' \<and> keeps_closed db db'"
  using r
proof (rule confirm_profileD)
  fix iv assume "onboarding_session db = Some iv"
    and "confirm_onboarding jb a clk (iv_id iv) (facts_from (answers_from (transcript (iv_id iv) db))) db = Inr (pid, db')"
  from confirm_onboarding_inv [OF jb inv onboarding_session_single [OF inv this(1)] this(2)]
  show ?thesis by blast
qed

lemma correct_callD:
  assumes "correct_call jb f64 a at key w note db = Inr (f, changed, db')"
  obtains k j where "key = Some k" "value_to_json w = Some j"
    "correct_fact jb a at k (Decoded j) ''human'' note db = Inr (f, changed, db')"
  using assms by (auto simp: correct_call_def split: option.splits sum.splits if_splits)

lemma settle_trigger_inv:
  assumes inv: "org_inv db" and s: "settle_trigger n failed db = (hit, db')"
  shows "org_inv db' \<and> keeps_closed db db'"
proof -
  have f: "og_facts db' = og_facts db" "og_sessions db' = og_sessions db" "og_profiles db' = og_profiles db"
    "og_ids db' = og_ids db" "length (og_triggers db') = length (og_triggers db)"
    using s by (auto simp: settle_trigger_def Let_def)
  have "not_begun db \<Longrightarrow> not_begun db'" "under_way db \<Longrightarrow> under_way db'" "finished db \<Longrightarrow> finished db'"
    using f mirrored_cong [OF f(1)]
    by (auto simp: not_begun_def under_way_def finished_def length_Suc_conv)
  with inv facts_inv_cong [of db' db] f show ?thesis
    by (auto simp: org_inv_def keeps_closed_def)
qed

lemma org_step_inv:
  assumes jb: "jsonb_keeps jb" and "org_step jb uni f64 db db'" and inv: "org_inv db"
  shows "org_inv db' \<and> keeps_closed db db'"
  using assms(2)
proof cases
  case start
  from start_onboarding_inv [OF inv this] show ?thesis .
next
  case answer
  from answer_question_inv [OF jb inv this] show ?thesis .
next
  case confirm
  from confirm_profile_inv [OF jb inv this] show ?thesis .
next
  case correct
  from correct show ?thesis by (rule correct_callD) (use correct_fact_inv [OF jb inv] in blast)
next
  case settle
  from settle_trigger_inv [OF inv this] show ?thesis .
qed

section \<open>The questions a transcript is about\<close>

definition turns_ok :: "org_db \<Rightarrow> bool" where
  "turns_ok db \<longleftrightarrow> (\<forall>r \<in> set (og_turns db). tn_key (tw_turn r) = [] \<or> question_for (tn_key (tw_turn r)) \<noteq> None)"

lemma turns_ok_same: "og_turns db' = og_turns db \<Longrightarrow> turns_ok db \<Longrightarrow> turns_ok db'"
  by (simp add: turns_ok_def)

lemma append_turn_ok:
  "append_turn jb a sid role content key value db = Inr db' \<Longrightarrow> key = [] \<or> question_for key \<noteq> None \<Longrightarrow>
     turns_ok db \<Longrightarrow> turns_ok db'"
  by (auto simp: append_turn_def Let_def turns_ok_def split: option.splits)

lemma ask_next_ok: "ask_next jb a iv db = Inr db' \<Longrightarrow> turns_ok db \<Longrightarrow> turns_ok db'"
  by (auto simp: ask_next_def Let_def map_sum_Inr question_for_mem dest: next_question_SomeD
      elim!: append_turn_ok split: option.splits if_splits)

lemma state_after_asking_ok: "state_after_asking jb f64 a iv db = Inr (st, db') \<Longrightarrow> turns_ok db \<Longrightarrow> turns_ok db'"
  by (auto simp: state_after_asking_def intro: ask_next_ok split: sum.splits)

lemma correct_fact_turns: "correct_fact jb a at key raw source note db = Inr (f, c, db') \<Longrightarrow> og_turns db' = og_turns db"
  by (auto simp: correct_fact_def record_fact_def insert_fact_def close_fact_def Let_def
      dest!: refresh_projection_frame(3) split: option.splits sum.splits if_splits)

lemma confirm_onboarding_turns:
  assumes "confirm_onboarding jb a clk sid facts db = Inr (pid, db')"
  shows "og_turns db' = og_turns db"
  using assms
proof (rule confirm_onboardingD)
  fix db1 db2 iv
  assume c: "confirm_facts jb a clk facts db = Inr db1" and w: "write_projection a sid db1 = Inr (pid, db2)"
    and e: "db' = (if iv_status iv \<noteq> StatusCompleted
      then enqueue_trigger ReasonOnboardingConfirmed (complete_session a sid db2) else complete_session a sid db2)"
  have "og_turns db1 = og_turns db"
    using c unfolding confirm_facts_def
    by (rule fold_res_inv [where P = "\<lambda>d. og_turns d = og_turns db"])
      (auto elim!: confirm_factD dest!: correct_fact_turns)
  moreover have "og_turns db2 = og_turns db1"
    using w by (auto simp: write_projection_def save_profile_def split: sum.splits option.splits)
  ultimately show ?thesis using e by (simp add: enqueue_trigger_def complete_session_def)
qed

lemma record_answer_ok:
  assumes "record_answer jb a at clk iv key content value db = Inr (iv', db')" and "question_for key \<noteq> None"
    and "turns_ok db"
  shows "turns_ok db'"
proof -
  from assms(1) obtain db1 db2 where s: "append_turn jb a (iv_id iv) RoleUser content key value db = Inr db1"
    "believe_answer jb a at key value db1 = Inr db2" "finish_if_done jb a clk iv db2 = Inr (iv', db')"
    by (auto simp: record_answer_def split: sum.splits)
  have "turns_ok db1" by (rule append_turn_ok [OF s(1)]) (use assms in auto)
  moreover have "og_turns db2 = og_turns db1"
    using s(2) by (auto simp: believe_answer_def map_sum_Inr dest: correct_fact_turns split: option.splits)
  moreover have "og_turns db' = og_turns db2"
    using s(3) by (auto simp: finish_if_done_def Let_def dest: confirm_onboarding_turns split: if_splits sum.splits)
  ultimately show ?thesis by (auto intro: turns_ok_same)
qed

lemma start_onboarding_ok:
  assumes "start_onboarding jb f64 a db = Inr (created, st, db')" and "turns_ok db"
  shows "turns_ok db'"
proof -
  obtain iv c db1 where s1: "start_session a db = (iv, c, db1)" by (cases "start_session a db")
  then have "og_turns db1 = og_turns db"
    by (auto simp: start_session_def Let_def split: option.splits if_splits)
  with assms(2) have "turns_ok db1" by (simp add: turns_ok_def)
  with assms(1) s1 show ?thesis
    by (auto simp: start_onboarding_def map_sum_Inr elim!: state_after_asking_ok append_turn_ok
        split: sum.splits if_splits)
qed

lemma org_step_turns:
  assumes "org_step jb uni f64 db db'" and ok: "turns_ok db"
  shows "turns_ok db'"
  using assms(1)
proof cases
  case start
  from start_onboarding_ok [OF this ok] show ?thesis .
next
  case answer
  from answer show ?thesis
    by (rule answer_questionD) (use ok in \<open>blast intro: state_after_asking_ok record_answer_ok\<close>)
next
  case confirm
  from confirm show ?thesis
    by (rule confirm_profileD) (use ok in \<open>blast dest: confirm_onboarding_turns intro: turns_ok_same\<close>)
next
  case correct
  from correct show ?thesis
    by (rule correct_callD) (use ok in \<open>blast dest: correct_fact_turns intro: turns_ok_same\<close>)
next
  case settle
  then show ?thesis using ok by (auto simp: settle_trigger_def Let_def turns_ok_def)
qed

text \<open>The two together, in every state the services reach.\<close>

definition memory_inv :: "org_db \<Rightarrow> bool" where
  "memory_inv db \<longleftrightarrow> org_inv db \<and> turns_ok db"

definition checked_step ::
  "(json \<Rightarrow> json option) \<Rightarrow> (string \<Rightarrow> string) \<Rightarrow> (string \<Rightarrow> int) \<Rightarrow> org_db \<Rightarrow> org_db \<Rightarrow> bool" where
  "checked_step jb uni f64 db db' \<longleftrightarrow> jsonb_keeps jb \<and> org_step jb uni f64 db db'"

interpretation memory: transition_invariant org_init "checked_step jb uni f64" memory_inv for jb uni f64
proof
  fix db assume "org_init db"
  then show "memory_inv db" using org_inv_init [of db] by (simp add: memory_inv_def turns_ok_def org_init_def)
next
  fix db db' assume "memory_inv db" and "checked_step jb uni f64 db db'"
  then show "memory_inv db'"
    using org_step_inv [of jb uni f64 db db'] org_step_turns [of jb uni f64 db db']
    by (simp add: memory_inv_def checked_step_def)
qed

definition memory_reachable ::
  "(json \<Rightarrow> json option) \<Rightarrow> (string \<Rightarrow> string) \<Rightarrow> (string \<Rightarrow> int) \<Rightarrow> org_db \<Rightarrow> bool" where
  "memory_reachable jb uni f64 db \<longleftrightarrow> (\<exists>db0. org_init db0 \<and> (org_step jb uni f64)\<^sup>*\<^sup>* db0 db)"

lemma checked_steps: "jsonb_keeps jb \<Longrightarrow> checked_step jb uni f64 = org_step jb uni f64"
  by (intro ext) (simp add: checked_step_def)

lemma memory_reachable_inv: "jsonb_keeps jb \<Longrightarrow> memory_reachable jb uni f64 db \<Longrightarrow> memory_inv db"
  unfolding memory_reachable_def using memory.inv_reachable [of _ jb uni f64 db] by (auto simp: checked_steps)

lemma memory_reachable_step:
  "memory_reachable jb uni f64 db \<Longrightarrow> org_step jb uni f64 db db' \<Longrightarrow> memory_reachable jb uni f64 db'"
  unfolding memory_reachable_def by (blast intro: rtranclp.rtrancl_into_rtrancl)

end
