(* ===== verification/Memory_Claims.thy ===== *)
theory Memory_Claims
  imports Memory_Life
begin

text \<open>
  What an organisation's memory promises, and the two ways the interview breaks it: the
  properties of the memory and onboarding services, with runs of them as witnesses.
\<close>

section \<open>Values after a confirmation\<close>

lemma open_values_unique:
  "facts_inv db \<Longrightarrow> (k, v) \<in> set (open_fact_values db) \<Longrightarrow> (k, w) \<in> set (open_fact_values db) \<Longrightarrow> v = w"
  by (simp add: open_values_mem)

lemma correct_fact_values:
  assumes jb: "jsonb_keeps jb" and inv: "facts_inv db"
    and c: "correct_fact jb a at key raw source note db = Inr (f, changed, db')"
  shows "(k, w) \<in> set (open_fact_values db')
    \<longleftrightarrow> (if k = key then jsonb jb raw = Some w else (k, w) \<in> set (open_fact_values db))"
  using inv c
proof (cases rule: correct_factD)
  case (same v)
  then show ?thesis using open_values_unique [OF inv] by auto
next
  case (new v)
  let ?g = "new_fact a at key v source note"
  have "open_fact_values db' = open_fact_values (supersede ?g db)"
    by (rule open_values_cong) (rule refresh_projection_frame(1) [OF new(3)])
  moreover have "(k, w) \<in> set (open_fact_values (supersede ?g db))
      \<longleftrightarrow> (if k = key then w = v else (k, w) \<in> set (open_fact_values db))"
    using open_values_supersede [OF inv, of ?g k w] new validated [OF jb new(2,1)] by simp
  ultimately show ?thesis using new(1) by auto
qed

lemma confirm_loop_values:
  assumes jb: "jsonb_keeps jb" and "fold_res (confirm_fact jb a clk) facts db = Inr db'"
    and "distinct (map fst facts)" and "org_inv db"
  shows "(k, w) \<in> set (open_fact_values db')
    \<longleftrightarrow> (case map_of facts k of Some v \<Rightarrow> jb v = Some w | None \<Rightarrow> (k, w) \<in> set (open_fact_values db))"
  using assms(2-)
proof (induction facts arbitrary: db)
  case (Cons x facts)
  obtain key v where x: "x = (key, v)" by fastforce
  from Cons.prems(1) obtain db1
    where c1: "confirm_fact jb a clk x db = Inr db1" and rest: "fold_res (confirm_fact jb a clk) facts db1 = Inr db'"
    by (auto split: sum.splits)
  from c1 x obtain f c where c: "correct_fact jb a (clk key) key (Decoded v) ''onboarding'' [] db = Inr (f, c, db1)"
    by (auto elim: confirm_factD)
  note inv1 = correct_fact_inv(1) [OF jb Cons.prems(3) c]
  have ih: "(k, w) \<in> set (open_fact_values db')
      \<longleftrightarrow> (case map_of facts k of Some v \<Rightarrow> jb v = Some w | None \<Rightarrow> (k, w) \<in> set (open_fact_values db1))"
    by (rule Cons.IH [OF rest _ inv1]) (use Cons.prems(2) in simp)
  have one: "(k, w) \<in> set (open_fact_values db1)
      \<longleftrightarrow> (if k = key then jb v = Some w else (k, w) \<in> set (open_fact_values db))"
    using correct_fact_values [OF jb org_invD(1) [OF Cons.prems(3)] c, of k w] by (simp add: jsonb_def)
  have "map_of facts key = None" using Cons.prems(2) x by (simp add: map_of_eq_None_iff)
  then show ?case unfolding ih one x by (auto split: option.splits)
qed simp

lemma ordered_facts_map_of:
  assumes "distinct (map fst facts)"
  shows "distinct (map fst (ordered_facts facts))" and "map_of (ordered_facts facts) = map_of facts"
proof -
  let ?s = "filter (\<lambda>k. map_of facts k \<noteq> None) (map qn_key script)"
  let ?ks = "?s @ sort (filter (\<lambda>k. k \<notin> set ?s) (map fst facts))"
  have eq: "ordered_facts facts = map (\<lambda>k. (k, the (map_of facts k))) ?ks"
    by (simp add: ordered_facts_def Let_def)
  have d: "distinct ?ks" using assms script_distinct by auto
  have "map fst (ordered_facts facts) = ?ks" unfolding eq by (simp add: comp_def)
  then show "distinct (map fst (ordered_facts facts))" using d by simp
  have keys: "k \<in> set ?ks \<longleftrightarrow> map_of facts k \<noteq> None" for k
    by (auto simp: map_of_eq_None_iff)
  have "map_of (map (\<lambda>k. (k, the (map_of facts k))) ks) k = map_of facts k"
    if "k \<in> set ks \<longleftrightarrow> map_of facts k \<noteq> None" for ks k
    using that by (induction ks) (auto simp: map_of_map_restrict restrict_map_def)
  then show "map_of (ordered_facts facts) = map_of facts" unfolding eq using keys by blast
qed

lemma answers_loop_distinct: "distinct (map fst acc) \<Longrightarrow> distinct (map fst (answers_loop ts acc))"
  by (induction ts arbitrary: acc) (simp_all add: distinct_update)

lemma facts_from_keys: "set (map fst (facts_from xs)) \<subseteq> set (map fst xs)"
proof (induction xs)
  case (Cons x xs)
  then show ?case by (cases x; cases "an_value (snd x)") auto
qed simp

lemma facts_from_distinct: "distinct (map fst xs) \<Longrightarrow> distinct (map fst (facts_from xs))"
proof (induction xs)
  case (Cons x xs)
  then have "fst x \<notin> set (map fst (facts_from xs))" using facts_from_keys [of xs] by auto
  with Cons show ?case by (cases x; cases "an_value (snd x)") (auto simp del: set_map)
qed simp

lemma transcript_facts_distinct: "distinct (map fst (facts_from (answers_from ts)))"
  unfolding answers_from_def by (intro facts_from_distinct answers_loop_distinct) simp

lemma confirm_onboarding_values:
  assumes jb: "jsonb_keeps jb" and inv: "org_inv db" and d: "distinct (map fst facts)"
    and c: "confirm_onboarding jb a clk sid facts db = Inr (pid, db')"
  shows "(k, w) \<in> set (open_fact_values db')
    \<longleftrightarrow> (case map_of facts k of Some v \<Rightarrow> jb v = Some w | None \<Rightarrow> (k, w) \<in> set (open_fact_values db))"
  using c
proof (rule confirm_onboardingD)
  fix db1 db2 iv
  assume c1: "confirm_facts jb a clk facts db = Inr db1" and w: "write_projection a sid db1 = Inr (pid, db2)"
    and e: "db' = (if iv_status iv \<noteq> StatusCompleted
      then enqueue_trigger ReasonOnboardingConfirmed (complete_session a sid db2) else complete_session a sid db2)"
  have "og_facts db' = og_facts db1"
    using w e by (auto simp: write_projection_def save_profile_def enqueue_trigger_def complete_session_def
        split: sum.splits option.splits)
  then have "open_fact_values db' = open_fact_values db1" by (rule open_values_cong)
  with confirm_loop_values [OF jb c1 [unfolded confirm_facts_def] ordered_facts_map_of(1) [OF d] inv]
  show ?thesis by (simp add: ordered_facts_map_of(2) [OF d])
qed

section \<open>A run\<close>

definition f64_0 :: "string \<Rightarrow> int" where "f64_0 s = 0"

definition eve :: "instant \<Rightarrow> asker" where "eve t = \<lparr>ak_user = ''eve'', ak_now = t\<rparr>"

definition mem_empty :: org_db where
  "mem_empty = \<lparr>og_facts = [], og_profiles = [], og_sessions = [], og_turns = [], og_triggers = [], og_ids = 0\<rparr>"

definition mem_started :: "org_db \<Rightarrow> org_db" where
  "mem_started db = snd (snd (projr (start_onboarding Some f64_0 (eve 1) db)))"

definition mem_answered :: "string \<Rightarrow> string \<Rightarrow> org_db \<Rightarrow> org_db" where
  "mem_answered key s db =
     snd (projr (answer_question Some id f64_0 (eve 2) 2 (\<lambda>_. 2) (Some key) False s db))"

definition mem_corrected :: "string \<Rightarrow> wire_value \<Rightarrow> org_db \<Rightarrow> org_db" where
  "mem_corrected key w db = snd (snd (projr (correct_call Some f64_0 (eve 3) 3 (Some key) w [] db)))"

definition mem_confirmed :: "org_db \<Rightarrow> org_db" where
  "mem_confirmed db = snd (snd (projr (confirm_profile Some f64_0 (eve 4) (\<lambda>_. 4) db)))"

definition mem_one :: org_db where
  "mem_one = mem_answered ''data_categories'' ''health'' (mem_started mem_empty)"

definition mem_two :: org_db where
  "mem_two = mem_corrected ''data_categories'' (WireList [''payment'']) mem_one"

lemma jsonb_keeps_Some: "jsonb_keeps Some"
  by (simp add: jsonb_keeps_def)

lemma mem_reach_started:
  "memory_reachable Some id f64_0 db \<Longrightarrow> \<not> isl (start_onboarding Some f64_0 (eve 1) db) \<Longrightarrow>
     memory_reachable Some id f64_0 (mem_started db)"
  by (erule memory_reachable_step, rule org_step.start [where a = "eve 1"
        and created = "fst (projr (start_onboarding Some f64_0 (eve 1) db))"
        and st = "fst (snd (projr (start_onboarding Some f64_0 (eve 1) db)))"])
    (auto simp: mem_started_def split: sum.splits)

lemma mem_reach_answered:
  "memory_reachable Some id f64_0 db \<Longrightarrow>
     \<not> isl (answer_question Some id f64_0 (eve 2) 2 (\<lambda>_. 2) (Some key) False s db) \<Longrightarrow>
     memory_reachable Some id f64_0 (mem_answered key s db)"
  by (erule memory_reachable_step, rule org_step.answer [where a = "eve 2" and at = 2 and clk = "\<lambda>_. 2"
        and key = "Some key" and skip = False and content = s
        and st = "fst (projr (answer_question Some id f64_0 (eve 2) 2 (\<lambda>_. 2) (Some key) False s db))"])
    (auto simp: mem_answered_def split: sum.splits)

lemma mem_reach_corrected:
  "memory_reachable Some id f64_0 db \<Longrightarrow>
     \<not> isl (correct_call Some f64_0 (eve 3) 3 (Some key) w [] db) \<Longrightarrow>
     memory_reachable Some id f64_0 (mem_corrected key w db)"
  by (erule memory_reachable_step, rule org_step.correct [where a = "eve 3" and at = 3
        and key = "Some key" and w = w and why = "[]"
        and f = "fst (projr (correct_call Some f64_0 (eve 3) 3 (Some key) w [] db))"
        and changed = "fst (snd (projr (correct_call Some f64_0 (eve 3) 3 (Some key) w [] db)))"])
    (auto simp: mem_corrected_def split: sum.splits)

lemma mem_reach_confirmed:
  "memory_reachable Some id f64_0 db \<Longrightarrow> \<not> isl (confirm_profile Some f64_0 (eve 4) (\<lambda>_. 4) db) \<Longrightarrow>
     memory_reachable Some id f64_0 (mem_confirmed db)"
  by (erule memory_reachable_step, rule org_step.confirm [where a = "eve 4" and clk = "\<lambda>_. 4"
        and pid = "fst (projr (confirm_profile Some f64_0 (eve 4) (\<lambda>_. 4) db))"
        and st = "fst (snd (projr (confirm_profile Some f64_0 (eve 4) (\<lambda>_. 4) db)))"])
    (auto simp: mem_confirmed_def split: sum.splits)

lemma mem_reach_empty: "memory_reachable Some id f64_0 mem_empty"
proof -
  have "org_init mem_empty" by (simp add: mem_empty_def org_init_def)
  then show ?thesis unfolding memory_reachable_def by blast
qed

lemma mem_reach_one: "memory_reachable Some id f64_0 mem_one"
  unfolding mem_one_def by (intro mem_reach_answered mem_reach_started mem_reach_empty) (code_simp, code_simp)

lemma mem_reach_two: "memory_reachable Some id f64_0 mem_two"
  unfolding mem_two_def by (intro mem_reach_corrected mem_reach_one) code_simp

lemma mem_two_confirmed: "\<not> isl (confirm_profile Some f64_0 (eve 4) (\<lambda>_. 4) mem_two)"
  by code_simp

section \<open>Claims\<close>

text \<open>
  C16: At every instant from its first value on an organisation believes exactly one value of a
  fact, and none before: the intervals of a key's rows neither overlap nor leave a gap.
\<close>

theorem one_belief_at_a_time:
  assumes "jsonb_keeps jb" and "memory_reachable jb uni f64 db"
  shows "length (filter (\<lambda>r. holds_at t (fw_fact r)) (rows_of key db))
    = (if \<exists>r \<in> set (rows_of key db). valid_from (fw_fact r) \<le> t then 1 else 0)"
proof -
  have "facts_inv db"
    using memory_reachable_inv [OF assms] org_invD(1) by (simp add: memory_inv_def)
  from chained_one [OF facts_invD(3) [OF this], of t key] show ?thesis by (simp add: filter_map comp_def)
qed

theorem one_belief_at_a_time_witness:
  "length (filter (\<lambda>r. holds_at 2 (fw_fact r)) (rows_of ''data_categories'' mem_two)) = 1
   \<and> length (rows_of ''data_categories'' mem_two) = 2"
proof
  have "\<exists>r \<in> set (rows_of ''data_categories'' mem_two). valid_from (fw_fact r) \<le> 2" by code_simp
  with one_belief_at_a_time [OF jsonb_keeps_Some mem_reach_two, of 2 "''data_categories''"]
  show "length (filter (\<lambda>r. holds_at 2 (fw_fact r)) (rows_of ''data_categories'' mem_two)) = 1" by simp
  show "length (rows_of ''data_categories'' mem_two) = 2" by code_simp
qed

text \<open>
  C10: What was believed is never rewritten: if the belief about a key at some instant is a row
  that has been superseded, then after any further sequence of calls to the services the belief
  about that key at that instant is still that very row and no other.
\<close>

theorem past_beliefs_stand:
  assumes jb: "jsonb_keeps jb" and reach: "memory_reachable jb uni f64 db"
    and steps: "(org_step jb uni f64)\<^sup>*\<^sup>* db db'"
    and r: "r \<in> set (rows_of key db)" "holds_at t (fw_fact r)" "valid_to (fw_fact r) \<noteq> None"
  shows "filter (\<lambda>r. holds_at t (fw_fact r)) (rows_of key db') = [r]"
proof -
  have reach': "memory_reachable jb uni f64 db'" using reach steps
    unfolding memory_reachable_def by (blast intro: rtranclp_trans)
  have "keeps_closed db db'"
    using steps
  proof (induction rule: rtranclp_induct)
    case (step x y)
    have "memory_reachable jb uni f64 x" using reach step(1)
      unfolding memory_reachable_def by (blast intro: rtranclp_trans)
    then have "org_inv x" using memory_reachable_inv [OF jb] by (simp add: memory_inv_def)
    with org_step_inv [OF jb step(2)] step(3) show ?case by (blast intro: keeps_closed_trans)
  qed (rule same_interview_refl)
  then have mem: "r \<in> set (rows_of key db')" using r by (auto simp: keeps_closed_def rows_of_def)
  have "facts_inv db'"
    using memory_reachable_inv [OF jb reach'] org_invD(1) by (simp add: memory_inv_def)
  from chained_one [OF facts_invD(3) [OF this], of t key]
  have "length (filter (\<lambda>r. holds_at t (fw_fact r)) (rows_of key db')) \<le> 1"
    by (simp add: filter_map comp_def split: if_splits)
  moreover have "r \<in> set (filter (\<lambda>r. holds_at t (fw_fact r)) (rows_of key db'))" using mem r by simp
  ultimately show ?thesis
    by (cases "filter (\<lambda>r. holds_at t (fw_fact r)) (rows_of key db')") auto
qed

theorem past_beliefs_stand_witness:
  "filter (\<lambda>r. holds_at 2 (fw_fact r)) (rows_of ''data_categories'' (mem_confirmed mem_two))
     = [hd (rows_of ''data_categories'' mem_two)]"
proof -
  have "org_step Some id f64_0 mem_two (mem_confirmed mem_two)"
    by (rule org_step.confirm [where a = "eve 4" and clk = "\<lambda>_. 4"
        and pid = "fst (projr (confirm_profile Some f64_0 (eve 4) (\<lambda>_. 4) mem_two))"
        and st = "fst (snd (projr (confirm_profile Some f64_0 (eve 4) (\<lambda>_. 4) mem_two)))"])
      (use mem_two_confirmed in \<open>auto simp: mem_confirmed_def split: sum.splits\<close>)
  then have steps: "(org_step Some id f64_0)\<^sup>*\<^sup>* mem_two (mem_confirmed mem_two)" by blast
  have "rows_of ''data_categories'' mem_two \<noteq> []" by code_simp
  then have mem: "hd (rows_of ''data_categories'' mem_two) \<in> set (rows_of ''data_categories'' mem_two)" by simp
  have holds: "holds_at 2 (fw_fact (hd (rows_of ''data_categories'' mem_two)))" by code_simp
  have closed: "valid_to (fw_fact (hd (rows_of ''data_categories'' mem_two))) \<noteq> None" by code_simp
  show ?thesis by (rule past_beliefs_stand [OF jsonb_keeps_Some mem_reach_two steps mem holds closed])
qed

text \<open>
  C7: The profile the Watcher reads and the facts a customer sees never disagree, and the first
  sweep is asked for exactly once: there is a profile row exactly when the interview is
  finished, its columns are then the projection of the facts believed now, however they
  were corrected since, and one sweep trigger has been written.
\<close>

theorem profile_mirrors_the_facts:
  assumes "jsonb_keeps jb" and "memory_reachable jb uni f64 db"
  shows "if \<exists>iv \<in> set (og_sessions db). iv_status iv = StatusCompleted
    then \<exists>p. og_profiles db = [p] \<and> project (open_fact_values db) = Inr (pw_columns p) \<and> length (og_triggers db) = 1
    else og_profiles db = [] \<and> og_triggers db = []"
proof -
  have "not_begun db \<or> under_way db \<or> finished db"
    using memory_reachable_inv [OF assms] org_invD(2) by (simp add: memory_inv_def)
  then show ?thesis by (auto simp: not_begun_def under_way_def finished_def mirrored_def)
qed

theorem profile_mirrors_the_facts_witness:
  "\<exists>p. og_profiles (mem_confirmed mem_two) = [p]
     \<and> project (open_fact_values (mem_confirmed mem_two)) = Inr (pw_columns p)
     \<and> length (og_triggers (mem_confirmed mem_two)) = 1"
proof -
  have "\<exists>iv \<in> set (og_sessions (mem_confirmed mem_two)). iv_status iv = StatusCompleted" by code_simp
  with profile_mirrors_the_facts [OF jsonb_keeps_Some mem_reach_confirmed [OF mem_reach_two mem_two_confirmed]]
  show ?thesis by simp
qed

text \<open>
  C36: Finishing the interview overwrites what a person corrected meanwhile: whatever is believed
  when the profile is confirmed, a correction made after the question was answered included,
  each fact that the interview answered is afterwards believed with the interview's value.
\<close>

theorem confirmation_overwrites_corrections:
  assumes jb: "jsonb_keeps jb" and reach: "memory_reachable jb uni f64 db"
    and conf: "confirm_profile jb f64 a clk db = Inr (pid, st, db')"
    and session: "onboarding_session db = Some iv"
    and said: "(key, v) \<in> set (facts_from (answers_from (transcript (iv_id iv) db)))" and w: "jb v = Some w"
  shows "(key, w) \<in> set (open_fact_values db')"
proof -
  let ?facts = "facts_from (answers_from (transcript (iv_id iv) db))"
  have inv: "org_inv db" using memory_reachable_inv [OF jb reach] by (simp add: memory_inv_def)
  from conf session have "confirm_onboarding jb a clk (iv_id iv) ?facts db = Inr (pid, db')"
    by (auto elim: confirm_profileD)
  from confirm_onboarding_values [OF jb inv transcript_facts_distinct this, of key w]
  show ?thesis using map_of_is_SomeI [OF transcript_facts_distinct said] w by simp
qed

theorem confirmation_overwrites_corrections_witness:
  "(''data_categories'', texts [''payment'']) \<in> set (open_fact_values mem_two)
   \<and> (''data_categories'', texts [''health'']) \<in> set (open_fact_values (mem_confirmed mem_two))"
proof
  show "(''data_categories'', texts [''payment'']) \<in> set (open_fact_values mem_two)" by code_simp
  have c: "confirm_profile Some f64_0 (eve 4) (\<lambda>_. 4) mem_two
      = Inr (fst (projr (confirm_profile Some f64_0 (eve 4) (\<lambda>_. 4) mem_two)),
          fst (snd (projr (confirm_profile Some f64_0 (eve 4) (\<lambda>_. 4) mem_two))), mem_confirmed mem_two)"
    using mem_two_confirmed by (auto simp: mem_confirmed_def split: sum.splits)
  have "onboarding_session mem_two \<noteq> None" by code_simp
  then have iv: "onboarding_session mem_two = Some (the (onboarding_session mem_two))" by simp
  have "(''data_categories'', texts [''health''])
      \<in> set (facts_from (answers_from (transcript (iv_id (the (onboarding_session mem_two))) mem_two)))"
    by code_simp
  from confirmation_overwrites_corrections [OF jsonb_keeps_Some mem_reach_two c iv this refl]
  show "(''data_categories'', texts [''health'']) \<in> set (open_fact_values (mem_confirmed mem_two))" .
qed

section \<open>A value the projection cannot take\<close>

lemma answers_loop_keys:
  "fst ` set (answers_loop ts acc) \<subseteq> fst ` set acc \<union> {k. k \<noteq> [] \<and> k \<in> tn_key ` set ts}"
proof (induction ts arbitrary: acc)
  case (Cons t ts)
  define acc' where "acc' = (if tn_role t \<noteq> RoleUser \<or> tn_key t = [] then acc
      else AList.update (tn_key t)
        \<lparr>an_text = tn_content t, an_value = tn_value t, an_skipped = turn_skipped t\<rparr> acc)"
  have "fst ` set acc' \<subseteq> fst ` set acc \<union> {k. k \<noteq> [] \<and> k = tn_key t}"
    by (auto simp: acc'_def dom_update)
  moreover have "answers_loop (t # ts) acc = answers_loop ts acc'" by (simp add: acc'_def)
  moreover have union: "A \<subseteq> B \<union> C \<Longrightarrow> C \<union> D \<subseteq> E \<Longrightarrow> A \<union> D \<subseteq> B \<union> E" for A B C D E :: "string set"
    by blast
  ultimately show ?case
    by (simp only:) (rule subset_trans [OF Cons.IH], erule union, auto)
qed simp

lemma transcript_facts_scripted:
  assumes "turns_ok db" and "question_for key = None"
  shows "map_of (facts_from (answers_from (transcript sid db))) key = None"
proof -
  have "key \<notin> fst ` set (answers_from (transcript sid db))"
  proof
    assume "key \<in> fst ` set (answers_from (transcript sid db))"
    with answers_loop_keys [of "transcript sid db" "[]"] have "key \<noteq> []" "key \<in> tn_key ` set (transcript sid db)"
      by (auto simp: answers_from_def)
    with assms show False by (auto simp: transcript_def turns_ok_def)
  qed
  with facts_from_keys [of "answers_from (transcript sid db)"] show ?thesis
    by (auto simp: map_of_eq_None_iff)
qed

lemma staff_not_asked: "question_for ''staff_count'' = None"
  by (simp add: question_for_def script_def find_None_iff)

lemma unprojectable:
  assumes "facts_inv db" and "(''staff_count'', n) \<in> set (open_fact_values db)" and "\<not> staff_fits n"
  shows "isl (project (open_fact_values db))"
  using assms open_values_ok [OF assms(1)] unfolding project_def
  by (subst project_facts_total) auto

lemma confirm_blocked:
  assumes jb: "jsonb_keeps jb" and inv: "org_inv db" and d: "distinct (map fst facts)"
    and bad: "(''staff_count'', n) \<in> set (open_fact_values db)" "\<not> staff_fits n"
    and other: "map_of facts ''staff_count'' = None"
  shows "confirm_onboarding jb a clk sid facts db \<noteq> Inr (pid, db')"
proof
  assume "confirm_onboarding jb a clk sid facts db = Inr (pid, db')"
  then obtain db1 db2 where c: "confirm_facts jb a clk facts db = Inr db1"
    and w: "write_projection a sid db1 = Inr (pid, db2)" by (rule confirm_onboardingD)
  have "(''staff_count'', n) \<in> set (open_fact_values db1)"
    using confirm_loop_values [OF jb c [unfolded confirm_facts_def] ordered_facts_map_of(1) [OF d] inv] bad(1) other
    by (simp add: ordered_facts_map_of(2) [OF d])
  moreover have "facts_inv db1" using confirm_facts_inv [OF jb inv c] org_invD(1) by blast
  ultimately have "isl (project (open_fact_values db1))" using bad(2) by (blast intro: unprojectable)
  with w show False by (auto simp: write_projection_def split: sum.splits)
qed

lemma correct_fact_no_profile:
  assumes "correct_fact jb a at key raw source note db = Inr (f, c, db')" and "og_profiles db = []"
  shows "og_profiles db' = []"
  using assms
  by (auto simp: correct_fact_def record_fact_def insert_fact_def close_fact_def refresh_projection_def Let_def
      split: option.splits sum.splits if_splits)

text \<open>
  A staff count beyond 32 bits, which the correction of a fact accepts before there is a
  profile, makes the interview impossible to finish: confirming fails, and no answer or
  skip, the last one included, ever produces the profile.
\<close>

theorem oversized_staff_count_blocks:
  assumes jb: "jsonb_keeps jb" and reach: "memory_reachable jb uni f64 db" and none: "og_profiles db = []"
    and bad: "(''staff_count'', n) \<in> set (open_fact_values db)" "\<not> staff_fits n"
  shows "isl (confirm_profile jb f64 a clk db)
    \<and> (\<forall>at key skip content st db'. answer_question jb uni f64 a at clk key skip content db = Inr (st, db')
         \<longrightarrow> og_profiles db' = [])"
proof (intro conjI allI impI)
  have inv: "org_inv db" "turns_ok db" using memory_reachable_inv [OF jb reach] by (simp_all add: memory_inv_def)
  note blocked = confirm_blocked [OF jb _ transcript_facts_distinct _ bad(2) transcript_facts_scripted [OF _ staff_not_asked]]
  show "isl (confirm_profile jb f64 a clk db)"
  proof (cases "confirm_profile jb f64 a clk db")
    case (Inr x)
    obtain pid st db' where "x = (pid, st, db')" by (cases x)
    with Inr have "confirm_profile jb f64 a clk db = Inr (pid, st, db')" by simp
    then show ?thesis by (rule confirm_profileD) (use blocked [OF inv(1) bad(1) inv(2)] in blast)
  qed simp
  fix at key skip content st db'
  assume "answer_question jb uni f64 a at clk key skip content db = Inr (st, db')"
  then show "og_profiles db' = []"
  proof (rule answer_questionD)
    fix k iv val iv' db1
    assume k: "question_for k \<noteq> None" and session: "onboarding_session db = Some iv"
      and rec: "record_answer jb a at clk iv k (if skip then SkippedContent else content) val db = Inr (iv', db1)"
      and st: "state_after_asking jb f64 a iv' db1 = Inr (st, db')"
    from rec obtain d1 d2
      where s: "append_turn jb a (iv_id iv) RoleUser (if skip then SkippedContent else content) k val db = Inr d1"
        "believe_answer jb a at k val d1 = Inr d2" "finish_if_done jb a clk iv d2 = Inr (iv', db1)"
      by (auto simp: record_answer_def split: sum.splits)
    note same = append_turn_same [OF s(1)]
    have d1: "org_inv d1" "turns_ok d1" "og_profiles d1 = []" "(''staff_count'', n) \<in> set (open_fact_values d1)"
      using same_but_turns_inv [OF same inv(1)] append_turn_ok [OF s(1) _ inv(2)] k same none bad(1)
        open_values_cong [of d1 db] by (auto simp: same_but_turns_def)
    have d2: "org_inv d2" "turns_ok d2" "og_profiles d2 = []" "(''staff_count'', n) \<in> set (open_fact_values d2)"
    proof -
      show "org_inv d2" "turns_ok d2"
        using believe_answer_inv [OF jb d1(1) s(2)] d1(2) by (auto simp: same_interview_def intro: turns_ok_same)
      have "d2 = d1 \<or> (\<exists>v f c. correct_fact jb a at k (Decoded v) ''onboarding'' [] d1 = Inr (f, c, d2))"
        using s(2) by (auto simp: believe_answer_def map_sum_Inr split: option.splits)
      moreover have "k \<noteq> ''staff_count''" using k staff_not_asked by auto
      ultimately show "og_profiles d2 = []" "(''staff_count'', n) \<in> set (open_fact_values d2)"
        using d1 correct_fact_no_profile correct_fact_values [OF jb org_invD(1) [OF d1(1)]] by fastforce+
    qed
    have "db1 = d2"
      using s(3) blocked [OF d2(1) d2(4) d2(2)]
      by (auto simp: finish_if_done_def Let_def split: if_splits sum.splits)
    with state_after_asking_same [OF st] d2(3) show ?thesis by (simp add: same_but_turns_def)
  qed
qed

definition oversized :: json where "oversized = JNum ''3000000000''"

lemma oversized_itoa: "value_to_json (WireNumber 3000000000) = Some oversized"
proof -
  have "char_of (51 :: nat) = CHR ''3''" "char_of (48 :: nat) = CHR ''0''" by code_simp+
  then show ?thesis by (simp add: value_to_json_def oversized_def itoa_def digits_of.simps)
qed

lemma oversized_unfit: "\<not> staff_fits oversized"
  by (simp add: staff_fits_def oversized_def parse_int_def nat_of_digits_def digit_val_def)

definition mem_counted :: org_db where
  "mem_counted = mem_empty\<lparr>og_facts := [\<lparr>fw_id = 0,
     fw_fact = new_fact (eve 3) 3 ''staff_count'' oversized ''human'' []\<rparr>], og_ids := 1\<rparr>"

lemma mem_counted_call:
  "correct_call Some f64_0 (eve 3) 3 (Some ''staff_count'') (WireNumber 3000000000) [] mem_empty
     = Inr (new_fact (eve 3) 3 ''staff_count'' oversized ''human'' [], True, mem_counted)"
proof -
  have "correct_fact Some (eve 3) 3 ''staff_count'' (Decoded oversized) ''human'' [] mem_empty
      = Inr (new_fact (eve 3) 3 ''staff_count'' oversized ''human'' [], True, mem_counted)"
    by code_simp
  moreover have "rendered f64_0 (new_fact (eve 3) 3 ''staff_count'' oversized ''human'' [])" by code_simp
  ultimately show ?thesis by (simp add: correct_call_def oversized_itoa)
qed

definition mem_oversized :: org_db where
  "mem_oversized = mem_answered ''data_categories'' ''health'' (mem_started mem_counted)"

theorem oversized_staff_count_blocks_witness:
  "isl (confirm_profile Some f64_0 (eve 4) (\<lambda>_. 4) mem_oversized)"
proof -
  have counted: "memory_reachable Some id f64_0 mem_counted"
    by (rule memory_reachable_step [OF mem_reach_empty], rule org_step.correct, rule mem_counted_call)
  have reach: "memory_reachable Some id f64_0 mem_oversized"
    unfolding mem_oversized_def by (intro mem_reach_answered mem_reach_started counted) (code_simp, code_simp)
  have none: "og_profiles mem_oversized = []" by code_simp
  have stays: "(''staff_count'', oversized) \<in> set (open_fact_values mem_oversized)" by code_simp
  from oversized_staff_count_blocks [OF jsonb_keeps_Some reach none stays oversized_unfit] show ?thesis by blast
qed

end
