(* ===== verification/Org_Service.thy ===== *)
theory Org_Service
  imports Org_Access
begin

text \<open>
  The calls about organisations and members (\<open>internal/service/org\<close>) and the call every
  signed-in page makes first (\<open>internal/service/session\<close>), over one request's transaction:
  each is a function of the tenant and the tables, and an error leaves the tables as they
  were, because the interceptor that holds the transaction rolls it back.
\<close>

section \<open>Errors and checks\<close>

datatype access_error =
    InternalError | NotOwner | NeedsName | BadRole | LastOwner | NoMember | MemberVanished
  | NoBaseURL | BadInviteEmail | CannotUseInvitation | NoMembershipLeft

definition require_owner :: "tenant \<Rightarrow> access_error option" where
  "require_owner t = (if tn_role t \<noteq> RoleOwner then Some NotOwner else None)"

definition trimmed_name :: "string \<Rightarrow> access_error + string" where
  "trimmed_name raw = (if trim_space raw = '''' then Inl NeedsName else Inr (trim_space raw))"

definition refuse_if_last_owner :: "tenant \<Rightarrow> string \<Rightarrow> string \<Rightarrow> access_db \<Rightarrow> access_error option" where
  "refuse_if_last_owner t user new_role db =
     (if would_leave_no_owner (members t db) user new_role then Some LastOwner else None)"

fun member_fault :: "store_fault \<Rightarrow> access_error" where
  "member_fault NoSuchMember = NoMember"
| "member_fault _ = InternalError"

section \<open>Organisations and members\<close>

definition create_call ::
  "pg_env \<Rightarrow> tenant \<Rightarrow> string \<Rightarrow> string \<Rightarrow> access_db \<Rightarrow> access_error + (org_membership \<times> access_db)" where
  "create_call E t oid raw db =
     (case trimmed_name raw of
        Inl e \<Rightarrow> Inl e
      | Inr name \<Rightarrow> (case create_organisation E t oid name db of
            Inl _ \<Rightarrow> Inl InternalError | Inr r \<Rightarrow> Inr r))"

definition rename_call ::
  "pg_env \<Rightarrow> tenant \<Rightarrow> string \<Rightarrow> access_db \<Rightarrow> access_error + (org_membership \<times> access_db)" where
  "rename_call E t raw db =
     (case require_owner t of
        Some e \<Rightarrow> Inl e
      | None \<Rightarrow> (case trimmed_name raw of
            Inl e \<Rightarrow> Inl e
          | Inr name \<Rightarrow> (case rename_organisation E t name db of
                Inl NoSuchMember \<Rightarrow> Inl NotOwner
              | Inl _ \<Rightarrow> Inl InternalError
              | Inr r \<Rightarrow> Inr r)))"

text \<open>
  A role change and a removal, each cut where the code reads the list it checks and where it
  writes: under read committed another transaction may commit between the two.
\<close>

definition role_check :: "tenant \<Rightarrow> string \<Rightarrow> string \<Rightarrow> access_db \<Rightarrow> access_error option" where
  "role_check t user role db =
     (case require_owner t of
        Some e \<Rightarrow> Some e
      | None \<Rightarrow> if \<not> valid_role role then Some BadRole else refuse_if_last_owner t user role db)"

definition role_write ::
  "pg_env \<Rightarrow> tenant \<Rightarrow> string \<Rightarrow> string \<Rightarrow> access_db \<Rightarrow> access_error + (member \<times> access_db)" where
  "role_write E t user role db =
     (case set_member_role E t user role db of
        Inl e \<Rightarrow> Inl (member_fault e)
      | Inr db' \<Rightarrow> (case find (\<lambda>m. mem_user m = user) (members t db') of
            None \<Rightarrow> Inl MemberVanished
          | Some m \<Rightarrow> Inr (m, db')))"

definition role_call ::
  "pg_env \<Rightarrow> tenant \<Rightarrow> string \<Rightarrow> string \<Rightarrow> access_db \<Rightarrow> access_error + (member \<times> access_db)" where
  "role_call E t user role db =
     (case role_check t user role db of Some e \<Rightarrow> Inl e | None \<Rightarrow> role_write E t user role db)"

definition remove_check :: "tenant \<Rightarrow> string \<Rightarrow> access_db \<Rightarrow> access_error option" where
  "remove_check t user db =
     (case require_owner t of Some e \<Rightarrow> Some e | None \<Rightarrow> refuse_if_last_owner t user '''' db)"

definition remove_write :: "pg_env \<Rightarrow> tenant \<Rightarrow> string \<Rightarrow> access_db \<Rightarrow> access_error + access_db" where
  "remove_write E t user db =
     (case remove_member E t user db of Inl e \<Rightarrow> Inl (member_fault e) | Inr db' \<Rightarrow> Inr db')"

definition remove_call :: "pg_env \<Rightarrow> tenant \<Rightarrow> string \<Rightarrow> access_db \<Rightarrow> access_error + access_db" where
  "remove_call E t user db =
     (case remove_check t user db of Some e \<Rightarrow> Inl e | None \<Rightarrow> remove_write E t user db)"

section \<open>Invitations\<close>

text \<open>
  \<open>newInvitationToken\<close> renders 32 random bytes, the argument; the whole call is one transaction,
  so the invitation and its message are written together or not at all.
\<close>

definition new_invitation_token :: "string \<Rightarrow> string" where
  "new_invitation_token raw = b64_encode raw"

definition invitation_days :: int where
  "invitation_days = InvitationLifetime div hour div 24"

definition invite_call ::
  "pg_env \<Rightarrow> (string \<Rightarrow> (string \<times> string) option) \<Rightarrow> string \<Rightarrow> tenant \<Rightarrow> string \<Rightarrow> string \<Rightarrow> string
     \<Rightarrow> string \<Rightarrow> string \<Rightarrow> access_db \<Rightarrow> access_error + (invite_row \<times> access_db)" where
  "invite_call E parse base t iid oid random raw_email role db =
     (if \<not> valid_base_url parse base then Inl NoBaseURL
      else case require_owner t of
        Some e \<Rightarrow> Inl e
      | None \<Rightarrow>
          let email = trim_space raw_email; token = new_invitation_token random
          in if email = '''' \<or> \<not> contains_str email ''@'' then Inl BadInviteEmail
             else if \<not> valid_role role then Inl BadRole
             else (case organisation_name t db of
                 Inl _ \<Rightarrow> Inl InternalError
               | Inr name \<Rightarrow> (case create_invitation E t iid email role token db of
                     Inl _ \<Rightarrow> Inl InternalError
                   | Inr (i, db1) \<Rightarrow>
                       (case enqueue_message t oid
                           (invitation email name (invitation_link base token) invitation_days) db1 of
                          Inl _ \<Rightarrow> Inl InternalError
                        | Inr db2 \<Rightarrow> Inr (i, db2)))))"

text \<open>
  \<open>callerAddress\<close>: the token's own claim when it has one, and otherwise what the provider says
  of the caller; \<open>profiles\<close> is \<open>None\<close> without a resolver or a token.
\<close>

type_synonym profiles = "(string \<Rightarrow> (string \<times> string \<times> bool) option) option"

definition caller_address :: "profiles \<Rightarrow> subject_claims \<Rightarrow> string \<times> bool" where
  "caller_address prof c =
     (if sj_email c \<noteq> '''' then (sj_email c, sj_verified c)
      else case prof of
        None \<Rightarrow> ('''', False)
      | Some f \<Rightarrow> (case f (sj_subject c) of
            None \<Rightarrow> ('''', False) | Some (email, _, verified) \<Rightarrow> (email, verified)))"

definition accept_call ::
  "pg_env \<Rightarrow> profiles \<Rightarrow> tenant \<Rightarrow> subject_claims \<Rightarrow> string \<Rightarrow> access_db
     \<Rightarrow> access_error + (org_membership \<times> access_db)" where
  "accept_call E prof t c token db =
     (case caller_address prof c of (email, verified) \<Rightarrow>
        if email = '''' \<or> \<not> verified then Inl CannotUseInvitation
        else (case accept_invitation E t token email db of
            Inl InvitationNotUsable \<Rightarrow> Inl CannotUseInvitation
          | Inl _ \<Rightarrow> Inl InternalError
          | Inr r \<Rightarrow> Inr r))"

section \<open>Who am I\<close>

definition with_profile :: "profiles \<Rightarrow> subject_claims \<Rightarrow> subject_claims" where
  "with_profile prof s =
     (if sj_name s \<noteq> '''' \<or> sj_email s \<noteq> '''' then s
      else case prof of
        None \<Rightarrow> s
      | Some f \<Rightarrow> (case f (sj_subject s) of
            None \<Rightarrow> s
          | Some (email, name, verified) \<Rightarrow> s\<lparr>sj_email := email, sj_name := name, sj_verified := verified\<rparr>))"

text \<open>
  \<open>repairSubjectNamedOrganisation\<close>.  The code logs a statement the database refused and goes
  on, but the refusal aborts the transaction and every later statement of it fails: \<open>None\<close>.
\<close>

fun rename_first :: "string \<Rightarrow> string \<Rightarrow> org_membership list \<Rightarrow> org_membership list" where
  "rename_first old new [] = []"
| "rename_first old new (m # ms) =
     (if om_name m = old then m\<lparr>om_name := new\<rparr> # ms else m # rename_first old new ms)"

definition repair_subject_named ::
  "pg_env \<Rightarrow> profiles \<Rightarrow> tenant \<Rightarrow> subject_claims \<Rightarrow> org_membership list \<Rightarrow> access_db
     \<Rightarrow> (org_membership list \<times> access_db) option" where
  "repair_subject_named E prof t s ms db =
     (if list_all (\<lambda>m. om_name m \<noteq> sj_subject s) ms then Some (ms, db)
      else let repaired = with_profile prof s; name = personal_organisation_name repaired
           in if name = sj_subject s then Some (ms, db)
              else (case rename_personal E t (sj_subject s) name db of
                  Inl _ \<Rightarrow> None
                | Inr (False, db1) \<Rightarrow> Some (ms, db1)
                | Inr (True, db1) \<Rightarrow> (case record_identity E t repaired db1 of
                      Inl _ \<Rightarrow> None
                    | Inr db2 \<Rightarrow> Some (rename_first (sj_subject s) name ms, db2))))"

record current_user =
  cu_id :: string
  cu_email :: string
  cu_name :: string
  cu_verified :: bool
  cu_user :: string
  cu_memberships :: "org_membership list"
  cu_active :: string
  cu_plan :: string

definition active_org :: "tenant \<Rightarrow> org_membership list \<Rightarrow> string" where
  "active_org t ms =
     (if list_ex (\<lambda>m. om_org m = tn_org t) ms then tn_org t
      else case ms of [] \<Rightarrow> tn_org t | m # _ \<Rightarrow> om_org m)"

definition answer_user ::
  "tenant \<Rightarrow> subject_claims \<Rightarrow> subject_claims \<Rightarrow> org_membership list \<Rightarrow> access_db \<Rightarrow> current_user" where
  "answer_user t c s ms db =
     \<lparr>cu_id = sj_subject c, cu_email = sj_email s, cu_name = sj_name s, cu_verified = sj_verified c,
      cu_user = tn_user t, cu_memberships = ms, cu_active = active_org t ms,
      cu_plan = subscription_plan (use_organisation (active_org t ms) t) db\<rparr>"

definition get_current_user ::
  "pg_env \<Rightarrow> profiles \<Rightarrow> tenant \<Rightarrow> subject_claims \<Rightarrow> string \<Rightarrow> access_db
     \<Rightarrow> access_error + (current_user \<times> access_db)" where
  "get_current_user E prof t c oid db =
     (case record_identity E t c db of
        Inl _ \<Rightarrow> Inl InternalError
      | Inr db1 \<Rightarrow>
          let ms = memberships t db1;
              s = (if ms = [] then with_profile prof c else c);
              plan = plan_for s ms
          in if pl_create plan then
               (case provision_personal E t oid plan db1 of
                  Inl _ \<Rightarrow> Inl InternalError
                | Inr (_, db2) \<Rightarrow> (case record_identity E t s db2 of
                      Inl _ \<Rightarrow> Inl InternalError
                    | Inr db3 \<Rightarrow>
                        let ms' = memberships t db3
                        in if ms' = [] then Inl NoMembershipLeft
                           else Inr (answer_user t c s ms' db3, db3)))
             else (case repair_subject_named E prof t s ms db1 of
                 None \<Rightarrow> Inl InternalError
               | Some (ms', db2) \<Rightarrow> Inr (answer_user t c s ms' db2, db2)))"

section \<open>Requests\<close>

text \<open>
  One committed request.  \<open>ids\<close> says which spellings of a member's id callers send; the random
  values, the clock and the requested organisation are the caller's and the world's.
\<close>

inductive access_step :: "pg_env \<Rightarrow> (string \<Rightarrow> bool) \<Rightarrow> access_db \<Rightarrow> access_db \<Rightarrow> bool"
  for E :: pg_env and ids :: "string \<Rightarrow> bool" where
  signed_in: "begin_tenant E user req now db = Inr t \<Longrightarrow>
     get_current_user E prof t c oid db = Inr (u, db') \<Longrightarrow> access_step E ids db db'"
| created: "begin_tenant E user req now db = Inr t \<Longrightarrow>
     create_call E t oid name db = Inr (j, db') \<Longrightarrow> access_step E ids db db'"
| renamed: "begin_tenant E user req now db = Inr t \<Longrightarrow>
     rename_call E t name db = Inr (j, db') \<Longrightarrow> access_step E ids db db'"
| role_changed: "begin_tenant E user req now db = Inr t \<Longrightarrow> ids who \<Longrightarrow>
     role_call E t who role db = Inr (m, db') \<Longrightarrow> access_step E ids db db'"
| removed: "begin_tenant E user req now db = Inr t \<Longrightarrow> ids who \<Longrightarrow>
     remove_call E t who db = Inr db' \<Longrightarrow> access_step E ids db db'"
| invited: "begin_tenant E user req now db = Inr t \<Longrightarrow>
     invite_call E parse base t iid oid random email role db = Inr (i, db') \<Longrightarrow> access_step E ids db db'"
| accepted: "begin_tenant E user req now db = Inr t \<Longrightarrow>
     accept_call E prof t c token db = Inr (j, db') \<Longrightarrow> access_step E ids db db'"

definition no_organisations :: "access_db \<Rightarrow> bool" where
  "no_organisations db \<longleftrightarrow>
     ac_orgs db = [] \<and> ac_members db = [] \<and> ac_invites db = [] \<and> ac_identities db = []
     \<and> ac_audit db = [] \<and> ac_outbox db = []"

definition access_reachable :: "pg_env \<Rightarrow> (string \<Rightarrow> bool) \<Rightarrow> access_db \<Rightarrow> bool" where
  "access_reachable E ids db \<longleftrightarrow> (\<exists>db0. no_organisations db0 \<and> (access_step E ids)\<^sup>*\<^sup>* db0 db)"

end
