(* ===== verification/Org_Life.thy ===== *)
theory Org_Life
  imports Org_Service
begin

text \<open>
  What every run of the membership calls keeps: the keys and references of the tables
  (\<open>access_inv\<close>), and an owner in every organisation (\<open>owned\<close>) as long as callers spell a
  member's id the way the database does.  Each operation is first reduced to what it does to
  the organisations, the memberships and the invitations.
\<close>

section \<open>The invariants\<close>

definition tables_ok :: "org_row list \<Rightarrow> member_row list \<Rightarrow> invite_row list \<Rightarrow> bool" where
  "tables_ok orgs ms invs \<longleftrightarrow>
     distinct (map or_id orgs) \<and> distinct (map or_slug orgs)
     \<and> distinct (map or_personal (filter (\<lambda>r. or_personal r \<noteq> None) orgs))
     \<and> distinct (map (\<lambda>m. (mr_org m, mr_user m)) ms)
     \<and> (\<forall>m \<in> set ms. mr_org m \<in> or_id ` set orgs \<and> valid_role (mr_role m))
     \<and> distinct (map inv_id invs) \<and> distinct (map inv_hash invs)
     \<and> (\<forall>i \<in> set invs. inv_org i \<in> or_id ` set orgs \<and> valid_role (inv_role i))"

definition access_inv :: "access_db \<Rightarrow> bool" where
  "access_inv db = tables_ok (ac_orgs db) (ac_members db) (ac_invites db)"

definition all_owned :: "org_row list \<Rightarrow> member_row list \<Rightarrow> bool" where
  "all_owned orgs ms \<longleftrightarrow> (\<forall>r \<in> set orgs. \<exists>m \<in> set ms. mr_org m = or_id r \<and> mr_role m = RoleOwner)"

definition owned :: "access_db \<Rightarrow> bool" where
  "owned db = all_owned (ac_orgs db) (ac_members db)"

section \<open>Looking up a role\<close>

lemma find_unique:
  assumes "\<exists>x \<in> set xs. P x" and "\<And>x y. x \<in> set xs \<Longrightarrow> y \<in> set xs \<Longrightarrow> P x \<Longrightarrow> P y \<Longrightarrow> x = y"
  shows "find P xs = Some y \<longleftrightarrow> y \<in> set xs \<and> P y"
  using assms by (metis find_SomeD find_None_iff not_None_eq)

lemma role_in_None: "role_in db org user = None \<longleftrightarrow> (\<forall>m \<in> set (ac_members db). mr_org m = org \<longrightarrow> mr_user m \<noteq> user)"
  by (auto simp: role_in_def find_None_iff)

lemma role_in_SomeD:
  assumes "role_in db org user = Some role"
  obtains m where "m \<in> set (ac_members db)" "mr_org m = org" "mr_user m = user" "mr_role m = role"
  using assms by (auto simp: role_in_def dest: find_SomeD)

lemma access_inv_members:
  assumes "access_inv db" and "m \<in> set (ac_members db)" and "n \<in> set (ac_members db)"
    and "mr_org m = mr_org n" and "mr_user m = mr_user n"
  shows "m = n"
  using assms by (auto simp: access_inv_def tables_ok_def distinct_map inj_on_def)

lemma role_in_eq:
  assumes "access_inv db" and "m \<in> set (ac_members db)"
  shows "role_in db (mr_org m) (mr_user m) = Some (mr_role m)"
proof (cases "role_in db (mr_org m) (mr_user m)")
  case None
  with assms(2) show ?thesis by (auto simp: role_in_None)
next
  case (Some role)
  then obtain n where "n \<in> set (ac_members db)" "mr_org n = mr_org m" "mr_user n = mr_user m" "mr_role n = role"
    by (rule role_in_SomeD)
  with access_inv_members [OF assms(1) assms(2)] Some show ?thesis by metis
qed

lemma role_in_frame: "ac_members db' = ac_members db \<Longrightarrow> role_in db' = role_in db"
  by (auto simp: role_in_def fun_eq_iff)

section \<open>What each operation does\<close>

definition frame :: "access_db \<Rightarrow> access_db \<Rightarrow> bool" where
  "frame db db' \<longleftrightarrow> ac_orgs db' = ac_orgs db \<and> ac_members db' = ac_members db \<and> ac_invites db' = ac_invites db"

lemma record_identity_frame: "record_identity E t s db = Inr db' \<Longrightarrow> frame db db'"
  by (auto simp: record_identity_def frame_def split: if_splits)

lemma record_changeD:
  assumes "record_change t e db = Inr db'"
  shows "frame db db'" and "db' = db\<lparr>ac_audit := ac_audit db @ [audit_of t db e]\<rparr>"
    and "role_in db (tn_org t) (tn_user t) \<noteq> None"
  using assms by (auto simp: record_change_def frame_def split: if_splits)

lemma enqueue_message_frame: "enqueue_message t oid msg db = Inr db' \<Longrightarrow> frame db db'"
  by (auto simp: enqueue_message_def frame_def Let_def split: if_splits)

lemma slug_loop_Inserted:
  "slug_loop f ns = Inr (Some db') \<Longrightarrow> \<exists>n \<in> set ns. f n = Inserted db'"
  by (induction ns) (auto split: attempt.splits)

lemma slug_loop_AlreadyThere:
  "slug_loop f ns = Inr None \<Longrightarrow> \<exists>n \<in> set ns. f n = AlreadyThere"
  by (induction ns) (auto split: attempt.splits)

lemma insert_orgD:
  assumes "insert_org E oid name personal now db n = Inserted db'"
  obtains r where "or_id r = oid" "or_personal r = personal" "or_name r = name"
    "db' = db\<lparr>ac_orgs := ac_orgs db @ [r]\<rparr>" "oid \<notin> or_id ` set (ac_orgs db)"
    "or_slug r \<notin> or_slug ` set (ac_orgs db)"
    "personal = None \<or> personal \<notin> or_personal ` set (ac_orgs db)"
proof (rule that [of "\<lparr>or_id = oid, or_name = name, or_slug = org_slug E name n, or_personal = personal, or_at = now\<rparr>"])
  show "db' = db\<lparr>ac_orgs := ac_orgs db
      @ [\<lparr>or_id = oid, or_name = name, or_slug = org_slug E name n, or_personal = personal, or_at = now\<rparr>]\<rparr>"
    using assms by (auto simp: insert_org_def split: if_splits)
qed (use assms in \<open>auto simp: insert_org_def list_ex_iff split: if_splits\<close>)

lemma insert_membershipD:
  assumes "insert_membership t org role db = Inr db'"
  shows "db' = db\<lparr>ac_members := ac_members db
      @ [\<lparr>mr_org = org, mr_user = tn_user t, mr_role = role, mr_at = tn_now t\<rparr>]\<rparr>"
    and "valid_role role" and "role_in db org (tn_user t) = None"
  using assms by (auto simp: insert_membership_def split: if_splits)

definition founded :: "access_db \<Rightarrow> org_row \<Rightarrow> member_row \<Rightarrow> bool" where
  "founded db r m \<longleftrightarrow>
     or_id r \<notin> or_id ` set (ac_orgs db) \<and> or_slug r \<notin> or_slug ` set (ac_orgs db)
     \<and> (or_personal r = None \<or> or_personal r \<notin> or_personal ` set (ac_orgs db))
     \<and> mr_org m = or_id r \<and> mr_role m = RoleOwner"

lemma create_organisationD:
  assumes "create_organisation E t oid name db = Inr (j, db')"
  obtains r m where "founded db r m" "or_personal r = None" "or_name r = name" "mr_user m = tn_user t"
    "db' = db\<lparr>ac_orgs := ac_orgs db @ [r], ac_members := ac_members db @ [m]\<rparr>"
proof -
  from assms obtain db1 where 1: "insert_named_organisation E t oid name db = Inr db1"
    and 2: "insert_membership t oid RoleOwner db1 = Inr db'"
    by (auto simp: create_organisation_def split: sum.splits option.splits)
  from 1 obtain n where "insert_org E oid name None (tn_now t) db n = Inserted db1"
    by (auto simp: insert_named_organisation_def split: sum.splits option.splits dest: slug_loop_Inserted)
  then obtain r where r: "or_id r = oid" "or_personal r = None" "or_name r = name"
    "db1 = db\<lparr>ac_orgs := ac_orgs db @ [r]\<rparr>" "oid \<notin> or_id ` set (ac_orgs db)"
    "or_slug r \<notin> or_slug ` set (ac_orgs db)" by (rule insert_orgD)
  let ?m = "\<lparr>mr_org = oid, mr_user = tn_user t, mr_role = RoleOwner, mr_at = tn_now t\<rparr>"
  show ?thesis
    by (rule that [of r ?m]) (use r insert_membershipD(1) [OF 2] in \<open>auto simp: founded_def\<close>)
qed

lemma provision_personalD:
  assumes "provision_personal E t oid plan db = Inr (c, db')" and "pl_role plan = RoleOwner"
  obtains (there) "c = False" "db' = db" "Some (tn_user t) \<in> or_personal ` set (ac_orgs db)"
  | (made) r m where "c = True" "founded db r m" "or_personal r = Some (tn_user t)" "or_name r = pl_name plan"
    "mr_user m = tn_user t" "db' = db\<lparr>ac_orgs := ac_orgs db @ [r], ac_members := ac_members db @ [m]\<rparr>"
proof -
  let ?ins = "insert_org E oid (pl_name plan) (Some (tn_user t)) (tn_now t) db"
  from assms consider "insert_organisation E t oid plan db = Inr None" "c = False" "db' = db"
    | db1 where "insert_organisation E t oid plan db = Inr (Some db1)" "c = True"
        "insert_membership t oid RoleOwner db1 = Inr db'"
    by (auto simp: provision_personal_def split: sum.splits option.splits)
  then show ?thesis
  proof cases
    case 1
    then obtain n where "?ins n = AlreadyThere"
      by (auto simp: insert_organisation_def dest: slug_loop_AlreadyThere)
    then have "Some (tn_user t) \<in> or_personal ` set (ac_orgs db)"
      by (auto simp: insert_org_def list_ex_iff split: if_splits intro: rev_image_eqI)
    with 1 show ?thesis by (intro there)
  next
    case 2
    then obtain n where "?ins n = Inserted db1"
      by (auto simp: insert_organisation_def dest: slug_loop_Inserted)
    then obtain r where r: "or_id r = oid" "or_personal r = Some (tn_user t)" "or_name r = pl_name plan"
      "db1 = db\<lparr>ac_orgs := ac_orgs db @ [r]\<rparr>" "oid \<notin> or_id ` set (ac_orgs db)"
      "or_slug r \<notin> or_slug ` set (ac_orgs db)"
      "Some (tn_user t) = None \<or> Some (tn_user t) \<notin> or_personal ` set (ac_orgs db)" by (rule insert_orgD)
    let ?m = "\<lparr>mr_org = oid, mr_user = tn_user t, mr_role = RoleOwner, mr_at = tn_now t\<rparr>"
    show ?thesis
      by (rule made [of r ?m]) (use 2 r insert_membershipD(1) [OF 2(3)] in \<open>auto simp: founded_def\<close>)
  qed
qed

definition renames :: "access_db \<Rightarrow> access_db \<Rightarrow> bool" where
  "renames db db' \<longleftrightarrow> ac_members db' = ac_members db \<and> ac_invites db' = ac_invites db
     \<and> (\<exists>P n. ac_orgs db' = map (\<lambda>r. if P r then r\<lparr>or_name := n\<rparr> else r) (ac_orgs db))"

lemma renamesI:
  "ac_orgs db' = map (\<lambda>r. if P r then r\<lparr>or_name := n\<rparr> else r) (ac_orgs db) \<Longrightarrow>
   ac_members db' = ac_members db \<Longrightarrow> ac_invites db' = ac_invites db \<Longrightarrow> renames db db'"
  unfolding renames_def by blast

lemma rename_organisationD:
  assumes "rename_organisation E t name db = Inr (j, db')"
  shows "renames db db'"
proof (rule renamesI)
  let ?db1 = "db\<lparr>ac_orgs := map (\<lambda>r. if or_id r = tn_org t then r\<lparr>or_name := name\<rparr> else r) (ac_orgs db)\<rparr>"
  have "frame ?db1 db'"
    using assms by (auto simp: rename_organisation_def Let_def frame_def
        split: if_splits option.splits sum.splits dest!: record_changeD(2))
  then show "ac_orgs db' = map (\<lambda>r. if or_id r = tn_org t then r\<lparr>or_name := name\<rparr> else r) (ac_orgs db)"
    "ac_members db' = ac_members db" "ac_invites db' = ac_invites db"
    by (simp_all add: frame_def)
qed

lemma rename_personalD: "rename_personal E t old new db = Inr (c, db') \<Longrightarrow> renames db db'"
  by (rule renamesI [of _ "renames_personal t db old" new])
    (simp_all add: rename_personal_def split: if_splits, auto)

lemma set_member_roleD:
  assumes "set_member_role E t user role db = Inr db'"
  obtains u where "pg_uuid E user = Some u" "valid_role role" "role_in db (tn_org t) u \<noteq> None"
    "ac_orgs db' = ac_orgs db" "ac_invites db' = ac_invites db"
    "ac_members db' = map (\<lambda>m. if mr_org m = tn_org t \<and> mr_user m = u then m\<lparr>mr_role := role\<rparr> else m) (ac_members db)"
  using assms
  by (auto simp: set_member_role_def locked_role_def frame_def split: option.splits if_splits
      dest: record_changeD(1))

lemma remove_memberD:
  assumes "remove_member E t user db = Inr db'"
  obtains u where "pg_uuid E user = Some u" "role_in db (tn_org t) u \<noteq> None"
    "ac_orgs db' = ac_orgs db" "ac_invites db' = ac_invites db"
    "ac_members db' = filter (\<lambda>m. \<not> (mr_org m = tn_org t \<and> mr_user m = u)) (ac_members db)"
  using assms
  by (auto simp: remove_member_def locked_role_def frame_def split: option.splits if_splits sum.splits
      dest!: record_changeD(2))

lemma create_invitationD:
  assumes "create_invitation E t iid email role token db = Inr (i, db')"
  shows "ac_orgs db' = ac_orgs db" and "ac_members db' = ac_members db" and "ac_invites db' = ac_invites db @ [i]"
    and "inv_org i = tn_org t" and "valid_role (inv_role i)" and "inv_accepted i = None"
    and "inv_id i \<notin> inv_id ` set (ac_invites db)" and "inv_hash i \<notin> inv_hash ` set (ac_invites db)"
    and "role_in db (tn_org t) (tn_user t) = Some RoleOwner"
  using assms
  by (auto simp: create_invitation_def Let_def list_ex_iff split: if_splits sum.splits dest!: record_changeD(2))

lemma redeemD:
  assumes "redeem E t h email db = Some (org, db')"
  obtains i where "i \<in> set (ac_invites db)" "usable E h email (tn_now t) i" "org = inv_org i"
    "ac_orgs db' = ac_orgs db" "ac_members db' = ac_members (join_once i (tn_user t) (tn_now t) db)"
    "ac_invites db' = map (\<lambda>j. if inv_id j = inv_id i then j\<lparr>inv_accepted := Some (tn_now t, tn_user t)\<rparr> else j)
       (ac_invites db)"
proof -
  from assms obtain i where i: "find (usable E h email (tn_now t)) (ac_invites db) = Some i"
    by (auto simp: redeem_def split: if_splits option.splits)
  show ?thesis
    by (rule that [of i]) (use assms i find_SomeD [OF i] in
      \<open>auto simp: redeem_def Let_def join_once_def split: if_splits\<close>)
qed

section \<open>Steps on the tables\<close>

lemma frame_inv: "frame db db' \<Longrightarrow> access_inv db' = access_inv db \<and> owned db' = owned db"
  by (simp add: frame_def access_inv_def owned_def)

lemma map_name_keys:
  "map or_id (map (\<lambda>r. if P r then r\<lparr>or_name := n\<rparr> else r) rs) = map or_id rs"
  "map or_slug (map (\<lambda>r. if P r then r\<lparr>or_name := n\<rparr> else r) rs) = map or_slug rs"
  "map or_personal (filter (\<lambda>r. or_personal r \<noteq> None) (map (\<lambda>r. if P r then r\<lparr>or_name := n\<rparr> else r) rs))
     = map or_personal (filter (\<lambda>r. or_personal r \<noteq> None) rs)"
  by (induction rs) auto

lemma map_name_ids: "or_id ` set (map (\<lambda>r. if P r then r\<lparr>or_name := n\<rparr> else r) rs) = or_id ` set rs"
  using map_name_keys(1) [of P n rs] by (metis set_map)

lemma all_owned_ids:
  "all_owned orgs ms \<longleftrightarrow> (\<forall>i \<in> or_id ` set orgs. \<exists>m \<in> set ms. mr_org m = i \<and> mr_role m = RoleOwner)"
  by (auto simp: all_owned_def)

lemma renames_inv:
  assumes "renames db db'"
  shows "access_inv db' = access_inv db" and "owned db' = owned db"
proof -
  from assms obtain P n where eq: "ac_orgs db' = map (\<lambda>r. if P r then r\<lparr>or_name := n\<rparr> else r) (ac_orgs db)"
    and rest: "ac_members db' = ac_members db" "ac_invites db' = ac_invites db"
    unfolding renames_def by blast
  show "access_inv db' = access_inv db"
    unfolding access_inv_def tables_ok_def eq rest map_name_keys map_name_ids ..
  show "owned db' = owned db"
    unfolding owned_def all_owned_ids eq rest map_name_ids ..
qed

lemma founded_inv:
  assumes "founded db r m" and "access_inv db"
    and "db' = db\<lparr>ac_orgs := ac_orgs db @ [r], ac_members := ac_members db @ [m]\<rparr>"
  shows "access_inv db'" and "owned db \<Longrightarrow> owned db'"
proof -
  have "valid_role RoleOwner" by (simp add: valid_role_def)
  moreover have "\<forall>x \<in> set (ac_members db). mr_org x \<noteq> or_id r"
    using assms(1,2) unfolding access_inv_def tables_ok_def founded_def by metis
  ultimately show "access_inv db'"
    using assms(1,2) unfolding assms(3) access_inv_def founded_def tables_ok_def
    by (auto simp: image_iff eq_commute [of "or_id r"])
  show "owned db \<Longrightarrow> owned db'"
    using assms(1) unfolding assms(3) owned_def all_owned_def founded_def by auto
qed


lemma set_member_role_inv:
  assumes "set_member_role E t user role db = Inr db'" and "access_inv db"
  shows "access_inv db'"
  using assms(1)
proof (rule set_member_roleD)
  fix u assume u: "valid_role role" "ac_orgs db' = ac_orgs db" "ac_invites db' = ac_invites db"
    "ac_members db' = map (\<lambda>m. if mr_org m = tn_org t \<and> mr_user m = u then m\<lparr>mr_role := role\<rparr> else m) (ac_members db)"
  have "map (\<lambda>m. (mr_org m, mr_user m)) (ac_members db') = map (\<lambda>m. (mr_org m, mr_user m)) (ac_members db)"
    unfolding u by (auto simp: comp_def)
  moreover have "\<forall>m \<in> set (ac_members db'). mr_org m \<in> or_id ` set (ac_orgs db) \<and> valid_role (mr_role m)"
  proof
    fix m' assume "m' \<in> set (ac_members db')"
    then obtain m where "m \<in> set (ac_members db)" "mr_org m' = mr_org m" "mr_role m' \<in> {mr_role m, role}"
      unfolding u(4) by (auto split: if_splits)
    moreover from this assms(2) have "mr_org m \<in> or_id ` set (ac_orgs db)" "valid_role (mr_role m)"
      unfolding access_inv_def tables_ok_def by metis+
    ultimately show "mr_org m' \<in> or_id ` set (ac_orgs db) \<and> valid_role (mr_role m')" using u(1) by auto
  qed
  ultimately show ?thesis using assms(2) by (simp add: access_inv_def tables_ok_def u(2,3))
qed

lemma distinct_map_filter: "distinct (map f xs) \<Longrightarrow> distinct (map f (filter P xs))"
  by (induction xs) auto

lemma remove_member_inv:
  assumes "remove_member E t user db = Inr db'" and "access_inv db"
  shows "access_inv db'"
  using assms by (auto simp: access_inv_def tables_ok_def intro: distinct_map_filter elim!: remove_memberD)

lemma join_once_inv:
  assumes "access_inv db" and "i \<in> set (ac_invites db)"
  shows "access_inv (join_once i user now db)" and "owned db \<Longrightarrow> owned (join_once i user now db)"
  using assms by (auto simp: join_once_def access_inv_def tables_ok_def owned_def all_owned_def role_in_None)

lemma redeem_inv:
  assumes "redeem E t h email db = Some (org, db')" and "access_inv db"
  shows "access_inv db'" and "owned db \<Longrightarrow> owned db'"
proof -
  from assms(1) obtain i where i: "i \<in> set (ac_invites db)"
    and eq: "ac_orgs db' = ac_orgs db" "ac_members db' = ac_members (join_once i (tn_user t) (tn_now t) db)"
      "ac_invites db' = map (\<lambda>j. if inv_id j = inv_id i then j\<lparr>inv_accepted := Some (tn_now t, tn_user t)\<rparr> else j)
         (ac_invites db)" by (rule redeemD)
  have same: "ac_orgs (join_once i (tn_user t) (tn_now t) db) = ac_orgs db"
    "ac_invites (join_once i (tn_user t) (tn_now t) db) = ac_invites db" by (simp_all add: join_once_def)
  have "map inv_id (ac_invites db') = map inv_id (ac_invites db)"
    and "map inv_hash (ac_invites db') = map inv_hash (ac_invites db)" unfolding eq by (auto simp: comp_def)
  moreover have "\<forall>j \<in> set (ac_invites db'). \<exists>k \<in> set (ac_invites db). inv_org j = inv_org k \<and> inv_role j = inv_role k"
    unfolding eq by auto
  ultimately show "access_inv db'"
    using join_once_inv(1) [OF assms(2) i, of "tn_user t" "tn_now t"]
    unfolding access_inv_def tables_ok_def same eq(1,2) by simp metis
  show "owned db \<Longrightarrow> owned db'"
    using join_once_inv(2) [OF assms(2) i, of "tn_user t" "tn_now t"] by (simp add: owned_def same eq)
qed

lemma create_invitation_inv:
  assumes "create_invitation E t iid email role token db = Inr (i, db')" and "access_inv db"
  shows "access_inv db'" and "owned db \<Longrightarrow> owned db'"
proof -
  note c = create_invitationD [OF assms(1)]
  from c(9) obtain m where "m \<in> set (ac_members db)" "mr_org m = tn_org t" by (rule role_in_SomeD)
  with assms(2) have "inv_org i \<in> or_id ` set (ac_orgs db)"
    unfolding c(4) access_inv_def tables_ok_def by metis
  with assms(2) c show "access_inv db'" by (auto simp: access_inv_def tables_ok_def)
  show "owned db \<Longrightarrow> owned db'" by (simp add: owned_def c)
qed

section \<open>The last owner\<close>

lemma count_owners_eq:
  "count_owners u ms a b =
     (a + length (filter (\<lambda>m. mem_role m = RoleOwner) ms),
      b + length (filter (\<lambda>m. mem_role m = RoleOwner \<and> mem_user m = u) ms))"
  by (induction ms arbitrary: a b) auto

lemma length_filter_all: "length xs \<le> length (filter P xs) \<longleftrightarrow> (\<forall>x \<in> set xs. P x)"
proof (induction xs)
  case (Cons x xs)
  have "length (filter P xs) < Suc (length xs)" by (simp add: less_Suc_eq_le)
  with Cons show ?case by (cases "P x") auto
qed simp

text \<open>The rule says yes exactly when an owner is affected and no other owner is in the list.\<close>

lemma would_leave_no_owner_iff:
  "would_leave_no_owner ms u role \<longleftrightarrow>
     role \<noteq> RoleOwner \<and> (\<exists>m \<in> set ms. mem_role m = RoleOwner \<and> mem_user m = u)
     \<and> (\<forall>m \<in> set ms. mem_role m = RoleOwner \<longrightarrow> mem_user m = u)"
proof -
  let ?o = "filter (\<lambda>m. mem_role m = RoleOwner) ms"
  let ?a = "filter (\<lambda>m. mem_role m = RoleOwner \<and> mem_user m = u) ms"
  have eq: "?a = filter (\<lambda>m. mem_user m = u) ?o" by (simp add: conj_commute)
  have "length ?o \<le> length ?a \<longleftrightarrow> (\<forall>m \<in> set ?o. mem_user m = u)"
    unfolding eq by (rule length_filter_all)
  moreover have "length ?a = 0 \<longleftrightarrow> \<not> (\<exists>m \<in> set ms. mem_role m = RoleOwner \<and> mem_user m = u)"
    by (auto simp: filter_empty_conv)
  ultimately show ?thesis
    by (auto simp: would_leave_no_owner_def count_owners_eq Let_def)
qed

lemma scan_member_key [simp]: "mem_user (scan_member db m) = mr_user m" "mem_role (scan_member db m) = mr_role m"
  by (simp_all add: scan_member_def split: option.splits)

lemma members_set:
  assumes "role_in db (tn_org t) (tn_user t) \<noteq> None"
  shows "set (members t db) = scan_member db ` {m \<in> set (ac_members db). mr_org m = tn_org t}"
  using assms by (auto simp: members_def sees_membership_def)

lemma would_leave_members:
  assumes "role_in db (tn_org t) (tn_user t) \<noteq> None"
  shows "would_leave_no_owner (members t db) u role \<longleftrightarrow>
     role \<noteq> RoleOwner
     \<and> (\<exists>m \<in> set (ac_members db). mr_org m = tn_org t \<and> mr_role m = RoleOwner \<and> mr_user m = u)
     \<and> (\<forall>m \<in> set (ac_members db). mr_org m = tn_org t \<longrightarrow> mr_role m = RoleOwner \<longrightarrow> mr_user m = u)"
  unfolding would_leave_no_owner_iff members_set [OF assms] by auto


lemma begin_tenantD:
  assumes "begin_tenant E user req now db = Inr t" and "access_inv db"
  shows "tn_user t = user" and "tn_now t = now"
    and "tn_role t \<noteq> [] \<Longrightarrow> role_in db (tn_org t) user = Some (tn_role t)"
proof -
  show "tn_user t = user" "tn_now t = now"
    using assms(1) by (auto simp: begin_tenant_def split: sum.splits)
  show "role_in db (tn_org t) user = Some (tn_role t)" if ne: "tn_role t \<noteq> []"
  proof (cases "req = []")
    case True
    with assms(1) ne have d: "default_membership user db = Some (tn_org t, tn_role t)"
      by (auto simp: begin_tenant_def resolve_membership_def split: option.splits sum.splits)
    let ?rows = "sort_key mr_at (sort_key mr_org (filter (\<lambda>m. mr_user m = user) (ac_members db)))"
    from d obtain m rest where s: "?rows = m # rest" and m: "mr_org m = tn_org t" "mr_role m = tn_role t"
      by (auto simp: default_membership_def split: list.splits)
    have "m \<in> set ?rows" unfolding s by simp
    then have "m \<in> set (ac_members db)" "mr_user m = user" by simp_all
    with m role_in_eq [OF assms(2)] show ?thesis by metis
  next
    case False
    with assms(1) show ?thesis
      by (auto simp: begin_tenant_def resolve_membership_def split: option.splits sum.splits)
  qed
qed

lemma owner_begins:
  assumes "begin_tenant E user req now db = Inr t" and "access_inv db" and "tn_role t = RoleOwner"
  shows "role_in db (tn_org t) (tn_user t) = Some RoleOwner"
  using begin_tenantD [OF assms(1,2)] assms(3) by (simp add: RoleOwner_def)

text \<open>A removal or a demotion the check let through leaves an owner behind.\<close>

lemma removal_owned:
  assumes "owned db" and "access_inv db" and "role_in db (tn_org t) (tn_user t) \<noteq> None"
    and "remove_member E t who db = Inr db'" and "pg_uuid E who = Some who"
    and "\<not> would_leave_no_owner (members t db) who []"
  shows "owned db'"
  using assms(4)
proof (rule remove_memberD)
  fix u assume u: "pg_uuid E who = Some u" "ac_orgs db' = ac_orgs db"
    "ac_members db' = filter (\<lambda>m. \<not> (mr_org m = tn_org t \<and> mr_user m = u)) (ac_members db)"
  with assms(5) have [simp]: "u = who" by simp
  show ?thesis unfolding owned_def all_owned_def u(2,3)
  proof
    fix r assume r: "r \<in> set (ac_orgs db)"
    with assms(1) obtain m where m: "m \<in> set (ac_members db)" "mr_org m = or_id r" "mr_role m = RoleOwner"
      by (auto simp: owned_def all_owned_def)
    show "\<exists>m \<in> set (filter (\<lambda>m. \<not> (mr_org m = tn_org t \<and> mr_user m = u)) (ac_members db)).
        mr_org m = or_id r \<and> mr_role m = RoleOwner"
    proof (cases "mr_org m = tn_org t \<and> mr_user m = who")
      case True
      with assms(6) m obtain n where "n \<in> set (ac_members db)" "mr_org n = tn_org t" "mr_role n = RoleOwner" "mr_user n \<noteq> who"
        unfolding would_leave_members [OF assms(3)] by (auto simp: RoleOwner_def)
      with True m show ?thesis by auto
    next
      case False
      with m show ?thesis by auto
    qed
  qed
qed

lemma demotion_owned:
  assumes "owned db" and "access_inv db" and "role_in db (tn_org t) (tn_user t) \<noteq> None"
    and "set_member_role E t who role db = Inr db'" and "pg_uuid E who = Some who"
    and "\<not> would_leave_no_owner (members t db) who role"
  shows "owned db'"
  using assms(4)
proof (rule set_member_roleD)
  let ?f = "\<lambda>m. if mr_org m = tn_org t \<and> mr_user m = who then m\<lparr>mr_role := role\<rparr> else m"
  fix u assume u: "pg_uuid E who = Some u" "ac_orgs db' = ac_orgs db"
    "ac_members db' = map (\<lambda>m. if mr_org m = tn_org t \<and> mr_user m = u then m\<lparr>mr_role := role\<rparr> else m) (ac_members db)"
  with assms(5) have eq: "ac_members db' = map ?f (ac_members db)" by simp
  have hit: "\<exists>x \<in> set (map ?f (ac_members db)). mr_org x = mr_org n \<and> mr_role x = mr_role (?f n)"
    if "n \<in> set (ac_members db)" for n
  proof (rule bexI)
    show "?f n \<in> set (map ?f (ac_members db))" unfolding set_map using that by (rule imageI)
  qed simp
  show ?thesis unfolding owned_def all_owned_def u(2) eq
  proof
    fix r assume r: "r \<in> set (ac_orgs db)"
    with assms(1) obtain m where m: "m \<in> set (ac_members db)" "mr_org m = or_id r" "mr_role m = RoleOwner"
      by (auto simp: owned_def all_owned_def)
    show "\<exists>x \<in> set (map ?f (ac_members db)). mr_org x = or_id r \<and> mr_role x = RoleOwner"
    proof (cases "mr_org m = tn_org t \<and> mr_user m = who \<and> role \<noteq> RoleOwner")
      case True
      with assms(6) m obtain n where n: "n \<in> set (ac_members db)" "mr_org n = tn_org t" "mr_role n = RoleOwner"
        and other: "mr_user n \<noteq> who"
        unfolding would_leave_members [OF assms(3)] by auto
      have fix_n: "?f n = n" using other by simp
      have "mr_org n = or_id r" using True m(2) n(2) by simp
      with hit [OF n(1), unfolded fix_n] n(3) show ?thesis by simp
    next
      case False
      with m have "mr_role (?f m) = RoleOwner" by auto
      with hit [OF m(1)] m(2) show ?thesis by simp
    qed
  qed
qed


section \<open>Every request\<close>

lemma get_current_user_steps:
  assumes "get_current_user E prof t c oid db = Inr (u, db')"
  obtains (arrived) db1 b db2 s where "record_identity E t c db = Inr db1"
      "provision_personal E t oid (plan_for s []) db1 = Inr (b, db2)" "record_identity E t s db2 = Inr db'"
      "memberships t db1 = []" "memberships t db' \<noteq> []"
  | (known) db1 ms where "record_identity E t c db = Inr db1" "memberships t db1 \<noteq> []"
      "repair_subject_named E prof t c (memberships t db1) db1 = Some (ms, db')"
proof -
  from assms obtain db1 where 1: "record_identity E t c db = Inr db1"
    by (auto simp: get_current_user_def split: sum.splits)
  show ?thesis
  proof (cases "memberships t db1 = []")
    case True
    with assms 1 obtain b db2 where "provision_personal E t oid (plan_for (with_profile prof c) []) db1 = Inr (b, db2)"
      "record_identity E t (with_profile prof c) db2 = Inr db'" "memberships t db' \<noteq> []"
      by (auto simp: get_current_user_def Let_def plan_for_def split: sum.splits if_splits)
    with 1 True show ?thesis by (intro arrived)
  next
    case False
    with assms 1 obtain ms where "repair_subject_named E prof t c (memberships t db1) db1 = Some (ms, db')"
      by (auto simp: get_current_user_def Let_def plan_for_def split: sum.splits if_splits option.splits)
    with 1 False show ?thesis by (intro known)
  qed
qed

lemma repair_subject_namedD:
  assumes "repair_subject_named E prof t s ms db = Some (ms', db')"
  obtains (same) "db' = db" | (repaired) db1 s' where "renames db db1" "record_identity E t s' db1 = Inr db'"
    | (missed) "renames db db'"
  using assms
  by (auto simp: repair_subject_named_def Let_def split: if_splits sum.splits prod.splits bool.splits
      dest: rename_personalD)

lemma get_current_user_inv:
  assumes "get_current_user E prof t c oid db = Inr (u, db')" and "access_inv db"
  shows "access_inv db'" and "owned db \<Longrightarrow> owned db'"
proof -
  have "access_inv db' \<and> (owned db \<longrightarrow> owned db')"
    using assms(1)
  proof (cases rule: get_current_user_steps)
    case (arrived db1 b db2 s)
    note f = frame_inv [OF record_identity_frame [OF arrived(1)]] frame_inv [OF record_identity_frame [OF arrived(3)]]
    have role: "pl_role (plan_for s []) = RoleOwner" by (simp add: plan_for_def)
    from arrived(2) role show ?thesis
    proof (cases rule: provision_personalD)
      case there
      with f assms(2) show ?thesis by simp
    next
      case (made r m)
      with founded_inv [OF made(2) _ made(6)] f assms(2) show ?thesis by simp
    qed
  next
    case (known db1 ms)
    note f = frame_inv [OF record_identity_frame [OF known(1)]]
    from known(3) show ?thesis
    proof (cases rule: repair_subject_namedD)
      case same
      with f assms(2) show ?thesis by simp
    next
      case (repaired db2 s')
      with f renames_inv [OF repaired(1)] frame_inv [OF record_identity_frame [OF repaired(2)]] assms(2)
      show ?thesis by simp
    next
      case missed
      with f renames_inv [OF missed] assms(2) show ?thesis by simp
    qed
  qed
  then show "access_inv db'" and "owned db \<Longrightarrow> owned db'" by simp_all
qed

lemma create_call_inv:
  assumes "create_call E t oid name db = Inr (j, db')" and "access_inv db"
  shows "access_inv db'" and "owned db \<Longrightarrow> owned db'"
proof -
  from assms(1) obtain n where "create_organisation E t oid n db = Inr (j, db')"
    by (auto simp: create_call_def split: sum.splits)
  then obtain r m where r: "founded db r m" "or_personal r = None" "or_name r = n" "mr_user m = tn_user t"
    "db' = db\<lparr>ac_orgs := ac_orgs db @ [r], ac_members := ac_members db @ [m]\<rparr>"
    by (rule create_organisationD)
  from founded_inv [OF r(1) assms(2) r(5)] show "access_inv db'" and "owned db \<Longrightarrow> owned db'" by blast+
qed

lemma rename_call_inv:
  assumes "rename_call E t name db = Inr (j, db')"
  shows "access_inv db' = access_inv db" and "owned db' = owned db"
proof -
  from assms obtain n where "rename_organisation E t n db = Inr (j, db')"
    by (auto simp: rename_call_def split: sum.splits option.splits store_fault.splits)
  from renames_inv [OF rename_organisationD [OF this]]
  show "access_inv db' = access_inv db" and "owned db' = owned db" .
qed

lemma role_callD:
  assumes "role_call E t who role db = Inr (m, db')"
  shows "tn_role t = RoleOwner" and "set_member_role E t who role db = Inr db'"
    and "\<not> would_leave_no_owner (members t db) who role" and "m \<in> set (members t db')" and "mem_user m = who"
  using assms
  by (auto simp: role_call_def role_check_def require_owner_def refuse_if_last_owner_def role_write_def
      split: option.splits if_splits sum.splits dest: find_SomeD)

lemma remove_callD:
  assumes "remove_call E t who db = Inr db'"
  shows "tn_role t = RoleOwner" and "remove_member E t who db = Inr db'"
    and "\<not> would_leave_no_owner (members t db) who []"
  using assms
  by (auto simp: remove_call_def remove_check_def require_owner_def refuse_if_last_owner_def remove_write_def
      split: option.splits if_splits sum.splits)

lemma invite_callD:
  assumes "invite_call E parse base t iid oid random raw role db = Inr (i, db')"
  obtains db1 where "create_invitation E t iid (trim_space raw) role (new_invitation_token random) db = Inr (i, db1)"
    "frame db1 db'" "tn_role t = RoleOwner"
proof -
  from assms obtain name db1 where
    "create_invitation E t iid (trim_space raw) role (new_invitation_token random) db = Inr (i, db1)"
    "enqueue_message t oid (invitation (trim_space raw) name (invitation_link base (new_invitation_token random))
       invitation_days) db1 = Inr db'" "tn_role t = RoleOwner"
    by (auto simp: invite_call_def require_owner_def Let_def split: if_splits option.splits sum.splits)
  with enqueue_message_frame show ?thesis by (metis that)
qed

lemma accept_callD:
  assumes "accept_call E prof t c token db = Inr (j, db')"
  obtains email where "caller_address prof c = (email, True)" "token \<noteq> []" "email \<noteq> []"
    "redeem E t (hash_invitation_token E token) email db = Some (om_org j, db')"
    "role_in db' (om_org j) (tn_user t) = Some (om_role j)"
  using assms
  by (auto simp: accept_call_def accept_invitation_def
      split: prod.splits if_splits sum.splits store_fault.splits option.splits)

lemma access_step_inv: "access_step E ids db db' \<Longrightarrow> access_inv db \<Longrightarrow> access_inv db'"
proof (induction rule: access_step.induct)
  case (signed_in user req now db t prof c oid u db')
  then show ?case by (blast intro: get_current_user_inv)
next
  case (created user req now db t oid name j db')
  then show ?case by (blast intro: create_call_inv)
next
  case (renamed user req now db t name j db')
  then show ?case by (simp add: rename_call_inv)
next
  case (role_changed user req now db t who role m db')
  then show ?case by (blast intro: set_member_role_inv role_callD)
next
  case (removed user req now db t who db')
  then show ?case by (blast intro: remove_member_inv remove_callD)
next
  case (invited user req now db t parse base iid oid random email role i db')
  from invited.hyps(2) show ?case
    by (rule invite_callD) (use invited.prems in \<open>auto dest: create_invitation_inv frame_inv\<close>)
next
  case (accepted user req now db t prof c token j db')
  from accepted.hyps(2) show ?case
    by (rule accept_callD) (use accepted.prems in \<open>auto dest: redeem_inv\<close>)
qed

lemma access_step_owned:
  assumes "access_step E ids db db'" and "access_inv db" and "\<And>s. ids s \<Longrightarrow> pg_uuid E s = Some s"
  shows "owned db \<Longrightarrow> owned db'"
  using assms(1,2)
proof (induction rule: access_step.induct)
  case (signed_in user req now db t prof c oid u db')
  then show ?case by (blast intro: get_current_user_inv)
next
  case (created user req now db t oid name j db')
  then show ?case by (blast intro: create_call_inv)
next
  case (renamed user req now db t name j db')
  then show ?case by (simp add: rename_call_inv)
next
  case (role_changed user req now db t who role m db')
  note r = role_callD [OF role_changed.hyps(3)]
  have "role_in db (tn_org t) (tn_user t) \<noteq> None"
    using owner_begins [OF role_changed.hyps(1) role_changed.prems(2) r(1)] by simp
  from demotion_owned [OF role_changed.prems this r(2) assms(3) [OF role_changed.hyps(2)] r(3)]
  show ?case .
next
  case (removed user req now db t who db')
  note r = remove_callD [OF removed.hyps(3)]
  have "role_in db (tn_org t) (tn_user t) \<noteq> None"
    using owner_begins [OF removed.hyps(1) removed.prems(2) r(1)] by simp
  from removal_owned [OF removed.prems this r(2) assms(3) [OF removed.hyps(2)] r(3)]
  show ?case .
next
  case (invited user req now db t parse base iid oid random email role i db')
  from invited.hyps(2) show ?case
    by (rule invite_callD) (use invited.prems in \<open>auto dest: create_invitation_inv frame_inv\<close>)
next
  case (accepted user req now db t prof c token j db')
  from accepted.hyps(2) show ?case
    by (rule accept_callD) (use accepted.prems in \<open>auto dest: redeem_inv\<close>)
qed

lemma no_organisations_inv: "no_organisations db \<Longrightarrow> access_inv db \<and> owned db"
  by (simp add: no_organisations_def access_inv_def owned_def tables_ok_def all_owned_def)

interpretation access: transition_invariant no_organisations "access_step E ids" access_inv for E ids
  by unfold_locales (auto simp: no_organisations_inv intro: access_step_inv)

lemma access_reachable_inv: "access_reachable E ids db \<Longrightarrow> access_inv db"
  by (auto simp: access_reachable_def intro: access.inv_reachable)

lemma access_reachable_owned:
  assumes "access_reachable E ids db" and "\<And>s. ids s \<Longrightarrow> pg_uuid E s = Some s"
  shows "owned db"
proof -
  from assms(1) obtain db0 where start: "no_organisations db0" and "(access_step E ids)\<^sup>*\<^sup>* db0 db"
    by (auto simp: access_reachable_def)
  from this(2) show ?thesis
  proof (induction rule: rtranclp_induct)
    case base
    show ?case using no_organisations_inv [OF start] ..
  next
    case (step db1 db2)
    from access.inv_reachable [OF start step.hyps(1)] step show ?case
      by (blast intro: access_step_owned assms(2))
  qed
qed

end
