(* ===== verification/Org_Claims.thy ===== *)
theory Org_Claims
  imports Org_Life
begin

text \<open>
  What the membership surface promises, and where it breaks: the properties of the calls of
  \<^theory_text>\<open>Org_Service\<close>, with runs of them as witnesses.
\<close>

section \<open>An environment for the runs\<close>

text \<open>
  A database that reads a uuid in either case and answers it in lower case and takes any bytes as
  text, and a hash that keeps its argument.
\<close>

definition lower_uuid :: "string \<Rightarrow> string option" where
  "lower_uuid s = Some (map ascii_lower_char s)"

definition plain_pg :: pg_env where
  "plain_pg = \<lparr>pg_uuid = lower_uuid, go_uuid = lower_uuid, pg_text = (\<lambda>_. True), pg_lower = map ascii_lower_char,
     org_slug = (\<lambda>name n. name), sha256 = id\<rparr>"

definition web_url :: "string \<Rightarrow> (string \<times> string) option" where
  "web_url s = Some (''https'', s)"

definition claims_of :: "string \<Rightarrow> subject_claims" where
  "claims_of u = \<lparr>sj_issuer = ''idp'', sj_subject = u, sj_email = u @ ''@x'', sj_name = u, sj_verified = True\<rparr>"

text \<open>
  Ada signs in and gets an organisation; she invites Bob to it as an owner, and he accepts.  The
  tables as each call leaves them:
\<close>

definition org_empty :: access_db where
  "org_empty = \<lparr>ac_orgs = [], ac_members = [], ac_invites = [], ac_identities = [], ac_audit = [],
     ac_subs = [], ac_outbox = []\<rparr>"

definition org_one :: access_db where
  "org_one =
     \<lparr>ac_orgs = [\<lparr>or_id = ''o1'', or_name = ''ada'', or_slug = ''ada'', or_personal = Some ''ada'', or_at = 1\<rparr>],
      ac_members = [\<lparr>mr_org = ''o1'', mr_user = ''ada'', mr_role = ''owner'', mr_at = 1\<rparr>],
      ac_invites = [],
      ac_identities = [\<lparr>idn_user = ''ada'', idn_issuer = ''idp'', idn_subject = ''ada'',
        idn_email = Some ''ada@x'', idn_name = Some ''ada'', idn_verified = True\<rparr>],
      ac_audit = [], ac_subs = [], ac_outbox = []\<rparr>"

definition bob_invite :: invite_row where
  "bob_invite = \<lparr>inv_id = ''i1'', inv_org = ''o1'', inv_email = ''bob@x'', inv_role = ''owner'', inv_hash = ''64473972'',
     inv_by = ''ada'', inv_expires = 604800000000002, inv_accepted = None\<rparr>"

definition org_two :: "outbox_row list \<Rightarrow> access_db" where
  "org_two out = org_one\<lparr>ac_invites := [bob_invite],
     ac_audit := [\<lparr>ax_org = ''o1'', ax_user = ''ada'', ax_role = Some ''owner'', ax_action = ''invite_member'',
       ax_table = ''invitations'', ax_target = Some ''i1'', ax_before = None,
       ax_after = Some [(''email'', ''bob@x''), (''role'', ''owner'')], ax_at = 2\<rparr>], ac_outbox := out\<rparr>"

definition org_three :: "outbox_row list \<Rightarrow> access_db" where
  "org_three out = (org_two out)\<lparr>
     ac_members := ac_members org_one @ [\<lparr>mr_org = ''o1'', mr_user = ''bob'', mr_role = ''owner'', mr_at = 3\<rparr>],
     ac_invites := [bob_invite\<lparr>inv_accepted := Some (3, ''bob'')\<rparr>],
     ac_audit := ac_audit (org_two out) @
       [\<lparr>ax_org = ''o1'', ax_user = ''bob'', ax_role = Some ''owner'', ax_action = ''accept_invitation'',
         ax_table = ''invitations'', ax_target = Some ''i1'', ax_before = None,
         ax_after = Some [(''role'', ''owner'')], ax_at = 3\<rparr>]\<rparr>"

definition new_caller :: "string \<Rightarrow> instant \<Rightarrow> tenant" where
  "new_caller u now = \<lparr>tn_user = u, tn_org = noOrganisation, tn_role = [], tn_now = now\<rparr>"

definition owner_of_o1 :: "string \<Rightarrow> instant \<Rightarrow> tenant" where
  "owner_of_o1 u now = \<lparr>tn_user = u, tn_org = ''o1'', tn_role = RoleOwner, tn_now = now\<rparr>"

lemma run_sign_in:
  "begin_tenant plain_pg ''ada'' [] 1 org_empty = Inr (new_caller ''ada'' 1)"
  "\<exists>u. get_current_user plain_pg None (new_caller ''ada'' 1) (claims_of ''ada'') ''o1'' org_empty = Inr (u, org_one)"
proof -
  show "begin_tenant plain_pg ''ada'' [] 1 org_empty = Inr (new_caller ''ada'' 1)" by code_simp
  have "map_sum id snd (get_current_user plain_pg None (new_caller ''ada'' 1) (claims_of ''ada'') ''o1'' org_empty) = Inr org_one"
    by code_simp
  then show "\<exists>u. get_current_user plain_pg None (new_caller ''ada'' 1) (claims_of ''ada'') ''o1'' org_empty = Inr (u, org_one)"
    by (cases "get_current_user plain_pg None (new_caller ''ada'' 1) (claims_of ''ada'') ''o1'' org_empty") auto
qed

definition bob_message :: outbox_row where
  "bob_message =
     (let msg = invitation ''bob@x'' ''ada'' ''kl/invite/dG9r'' 7
      in \<lparr>ob_id = ''m1'', ob_org = ''o1'', ob_kind = ms_kind msg, ob_channel = ChannelEmail, ob_email = ms_email msg,
          ob_chat = ms_chat msg, ob_subject = ms_subject msg, ob_text = ms_text msg, ob_html = None,
          ob_status = ''pending'', ob_attempts = 0, ob_error = None, ob_created = 2, ob_sent = None, ob_redacted = None\<rparr>)"

lemma run_invite:
  "begin_tenant plain_pg ''ada'' [] 2 org_one = Inr (owner_of_o1 ''ada'' 2)"
  "invite_call plain_pg web_url ''kl'' (owner_of_o1 ''ada'' 2) ''i1'' ''m1'' ''tok'' ''bob@x'' RoleOwner org_one
     = Inr (bob_invite, org_two [bob_message])"
  by code_simp+

lemma run_accept:
  "begin_tenant plain_pg ''bob'' [] 3 (org_two out) = Inr (new_caller ''bob'' 3)"
  "accept_call plain_pg None (new_caller ''bob'' 3) (claims_of ''bob'') ''dG9r'' (org_two out)
     = Inr (\<lparr>om_org = ''o1'', om_name = ''ada'', om_slug = ''ada'', om_role = RoleOwner\<rparr>, org_three out)"
  by code_simp+

lemma org_empty_start: "no_organisations org_empty"
  by (simp add: no_organisations_def org_empty_def)

lemma run_reach_one: "access_reachable plain_pg ids org_one"
proof -
  from run_sign_in(2) obtain u where
    "get_current_user plain_pg None (new_caller ''ada'' 1) (claims_of ''ada'') ''o1'' org_empty = Inr (u, org_one)" ..
  then have "access_step plain_pg ids org_empty org_one" by (rule access_step.signed_in [OF run_sign_in(1)])
  with org_empty_start show ?thesis unfolding access_reachable_def by blast
qed

lemma access_reachable_step: "access_reachable E ids db \<Longrightarrow> access_step E ids db db' \<Longrightarrow> access_reachable E ids db'"
  unfolding access_reachable_def by (meson rtranclp.rtrancl_into_rtrancl)

lemma run_reach_two: "access_reachable plain_pg ids (org_two [bob_message])"
  by (rule access_reachable_step [OF run_reach_one access_step.invited [OF run_invite]])

lemma run_reach_three: "access_reachable plain_pg ids (org_three [bob_message])"
  by (rule access_reachable_step [OF run_reach_two access_step.accepted [OF run_accept]])

section \<open>An owner in every organisation\<close>

text \<open>
  C3: No organisation is ever left without an owner, as long as requests are carried out one
  after another and name a member by the id the database gives out: in every state that sign-ins,
  creations, renames, role changes, removals, invitations and acceptances reach, each organisation
  has a member who is its owner.
\<close>

theorem always_an_owner:
  assumes "access_reachable E ids db" and "\<forall>s. ids s \<longrightarrow> pg_uuid E s = Some s" and "r \<in> set (ac_orgs db)"
  shows "\<exists>m \<in> set (ac_members db). mr_org m = or_id r \<and> mr_role m = RoleOwner"
  using access_reachable_owned [OF assms(1)] assms(2,3) by (auto simp: owned_def all_owned_def)

theorem always_an_owner_witness:
  "\<exists>m \<in> set (ac_members (org_three [bob_message])). mr_org m = ''o1'' \<and> mr_role m = RoleOwner"
proof -
  have r: "\<lparr>or_id = ''o1'', or_name = ''ada'', or_slug = ''ada'', or_personal = Some ''ada'', or_at = 1\<rparr>
      \<in> set (ac_orgs (org_three [bob_message]))"
    by (simp add: org_three_def org_two_def org_one_def)
  have "\<forall>s. s \<in> {''ada'', ''bob''} \<longrightarrow> pg_uuid plain_pg s = Some s"
    by (simp add: plain_pg_def lower_uuid_def ascii_lower_char_def)
  from always_an_owner [OF run_reach_three this r] show ?thesis by simp
qed

text \<open>
  The rule against removing the last owner reads the id as text and the database reads it as a
  uuid: an owner who is the only one left is removed by the same call when the id is spelled in any
  other way the database takes for the same uuid, and the organisation is left with no owner.
\<close>

theorem respelled_id_removes_the_last_owner:
  assumes "access_inv db" and "tn_role t = RoleOwner"
    and "role_in db (tn_org t) (tn_user t) = Some RoleOwner"
    and "\<forall>m \<in> set (ac_members db). mr_org m = tn_org t \<and> mr_role m = RoleOwner \<longrightarrow> mr_user m = tn_user t"
    and "pg_uuid E spelling = Some (tn_user t)" and "\<forall>m \<in> set (ac_members db). mr_user m \<noteq> spelling"
  shows "\<exists>db'. remove_call E t spelling db = Inr db'
    \<and> \<not> (\<exists>m \<in> set (ac_members db'). mr_org m = tn_org t \<and> mr_role m = RoleOwner)"
proof -
  have "role_in db (tn_org t) (tn_user t) \<noteq> None" using assms(3) by simp
  then have "remove_check t spelling db = None"
    using assms(2,6) by (auto simp: remove_check_def require_owner_def refuse_if_last_owner_def would_leave_members)
  then show ?thesis
    using assms(3,4,5)
    by (auto simp: remove_call_def remove_write_def remove_member_def locked_role_def record_change_def)
qed

theorem respelled_id_removes_the_last_owner_witness:
  "\<exists>db'. remove_call plain_pg (owner_of_o1 ''ada'' 2) ''Ada'' org_one = Inr db'
    \<and> \<not> (\<exists>m \<in> set (ac_members db'). mr_org m = ''o1'' \<and> mr_role m = RoleOwner)"
proof -
  have inv: "access_inv org_one" by (rule access_reachable_inv [OF run_reach_one])
  have owner: "tn_role (owner_of_o1 ''ada'' 2) = RoleOwner" by (simp add: owner_of_o1_def)
  have role: "role_in org_one (tn_org (owner_of_o1 ''ada'' 2)) (tn_user (owner_of_o1 ''ada'' 2)) = Some RoleOwner"
    by code_simp
  have spelled: "pg_uuid plain_pg ''Ada'' = Some (tn_user (owner_of_o1 ''ada'' 2))" by code_simp
  show ?thesis
    using respelled_id_removes_the_last_owner [OF inv owner role _ spelled]
    by (simp add: org_one_def owner_of_o1_def)
qed

lemma find_filter_keeps: "(\<And>x. P x \<Longrightarrow> Q x) \<Longrightarrow> find P (filter Q xs) = find P xs"
  by (induction xs) auto

text \<open>
  C37: Reading the list and removing in one transaction does not keep the last owner: two owners
  whose removals of themselves both read the list before either writes are both told they may
  leave, both removals commit, and nobody owns the organisation.
\<close>

theorem two_owners_leave_together:
  assumes "access_inv db" and "tn_org t = tn_org s" and "tn_user t \<noteq> tn_user s"
    and "tn_role t = RoleOwner" and "tn_role s = RoleOwner"
    and "role_in db (tn_org t) (tn_user t) = Some RoleOwner" and "role_in db (tn_org s) (tn_user s) = Some RoleOwner"
    and "\<forall>m \<in> set (ac_members db). mr_org m = tn_org t \<and> mr_role m = RoleOwner \<longrightarrow> mr_user m \<in> {tn_user t, tn_user s}"
    and "pg_uuid E (tn_user t) = Some (tn_user t)" and "pg_uuid E (tn_user s) = Some (tn_user s)"
  shows "remove_check t (tn_user t) db = None \<and> remove_check s (tn_user s) db = None
    \<and> (\<exists>db1 db2. remove_write E t (tn_user t) db = Inr db1 \<and> remove_write E s (tn_user s) db1 = Inr db2
        \<and> \<not> (\<exists>m \<in> set (ac_members db2). mr_org m = tn_org t \<and> mr_role m = RoleOwner))"
proof -
  from assms(6) obtain m where m: "m \<in> set (ac_members db)" "mr_org m = tn_org t" "mr_user m = tn_user t" "mr_role m = RoleOwner"
    by (rule role_in_SomeD)
  from assms(7) obtain n where n: "n \<in> set (ac_members db)" "mr_org n = tn_org s" "mr_user n = tn_user s" "mr_role n = RoleOwner"
    by (rule role_in_SomeD)
  have may: "remove_check t (tn_user t) db = None" "remove_check s (tn_user s) db = None"
    using assms(2-7) m n
    by (auto simp: remove_check_def require_owner_def refuse_if_last_owner_def would_leave_members)
  let ?gone = "\<lambda>u. filter (\<lambda>m. \<not> (mr_org m = tn_org t \<and> mr_user m = u))"
  obtain db1 where w1: "remove_write E t (tn_user t) db = Inr db1"
    and m1: "ac_members db1 = ?gone (tn_user t) (ac_members db)"
    using assms(6,9) by (auto simp: remove_write_def remove_member_def locked_role_def record_change_def)
  have "role_in db1 (tn_org s) (tn_user s) = role_in db (tn_org s) (tn_user s)"
    unfolding role_in_def m1 using assms(3) by (subst find_filter_keeps) auto
  then obtain db2 where w2: "remove_write E s (tn_user s) db1 = Inr db2"
    and m2: "ac_members db2 = ?gone (tn_user s) (ac_members db1)"
    using assms(2,7,10) by (auto simp: remove_write_def remove_member_def locked_role_def record_change_def)
  have "\<not> (\<exists>m \<in> set (ac_members db2). mr_org m = tn_org t \<and> mr_role m = RoleOwner)"
    using assms(8) unfolding m2 m1 by auto
  with may w1 w2 show ?thesis by blast
qed

theorem two_owners_leave_together_witness:
  "\<exists>db1 db2. remove_write plain_pg (owner_of_o1 ''ada'' 4) ''ada'' (org_three []) = Inr db1
    \<and> remove_write plain_pg (owner_of_o1 ''bob'' 4) ''bob'' db1 = Inr db2
    \<and> \<not> (\<exists>m \<in> set (ac_members db2). mr_org m = ''o1'' \<and> mr_role m = RoleOwner)"
proof -
  let ?t = "owner_of_o1 ''ada'' 4" and ?s = "owner_of_o1 ''bob'' 4"
  have inv: "access_inv (org_three [])"
    using access_reachable_inv [OF run_reach_three] by (simp add: access_inv_def org_three_def org_two_def)
  have roles: "role_in (org_three []) (tn_org ?t) (tn_user ?t) = Some RoleOwner"
    "role_in (org_three []) (tn_org ?s) (tn_user ?s) = Some RoleOwner" by code_simp+
  have ids: "pg_uuid plain_pg (tn_user ?t) = Some (tn_user ?t)" "pg_uuid plain_pg (tn_user ?s) = Some (tn_user ?s)"
    by code_simp+
  have both: "tn_org ?t = tn_org ?s" "tn_user ?t \<noteq> tn_user ?s" "tn_role ?t = RoleOwner" "tn_role ?s = RoleOwner"
    by (simp_all add: owner_of_o1_def)
  have "\<forall>m \<in> set (ac_members (org_three [])). mr_org m = tn_org ?t \<and> mr_role m = RoleOwner
      \<longrightarrow> mr_user m \<in> {tn_user ?t, tn_user ?s}"
    by (simp add: owner_of_o1_def org_three_def org_one_def)
  from two_owners_leave_together [OF inv both roles this ids] show ?thesis
    by (simp add: owner_of_o1_def)
qed

section \<open>Invitations\<close>

text \<open>An invitation's hash is never lost, and once accepted it stays accepted.\<close>

definition invites_kept :: "access_db \<Rightarrow> access_db \<Rightarrow> bool" where
  "invites_kept db db' \<longleftrightarrow> (\<forall>i \<in> set (ac_invites db). \<exists>j \<in> set (ac_invites db').
     inv_hash j = inv_hash i \<and> (inv_accepted i \<noteq> None \<longrightarrow> inv_accepted j \<noteq> None))"

lemma invites_kept_same: "ac_invites db' = ac_invites db \<Longrightarrow> invites_kept db db'"
  unfolding invites_kept_def by auto

lemma invites_kept_map:
  assumes "ac_invites db' = map f (ac_invites db)"
    and "\<And>i. inv_hash (f i) = inv_hash i \<and> (inv_accepted i \<noteq> None \<longrightarrow> inv_accepted (f i) \<noteq> None)"
  shows "invites_kept db db'"
  unfolding invites_kept_def assms(1)
proof
  fix i assume "i \<in> set (ac_invites db)"
  then show "\<exists>j \<in> set (map f (ac_invites db)). inv_hash j = inv_hash i \<and> (inv_accepted i \<noteq> None \<longrightarrow> inv_accepted j \<noteq> None)"
    using assms(2) [of i] by (intro bexI [of _ "f i"]) simp_all
qed

lemma get_current_user_invites:
  assumes "get_current_user E prof t c oid db = Inr (u, db')"
  shows "ac_invites db' = ac_invites db"
  using assms
proof (cases rule: get_current_user_steps)
  case (arrived db1 b db2 s)
  have "ac_invites db2 = ac_invites db1"
    by (rule provision_personalD [OF arrived(2)]) (simp_all add: plan_for_def)
  with record_identity_frame [OF arrived(1)] record_identity_frame [OF arrived(3)] show ?thesis
    by (simp add: frame_def)
next
  case (known db1 ms)
  from known(3) have "ac_invites db' = ac_invites db1"
    by (cases rule: repair_subject_namedD) (auto simp: renames_def frame_def dest: record_identity_frame)
  with record_identity_frame [OF known(1)] show ?thesis by (simp add: frame_def)
qed

lemma access_step_invites:
  assumes "access_step E ids db db'"
  shows "invites_kept db db'"
  using assms
proof (induction rule: access_step.induct)
  case (signed_in user req now db t prof c oid u db')
  then show ?case by (intro invites_kept_same get_current_user_invites)
next
  case (created user req now db t oid name j db')
  from created.hyps(2) obtain n where "create_organisation E t oid n db = Inr (j, db')"
    by (auto simp: create_call_def split: sum.splits)
  then show ?case by (rule create_organisationD) (simp add: invites_kept_same)
next
  case (renamed user req now db t name j db')
  from renamed.hyps(2) obtain n where "rename_organisation E t n db = Inr (j, db')"
    by (auto simp: rename_call_def split: sum.splits option.splits store_fault.splits)
  from rename_organisationD [OF this] show ?case by (simp add: renames_def invites_kept_same)
next
  case (role_changed user req now db t who role m db')
  from role_callD(2) [OF role_changed.hyps(3)] show ?case by (rule set_member_roleD) (rule invites_kept_same)
next
  case (removed user req now db t who db')
  from remove_callD(2) [OF removed.hyps(3)] show ?case by (rule remove_memberD) (rule invites_kept_same)
next
  case (invited user req now db t parse base iid oid random email role i db')
  from invited.hyps(2) show ?case
  proof (rule invite_callD)
    fix db1 assume "create_invitation E t iid (trim_space email) role (new_invitation_token random) db = Inr (i, db1)"
      and "frame db1 db'"
    then have "ac_invites db' = ac_invites db @ [i]" by (simp add: create_invitationD(3) frame_def)
    then show ?thesis by (auto simp: invites_kept_def)
  qed
next
  case (accepted user req now db t prof c token j db')
  from accepted.hyps(2) show ?case
  proof (rule accept_callD)
    fix email assume "redeem E t (hash_invitation_token E token) email db = Some (om_org j, db')"
    then show ?thesis by (rule redeemD) (erule invites_kept_map, simp)
  qed
qed

definition spent :: "string \<Rightarrow> access_db \<Rightarrow> bool" where
  "spent h db \<longleftrightarrow> (\<exists>i \<in> set (ac_invites db). inv_hash i = h \<and> inv_accepted i \<noteq> None)"

lemma spent_steps: "(access_step E ids)\<^sup>*\<^sup>* db db' \<Longrightarrow> spent h db \<Longrightarrow> spent h db'"
proof (induction rule: rtranclp_induct)
  case (step db1 db2)
  then show ?case using access_step_invites unfolding spent_def invites_kept_def by metis
qed simp

lemma redeem_spends:
  assumes "redeem E t h email db = Some (org, db')"
  shows "spent h db'"
  using assms
proof (rule redeemD)
  let ?f = "\<lambda>i j. if inv_id j = inv_id i then j\<lparr>inv_accepted := Some (tn_now t, tn_user t)\<rparr> else j"
  fix i assume i: "i \<in> set (ac_invites db)" "usable E h email (tn_now t) i"
    and eq: "ac_invites db' = map (?f i) (ac_invites db)"
  have "?f i i \<in> set (ac_invites db')" unfolding eq set_map using i(1) by (rule imageI)
  with i(2) show ?thesis unfolding spent_def by (intro bexI [of _ "?f i i"]) (simp_all add: usable_def)
qed

lemma spent_refused:
  assumes "access_inv db" and "spent h db"
  shows "redeem E t h email db = None"
proof -
  have "\<not> usable E h email (tn_now t) i" if "i \<in> set (ac_invites db)" for i
    using assms that by (auto simp: spent_def usable_def access_inv_def tables_ok_def distinct_map inj_on_def)
  then show ?thesis by (auto simp: redeem_def find_None_iff split: option.splits dest: find_SomeD)
qed

text \<open>
  C8: An invitation works once: after somebody has redeemed a token, no later call with it is
  answered with anything but a refusal, whoever makes it, at whatever time and with whatever
  address, whatever requests were carried out in between.
\<close>

theorem invitation_works_once:
  assumes "access_reachable E ids db" and "begin_tenant E user req now db = Inr t"
    and "accept_call E prof t c token db = Inr (j, db1)" and "(access_step E ids)\<^sup>*\<^sup>* db1 db2"
  shows "isl (accept_call E prof' t' c' token db2)"
proof -
  have step: "access_step E ids db db1" by (rule access_step.accepted [OF assms(2,3)])
  from assms(1,4) step have reach: "access_reachable E ids db2"
    unfolding access_reachable_def by (meson rtranclp.rtrancl_into_rtrancl rtranclp_trans)
  let ?h = "hash_invitation_token E token"
  from assms(3) have "spent ?h db1" by (rule accept_callD) (rule redeem_spends)
  then have "spent ?h db2" by (rule spent_steps [OF assms(4)])
  then have none: "redeem E t' ?h email db2 = None" for email
    by (rule spent_refused [OF access_reachable_inv [OF reach]])
  show ?thesis
    by (auto simp: accept_call_def accept_invitation_def none split: prod.split)
qed

theorem invitation_works_once_witness:
  "isl (accept_call plain_pg None (new_caller ''bob'' 9) (claims_of ''bob'') ''dG9r'' (org_three [bob_message]))"
  by (rule invitation_works_once [where ids = "\<lambda>_. True", OF run_reach_two run_accept rtranclp.rtrancl_refl])

text \<open>
  C38: An invitation admits the person it names and nobody else: an acceptance goes through only
  for a caller whose verified address is the one the invitation was sent to, on an invitation of
  that token which is neither accepted nor expired, and what it changes of the memberships is at
  most the caller's own, given the role of the invitation when they had none.
\<close>

theorem invitation_admits_the_invited:
  assumes "access_inv db" and "accept_call E prof t c token db = Inr (j, db')"
  shows "\<exists>i \<in> set (ac_invites db). \<exists>email.
      caller_address prof c = (email, True)
      \<and> pg_lower E (inv_email i) = pg_lower E (btrim_space email)
      \<and> inv_hash i = hash_invitation_token E token \<and> inv_accepted i = None \<and> tn_now t < inv_expires i
      \<and> om_org j = inv_org i
      \<and> (\<forall>org user. role_in db' org user =
           (if org = inv_org i \<and> user = tn_user t \<and> role_in db org user = None
            then Some (inv_role i) else role_in db org user))"
  using assms(2)
proof (rule accept_callD)
  fix email assume addr: "caller_address prof c = (email, True)"
    and red: "redeem E t (hash_invitation_token E token) email db = Some (om_org j, db')"
  from red obtain i where i: "i \<in> set (ac_invites db)" "usable E (hash_invitation_token E token) email (tn_now t) i"
    "om_org j = inv_org i" and m: "ac_members db' = ac_members (join_once i (tn_user t) (tn_now t) db)" by (rule redeemD)
  have app: "find P (xs @ [x]) = (case find P xs of None \<Rightarrow> if P x then Some x else None | Some y \<Rightarrow> Some y)"
    for P and xs :: "member_row list" and x by (induction xs) auto
  have "role_in db' org user = (if org = inv_org i \<and> user = tn_user t \<and> role_in db org user = None
            then Some (inv_role i) else role_in db org user)" for org user
    by (auto simp: role_in_def m join_once_def app split: option.splits)
  with i addr show ?thesis by (auto simp: usable_def)
qed

theorem invitation_admits_the_invited_witness:
  "\<exists>i \<in> set (ac_invites (org_two [])). \<exists>email. caller_address None (claims_of ''bob'') = (email, True)
     \<and> pg_lower plain_pg (inv_email i) = pg_lower plain_pg (btrim_space email)"
proof -
  have "access_inv (org_two [])"
    using access_reachable_inv [OF run_reach_two] by (simp add: access_inv_def org_two_def)
  from invitation_admits_the_invited [OF this run_accept(2)] show ?thesis by blast
qed

text \<open>
  The log can say a role that was never granted: when somebody who already belongs to the
  organisation redeems an invitation to it, their membership and role stay exactly as they were,
  the invitation is used up, and the audit row of the acceptance says the role the invitation
  offered.
\<close>

theorem acceptance_logs_the_offered_role:
  assumes "accept_call E prof t c token db = Inr (j, db')" and "role_in db (om_org j) (tn_user t) = Some role"
  shows "ac_members db' = ac_members db \<and> om_role j = role
    \<and> (\<exists>i \<in> set (ac_invites db). inv_hash i = hash_invitation_token E token
        \<and> ax_action (last (ac_audit db')) = ActionAcceptInvitation
        \<and> ax_after (last (ac_audit db')) = Some [(''role'', inv_role i)])"
  using assms(1)
proof (rule accept_callD)
  fix email assume red: "redeem E t (hash_invitation_token E token) email db = Some (om_org j, db')"
    and held: "role_in db' (om_org j) (tn_user t) = Some (om_role j)"
  from red obtain i where i: "find (usable E (hash_invitation_token E token) email (tn_now t)) (ac_invites db) = Some i"
    and org: "om_org j = inv_org i"
    by (auto simp: redeem_def Let_def split: if_splits option.splits)
  have in_db: "i \<in> set (ac_invites db)" "inv_hash i = hash_invitation_token E token"
    using find_SomeD [OF i] by (simp_all add: usable_def)
  from assms(2) org have same: "join_once i (tn_user t) (tn_now t) db = db" by (simp add: join_once_def)
  with red i org have m: "ac_members db' = ac_members db"
    and "ax_action (last (ac_audit db')) = ActionAcceptInvitation"
    "ax_after (last (ac_audit db')) = Some [(''role'', inv_role i)]"
    by (auto simp: redeem_def Let_def split: if_splits)
  with in_db held assms(2) show ?thesis by (auto simp: role_in_def)
qed

definition org_viewed :: access_db where
  "org_viewed = (org_two [])\<lparr>ac_members := ac_members org_one
     @ [\<lparr>mr_org = ''o1'', mr_user = ''bob'', mr_role = ''viewer'', mr_at = 2\<rparr>]\<rparr>"

theorem acceptance_logs_the_offered_role_witness:
  "\<exists>j db'. accept_call plain_pg None (new_caller ''bob'' 3) (claims_of ''bob'') ''dG9r'' org_viewed = Inr (j, db')
     \<and> om_role j = RoleViewer \<and> ax_after (last (ac_audit db')) = Some [(''role'', RoleOwner)]"
proof -
  have "\<not> isl (accept_call plain_pg None (new_caller ''bob'' 3) (claims_of ''bob'') ''dG9r'' org_viewed)" by code_simp
  then obtain j db' where a: "accept_call plain_pg None (new_caller ''bob'' 3) (claims_of ''bob'') ''dG9r'' org_viewed = Inr (j, db')"
    by (cases "accept_call plain_pg None (new_caller ''bob'' 3) (claims_of ''bob'') ''dG9r'' org_viewed") auto
  have "om_org (fst (projr (accept_call plain_pg None (new_caller ''bob'' 3) (claims_of ''bob'') ''dG9r'' org_viewed))) = ''o1''"
    by code_simp
  with a have org: "om_org j = ''o1''" by simp
  have "role_in org_viewed ''o1'' (tn_user (new_caller ''bob'' 3)) = Some RoleViewer" by code_simp
  with org have "role_in org_viewed (om_org j) (tn_user (new_caller ''bob'' 3)) = Some RoleViewer" by simp
  from acceptance_logs_the_offered_role [OF a this] a show ?thesis
    by (auto simp: org_viewed_def org_two_def bob_invite_def RoleOwner_def)
qed

section \<open>The log of who belongs\<close>

definition of_org :: "access_db \<Rightarrow> string \<Rightarrow> member_row list" where
  "of_org db org = filter (\<lambda>m. mr_org m = org) (ac_members db)"

definition logged_change :: "access_db \<Rightarrow> access_db \<Rightarrow> string \<Rightarrow> bool" where
  "logged_change db db' org \<longleftrightarrow> (\<exists>row. ac_audit db' = ac_audit db @ [row] \<and> ax_org row = org
     \<and> ax_action row \<in> {ActionChangeMemberRole, ActionRemoveMember, ActionAcceptInvitation} \<and> ax_role row \<noteq> None)"

lemma of_org_founded:
  assumes "founded db r m" and "db' = db\<lparr>ac_orgs := ac_orgs db @ [r], ac_members := ac_members db @ [m]\<rparr>"
    and "org \<in> or_id ` set (ac_orgs db)"
  shows "of_org db' org = of_org db org"
  using assms by (auto simp: of_org_def founded_def)

lemma get_current_user_of_org:
  assumes "get_current_user E prof t c oid db = Inr (u, db')" and "org \<in> or_id ` set (ac_orgs db)"
  shows "of_org db' org = of_org db org"
  using assms(1)
proof (cases rule: get_current_user_steps)
  case (arrived db1 b db2 s)
  note f = record_identity_frame [OF arrived(1)] record_identity_frame [OF arrived(3)]
  have "of_org db2 org = of_org db1 org"
    by (rule provision_personalD [OF arrived(2)])
      (use f(1) assms(2) in \<open>auto simp: plan_for_def frame_def intro!: of_org_founded\<close>)
  with f show ?thesis by (simp add: of_org_def frame_def)
next
  case (known db1 ms)
  from known(3) have "ac_members db' = ac_members db1"
    by (cases rule: repair_subject_namedD) (auto simp: renames_def frame_def dest: record_identity_frame)
  with record_identity_frame [OF known(1)] show ?thesis by (simp add: of_org_def frame_def)
qed

lemma filter_member_map:
  assumes "org \<noteq> o'"
  shows "filter (\<lambda>m. mr_org m = org) (map (\<lambda>m. if mr_org m = o' \<and> P m then m\<lparr>mr_role := r\<rparr> else m) ms)
    = filter (\<lambda>m. mr_org m = org) ms"
  using assms by (induction ms) auto

lemma set_member_role_logs:
  assumes "set_member_role E t who role db = Inr db'"
  shows "logged_change db db' (tn_org t)" and "org \<noteq> tn_org t \<Longrightarrow> of_org db' org = of_org db org"
proof -
  from assms obtain e db1 where c: "record_change t e db1 = Inr db'" "ae_action e = ActionChangeMemberRole"
    "ac_audit db1 = ac_audit db"
    by (auto simp: set_member_role_def split: option.splits if_splits)
  have "role_in db1 (tn_org t) (tn_user t) \<noteq> None" by (rule record_changeD(3) [OF c(1)])
  then show "logged_change db db' (tn_org t)"
    unfolding record_changeD(2) [OF c(1)] logged_change_def using c(2,3) by (simp add: audit_of_def)
  show "of_org db' org = of_org db org" if "org \<noteq> tn_org t"
    by (rule set_member_roleD [OF assms]) (simp add: of_org_def filter_member_map [OF that])
qed

lemma remove_member_logs:
  assumes "remove_member E t who db = Inr db'"
  shows "logged_change db db' (tn_org t)" and "org \<noteq> tn_org t \<Longrightarrow> of_org db' org = of_org db org"
proof -
  show "logged_change db db' (tn_org t)"
    using assms by (auto simp: remove_member_def record_change_def logged_change_def audit_of_def
        split: option.splits if_splits sum.splits)
  show "of_org db' org = of_org db org" if "org \<noteq> tn_org t"
    by (rule remove_memberD [OF assms]) (use that in \<open>auto simp: of_org_def intro!: filter_cong\<close>)
qed

lemma redeem_logs:
  assumes "redeem E t h email db = Some (org, db')"
  shows "logged_change db db' org" and "o' \<noteq> org \<Longrightarrow> of_org db' o' = of_org db o'"
proof -
  from assms obtain i where i: "find (usable E h email (tn_now t)) (ac_invites db) = Some i" and o: "org = inv_org i"
    by (auto simp: redeem_def Let_def split: if_splits option.splits)
  have "role_in (join_once i (tn_user t) (tn_now t) db) (inv_org i) (tn_user t) \<noteq> None"
    by (auto simp: join_once_def role_in_None)
  moreover have "ac_audit (join_once i (tn_user t) (tn_now t) db) = ac_audit db" by (simp add: join_once_def)
  ultimately show "logged_change db db' org"
    using assms i by (auto simp: redeem_def Let_def logged_change_def split: if_splits)
  show "of_org db' o' = of_org db o'" if "o' \<noteq> org"
    using assms i that by (auto simp: redeem_def Let_def of_org_def join_once_def split: if_splits)
qed

text \<open>
  C24: Who belongs to an organisation, and as what, never changes without the log saying so: a
  request that changes the memberships of an organisation that was already there appends exactly one
  row to the audit log, of that organisation, for a role change, a removal or an acceptance, with the
  role the person who made it held.
\<close>

theorem membership_changes_are_logged:
  assumes "access_step E ids db db'" and "org \<in> or_id ` set (ac_orgs db)" and "of_org db' org \<noteq> of_org db org"
  shows "\<exists>row. ac_audit db' = ac_audit db @ [row] \<and> ax_org row = org
     \<and> ax_action row \<in> {ActionChangeMemberRole, ActionRemoveMember, ActionAcceptInvitation} \<and> ax_role row \<noteq> None"
proof -
  have "of_org db' org = of_org db org \<or> logged_change db db' org"
    using assms(1,2)
  proof (induction rule: access_step.induct)
    case (signed_in user req now db t prof c oid u db')
    then show ?case by (blast intro: get_current_user_of_org)
  next
    case (created user req now db t oid name j db')
    from created.hyps(2) obtain n where "create_organisation E t oid n db = Inr (j, db')"
      by (auto simp: create_call_def split: sum.splits)
    then show ?case by (rule create_organisationD) (blast intro: of_org_founded created.prems)
  next
    case (renamed user req now db t name j db')
    from renamed.hyps(2) obtain n where "rename_organisation E t n db = Inr (j, db')"
      by (auto simp: rename_call_def split: sum.splits option.splits store_fault.splits)
    from rename_organisationD [OF this] show ?case by (simp add: renames_def of_org_def)
  next
    case (role_changed user req now db t who role m db')
    note l = set_member_role_logs(1) [OF role_callD(2) [OF role_changed.hyps(3)]] set_member_role_logs(2) [OF role_callD(2) [OF role_changed.hyps(3)], where org = org]
    show ?case using l by (cases "org = tn_org t") simp_all
  next
    case (removed user req now db t who db')
    note l = remove_member_logs(1) [OF remove_callD(2) [OF removed.hyps(3)]] remove_member_logs(2) [OF remove_callD(2) [OF removed.hyps(3)], where org = org]
    show ?case using l by (cases "org = tn_org t") simp_all
  next
    case (invited user req now db t parse base iid oid random email role i db')
    from invited.hyps(2) show ?case
      by (rule invite_callD) (auto simp: of_org_def frame_def dest: create_invitationD(2))
  next
    case (accepted user req now db t prof c token j db')
    from accepted.hyps(2) show ?case
    proof (rule accept_callD)
      fix email assume red: "redeem E t (hash_invitation_token E token) email db = Some (om_org j, db')"
      show ?thesis using redeem_logs(1) [OF red] redeem_logs(2) [OF red, where o' = org] by (cases "org = om_org j") simp_all
    qed
  qed
  with assms(3) show ?thesis by (simp add: logged_change_def)
qed

theorem membership_changes_are_logged_witness:
  "\<exists>row. ac_audit (org_three [bob_message]) = ac_audit (org_two [bob_message]) @ [row] \<and> ax_org row = ''o1''
     \<and> ax_action row \<in> {ActionChangeMemberRole, ActionRemoveMember, ActionAcceptInvitation} \<and> ax_role row \<noteq> None"
  by (rule membership_changes_are_logged [where ids = "\<lambda>_. True", OF access_step.accepted [OF run_accept]])
    (simp_all add: org_three_def org_two_def org_one_def of_org_def)

section \<open>Signing in\<close>

lemma memberships_Nil:
  assumes "access_inv db"
  shows "memberships t db = [] \<longleftrightarrow> (\<forall>m \<in> set (ac_members db). mr_user m \<noteq> tn_user t)"
proof
  assume nil: "memberships t db = []"
  show "\<forall>m \<in> set (ac_members db). mr_user m \<noteq> tn_user t"
  proof (intro ballI notI)
    fix m assume m: "m \<in> set (ac_members db)" "mr_user m = tn_user t"
    with assms obtain r where r: "r \<in> set (ac_orgs db)" "mr_org m = or_id r"
      unfolding access_inv_def tables_ok_def by blast
    have "role_in db (or_id r) (tn_user t) = Some (mr_role m)" using role_in_eq [OF assms m(1)] m(2) r(2) by simp
    moreover from nil r(1) have "joined_row db r (tn_user t) = []" by (simp add: memberships_def)
    ultimately show False by (simp add: joined_row_def)
  qed
next
  assume "\<forall>m \<in> set (ac_members db). mr_user m \<noteq> tn_user t"
  then have "role_in db org (tn_user t) = None" for org by (simp add: role_in_None)
  then show "memberships t db = []" by (simp add: memberships_def joined_row_def)
qed

text \<open>
  C25: Signing in gives a place to somebody who has none and nothing to anybody else: an answered
  sign-in of a person who belongs somewhere changes no membership and creates no organisation, and
  one of a person who belongs nowhere creates exactly one organisation, marked as theirs, with
  exactly one membership, theirs, as its owner.
\<close>

theorem sign_in_provisions_once:
  assumes "access_inv db" and "get_current_user E prof t c oid db = Inr (u, db')"
  shows "if \<exists>m \<in> set (ac_members db). mr_user m = tn_user t
    then ac_members db' = ac_members db \<and> map or_id (ac_orgs db') = map or_id (ac_orgs db)
    else \<exists>r m. ac_orgs db' = ac_orgs db @ [r] \<and> ac_members db' = ac_members db @ [m]
           \<and> or_personal r = Some (tn_user t) \<and> mr_org m = or_id r \<and> mr_user m = tn_user t \<and> mr_role m = RoleOwner"
  using assms(2)
proof (cases rule: get_current_user_steps)
  case (arrived db1 b db2 s)
  note f1 = record_identity_frame [OF arrived(1)] and f2 = record_identity_frame [OF arrived(3)]
  have inv1: "access_inv db1" using frame_inv [OF f1] assms(1) by simp
  have none: "\<forall>m \<in> set (ac_members db). mr_user m \<noteq> tn_user t"
    using memberships_Nil [OF inv1, of t] arrived(4) f1 by (simp add: frame_def)
  have inv': "access_inv db'" by (rule get_current_user_inv(1) [OF assms(2,1)])
  have "pl_role (plan_for s []) = RoleOwner" by (simp add: plan_for_def)
  with arrived(2) show ?thesis
  proof (cases rule: provision_personalD)
    case there
    with f1 f2 none have "memberships t db' = []" by (simp add: memberships_Nil [OF inv'] frame_def)
    with arrived(5) show ?thesis ..
  next
    case (made r m)
    with f1 f2 none show ?thesis by (auto simp: frame_def founded_def)
  qed
next
  case (known db1 ms)
  note f1 = record_identity_frame [OF known(1)]
  have inv1: "access_inv db1" using frame_inv [OF f1] assms(1) by simp
  have some: "\<exists>m \<in> set (ac_members db). mr_user m = tn_user t"
    using memberships_Nil [OF inv1, of t] known(2) f1 by (auto simp: frame_def)
  have ren: "renames a b \<Longrightarrow> ac_members b = ac_members a \<and> map or_id (ac_orgs b) = map or_id (ac_orgs a)" for a b
    unfolding renames_def using map_name_keys(1) by metis
  from known(3) have "ac_members db' = ac_members db1 \<and> map or_id (ac_orgs db') = map or_id (ac_orgs db1)"
  proof (cases rule: repair_subject_namedD)
    case (repaired db2 s')
    from ren [OF repaired(1)] record_identity_frame [OF repaired(2)] show ?thesis by (simp add: frame_def)
  next
    case missed
    from ren [OF missed] show ?thesis .
  qed simp
  with some f1 show ?thesis by (simp add: frame_def)
qed

theorem sign_in_provisions_once_witness:
  "\<exists>r m. ac_orgs org_one = [r] \<and> ac_members org_one = [m] \<and> or_personal r = Some ''ada'' \<and> mr_role m = RoleOwner"
proof -
  have inv: "access_inv org_empty" using no_organisations_inv [OF org_empty_start] ..
  from run_sign_in(2) obtain u where
    u: "get_current_user plain_pg None (new_caller ''ada'' 1) (claims_of ''ada'') ''o1'' org_empty = Inr (u, org_one)" ..
  from sign_in_provisions_once [OF inv u] show ?thesis
    by (auto simp: org_empty_def new_caller_def)
qed

text \<open>
  A person removed from the organisation that was created for them is locked out: from then on,
  as long as they belong nowhere, every sign-in fails, because the organisation marked as theirs
  stops a new one from being made and gives them no membership.
\<close>

theorem removed_founder_is_locked_out:
  assumes "access_inv db" and "r \<in> set (ac_orgs db)" and "or_personal r = Some (tn_user t)"
    and "\<forall>m \<in> set (ac_members db). mr_user m \<noteq> tn_user t"
  shows "isl (get_current_user E prof t c oid db)"
proof (rule ccontr)
  assume "\<not> isl (get_current_user E prof t c oid db)"
  then obtain u db' where g: "get_current_user E prof t c oid db = Inr (u, db')"
    by (cases "get_current_user E prof t c oid db") auto
  then have "access_inv db'" by (rule get_current_user_inv(1) [OF _ assms(1)])
  moreover from sign_in_provisions_once [OF assms(1) g] assms(4) obtain r' where
    "ac_orgs db' = ac_orgs db @ [r']" "or_personal r' = Some (tn_user t)" by auto
  moreover have "Some (tn_user t) \<in> or_personal ` {x \<in> set (ac_orgs db). \<exists>y. or_personal x = Some y}"
    using assms(2,3) by (intro image_eqI [of _ _ r]) auto
  ultimately show False by (simp add: access_inv_def tables_ok_def)
qed

text \<open>Bob, invited by Ada to the organisation made for her, removes her.\<close>

definition org_four :: access_db where
  "org_four = projr (remove_call plain_pg (owner_of_o1 ''bob'' 4) ''ada'' (org_three [bob_message]))"

lemma run_remove:
  "begin_tenant plain_pg ''bob'' [] 4 (org_three [bob_message]) = Inr (owner_of_o1 ''bob'' 4)"
  "remove_call plain_pg (owner_of_o1 ''bob'' 4) ''ada'' (org_three [bob_message]) = Inr org_four"
proof -
  show "begin_tenant plain_pg ''bob'' [] 4 (org_three [bob_message]) = Inr (owner_of_o1 ''bob'' 4)" by code_simp
  have "\<not> isl (remove_call plain_pg (owner_of_o1 ''bob'' 4) ''ada'' (org_three out))" for out by code_simp
  then show "remove_call plain_pg (owner_of_o1 ''bob'' 4) ''ada'' (org_three [bob_message]) = Inr org_four"
    unfolding org_four_def by simp
qed

lemma org_four_tables:
  "ac_orgs org_four = ac_orgs org_one"
  "ac_members org_four = [\<lparr>mr_org = ''o1'', mr_user = ''bob'', mr_role = ''owner'', mr_at = 3\<rparr>]"
proof -
  from remove_callD(2) [OF run_remove(2)] show "ac_orgs org_four = ac_orgs org_one"
    by (rule remove_memberD) (simp add: org_three_def org_two_def)
  from remove_callD(2) [OF run_remove(2)] show "ac_members org_four = [\<lparr>mr_org = ''o1'', mr_user = ''bob'', mr_role = ''owner'', mr_at = 3\<rparr>]"
    by (rule remove_memberD)
      (auto simp: org_three_def org_one_def owner_of_o1_def plain_pg_def lower_uuid_def ascii_lower_char_def)
qed

theorem removed_founder_is_locked_out_witness:
  "access_reachable plain_pg (\<lambda>s. s = ''ada'') org_four
   \<and> isl (get_current_user plain_pg None (new_caller ''ada'' 5) (claims_of ''ada'') ''o2'' org_four)"
proof
  show reach: "access_reachable plain_pg (\<lambda>s. s = ''ada'') org_four"
    by (rule access_reachable_step [OF run_reach_three access_step.removed [OF run_remove(1) _ run_remove(2)]]) simp
  show "isl (get_current_user plain_pg None (new_caller ''ada'' 5) (claims_of ''ada'') ''o2'' org_four)"
    by (rule removed_founder_is_locked_out [OF access_reachable_inv [OF reach],
        of "\<lparr>or_id = ''o1'', or_name = ''ada'', or_slug = ''ada'', or_personal = Some ''ada'', or_at = 1\<rparr>"])
      (simp_all add: org_four_tables org_one_def new_caller_def)
qed

section \<open>A name cut in the middle of a letter\<close>

text \<open>Text a UTF-8 database takes: no byte decodes to the replacement character on its own.\<close>

definition valid_utf8 :: "string \<Rightarrow> bool" where
  "valid_utf8 s = list_all (\<lambda>(r, bytes). \<not> (r = 65533 \<and> length bytes = 1)) (cells s)"

lemma valid_utf8_ascii: "is_ascii a \<Longrightarrow> valid_utf8 (a @ s) = valid_utf8 s"
  by (induction a) (auto simp: is_ascii_def cells_ascii valid_utf8_def)

lemma slug_loop_refused: "(\<And>n. f n = InsertRefused) \<Longrightarrow> ns \<noteq> [] \<Longrightarrow> slug_loop f ns = Inl StoreFailed"
  by (cases ns) simp_all

text \<open>
  A name cut in the middle of a letter keeps a person out: the name of a personal organisation
  is the caller's name cut at sixty bytes, and when the cut splits a letter the database, which
  takes only UTF-8, refuses the organisation, so every sign-in of that person fails while they
  belong nowhere.
\<close>

theorem cut_name_blocks_sign_in:
  assumes "access_inv db" and "\<forall>m \<in> set (ac_members db). mr_user m \<noteq> tn_user t"
    and "\<forall>s. pg_text E s \<longrightarrow> valid_utf8 s"
    and "fields_space [] (sj_name c) = [sj_name c]" and "60 < length (sj_name c)"
    and "trim_space (take 60 (sj_name c)) = take 60 (sj_name c)" and "\<not> valid_utf8 (take 60 (sj_name c))"
  shows "get_current_user E prof t c oid db = Inl InternalError"
proof (cases "record_identity E t c db")
  case (Inl e)
  then show ?thesis by (simp add: get_current_user_def)
next
  case (Inr db1)
  note f = record_identity_frame [OF Inr]
  then have inv1: "access_inv db1" using frame_inv [OF f] assms(1) by simp
  have nil: "memberships t db1 = []" using memberships_Nil [OF inv1, of t] f assms(2) by (simp add: frame_def)
  have "sj_name c \<noteq> []" using assms(5) by auto
  then have same: "with_profile prof c = c" by (simp add: with_profile_def)
  have cl: "clean (sj_name c) = take 60 (sj_name c)"
    using assms(4-6) by (simp add: clean_def)
  then have name: "personal_organisation_name c = take 60 (sj_name c)"
    using \<open>sj_name c \<noteq> []\<close> by (simp add: personal_organisation_name_def)
  have "\<not> pg_text E (personal_organisation_name c)" using assms(3,7) by (auto simp: name)
  then have "insert_org E oid (personal_organisation_name c) p now db1 n = InsertRefused" for p now n
    by (simp add: insert_org_def)
  then have "insert_organisation E t oid (plan_for c []) db1 = Inl StoreFailed"
    by (simp add: insert_organisation_def plan_for_def slug_loop_refused ordinals_def maxSlugAttempts_def)
  then show ?thesis
    by (simp add: get_current_user_def Inr nil same provision_personal_def plan_for_def Let_def)
qed

lemma fields_space_step:
  "list_all (\<lambda>q. hd q \<noteq> c) space_seqs \<Longrightarrow> fields_space acc (c # s) = fields_space (acc @ [c]) s"
  by (subst fields_space.simps) (simp add: lead_space_hd)

lemma fields_space_letters:
  "list_all (\<lambda>q. hd q \<noteq> c) space_seqs \<Longrightarrow>
     fields_space acc (replicate n c @ s) = fields_space (acc @ replicate n c) s"
proof (induction n arbitrary: acc)
  case (Suc n)
  then show ?case by (simp add: fields_space_step replicate_append_same)
qed simp

definition long_name :: string where
  "long_name = replicate 59 (CHR ''a'') @ [CHR 0xC3, CHR 0xA9]"

theorem cut_name_blocks_sign_in_witness:
  "valid_utf8 long_name
   \<and> get_current_user (plain_pg\<lparr>pg_text := valid_utf8\<rparr>) None (new_caller ''bob'' 1)
       ((claims_of ''bob'')\<lparr>sj_name := long_name\<rparr>) ''o1'' org_empty = Inl InternalError"
proof
  have ascii: "is_ascii (replicate 59 (CHR ''a''))" by (simp add: is_ascii_def list_all_iff)
  have nil: "cells [] = []" by (subst cells.simps) simp
  have "cells [CHR 0xC3, CHR 0xA9] = [(233, [CHR 0xC3, CHR 0xA9])]"
    by (subst cells.simps) (simp add: decode_rune.simps byte_in_def cont_bits_def nil)
  then have whole: "valid_utf8 [CHR 0xC3, CHR 0xA9]" by (simp add: valid_utf8_def)
  have "cells [CHR 0xC3] = [(65533, [CHR 0xC3])]"
    by (subst cells.simps) (simp add: decode_rune.simps nil)
  then have half: "\<not> valid_utf8 [CHR 0xC3]" by (simp add: valid_utf8_def)
  show "valid_utf8 long_name" unfolding long_name_def valid_utf8_ascii [OF ascii] by (rule whole)
  have cut: "take 60 long_name = replicate 59 (CHR ''a'') @ [CHR 0xC3]" by (simp add: long_name_def)
  have bad: "\<not> valid_utf8 (take 60 long_name)" unfolding cut valid_utf8_ascii [OF ascii] by (rule half)
  have a: "list_all (\<lambda>q. hd q \<noteq> CHR ''a'') space_seqs" by code_simp
  have e: "list_all (\<lambda>q. hd q \<noteq> CHR 0xA9) space_seqs" by code_simp
  have end_c3: "list_all (\<lambda>q. last q \<noteq> CHR 0xC3) space_seqs" by code_simp
  have c3: "fields_space acc [CHR 0xC3, CHR 0xA9] = fields_space (acc @ [CHR 0xC3]) [CHR 0xA9]" for acc
  proof -
    have "lead_space [CHR 0xC3, CHR 0xA9] = 0" by code_simp
    then show ?thesis by (subst fields_space.simps) simp
  qed
  have word: "fields_space [] long_name = [long_name]"
    unfolding long_name_def fields_space_letters [OF a] c3 fields_space_step [OF e]
    by (subst fields_space.simps) simp
  have "lead_space (take 60 long_name) = 0"
    unfolding cut using lead_space_hd [OF a] by (simp add: numeral_eq_Suc)
  moreover have "trail_space (take 60 long_name) = 0" unfolding cut by (rule trail_space_last [OF end_c3])
  ultimately have trim: "trim_space (take 60 long_name) = take 60 long_name"
    by (simp add: trim_space_def trim_left.simps trim_right.simps)
  have len: "60 < length long_name" by (simp add: long_name_def)
  have inv: "access_inv org_empty" using no_organisations_inv [OF org_empty_start] ..
  show "get_current_user (plain_pg\<lparr>pg_text := valid_utf8\<rparr>) None (new_caller ''bob'' 1)
       ((claims_of ''bob'')\<lparr>sj_name := long_name\<rparr>) ''o1'' org_empty = Inl InternalError"
    by (rule cut_name_blocks_sign_in [OF inv]) (simp_all add: org_empty_def word trim len bad)
qed

end
