(* ===== verification/Notify_Store.thy ===== *)
theory Notify_Store
  imports Org_Service
begin

text \<open>
  Reaching people: the settings and the linked chats of a member
  (\<open>store/postgres/notifications.go\<close>, \<open>channels.go\<close>, \<open>service/notifications\<close>), the doorbells of a
  finding as they are planned, sent and settled (\<open>service/delivery/doorbell.go\<close>), and the
  transactional outbox as it is delivered and cleared (\<open>store/postgres/outbox.go\<close>,
  \<open>service/delivery/delivery.go\<close>, \<open>delivery/router.go\<close>, the functions of migrations 00030 and 00044).

  A handler answers a result and the tables as its transaction wrote them; \<open>after_request\<close> is what
  the interceptor makes of the two.  The channels themselves, the zone database and the random
  values are arguments; what left through a channel is a list of letters.
\<close>

section \<open>The tables\<close>

record channel_row =
  ch_org :: string
  ch_user :: string
  ch_chat :: string
  ch_code :: "(string \<times> instant) option"
  ch_attempts :: int
  ch_verified :: "instant option"
  ch_at :: instant

record pref_row =
  pw_org :: string
  pw_user :: string
  pw_prefs :: preferences

record bell_row =
  bl_id :: string
  bl_org :: string
  bl_finding :: string
  bl_status :: string
  bl_attempts :: int
  bl_error :: "string option"
  bl_sent :: "instant option"

record token_row =
  tk_org :: string
  tk_user :: string
  tk_hash :: string
  tk_expires :: instant

record notify_db =
  nt_channels :: "channel_row list"
  nt_prefs :: "pref_row list"
  nt_bells :: "bell_row list"
  nt_tokens :: "token_row list"
  nt_severity :: "(string \<times> string) list"

datatype notify_error =
    NotifyInternal | NotifyBad string | NoTelegram | BadChatId | ChatAlreadyLinked | NoCode | CodeNotUsable
  | TooManyAttempts | BadPreferences pref_error

text \<open>The interceptor commits a request that answered and rolls back one that did not.\<close>

definition after_request :: "('e + 'r) \<times> 'd \<Rightarrow> 'd \<Rightarrow> 'd" where
  "after_request h db = (case h of (Inl _, _) \<Rightarrow> db | (Inr _, db') \<Rightarrow> db')"

section \<open>Preferences\<close>

definition own_prefs :: "tenant \<Rightarrow> pref_row \<Rightarrow> bool" where
  "own_prefs t p \<longleftrightarrow> pw_org p = tn_org t \<and> pw_user p = tn_user t"

definition read_preferences :: "tenant \<Rightarrow> notify_db \<Rightarrow> preferences" where
  "read_preferences t db =
     (case find (own_prefs t) (nt_prefs db) of None \<Rightarrow> default_preferences | Some p \<Rightarrow> pw_prefs p)"

text \<open>The upsert; \<open>time\<close> columns answer a clock with two digits for the hour.\<close>

definition clock_column :: "string \<Rightarrow> string" where
  "clock_column s = (case parse_clock s of None \<Rightarrow> '''' | Some (h, m) \<Rightarrow>
     pad_left 2 (itoa (int h)) @ '':'' @ pad_left 2 (itoa (int m)))"

definition stored_prefs :: "preferences \<Rightarrow> preferences" where
  "stored_prefs p = p\<lparr>pf_quiet_start := clock_column (pf_quiet_start p), pf_quiet_end := clock_column (pf_quiet_end p)\<rparr>"

definition save_preferences :: "access_db \<Rightarrow> tenant \<Rightarrow> preferences \<Rightarrow> notify_db \<Rightarrow> notify_error + notify_db" where
  "save_preferences a t p db =
     (if role_in a (tn_org t) (tn_user t) = None then Inl NotifyInternal
      else if list_ex (own_prefs t) (nt_prefs db)
      then Inr (db\<lparr>nt_prefs := map (\<lambda>r. if own_prefs t r then r\<lparr>pw_prefs := stored_prefs p\<rparr> else r) (nt_prefs db)\<rparr>)
      else Inr (db\<lparr>nt_prefs := nt_prefs db
             @ [\<lparr>pw_org = tn_org t, pw_user = tn_user t, pw_prefs = stored_prefs p\<rparr>]\<rparr>))"

definition update_preferences ::
  "access_db \<Rightarrow> (string \<Rightarrow> bool) \<Rightarrow> tenant \<Rightarrow> preferences option \<Rightarrow> notify_db
     \<Rightarrow> (notify_error + preferences) \<times> notify_db" where
  "update_preferences a known_zone t req db =
     (case normalise known_zone (case req of None \<Rightarrow> default_preferences | Some p \<Rightarrow> p) of
        Inl e \<Rightarrow> (Inl (BadPreferences e), db)
      | Inr p \<Rightarrow> (case save_preferences a t p db of
            Inl e \<Rightarrow> (Inl e, db)
          | Inr db1 \<Rightarrow> (Inr (read_preferences t db1), db1)))"

section \<open>Linking a chat\<close>

definition own_channel :: "tenant \<Rightarrow> channel_row \<Rightarrow> bool" where
  "own_channel t c \<longleftrightarrow> ch_org c = tn_org t \<and> ch_user c = tn_user t"

datatype link_fault = AlreadyLinked | LinkFailed

definition link_telegram_chat ::
  "access_db \<Rightarrow> tenant \<Rightarrow> string \<Rightarrow> string \<Rightarrow> instant \<Rightarrow> notify_db \<Rightarrow> link_fault + notify_db" where
  "link_telegram_chat a t chat hash expires db =
     (if role_in a (tn_org t) (tn_user t) = None then Inl LinkFailed
      else if list_ex (\<lambda>c. \<not> own_channel t c \<and> ch_org c = tn_org t \<and> ch_chat c = chat) (nt_channels db)
      then Inl AlreadyLinked
      else if list_ex (own_channel t) (nt_channels db)
      then Inr (db\<lparr>nt_channels := map (\<lambda>c. if own_channel t c
             then c\<lparr>ch_chat := chat, ch_code := Some (hash, expires), ch_attempts := 0, ch_verified := None\<rparr> else c)
             (nt_channels db)\<rparr>)
      else Inr (db\<lparr>nt_channels := nt_channels db
             @ [\<lparr>ch_org = tn_org t, ch_user = tn_user t, ch_chat = chat, ch_code = Some (hash, expires),
                 ch_attempts = 0, ch_verified = None, ch_at = tn_now t\<rparr>]\<rparr>))"

text \<open>
  The call writes the claim and queues the code in one transaction: \<open>n\<close> is the random number of
  the code and \<open>oid\<close> the id of the queued row.
\<close>

definition link_call ::
  "pg_env \<Rightarrow> string list \<Rightarrow> tenant \<Rightarrow> string \<Rightarrow> nat \<Rightarrow> string \<Rightarrow> access_db \<times> notify_db
     \<Rightarrow> (notify_error + instant) \<times> access_db \<times> notify_db" where
  "link_call E configured t raw n oid dbs =
     (case dbs of (a, db) \<Rightarrow>
        if ChannelTelegram \<notin> set configured then (Inl NoTelegram, dbs)
        else let chat = trim_space raw; code = new_verification_code n;
                 expires = tn_now t + VerificationCodeLifetime
             in if \<not> valid_chat_id chat then (Inl BadChatId, dbs)
                else (case link_telegram_chat a t chat (hash_verification_code (sha256 E) code) expires db of
                    Inl AlreadyLinked \<Rightarrow> (Inl ChatAlreadyLinked, dbs)
                  | Inl LinkFailed \<Rightarrow> (Inl NotifyInternal, dbs)
                  | Inr db1 \<Rightarrow> (case organisation_name t a of
                        Inl _ \<Rightarrow> (Inl NotifyInternal, (a, db1))
                      | Inr name \<Rightarrow> (case enqueue_message t oid (telegram_verification code name chat) a of
                            Inl _ \<Rightarrow> (Inl NotifyInternal, (a, db1))
                          | Inr a1 \<Rightarrow> (Inr expires, (a1, db1))))))"

section \<open>Proving a chat\<close>

datatype verify_fault = NoPendingChannel | TooManyVerificationAttempts

definition pending_channel :: "tenant \<Rightarrow> channel_row \<Rightarrow> bool" where
  "pending_channel t c \<longleftrightarrow> own_channel t c \<and> ch_code c \<noteq> None"

definition on_own :: "tenant \<Rightarrow> (channel_row \<Rightarrow> channel_row) \<Rightarrow> notify_db \<Rightarrow> notify_db" where
  "on_own t f db = db\<lparr>nt_channels := map (\<lambda>c. if own_channel t c then f c else c) (nt_channels db)\<rparr>"

definition verify_telegram_chat ::
  "pg_env \<Rightarrow> tenant \<Rightarrow> string \<Rightarrow> notify_db \<Rightarrow> verify_fault option \<times> notify_db" where
  "verify_telegram_chat E t code db =
     (case find (pending_channel t) (nt_channels db) of
        None \<Rightarrow> (Some NoPendingChannel, db)
      | Some c \<Rightarrow> (case the (ch_code c) of (hash, expires) \<Rightarrow>
          if ch_attempts c \<ge> MaxVerificationAttempts \<or> \<not> tn_now t < expires
          then (Some (if ch_attempts c \<ge> MaxVerificationAttempts then TooManyVerificationAttempts else NoPendingChannel),
                on_own t (\<lambda>c. c\<lparr>ch_code := None\<rparr>) db)
          else let db1 = on_own t (\<lambda>c. c\<lparr>ch_attempts := ch_attempts c + 1\<rparr>) db
               in if \<not> verification_code_matches (sha256 E) code hash then (Some NoPendingChannel, db1)
                  else (None, on_own t (\<lambda>c. c\<lparr>ch_verified := Some (tn_now t), ch_code := None, ch_attempts := 0\<rparr>) db1)))"

definition verify_call :: "pg_env \<Rightarrow> tenant \<Rightarrow> string \<Rightarrow> notify_db \<Rightarrow> (notify_error + bool) \<times> notify_db" where
  "verify_call E t raw db =
     (if trim_space raw = '''' then (Inl NoCode, db)
      else case verify_telegram_chat E t (trim_space raw) db of
        (Some TooManyVerificationAttempts, db') \<Rightarrow> (Inl TooManyAttempts, db')
      | (Some NoPendingChannel, db') \<Rightarrow> (Inl CodeNotUsable, db')
      | (None, db') \<Rightarrow> (Inr True, db'))"

definition unlink_call :: "tenant \<Rightarrow> notify_db \<Rightarrow> (notify_error + bool) \<times> notify_db" where
  "unlink_call t db =
     (Inr (list_ex (own_channel t) (nt_channels db)),
      db\<lparr>nt_channels := filter (\<lambda>c. \<not> own_channel t c) (nt_channels db)\<rparr>)"

section \<open>Who hears of a finding\<close>

record recipient =
  rc_user :: string
  rc_email :: string
  rc_email_verified :: bool
  rc_min_severity :: string
  rc_severity :: string
  rc_timezone :: string
  rc_quiet_start :: string
  rc_quiet_end :: string
  rc_org_slug :: string
  rc_org_name :: string
  rc_channel :: string
  rc_chat :: string
  rc_chat_verified :: bool

text \<open>The definer function \<open>notification_recipients\<close>: one row per member with somewhere to send to.\<close>

definition prefs_of :: "notify_db \<Rightarrow> string \<Rightarrow> string \<Rightarrow> preferences option" where
  "prefs_of db org user =
     map_option pw_prefs (find (\<lambda>p. pw_org p = org \<and> pw_user p = user) (nt_prefs db))"

definition channel_of :: "notify_db \<Rightarrow> string \<Rightarrow> string \<Rightarrow> channel_row option" where
  "channel_of db org user = find (\<lambda>c. ch_org c = org \<and> ch_user c = user) (nt_channels db)"

definition address_of :: "access_db \<Rightarrow> notify_db \<Rightarrow> string \<Rightarrow> string \<Rightarrow> string option" where
  "address_of a db org user =
     coalesce_opt (case prefs_of db org user of None \<Rightarrow> None | Some p \<Rightarrow> null_if_empty (pf_email p))
       (case identity_of a user of None \<Rightarrow> None | Some i \<Rightarrow> idn_email i)"

definition verified_address :: "access_db \<Rightarrow> notify_db \<Rightarrow> string \<Rightarrow> string \<Rightarrow> bool" where
  "verified_address a db org user =
     (case identity_of a user of
        None \<Rightarrow> False
      | Some i \<Rightarrow> idn_verified i \<and> idn_email i \<noteq> None \<and> address_of a db org user = idn_email i)"

definition recipient_row :: "access_db \<Rightarrow> notify_db \<Rightarrow> org_row \<Rightarrow> string \<Rightarrow> member_row \<Rightarrow> recipient" where
  "recipient_row a db r severity m =
     (let p = (case prefs_of db (mr_org m) (mr_user m) of None \<Rightarrow> default_preferences | Some p \<Rightarrow> p);
          c = channel_of db (mr_org m) (mr_user m)
      in \<lparr>rc_user = mr_user m,
          rc_email = (case address_of a db (mr_org m) (mr_user m) of None \<Rightarrow> '''' | Some e \<Rightarrow> e),
          rc_email_verified = verified_address a db (mr_org m) (mr_user m),
          rc_min_severity = pf_min_severity p, rc_severity = severity, rc_timezone = pf_timezone p,
          rc_quiet_start = pf_quiet_start p, rc_quiet_end = pf_quiet_end p,
          rc_org_slug = or_slug r, rc_org_name = or_name r, rc_channel = pf_channel p,
          rc_chat = (case c of None \<Rightarrow> '''' | Some c \<Rightarrow> ch_chat c),
          rc_chat_verified = (case c of None \<Rightarrow> False | Some c \<Rightarrow> ch_verified c \<noteq> None)\<rparr>)"

definition recipients :: "access_db \<Rightarrow> notify_db \<Rightarrow> bell_row \<Rightarrow> recipient list" where
  "recipients a db b =
     (case (org_of a (bl_org b), map_of (nt_severity db) (bl_finding b)) of
        (Some r, Some severity) \<Rightarrow>
          map (recipient_row a db r severity)
            (filter (\<lambda>m. mr_org m = bl_org b
                \<and> (address_of a db (mr_org m) (mr_user m) \<noteq> None \<or> channel_of db (mr_org m) (mr_user m) \<noteq> None))
              (ac_members a))
      | _ \<Rightarrow> [])"

definition pending_bell :: "notify_db \<Rightarrow> string \<Rightarrow> bell_row option" where
  "pending_bell db bid = find (\<lambda>b. bl_id b = bid \<and> bl_status b = ''pending'') (nt_bells db)"

definition local_zone :: "(string \<Rightarrow> zone option) \<Rightarrow> zone \<Rightarrow> string \<Rightarrow> zone" where
  "local_zone zones utc name = (case zones name of None \<Rightarrow> utc | Some z \<Rightarrow> z)"

section \<open>Sending\<close>

record letter =
  lt_channel :: string
  lt_to :: string
  lt_subject :: string
  lt_text :: string

datatype send_error = ChannelUnavailable string | ChannelRefused | MintFailed

text \<open>\<open>Router.Send\<close>: an empty channel is email, and a channel nobody configured is an error.\<close>

definition router_send :: "string list \<Rightarrow> (letter \<Rightarrow> bool) \<Rightarrow> letter \<Rightarrow> send_error option" where
  "router_send configured accepts l =
     (let name = (if lt_channel l = '''' then ChannelEmail else lt_channel l)
      in if name \<notin> set configured then Some (ChannelUnavailable name)
         else if accepts l then None else Some ChannelRefused)"

record send_env =
  sv_base :: string
  sv_configured :: "string list"
  sv_accepts :: "letter \<Rightarrow> bool"
  sv_token :: "string \<Rightarrow> string"
  sv_approval :: "string \<Rightarrow> string option"

definition doorbell_for :: "send_env \<Rightarrow> bell_row \<Rightarrow> string \<Rightarrow> string \<Rightarrow> recipient \<Rightarrow> doorbell" where
  "doorbell_for S b subject body r =
     \<lparr>db_email = rc_email r, db_org = rc_org_name r, db_severity = rc_severity r,
      db_finding_url = sv_base S @ ''/o/'' @ rc_org_slug r @ ''/feed/'' @ bl_finding b,
      db_unsubscribe_url = sv_base S @ ''/unsubscribe/'' @ sv_token S (rc_user r),
      db_approve_url = (if \<not> rc_email_verified r then ''''
        else case sv_approval S (rc_user r) of None \<Rightarrow> ''''
        | Some token \<Rightarrow> sv_base S @ ''/approve/'' @ bl_finding b @ ''/'' @ token),
      db_drafted_subject = subject, db_drafted_body = body\<rparr>"

definition route_of :: "recipient \<Rightarrow> route" where
  "route_of r = route_for (rc_channel r) (rc_email r) (rc_chat r) (rc_chat_verified r)"

datatype bell_error =
    BadBellId | BadDraft draft_error | HalfDraft | NobodyAsked | NoChannel | NoConsole
  | NotDelivered send_error | NeedsReason | BellInternal

text \<open>\<open>notificationID\<close>, and the row the database finds under what it reads in the same text.\<close>

definition notification_id :: "pg_env \<Rightarrow> string \<Rightarrow> bell_error option" where
  "notification_id E raw = (if raw = '''' \<or> go_uuid E raw = None then Some BadBellId else None)"

definition find_bell :: "pg_env \<Rightarrow> notify_db \<Rightarrow> string \<Rightarrow> bell_error + bell_row option" where
  "find_bell E db raw =
     (case notification_id E raw of
        Some e \<Rightarrow> Inl e
      | None \<Rightarrow> (case pg_uuid E raw of None \<Rightarrow> Inl BellInternal | Some u \<Rightarrow> Inr (pending_bell db u)))"

text \<open>
  The drafting half of a plan: asked for when somebody will receive the message.  \<open>counts\<close> are the
  other pending findings and all of them, \<open>None\<close> when they cannot be read; \<open>model\<close> is what the
  organisation chose, \<open>None\<close> when it cannot be resolved.
\<close>

record draft_instruction =
  dr_org :: string
  dr_org_name :: string
  dr_severity :: string
  dr_open :: int
  dr_first :: bool
  dr_approve :: bool
  dr_channels :: "string list"
  dr_model :: "(string \<times> string) option"

fun channels_of :: "string list \<Rightarrow> recipient list \<Rightarrow> string list" where
  "channels_of seen [] = []"
| "channels_of seen (r # rs) =
     (if \<not> deliverable (route_of r) \<or> rt_channel (route_of r) \<in> set seen then channels_of seen rs
      else rt_channel (route_of r) # channels_of (rt_channel (route_of r) # seen) rs)"

definition draft_instruction_for ::
  "(int \<times> int) option \<Rightarrow> (string \<times> string) option option \<Rightarrow> bell_row \<Rightarrow> recipient list
     \<Rightarrow> draft_instruction option" where
  "draft_instruction_for counts model b sending =
     (case sending of
        [] \<Rightarrow> None
      | r # _ \<Rightarrow> (case (counts, model) of
            (Some (pending, ever), Some route) \<Rightarrow>
              Some \<lparr>dr_org = bl_org b, dr_org_name = rc_org_name r, dr_severity = rc_severity r,
                dr_open = pending, dr_first = (ever = 1), dr_approve = list_ex rc_email_verified sending,
                dr_channels = channels_of [] sending,
                dr_model = (case route of
                    None \<Rightarrow> None
                  | Some (provider, name) \<Rightarrow>
                      if provider \<noteq> '''' \<and> provider \<noteq> ''instance'' then Some (provider, name) else None)\<rparr>
          | _ \<Rightarrow> None))"

text \<open>Planning decides for each of them as of now, in their zone, or in UTC when it does not load.\<close>

definition plan_for_bell ::
  "(string \<Rightarrow> zone option) \<Rightarrow> zone \<Rightarrow> instant \<Rightarrow> access_db \<Rightarrow> notify_db \<Rightarrow> bell_row
     \<Rightarrow> (recipient \<times> notify_decision) list" where
  "plan_for_bell zones utc now a db b =
     map (\<lambda>r. (r, notify_decide (rc_severity r) (rc_min_severity r)
         (local_zone zones utc (rc_timezone r)) now (rc_quiet_start r) (rc_quiet_end r)))
       (recipients a db b)"

definition plan_notification ::
  "pg_env \<Rightarrow> (string \<Rightarrow> zone option) \<Rightarrow> zone \<Rightarrow> (int \<times> int) option \<Rightarrow> (string \<times> string) option option
     \<Rightarrow> instant \<Rightarrow> access_db \<Rightarrow> notify_db \<Rightarrow> string
     \<Rightarrow> bell_error + ((string \<times> notify_decision) list \<times> draft_instruction option) option" where
  "plan_notification E zones utc counts model now a db raw =
     (case find_bell E db raw of
        Inl e \<Rightarrow> Inl e
      | Inr None \<Rightarrow> Inr None
      | Inr (Some b) \<Rightarrow>
          let planned = plan_for_bell zones utc now a db b
          in Inr (Some (map (\<lambda>(r, d). (rc_user r, d)) planned,
               draft_instruction_for counts model b (map fst (filter (\<lambda>(r, d). d = Send) planned)))))"

definition letter_for :: "send_env \<Rightarrow> bell_row \<Rightarrow> string \<Rightarrow> string \<Rightarrow> recipient \<Rightarrow> letter" where
  "letter_for S b subject body r =
     (let msg = finding_notification (doorbell_for S b subject body r)
      in \<lparr>lt_channel = rt_channel (route_of r), lt_to = rt_to (route_of r),
          lt_subject = ms_subject msg, lt_text = ms_text msg\<rparr>)"

text \<open>\<open>UnsubscribeLifetime\<close> and the hash every link is stored under.\<close>

definition UnsubscribeLifetime :: duration where "UnsubscribeLifetime = 30 * 24 * hour"

definition mint_token :: "pg_env \<Rightarrow> instant \<Rightarrow> bell_row \<Rightarrow> string \<Rightarrow> string \<Rightarrow> notify_db \<Rightarrow> notify_db option" where
  "mint_token E now b user token db =
     (if list_ex (\<lambda>k. tk_hash k = hash_invitation_token E token) (nt_tokens db) then None
      else Some (db\<lparr>nt_tokens := nt_tokens db
        @ [\<lparr>tk_org = bl_org b, tk_user = user, tk_hash = hash_invitation_token E token,
            tk_expires = now + UnsubscribeLifetime\<rparr>]\<rparr>))"

fun send_all ::
  "pg_env \<Rightarrow> send_env \<Rightarrow> instant \<Rightarrow> bell_row \<Rightarrow> string \<Rightarrow> string \<Rightarrow> recipient list \<Rightarrow> letter list \<times> notify_db
     \<Rightarrow> send_error option \<times> letter list \<times> notify_db" where
  "send_all E S now b subject body [] st = (None, st)"
| "send_all E S now b subject body (r # rs) (sent, db) =
     (if \<not> deliverable (route_of r) then send_all E S now b subject body rs (sent, db)
      else case mint_token E now b (rc_user r) (sv_token S (rc_user r)) db of
        None \<Rightarrow> (Some MintFailed, sent, db)
      | Some db1 \<Rightarrow> (case router_send (sv_configured S) (sv_accepts S) (letter_for S b subject body r) of
            Some e \<Rightarrow> (Some e, sent, db1)
          | None \<Rightarrow> send_all E S now b subject body rs (sent @ [letter_for S b subject body r], db1)))"

definition set_bell :: "string \<Rightarrow> (bell_row \<Rightarrow> bell_row) \<Rightarrow> notify_db \<Rightarrow> notify_db" where
  "set_bell bid f db = db\<lparr>nt_bells := map (\<lambda>b. if bl_id b = bid then f b else b) (nt_bells db)\<rparr>"

datatype bell_answer = BellSettled | BellSent nat
text \<open>
  \<open>NotifyRecipients\<close>.  A failed send is recorded and committed, with whatever was minted before
  it, and so is a complete one; a failed mint aborts the transaction, and nothing of it stays.
  The letters that left are the third component either way.
\<close>

definition notify_recipients ::
  "pg_env \<Rightarrow> send_env \<Rightarrow> instant \<Rightarrow> access_db \<Rightarrow> string \<Rightarrow> string list \<Rightarrow> string \<Rightarrow> string \<Rightarrow> notify_db
     \<Rightarrow> (bell_error + bell_answer) \<times> notify_db \<times> letter list" where
  "notify_recipients E S now a raw users subject body db =
     (case notification_id E raw of Some e \<Rightarrow> (Inl e, db, []) | None \<Rightarrow>
      if users = [] then (Inl NobodyAsked, db, [])
      else if (subject = '''') \<noteq> (body = '''') then (Inl HalfDraft, db, [])
      else case (if subject = '''' then None else acceptable_draft subject body) of
        Some e \<Rightarrow> (Inl (BadDraft e), db, [])
      | None \<Rightarrow>
          if sv_configured S = [] then (Inl NoChannel, db, [])
          else if sv_base S = '''' then (Inl NoConsole, db, [])
          else (case find_bell E db raw of
              Inl e \<Rightarrow> (Inl e, db, [])
            | Inr None \<Rightarrow> (Inr BellSettled, db, [])
            | Inr (Some b) \<Rightarrow>
                let wanted = filter (\<lambda>r. rc_user r \<in> set users) (recipients a db b)
                in (case send_all E S now b subject body wanted ([], db) of
                    (None, sent, db1) \<Rightarrow> (Inr (BellSent (length wanted)), db1, sent)
                  | (Some MintFailed, sent, db1) \<Rightarrow> (Inl BellInternal, db, sent)
                  | (Some e, sent, db1) \<Rightarrow> (Inl (NotDelivered e),
                      set_bell (bl_id b) (\<lambda>b. b\<lparr>bl_attempts := bl_attempts b + 1, bl_error := Some ''not delivered''\<rparr>) db1,
                      sent))))"

datatype bell_outcome = OutcomeSent | OutcomeSkipped string

definition settled_as :: "instant \<Rightarrow> bell_outcome \<Rightarrow> bell_row \<Rightarrow> bell_row" where
  "settled_as now out b =
     (if bl_status b \<noteq> ''pending'' then b else case out of
        OutcomeSent \<Rightarrow> b\<lparr>bl_status := ''sent'', bl_sent := Some now, bl_attempts := bl_attempts b + 1, bl_error := None\<rparr>
      | OutcomeSkipped why \<Rightarrow> b\<lparr>bl_status := ''skipped'', bl_attempts := bl_attempts b + 1, bl_error := Some why\<rparr>)"

definition settle_notification ::
  "pg_env \<Rightarrow> instant \<Rightarrow> string \<Rightarrow> bell_outcome \<Rightarrow> notify_db \<Rightarrow> (bell_error + bool) \<times> notify_db" where
  "settle_notification E now raw out db =
     (case notification_id E raw of Some e \<Rightarrow> (Inl e, db) | None \<Rightarrow>
      if out = OutcomeSkipped '''' then (Inl NeedsReason, db)
      else case find_bell E db raw of
        Inl e \<Rightarrow> (Inl e, db)
      | Inr None \<Rightarrow> (Inr False, db)
      | Inr (Some b) \<Rightarrow> (Inr True, set_bell (bl_id b) (settled_as now out) db))"

section \<open>The transactional outbox\<close>

text \<open>The relay delivers one message by id: claimed, sent, and settled in one transaction.\<close>

definition pending_message :: "access_db \<Rightarrow> string \<Rightarrow> outbox_row option" where
  "pending_message a mid = find (\<lambda>o'. ob_id o' = mid \<and> ob_status o' = ''pending'') (ac_outbox a)"

definition set_message :: "string \<Rightarrow> (outbox_row \<Rightarrow> outbox_row) \<Rightarrow> access_db \<Rightarrow> access_db" where
  "set_message mid f a = a\<lparr>ac_outbox := map (\<lambda>o'. if ob_id o' = mid then f o' else o') (ac_outbox a)\<rparr>"

definition message_letter :: "outbox_row \<Rightarrow> letter" where
  "message_letter m =
     \<lparr>lt_channel = ob_channel m,
      lt_to = (if ob_channel m = ChannelTelegram then ob_chat m else ob_email m),
      lt_subject = ob_subject m, lt_text = ob_text m\<rparr>"

datatype deliver_error =
    NoMessageId | BadMessageId | NothingConfigured | PreconditionFailed string | Unavailable | DeliverInternal

definition deliver_message ::
  "pg_env \<Rightarrow> string list \<Rightarrow> (letter \<Rightarrow> bool) \<Rightarrow> instant \<Rightarrow> string \<Rightarrow> access_db
     \<Rightarrow> (deliver_error + bool) \<times> access_db \<times> letter list" where
  "deliver_message E configured accepts now mid a =
     (if mid = '''' then (Inl NoMessageId, a, [])
      else if configured = [] then (Inl NothingConfigured, a, [])
      else if go_uuid E mid = None then (Inl BadMessageId, a, [])
      else case pg_uuid E mid of
        None \<Rightarrow> (Inl DeliverInternal, a, [])
      | Some u \<Rightarrow> (case pending_message a u of
            None \<Rightarrow> (Inr False, a, [])
          | Some m \<Rightarrow> (case router_send configured accepts (message_letter m) of
                Some e \<Rightarrow> (Inl (case e of ChannelUnavailable n \<Rightarrow> PreconditionFailed n | _ \<Rightarrow> Unavailable),
                  set_message u (\<lambda>m. m\<lparr>ob_attempts := ob_attempts m + 1, ob_error := Some ''not delivered''\<rparr>) a, [])
              | None \<Rightarrow> (Inr True,
                  set_message u (\<lambda>m. if ob_status m \<noteq> ''pending'' then m
                    else m\<lparr>ob_status := ''sent'', ob_sent := Some now, ob_attempts := ob_attempts m + 1, ob_error := None\<rparr>) a,
                  [message_letter m]))))"

text \<open>\<open>reclaim_transactional_outbox\<close>: what is due and what is dead, oldest first, a batch of each.\<close>

definition invitation_is_live :: "pg_env \<Rightarrow> instant \<Rightarrow> access_db \<Rightarrow> string \<Rightarrow> string \<Rightarrow> bool" where
  "invitation_is_live E now a org email \<longleftrightarrow>
     list_ex (\<lambda>i. inv_org i = org \<and> pg_lower E (inv_email i) = pg_lower E email
        \<and> inv_accepted i = None \<and> now < inv_expires i) (ac_invites a)"

definition dead_invitation :: "pg_env \<Rightarrow> instant \<Rightarrow> access_db \<Rightarrow> outbox_row \<Rightarrow> bool" where
  "dead_invitation E now a m \<longleftrightarrow>
     ob_kind m = KindInvitation \<and> \<not> invitation_is_live E now a (ob_org m) (ob_email m)"

definition due_for_clearing :: "pg_env \<Rightarrow> duration \<Rightarrow> instant \<Rightarrow> access_db \<Rightarrow> outbox_row \<Rightarrow> bool" where
  "due_for_clearing E retention now a m \<longleftrightarrow>
     ob_status m = ''sent'' \<and> ob_redacted m = None
     \<and> ((case ob_sent m of None \<Rightarrow> False | Some at \<Rightarrow> at < now - retention) \<or> dead_invitation E now a m)"

definition undeliverable :: "pg_env \<Rightarrow> instant \<Rightarrow> access_db \<Rightarrow> outbox_row \<Rightarrow> bool" where
  "undeliverable E now a m \<longleftrightarrow>
     ob_status m \<noteq> ''sent'' \<and> ob_redacted m = None
     \<and> (dead_invitation E now a m
        \<or> ob_kind m = KindTelegramVerification \<and> ob_created m < now - hour)"

definition clear_message :: "instant \<Rightarrow> outbox_row \<Rightarrow> outbox_row" where
  "clear_message now m =
     m\<lparr>ob_email := '''', ob_chat := '''', ob_subject := '''', ob_text := '''', ob_html := None,
       ob_error := None, ob_redacted := Some now\<rparr>"

definition abandon_message :: "instant \<Rightarrow> outbox_row \<Rightarrow> outbox_row" where
  "abandon_message now m =
     (clear_message now m)\<lparr>ob_status := ''failed'', ob_error := Some
       (if ob_kind m = KindTelegramVerification
        then ''abandoned undelivered: the verification code this message carries has expired''
        else ''abandoned undelivered: the invitation this message carries can no longer be accepted'')\<rparr>"

definition on_batch :: "string list \<Rightarrow> (outbox_row \<Rightarrow> outbox_row) \<Rightarrow> access_db \<Rightarrow> access_db" where
  "on_batch ids f a = a\<lparr>ac_outbox := map (\<lambda>m. if ob_id m \<in> set ids then f m else m) (ac_outbox a)\<rparr>"

definition oldest :: "nat \<Rightarrow> (outbox_row \<Rightarrow> instant) \<Rightarrow> (outbox_row \<Rightarrow> bool) \<Rightarrow> access_db \<Rightarrow> string list" where
  "oldest batch key P a = map ob_id (take batch (sort_key key (filter P (ac_outbox a))))"

definition reclaim_outbox ::
  "pg_env \<Rightarrow> duration \<Rightarrow> nat \<Rightarrow> instant \<Rightarrow> access_db \<Rightarrow> (nat \<times> nat) \<times> access_db" where
  "reclaim_outbox E retention batch now a =
     (let due = oldest batch (\<lambda>m. case ob_sent m of None \<Rightarrow> 0 | Some t \<Rightarrow> t) (due_for_clearing E retention now a) a;
          a1 = on_batch due (clear_message now) a;
          dead = oldest batch ob_created (undeliverable E now a1) a1
      in ((length due, length dead), on_batch dead (abandon_message now) a1))"

definition DeliveredBodyRetention :: duration where "DeliveredBodyRetention = 7 * 24 * hour"
definition ReclaimBatch :: nat where "ReclaimBatch = 500"

definition reclaim_messages :: "pg_env \<Rightarrow> instant \<Rightarrow> access_db \<Rightarrow> (nat \<times> nat) \<times> access_db" where
  "reclaim_messages E = reclaim_outbox E DeliveredBodyRetention ReclaimBatch"

end
