(* ===== verification/Notify_Claims.thy ===== *)
theory Notify_Claims
  imports Notify_Store
begin

text \<open>
  What the notifications and the outbox promise, and where they break: the properties of
  \<^theory_text>\<open>Notify_Domain\<close> and \<^theory_text>\<open>Notify_Store\<close>, with concrete instances as witnesses.
\<close>

section \<open>Proving a chat\<close>

lemma verify_call_error:
  "isl (fst (verify_call E t raw db)) \<Longrightarrow> after_request (verify_call E t raw db) db = db"
  by (cases "verify_call E t raw db") (auto simp: after_request_def split: sum.splits)

lemma wrong_guess_fails:
  assumes "find (pending_channel t) (nt_channels db) = Some c" and "ch_code c = Some (hash, expires)"
    and "\<not> verification_code_matches (sha256 E) (trim_space g) hash"
  shows "isl (fst (verify_call E t g db))"
  using assms by (auto simp: verify_call_def verify_telegram_chat_def Let_def split: verify_fault.splits)

text \<open>
  C39: The attempts against a verification code are not counted: a wrong guess is answered with an
  error, the error rolls back the transaction that counted it, and so however many requests have
  guessed wrong before it expires, the right code is still accepted.
\<close>

theorem wrong_guesses_are_not_counted:
  assumes "find (pending_channel t) (nt_channels db) = Some c" and "ch_code c = Some (hash, expires)"
    and "ch_attempts c < MaxVerificationAttempts" and "tn_now t < expires"
    and "\<forall>g \<in> set guesses. \<not> verification_code_matches (sha256 E) (trim_space g) hash"
    and "trim_space code \<noteq> []" and "verification_code_matches (sha256 E) (trim_space code) hash"
  shows "fst (verify_call E t code (fold (\<lambda>g db. after_request (verify_call E t g db) db) guesses db)) = Inr True"
proof -
  have "fold (\<lambda>g db. after_request (verify_call E t g db) db) guesses db = db"
    using assms(5)
  proof (induction guesses)
    case (Cons g gs)
    have "after_request (verify_call E t g db) db = db"
      by (rule verify_call_error [OF wrong_guess_fails [OF assms(1,2)]]) (use Cons.prems in simp)
    with Cons show ?case by simp
  qed simp
  moreover have "fst (verify_call E t code db) = Inr True"
    using assms by (simp add: verify_call_def verify_telegram_chat_def Let_def)
  ultimately show ?thesis by simp
qed

definition id_env :: pg_env where
  "id_env = \<lparr>pg_uuid = Some, go_uuid = Some, pg_text = (\<lambda>_. True), pg_lower = id, org_slug = (\<lambda>n _. n), sha256 = id\<rparr>"

definition carl :: "instant \<Rightarrow> tenant" where
  "carl now = \<lparr>tn_user = ''carl'', tn_org = ''o1'', tn_role = RoleMember, tn_now = now\<rparr>"

definition carl_claim :: channel_row where
  "carl_claim = \<lparr>ch_org = ''o1'', ch_user = ''carl'', ch_chat = ''42'', ch_code = Some (hex_encode ''007000'', 600),
     ch_attempts = 0, ch_verified = None, ch_at = 0\<rparr>"

definition carl_db :: notify_db where
  "carl_db = \<lparr>nt_channels = [carl_claim], nt_prefs = [], nt_bells = [], nt_tokens = [], nt_severity = []\<rparr>"

theorem wrong_guesses_are_not_counted_witness:
  "fst (verify_call id_env (carl 60) ''007000''
     (fold (\<lambda>g db. after_request (verify_call id_env (carl 60) g db) db) (replicate 7000 ''000000'') carl_db)) = Inr True"
proof (rule wrong_guesses_are_not_counted [where c = carl_claim and hash = "hex_encode ''007000''" and expires = 600])
  show "find (pending_channel (carl 60)) (nt_channels carl_db) = Some carl_claim" by code_simp
  have "\<not> verification_code_matches (sha256 id_env) (trim_space ''000000'') (hex_encode ''007000'')" by code_simp
  then show "\<forall>g \<in> set (replicate 7000 ''000000''). \<not> verification_code_matches (sha256 id_env) (trim_space g) (hex_encode ''007000'')"
    by auto
  show "trim_space ''007000'' \<noteq> []" by code_simp
  show "verification_code_matches (sha256 id_env) (trim_space ''007000'') (hex_encode ''007000'')" by code_simp
qed (simp_all add: carl_claim_def carl_def MaxVerificationAttempts_def)

text \<open>
  Only an owner can link a chat: the code is queued under the policy that lets owners write
  messages, so for every other member the call fails and leaves nothing, whatever chat they name.
\<close>

theorem only_owners_link_a_chat:
  assumes "role_in a (tn_org t) (tn_user t) \<noteq> Some RoleOwner"
  shows "isl (fst (link_call E configured t raw n oid (a, db)))
    \<and> after_request (link_call E configured t raw n oid (a, db)) (a, db) = (a, db)"
proof -
  have "enqueue_message t oid msg a = Inl StoreFailed" for msg
    using assms by (simp add: enqueue_message_def Let_def)
  then have "isl (fst (link_call E configured t raw n oid (a, db)))"
    by (auto simp: link_call_def Let_def split: sum.splits link_fault.splits)
  then show ?thesis
    by (cases "link_call E configured t raw n oid (a, db)") (auto simp: after_request_def split: sum.splits)
qed

theorem only_owners_link_a_chat_witness:
  "isl (fst (link_call id_env [ChannelTelegram] (carl 0) ''42'' 7000 ''m1''
     (\<lparr>ac_orgs = [\<lparr>or_id = ''o1'', or_name = ''Acme'', or_slug = ''acme'', or_personal = None, or_at = 0\<rparr>],
       ac_members = [\<lparr>mr_org = ''o1'', mr_user = ''carl'', mr_role = RoleMember, mr_at = 0\<rparr>],
       ac_invites = [], ac_identities = [], ac_audit = [], ac_subs = [], ac_outbox = []\<rparr>, carl_db)))"
  by (rule only_owners_link_a_chat [THEN conjunct1]) (simp add: role_in_def carl_def RoleOwner_def RoleMember_def)

section \<open>Doorbells\<close>

lemma send_all_letters:
  "send_all E S now b subject body rs (sent, db) = (e, sent', db') \<Longrightarrow>
     set sent' \<subseteq> set sent \<union> letter_for S b subject body ` {r \<in> set rs. deliverable (route_of r)}"
  by (induction rs arbitrary: sent db) (fastforce split: if_splits option.splits)+

lemma recipientsD:
  assumes "r \<in> set (recipients a db b)"
  obtains m row severity where "m \<in> set (ac_members a)" "mr_org m = bl_org b"
    "r = recipient_row a db row severity m"
  using assms by (auto simp: recipients_def split: option.splits)

text \<open>
  C9: A doorbell rings only for the people it is for: every letter a call sends goes to a member of
  the finding's organisation whom the call names, at the address they chose or the one they signed
  in with, or on Telegram to a chat that member has linked, has proved and has asked to be told on.
\<close>

theorem doorbells_reach_their_members:
  assumes "l \<in> set (snd (snd (notify_recipients E S now a bid users subject body db)))"
  shows "\<exists>b m. find_bell E db bid = Inr (Some b) \<and> m \<in> set (ac_members a) \<and> mr_org m = bl_org b
    \<and> mr_user m \<in> set users
    \<and> (lt_channel l = ChannelEmail \<and> Some (lt_to l) = address_of a db (mr_org m) (mr_user m)
       \<or> lt_channel l = ChannelTelegram
         \<and> (\<exists>c p. channel_of db (mr_org m) (mr_user m) = Some c \<and> ch_chat c = lt_to l \<and> ch_verified c \<noteq> None
              \<and> prefs_of db (mr_org m) (mr_user m) = Some p \<and> pf_channel p = ChannelTelegram))"
proof -
  from assms obtain b where b: "find_bell E db bid = Inr (Some b)"
    and l: "l \<in> set (fst (snd (send_all E S now b subject body (filter (\<lambda>r. rc_user r \<in> set users) (recipients a db b)) ([], db))))"
    by (auto simp: notify_recipients_def Let_def split: if_splits option.splits sum.splits prod.splits send_error.splits)
  obtain e sent' db' where s: "send_all E S now b subject body (filter (\<lambda>r. rc_user r \<in> set users) (recipients a db b)) ([], db)
      = (e, sent', db')" by (rule prod_cases3)
  from l send_all_letters [OF s] obtain r where r: "r \<in> set (recipients a db b)" "rc_user r \<in> set users"
    "deliverable (route_of r)" "l = letter_for S b subject body r"
    unfolding s by auto
  from r(1) obtain m row severity where m: "m \<in> set (ac_members a)" "mr_org m = bl_org b"
    "r = recipient_row a db row severity m" by (rule recipientsD)
  let ?o = "mr_org m" and ?u = "mr_user m"
  have to: "lt_channel l = rt_channel (route_of r)" "lt_to l = rt_to (route_of r)" by (simp_all add: r(4) letter_for_def Let_def)
  have "rt_channel (route_of r) = ChannelEmail \<and> rt_to (route_of r) = rc_email r \<and> rc_email r \<noteq> []
      \<or> rt_channel (route_of r) = ChannelTelegram \<and> rt_to (route_of r) = rc_chat r \<and> rc_chat_verified r
        \<and> rc_channel r = ChannelTelegram"
    using r(3) by (auto simp: route_of_def route_for_def with_fallback_def deliverable_def split: if_splits)
  then show ?thesis
  proof
    assume "rt_channel (route_of r) = ChannelEmail \<and> rt_to (route_of r) = rc_email r \<and> rc_email r \<noteq> []"
    then have "lt_channel l = ChannelEmail \<and> Some (lt_to l) = address_of a db ?o ?u"
      by (auto simp: to m(3) recipient_row_def Let_def split: option.splits)
    with b m r(2) show ?thesis by (auto simp: recipient_row_def Let_def)
  next
    assume "rt_channel (route_of r) = ChannelTelegram \<and> rt_to (route_of r) = rc_chat r \<and> rc_chat_verified r
        \<and> rc_channel r = ChannelTelegram"
    then have "lt_channel l = ChannelTelegram \<and> (\<exists>c p. channel_of db ?o ?u = Some c \<and> ch_chat c = lt_to l
        \<and> ch_verified c \<noteq> None \<and> prefs_of db ?o ?u = Some p \<and> pf_channel p = ChannelTelegram)"
      by (auto simp: to m(3) recipient_row_def Let_def default_preferences_def ChannelEmail_def ChannelTelegram_def
          split: option.splits)
    with b m r(2) show ?thesis by (auto simp: recipient_row_def Let_def)
  qed
qed

text \<open>
  One linked chat can silence everybody after it: when a member who is told on Telegram has a
  proved chat and the deployment has no Telegram channel any more, every attempt at a notification
  that reaches them fails, sends nothing to any of the recipients listed after them, and leaves the
  row pending to be tried, and to be sent again to those listed before.
\<close>

theorem unconfigured_chat_silences_the_rest:
  assumes "find_bell E db bid = Inr (Some b)" and "users \<noteq> []" and "subject = []" and "body = []"
    and "filter (\<lambda>r. rc_user r \<in> set users) (recipients a db b) = before @ r # behind"
    and "rc_channel r = ChannelTelegram" and "rc_chat r \<noteq> []" and "rc_chat_verified r"
    and "ChannelTelegram \<notin> set (sv_configured S)"
    and "notify_recipients E S now a bid users subject body db = (res, db', sent)"
  shows "isl res \<and> set sent \<subseteq> letter_for S b subject body ` set before \<and> pending_bell db' (bl_id b) \<noteq> None"
proof -
  have route: "deliverable (route_of r)" "lt_channel (letter_for S b subject body r) = ChannelTelegram"
    using assms(6-8) by (simp_all add: route_of_def route_for_def deliverable_def letter_for_def Let_def ChannelTelegram_def)
  then have refused: "\<exists>e. router_send (sv_configured S) (sv_accepts S) (letter_for S b subject body r) = Some e"
    using assms(9) by (auto simp: router_send_def Let_def ChannelTelegram_def)
  have stops: "\<exists>e. fst (send_all E S now b subject body (xs @ r # behind) (st, d)) = Some e
      \<and> set (fst (snd (send_all E S now b subject body (xs @ r # behind) (st, d)))) \<subseteq> set st \<union> letter_for S b subject body ` set xs
      \<and> nt_bells (snd (snd (send_all E S now b subject body (xs @ r # behind) (st, d)))) = nt_bells d" for xs st d
  proof (induction xs arbitrary: st d)
    case Nil
    show ?case using route(1) refused by (auto simp: mint_token_def split: option.splits)
  next
    case (Cons x xs)
    show ?case
    proof (cases "deliverable (route_of x)")
      case False
      then show ?thesis using Cons.IH [of st d] by (auto split: option.splits)
    next
      case True
      show ?thesis
      proof (cases "mint_token E now b (rc_user x) (sv_token S (rc_user x)) d")
        case None
        with True show ?thesis by auto
      next
        case (Some d1)
        then have same: "nt_bells d1 = nt_bells d" by (auto simp: mint_token_def split: if_splits)
        show ?thesis
        proof (cases "router_send (sv_configured S) (sv_accepts S) (letter_for S b subject body x)")
          case None
          with True Some same show ?thesis using Cons.IH [of "st @ [letter_for S b subject body x]" d1] by auto
        next
          case (Some e)
          with True \<open>mint_token E now b (rc_user x) (sv_token S (rc_user x)) d = Some d1\<close> same show ?thesis by auto
        qed
      qed
    qed
  qed
  obtain e s1 d1 where s: "send_all E S now b subject body (before @ r # behind) ([], db) = (Some e, s1, d1)"
    and sub: "set s1 \<subseteq> letter_for S b subject body ` set before" and bells: "nt_bells d1 = nt_bells db"
    using stops [of before "[]" db]
    by (cases "send_all E S now b subject body (before @ r # behind) ([], db)") auto
  have row: "pending_bell db (bl_id b) = Some b" "notification_id E bid = None"
    using assms(1) by (auto simp: find_bell_def pending_bell_def split: option.splits dest: find_SomeD)
  have again: "pending_bell (set_bell (bl_id b) (\<lambda>b. b\<lparr>bl_attempts := bl_attempts b + 1, bl_error := Some ''not delivered''\<rparr>) d1) (bl_id b) \<noteq> None"
  proof -
    let ?f = "\<lambda>b. b\<lparr>bl_attempts := bl_attempts b + 1, bl_error := Some ''not delivered''\<rparr>"
    from row(1) have b: "b \<in> set (nt_bells d1)" "bl_status b = ''pending''"
      by (auto simp: pending_bell_def bells dest: find_SomeD)
    from imageI [OF b(1), of "\<lambda>k. if bl_id k = bl_id b then ?f k else k"]
    have "?f b \<in> set (nt_bells (set_bell (bl_id b) ?f d1))" by (simp add: set_bell_def)
    moreover have "bl_id (?f b) = bl_id b" "bl_status (?f b) = ''pending''" using b(2) by simp_all
    ultimately show ?thesis unfolding pending_bell_def find_None_iff by blast
  qed
  show ?thesis
    using assms(10,2,1,3,4) row sub again
    by (auto simp: notify_recipients_def Let_def assms(5) s [unfolded assms(3,4)] split: if_splits send_error.splits)
qed

section \<open>A deployment with two members\<close>

text \<open>
  Bob asked to be told on Telegram and proved his chat; Ada is told by email.  The finding rings
  for both.
\<close>

definition bell_access :: access_db where
  "bell_access =
     \<lparr>ac_orgs = [\<lparr>or_id = ''o1'', or_name = ''Acme'', or_slug = ''acme'', or_personal = None, or_at = 0\<rparr>],
      ac_members = [\<lparr>mr_org = ''o1'', mr_user = ''bob'', mr_role = RoleMember, mr_at = 0\<rparr>,
        \<lparr>mr_org = ''o1'', mr_user = ''ada'', mr_role = RoleOwner, mr_at = 0\<rparr>],
      ac_invites = [],
      ac_identities = [\<lparr>idn_user = ''ada'', idn_issuer = ''i'', idn_subject = ''a'', idn_email = Some ''ada@x'',
        idn_name = None, idn_verified = True\<rparr>],
      ac_audit = [], ac_subs = [], ac_outbox = []\<rparr>"

definition bell_db :: notify_db where
  "bell_db =
     \<lparr>nt_channels = [\<lparr>ch_org = ''o1'', ch_user = ''bob'', ch_chat = ''42'', ch_code = None, ch_attempts = 0,
        ch_verified = Some 1, ch_at = 0\<rparr>],
      nt_prefs = [\<lparr>pw_org = ''o1'', pw_user = ''bob'', pw_prefs = default_preferences\<lparr>pf_channel := ChannelTelegram\<rparr>\<rparr>],
      nt_bells = [\<lparr>bl_id = ''b1'', bl_org = ''o1'', bl_finding = ''f1'', bl_status = ''pending'', bl_attempts = 0,
        bl_error = None, bl_sent = None\<rparr>],
      nt_tokens = [], nt_severity = [(''f1'', SeverityHigh)]\<rparr>"

definition bell_env :: "string list \<Rightarrow> send_env" where
  "bell_env configured = \<lparr>sv_base = ''kl'', sv_configured = configured, sv_accepts = (\<lambda>_. True),
     sv_token = id, sv_approval = (\<lambda>_. None)\<rparr>"

definition rung :: "string list \<Rightarrow> (bell_error + bell_answer) \<times> notify_db \<times> letter list" where
  "rung configured = notify_recipients id_env (bell_env configured) 9 bell_access ''b1'' [''ada'', ''bob''] [] [] bell_db"

theorem doorbells_reach_their_members_witness:
  "\<exists>l c. l \<in> set (snd (snd (rung [ChannelEmail, ChannelTelegram]))) \<and> lt_channel l = ChannelTelegram
     \<and> c \<in> set (nt_channels bell_db) \<and> ch_chat c = lt_to l \<and> ch_verified c \<noteq> None"
proof -
  let ?ls = "snd (snd (rung [ChannelEmail, ChannelTelegram]))"
  have "map lt_channel ?ls = [ChannelTelegram, ChannelEmail]" by code_simp
  then obtain l ls where l: "?ls = l # ls" "lt_channel l = ChannelTelegram" by auto
  then have mem: "l \<in> set ?ls" by simp
  from doorbells_reach_their_members [OF mem [unfolded rung_def]] l(2)
  obtain o' u c where "channel_of bell_db o' u = Some c" "ch_chat c = lt_to l" "ch_verified c \<noteq> None"
    by (auto simp: ChannelEmail_def ChannelTelegram_def)
  moreover from this(1) have "c \<in> set (nt_channels bell_db)"
    unfolding channel_of_def by (auto dest: find_SomeD)
  ultimately show ?thesis using mem l(2) by blast
qed

theorem unconfigured_chat_silences_the_rest_witness:
  "\<exists>e db' sent. rung [ChannelEmail] = (Inl e, db', sent) \<and> sent = [] \<and> pending_bell db' ''b1'' \<noteq> None"
proof -
  obtain res db' sent where r: "rung [ChannelEmail] = (res, db', sent)" by (rule prod_cases3)
  define b where "b = hd (nt_bells bell_db)"
  have b: "find_bell id_env bell_db ''b1'' = Inr (Some b)" unfolding b_def by code_simp
  have bid: "bl_id b = ''b1''" unfolding b_def by code_simp
  define rs where "rs = recipients bell_access bell_db b"
  have two: "map rc_user rs = [''bob'', ''ada'']" unfolding rs_def b_def by code_simp
  then obtain r1 r2 where rs: "rs = [r1, r2]" "rc_user r1 = ''bob''" "rc_user r2 = ''ada''" by auto
  have "rc_channel (hd rs) = ChannelTelegram" "rc_chat (hd rs) = ''42''" "rc_chat_verified (hd rs)"
    unfolding rs_def b_def by code_simp+
  then have chosen: "rc_channel r1 = ChannelTelegram" "rc_chat r1 \<noteq> []" "rc_chat_verified r1" by (simp_all add: rs(1))
  have split: "filter (\<lambda>r. rc_user r \<in> set [''ada'', ''bob'']) (recipients bell_access bell_db b) = [] @ r1 # [r2]"
    using rs unfolding rs_def by simp
  have off: "ChannelTelegram \<notin> set (sv_configured (bell_env [ChannelEmail]))"
    by (simp add: bell_env_def ChannelEmail_def ChannelTelegram_def)
  from unconfigured_chat_silences_the_rest [OF b _ refl refl split chosen off r [unfolded rung_def]]
  have "isl res" "sent = []" "pending_bell db' ''b1'' \<noteq> None" by (simp_all add: bid)
  with r show ?thesis by (cases res) auto
qed

section \<open>The outbox\<close>

text \<open>Deliveries of any message and clearings of the outbox, in any order and at any times.\<close>

inductive outbox_step :: "pg_env \<Rightarrow> access_db \<Rightarrow> access_db \<Rightarrow> bool" for E :: pg_env where
  delivered: "outbox_step E a (fst (snd (deliver_message E configured accepts now mid a)))"
| cleared: "outbox_step E a (snd (reclaim_outbox E retention batch now a))"

inductive_simps outbox_step_iff: "outbox_step E a a'"

lemma pending_message_None: "pending_message a u = None \<longleftrightarrow> (\<forall>m \<in> set (ac_outbox a). ob_id m = u \<longrightarrow> ob_status m \<noteq> ''pending'')"
  by (auto simp: pending_message_def find_None_iff)

lemma deliver_keeps_settled:
  assumes "pending_message a u = None"
  shows "pending_message (fst (snd (deliver_message E configured accepts now mid a))) u = None"
  using assms
  by (auto simp: deliver_message_def set_message_def pending_message_None split: option.splits if_splits)

lemma reclaim_keeps_settled:
  assumes "pending_message a u = None"
  shows "pending_message (snd (reclaim_outbox E retention batch now a)) u = None"
  using assms
  by (auto simp: reclaim_outbox_def Let_def on_batch_def pending_message_None clear_message_def abandon_message_def
      split: if_splits)

lemma outbox_steps_settled:
  "(outbox_step E)\<^sup>*\<^sup>* a a' \<Longrightarrow> pending_message a u = None \<Longrightarrow> pending_message a' u = None"
  by (induction rule: rtranclp_induct)
    (auto simp: outbox_step_iff intro: deliver_keeps_settled reclaim_keeps_settled)

lemma set_message_settles:
  assumes "\<And>m. ob_id (f m) = ob_id m" and "\<And>m. ob_status (f m) \<noteq> ''pending''"
  shows "pending_message (set_message u f a) u = None"
  using assms by (auto simp: pending_message_None set_message_def)

text \<open>
  C19: A queued message leaves once: when a delivery is reported, exactly that message has left,
  and whatever is delivered or cleared afterwards, no later delivery of the same id sends anything.
\<close>

theorem message_leaves_once:
  assumes "deliver_message E configured accepts now mid a = (Inr True, a1, sent)" and "(outbox_step E)\<^sup>*\<^sup>* a1 a2"
  shows "(\<exists>m \<in> set (ac_outbox a). sent = [message_letter m] \<and> ob_status m = ''pending'' \<and> Some (ob_id m) = pg_uuid E mid)
    \<and> snd (snd (deliver_message E configured' accepts' now' mid a2)) = []"
proof -
  let ?f = "\<lambda>m. if ob_status m \<noteq> ''pending'' then m
        else m\<lparr>ob_status := ''sent'', ob_sent := Some now, ob_attempts := ob_attempts m + 1, ob_error := None\<rparr>"
  have named: "mid \<noteq> []" "configured \<noteq> []" using assms(1) by (auto simp: deliver_message_def split: if_splits)
  with assms(1) have u0: "go_uuid E mid \<noteq> None" by (auto simp: deliver_message_def split: if_splits)
  with assms(1) named obtain u where u1: "pg_uuid E mid = Some u"
    by (cases "pg_uuid E mid") (auto simp: deliver_message_def)
  with assms(1) named u0 obtain m where u2: "pending_message a u = Some m"
    by (cases "pending_message a u") (auto simp: deliver_message_def)
  note u = u1 u2 u0
  have "router_send configured accepts (message_letter m) = None"
    using assms(1) named u by (cases "router_send configured accepts (message_letter m)") (auto simp: deliver_message_def)
  with assms(1) named u have a1: "a1 = set_message u ?f a" and sent: "sent = [message_letter m]"
    by (auto simp: deliver_message_def)
  have "pending_message a1 u = None"
    unfolding a1 by (rule set_message_settles) simp_all
  then have "pending_message a2 u = None" by (rule outbox_steps_settled [OF assms(2)])
  then have "snd (snd (deliver_message E configured' accepts' now' mid a2)) = []"
    by (auto simp: deliver_message_def u(1))
  moreover have "m \<in> set (ac_outbox a)" "ob_status m = ''pending''" "ob_id m = u"
    using find_SomeD [OF u(2) [unfolded pending_message_def]] by simp_all
  ultimately show ?thesis using u(1) sent by auto
qed

definition queued :: access_db where
  "queued = bell_access\<lparr>ac_outbox := [\<lparr>ob_id = ''m1'', ob_org = ''o1'', ob_kind = KindInvitation,
     ob_channel = ChannelEmail, ob_email = ''e@x'', ob_chat = [], ob_subject = ''Join'', ob_text = ''link'', ob_html = None,
     ob_status = ''pending'', ob_attempts = 0, ob_error = None, ob_created = 1, ob_sent = None, ob_redacted = None\<rparr>],
     ac_invites := [\<lparr>inv_id = ''i1'', inv_org = ''o1'', inv_email = ''e@x'', inv_role = RoleMember, inv_hash = ''h'',
       inv_by = ''ada'', inv_expires = 100, inv_accepted = None\<rparr>]\<rparr>"

theorem message_leaves_once_witness:
  "\<exists>a1 sent. deliver_message id_env [ChannelEmail] (\<lambda>_. True) 2 ''m1'' queued = (Inr True, a1, sent)
     \<and> length sent = 1 \<and> snd (snd (deliver_message id_env [ChannelEmail] (\<lambda>_. True) 3 ''m1'' a1)) = []"
proof -
  let ?d = "deliver_message id_env [ChannelEmail] (\<lambda>_. True) 2 ''m1'' queued"
  have "fst ?d = Inr True" by code_simp
  then obtain a1 sent where d: "?d = (Inr True, a1, sent)" by (cases ?d) auto
  from message_leaves_once [OF d rtranclp.rtrancl_refl, of "[ChannelEmail]" "\<lambda>_. True" 3]
  obtain m where "sent = [message_letter m]" "snd (snd (deliver_message id_env [ChannelEmail] (\<lambda>_. True) 3 ''m1'' a1)) = []"
    by blast
  with d show ?thesis by simp
qed



section \<open>Quiet hours\<close>

text \<open>A zone at a fixed offset from UTC: the wall is the instant plus the offset, day by day.\<close>

definition fixed_zone :: "duration \<Rightarrow> zone" where
  "fixed_zone off =
     \<lparr>zn_wall = (\<lambda>t. let n = t + off in
        \<lparr>wl_day = n div (1440 * minute), wl_hour = nat (n mod (1440 * minute) div (60 * minute)),
         wl_minute = nat (n mod (1440 * minute) mod (60 * minute) div minute)\<rparr>),
      zn_date = (\<lambda>d h m. d * (1440 * minute) + int (h * 60 + m) * minute - off)\<rparr>"

definition minute_of_day :: "duration \<Rightarrow> instant \<Rightarrow> int" where
  "minute_of_day off t = (t + off) mod (1440 * minute) div minute"

lemma minute_pos: "0 < minute" by (simp add: minute_def second_def)

lemma hours_and_minutes:
  assumes "0 \<le> (x :: int)" and "0 < M"
  shows "int (nat (x div (60 * M))) * 60 + int (nat (x mod (60 * M) div M)) = x div M"
proof -
  have "x div (60 * M) = x div M div 60"
    using zdiv_zmult2_eq [of 60 x M] by (simp add: mult.commute)
  moreover have "x mod (60 * M) div M = x div M mod 60"
  proof -
    have "x mod (M * 60) = M * (x div M mod 60) + x mod M" by (rule zmod_zmult2_eq) simp
    moreover have "(M * (x div M mod 60) + x mod M) div M = x div M mod 60" using assms(2) by simp
    ultimately show ?thesis by (simp add: mult.commute)
  qed
  ultimately show ?thesis using assms by (simp add: pos_imp_zdiv_nonneg_iff)
qed

lemma wall_minutes:
  "int (wl_hour (zn_wall (fixed_zone off) t) * 60 + wl_minute (zn_wall (fixed_zone off) t)) = minute_of_day off t"
proof -
  have "0 \<le> (t + off) mod (1440 * minute)" using minute_pos by simp
  from hours_and_minutes [OF this minute_pos] show ?thesis
    by (simp add: fixed_zone_def Let_def minute_of_day_def)
qed

definition in_window :: "int \<Rightarrow> int \<Rightarrow> int \<Rightarrow> bool" where
  "in_window f e q \<longleftrightarrow> f \<noteq> e \<and> (if f < e then f \<le> q \<and> q < e else f \<le> q \<or> q < e)"

text \<open>Counted back from the window's end, the window is its own length.\<close>

lemma window_back:
  assumes "0 \<le> f" "f < 1440" "0 \<le> e" "e < 1440" "f \<noteq> e" and "0 < M" and "0 < r" "r \<le> 1440 * M"
  shows "in_window f e ((e * M - r) mod (1440 * M) div M) \<longleftrightarrow> r \<le> (e - f) mod 1440 * M"
proof -
  have le: "k \<le> x div M \<longleftrightarrow> k * M \<le> x" for k x :: int
  proof
    assume "k \<le> x div M"
    then have "k * M \<le> x div M * M" using assms(6) by (intro mult_right_mono) auto
    also have "\<dots> \<le> x" using assms(6) pos_mod_sign [of M x] div_mult_mod_eq [of x M] by linarith
    finally show "k * M \<le> x" .
  next
    assume "k * M \<le> x"
    then have "k * M div M \<le> x div M" using assms(6) by (rule zdiv_mono1)
    then show "k \<le> x div M" using assms(6) by simp
  qed
  have eM: "0 \<le> e * M" "e * M < 1440 * M" using assms by simp_all
  define L where "L = (if f < e then e - f else e - f + 1440)"
  have L: "(e - f) mod 1440 = L"
  proof (cases "f < e")
    case True
    then show ?thesis using assms(1,4) by (simp add: L_def)
  next
    case False
    have "(e - f) mod 1440 = (e - f + 1440) mod 1440" by simp
    also have "\<dots> = e - f + 1440" using False assms(1-5) by (intro mod_pos_pos_trivial) auto
    finally show ?thesis using False by (simp add: L_def)
  qed
  show ?thesis
  proof (cases "r \<le> e * M")
    case True
    have x: "(e * M - r) mod (1440 * M) = e * M - r"
      using True assms(7) eM by (intro mod_pos_pos_trivial) auto
    have below: "(e * M - r) div M < e"
      using le [of e "e * M - r"] assms(7) by auto
    have "f \<le> (e * M - r) div M \<longleftrightarrow> r \<le> (e - f) * M" unfolding le by (auto simp: algebra_simps)
    moreover have "r \<le> L * M" if "\<not> f < e"
    proof -
      have "e * M \<le> L * M" using that assms(1-6) by (intro mult_right_mono) (auto simp: L_def)
      with True show ?thesis by linarith
    qed
    ultimately show ?thesis using below assms(5) unfolding x L by (auto simp: in_window_def L_def)
  next
    case False
    have "(e * M - r) mod (1440 * M) = (e * M - r + 1440 * M) mod (1440 * M)" by simp
    also have "\<dots> = e * M - r + 1440 * M"
      using False assms(7,8) eM by (intro mod_pos_pos_trivial) auto
    finally have x: "(e * M - r) mod (1440 * M) = e * M - r + 1440 * M" .
    have above: "e \<le> (e * M - r + 1440 * M) div M" unfolding le using assms(8) by simp
    have "f \<le> (e * M - r + 1440 * M) div M \<longleftrightarrow> r \<le> (e - f + 1440) * M" unfolding le by (auto simp: algebra_simps)
    moreover have "\<not> r \<le> L * M" if "f < e"
    proof -
      have "L * M \<le> e * M" using that assms(1-6) by (intro mult_right_mono) (auto simp: L_def)
      with False show ?thesis by linarith
    qed
    ultimately show ?thesis using above assms(5) unfolding x L by (auto simp: in_window_def L_def)
  qed
qed

lemma parse_clock_bounds: "parse_clock s = Some (h, m) \<Longrightarrow> h * 60 + m < 1440"
  by (auto split: if_splits elim!: parse_clock.elims simp: digit_val_def is_digit_def)


lemma fixed_zone_quiet:
  assumes "parse_clock start = Some (fh, fm)" and "parse_clock stop = Some (th, tm)"
  shows "in_quiet_hours (fixed_zone off) t start stop
    \<longleftrightarrow> in_window (int (fh * 60 + fm)) (int (th * 60 + tm)) (minute_of_day off t)"
proof -
  have "start \<noteq> []" "stop \<noteq> []" using assms by auto
  then show ?thesis
    unfolding in_window_def wall_minutes [of off t, symmetric] of_nat_le_iff of_nat_less_iff of_nat_eq_iff
    by (simp add: in_quiet_hours_def assms Let_def)
qed

lemma minute_of_day_back:
  assumes "t + off = d * (1440 * minute) + e * minute"
  shows "minute_of_day off (t - r) = (e * minute - r) mod (1440 * minute) div minute"
proof -
  have "t - r + off = e * minute - r + d * (1440 * minute)" using assms by simp
  then show ?thesis unfolding minute_of_day_def by (metis mod_mult_self1)
qed

text \<open>
  Quiet hours hold a message, and only as long as they last: in a zone at a fixed offset, a
  doorbell that falls into somebody's window is held until a moment after now and within a day of
  it, at which the window is over, and every moment from now until then is inside the window, across
  midnight or not.
\<close>

theorem held_until_the_window_ends:
  assumes "in_quiet_hours (fixed_zone off) now start stop"
  shows "\<exists>t. quiet_hours_end (fixed_zone off) now start stop = Some t
    \<and> now < t \<and> t \<le> now + 24 * hour \<and> \<not> in_quiet_hours (fixed_zone off) t start stop
    \<and> (\<forall>s. now \<le> s \<and> s < t \<longrightarrow> in_quiet_hours (fixed_zone off) s start stop)"
proof -
  let ?z = "fixed_zone off" and ?D = "1440 * minute"
  from assms obtain fh fm th tm where p: "parse_clock start = Some (fh, fm)" "parse_clock stop = Some (th, tm)"
    by (auto simp: in_quiet_hours_def split: if_splits option.splits)
  define f where "f = int (fh * 60 + fm)"
  define e where "e = int (th * 60 + tm)"
  have b: "0 \<le> f" "f < 1440" "0 \<le> e" "e < 1440"
    using parse_clock_bounds [OF p(1)] parse_clock_bounds [OF p(2)] by (auto simp: f_def e_def)
  note quiet = fixed_zone_quiet [OF p, of off, folded f_def e_def]
  have fe: "f \<noteq> e" using assms unfolding quiet by (simp add: in_window_def)
  have D: "0 < ?D" "?D = 24 * hour" using minute_pos by (simp_all add: hour_def)
  define d where "d = (now + off) div ?D"
  define c where "c = d * ?D + e * minute - off"
  have eM: "0 \<le> e * minute" "e * minute < ?D" using b minute_pos by simp_all
  have now: "d * ?D \<le> now + off" "now + off < d * ?D + ?D"
    unfolding d_def using D(1) div_mult_mod_eq [of "now + off" ?D] pos_mod_bound [of ?D "now + off"]
      pos_mod_sign [of ?D "now + off"] by linarith+
  have cand: "zn_date ?z (wl_day (zn_wall ?z now)) th tm = c"
    by (simp add: fixed_zone_def Let_def c_def d_def e_def)
  have wall_c: "zn_wall ?z c = \<lparr>wl_day = d, wl_hour = nat (e * minute div (60 * minute)),
      wl_minute = nat (e * minute mod (60 * minute) div minute)\<rparr>"
  proof -
    have "c + off = e * minute + d * ?D" by (simp add: c_def)
    then have "(c + off) div ?D = d" "(c + off) mod ?D = e * minute"
      using eM D(1) by (simp_all add: div_pos_pos_trivial)
    then show ?thesis by (simp add: fixed_zone_def Let_def)
  qed
  have next_day: "add_day ?z c = c + ?D"
  proof -
    have "int (nat (e * minute div (60 * minute)) * 60 + nat (e * minute mod (60 * minute) div minute)) = e"
      using hours_and_minutes [OF eM(1) minute_pos] minute_pos by simp
    then have "int (wl_hour (zn_wall ?z c) * 60 + wl_minute (zn_wall ?z c)) = e" unfolding wall_c by simp
    then have "zn_date ?z (d + 1) (wl_hour (zn_wall ?z c)) (wl_minute (zn_wall ?z c)) = (d + 1) * ?D + e * minute - off"
      unfolding fixed_zone_def zone.simps by simp
    moreover have "wl_day (zn_wall ?z c) = d" by (simp add: wall_c)
    moreover have "(d + 1) * ?D + e * minute - off = c + ?D" by (simp add: c_def algebra_simps)
    ultimately show ?thesis by (simp only: add_day_def Let_def)
  qed
  define t where "t = (if \<not> now < c then c + ?D else c)"
  have ends: "quiet_hours_end ?z now start stop = Some t"
    using assms by (simp add: quiet_hours_end_def p cand next_day t_def Let_def)
  have t_range: "now < t" "t \<le> now + ?D" 
    using now eM by (simp_all only: t_def c_def split: if_split) linarith+
  obtain k where t: "t + off = k * ?D + e * minute"
  proof (cases "now < c")
    case True
    then show ?thesis by (intro that [of d]) (simp add: t_def c_def)
  next
    case False
    then show ?thesis by (intro that [of "d + 1"]) (simp add: t_def c_def algebra_simps)
  qed
  have behind: "in_quiet_hours ?z (t - r) start stop \<longleftrightarrow> r \<le> (e - f) mod 1440 * minute" if "0 < r" "r \<le> ?D" for r
    unfolding quiet minute_of_day_back [OF t] by (rule window_back [OF b fe minute_pos that])
  have "in_quiet_hours ?z (t - (t - now)) start stop" using assms by simp
  then have len: "t - now \<le> (e - f) mod 1440 * minute" using behind [of "t - now"] t_range by simp
  have inside: "in_quiet_hours ?z s start stop" if "now \<le> s" "s < t" for s
  proof -
    have "t - s \<le> (e - f) mod 1440 * minute" using that len by linarith
    then have "in_quiet_hours ?z (t - (t - s)) start stop" using that t_range by (subst behind) linarith+
    then show ?thesis by simp
  qed
  have "\<not> in_quiet_hours ?z t start stop"
  proof -
    have "minute_of_day off t = e" using minute_of_day_back [OF t, of 0] eM minute_pos by simp
    then show ?thesis unfolding quiet using fe by (simp add: in_window_def)
  qed
  with ends t_range inside D(2) show ?thesis by auto
qed

theorem held_until_the_window_ends_witness:
  "\<exists>t. quiet_hours_end (fixed_zone (2 * hour)) (21 * hour) ''22:00'' ''7:00'' = Some t
     \<and> \<not> in_quiet_hours (fixed_zone (2 * hour)) t ''22:00'' ''7:00''"
proof -
  have "in_quiet_hours (fixed_zone (2 * hour)) (21 * hour) ''22:00'' ''7:00''" by code_simp
  from held_until_the_window_ends [OF this] show ?thesis by blast
qed

section \<open>Words\<close>

lemma join_Cons: "ys \<noteq> [] \<Longrightarrow> join sep (x # ys) = x @ sep @ join sep ys"
  by (cases ys) simp_all

text \<open>
  A draft changes the words and nothing else: whatever is drafted, the message goes to the
  same person, its text is an opening followed by the same lines, with the link to the finding, the
  approval link when there is one and the unsubscribe link last, and half a draft changes nothing
  at all.
\<close>

theorem draft_changes_only_the_words:
  "ms_email (finding_notification d) = db_email d
   \<and> (\<exists>opening. ms_text (finding_notification d) = opening @ newline @ join newline (doorbell_lines d))
   \<and> doorbell_lines (d\<lparr>db_drafted_subject := s, db_drafted_body := w\<rparr>) = doorbell_lines d
   \<and> last (doorbell_lines d) = db_unsubscribe_url d \<and> db_finding_url d \<in> set (doorbell_lines d)
   \<and> finding_notification (d\<lparr>db_drafted_subject := s, db_drafted_body := []\<rparr>)
       = finding_notification (d\<lparr>db_drafted_subject := [], db_drafted_body := []\<rparr>)
   \<and> finding_notification (d\<lparr>db_drafted_subject := [], db_drafted_body := w\<rparr>)
       = finding_notification (d\<lparr>db_drafted_subject := [], db_drafted_body := []\<rparr>)"
proof -
  have ne: "doorbell_lines d \<noteq> []" for d by (simp add: doorbell_lines_def)
  have "\<exists>opening. ms_text (finding_notification d) = opening @ newline @ join newline (doorbell_lines d)"
    unfolding finding_notification_def Let_def using join_Cons [OF ne [of d]] by simp
  then show ?thesis
    by (simp add: finding_notification_def Let_def drafted_def doorbell_lines_def)
qed

section \<open>A link a draft may carry\<close>

text \<open>What a match of a pattern needs of the text.\<close>

lemma ends_Star:
  assumes "(l, g) \<in> set (ends w (Star greedy a) n)"
  shows "l = n \<or> (\<exists>k g1 g2. (k, g1) \<in> set (ends w a n) \<and> n < k \<and> k \<le> length w
           \<and> (l, g2) \<in> set (ends w (Star greedy a) k))"
proof (cases "l = n")
  case False
  let ?more = "concat (map (\<lambda>(k, g). if n < k \<and> k \<le> length w
       then map (\<lambda>(l, h). (l, if h = None then g else h)) (ends w (Star greedy a) k) else []) (ends w a n))"
  from assms False have "(l, g) \<in> set ?more"
    by (subst (asm) ends.simps(6)) (simp only: Let_def set_append list.set Un_iff insert_iff empty_iff prod.inject split: if_splits, blast+)
  then obtain x where x: "x \<in> set (ends w a n)" and in_x: "(l, g) \<in> set ((\<lambda>(k, g). if n < k \<and> k \<le> length w
       then map (\<lambda>(l, h). (l, if h = None then g else h)) (ends w (Star greedy a) k) else []) x)"
    unfolding set_concat set_map by blast
  obtain k h where "x = (k, h)" by (cases x)
  with x in_x show ?thesis by (auto simp del: ends.simps(6) split: if_splits)
qed simp

lemma ends_mono: "(l, g) \<in> set (ends w r n) \<Longrightarrow> n \<le> l"
proof (induction w r n arbitrary: l g rule: ends.induct)
  case (4 w a b n)
  from "4.prems" obtain k g1 g2 where k: "(k, g1) \<in> set (ends w a n)" "(l, g2) \<in> set (ends w b k)"
    by auto
  from "4.IH"(1) [OF k(1)] "4.IH"(2) [OF k(1) refl k(2)] show ?case by (rule order_trans)
next
  case (6 w greedy a n)
  from ends_Star [OF "6.prems"] show ?case
  proof (elim disjE exE conjE)
    fix k g1 g2
    assume k: "(k, g1) \<in> set (ends w a n)" "n < k" "k \<le> length w" "(l, g2) \<in> set (ends w (Star greedy a) k)"
    have "k \<le> l" by (rule "6.IH"(2) [OF k(1) refl _ k(4)]) (use k in simp)
    with k(2) show ?thesis by simp
  qed simp
qed (auto split: if_splits)

lemma ends_Seq:
  assumes "(l, g) \<in> set (ends w (Seq a b) n)"
  obtains k g1 g2 where "(k, g1) \<in> set (ends w a n)" "(l, g2) \<in> set (ends w b k)"
  using assms by auto

lemma ends_Cls: "(l, g) \<in> set (ends w (Cls neg rs) n) \<Longrightarrow> n < length w \<and> in_class neg rs (w ! n) \<and> l = Suc n"
  by (auto split: if_splits)

lemma ends_one: "(l, g) \<in> set (ends w (Cls False [one_rune c]) n) \<Longrightarrow> n < length w \<and> w ! n = of_char c \<and> l = Suc n"
  by (auto simp: in_class_def one_rune_def split: if_splits)

lemma find_from_None: "(\<And>k. ends w r k = []) \<Longrightarrow> find_from w r n = None"
proof (induction w r n rule: find_from.induct)
  case (1 w r n)
  then show ?case by (subst find_from.simps) (simp add: Let_def)
qed

lemma scheme_match:
  assumes "(l, g) \<in> set (ends w scheme_link n)"
  obtains j where "n + 2 \<le> j" "word_boundary w n" "in_class False fold_letters (w ! n)" "j < length w" "w ! j = 58"
proof -
  let ?mid = "Cls False (fold_letters @ digit_class @ [one_rune CHR ''+'', one_rune CHR ''.'', one_rune CHR ''-''])"
  have r: "scheme_link = Seq WordB (Seq (Cls False fold_letters) (Seq (between 1 31 ?mid) (lit ''://'')))"
    by (simp add: scheme_link_def)
  from assms obtain k1 g1 g2 where 1: "(k1, g1) \<in> set (ends w WordB n)"
    "(l, g2) \<in> set (ends w (Seq (Cls False fold_letters) (Seq (between 1 31 ?mid) (lit ''://''))) k1)"
    unfolding r by (rule ends_Seq)
  then have wb: "word_boundary w n" "k1 = n" by (auto split: if_splits)
  from 1(2) obtain k2 g3 g4 where 2: "(k2, g3) \<in> set (ends w (Cls False fold_letters) k1)"
    "(l, g4) \<in> set (ends w (Seq (between 1 31 ?mid) (lit ''://'')) k2)" by (rule ends_Seq)
  from ends_Cls [OF 2(1)] wb(2) have letter: "in_class False fold_letters (w ! n)" "k2 = Suc n" by auto
  from 2(2) obtain k3 g5 g6 where 3: "(k3, g5) \<in> set (ends w (between 1 31 ?mid) k2)"
    "(l, g6) \<in> set (ends w (lit ''://'') k3)" by (rule ends_Seq)
  have "between 1 31 ?mid = Seq (Seq ?mid Eps) (upto_copies 30 ?mid)" by (simp add: between_def numeral_eq_Suc)
  with 3(1) obtain k4 g7 g8 where 4: "(k4, g7) \<in> set (ends w (Seq ?mid Eps) k2)" "(k3, g8) \<in> set (ends w (upto_copies 30 ?mid) k4)"
    using ends_Seq by metis
  from 4(1) have "k4 = Suc k2" by (auto split: if_splits)
  with ends_mono [OF 4(2)] letter(2) have "n + 2 \<le> k3" by simp
  moreover have "lit ''://'' = Seq (Cls False [one_rune CHR '':'']) (Seq (Cls False [one_rune CHR ''/'']) (Cls False [one_rune CHR ''/'']))"
    by (simp add: lit_def)
  with 3(2) obtain k5 g9 where "(k5, g9) \<in> set (ends w (Cls False [one_rune CHR '':'']) k3)" using ends_Seq by metis
  from ends_one [OF this] have "k3 < length w" "w ! k3 = 58" by auto
  ultimately show ?thesis by (intro that [of k3] wb(1) letter(1))
qed

lemma lit_fold_match:
  assumes "(l, g) \<in> set (ends w (lit_fold s) n)"
  shows "l = n + length s \<and> (\<forall>i < length s. in_class False (fold_char (s ! i)) (w ! (n + i)))"
proof -
  have "l = n + length s \<and> (\<forall>i < length s. in_class False (fold_char (s ! i)) (w ! (n + i)))"
    if "(l, g) \<in> set (ends w (seqs (map (\<lambda>c. Cls False (fold_char c)) s)) n)" for g
    using that
  proof (induction s arbitrary: n g rule: induct_list012)
    case (3 a b s)
    then obtain g2 where "in_class False (fold_char a) (w ! n)"
      "(l, g2) \<in> set (ends w (seqs (map (\<lambda>c. Cls False (fold_char c)) (b # s))) (Suc n))"
      by (auto split: if_splits)
    with "3.IH"(2) [of g2 "Suc n"] show ?case by (auto simp: less_Suc_eq_0_disj)
  qed (auto split: if_splits)
  with assms show ?thesis by (simp add: lit_fold_def)
qed

lemma contact_match:
  assumes "(l, g) \<in> set (ends w contact_link n)"
  obtains j s where "j < length w" "w ! j = 58" "s \<in> {''mailto'', ''tel'', ''sms''}" "length s \<le> j"
    "\<forall>i < length s. in_class False (fold_char (s ! i)) (w ! (j - length s + i))"
proof -
  have r: "contact_link = Seq WordB (Seq (Alt (lit_fold ''mailto'') (Alt (lit_fold ''tel'') (lit_fold ''sms''))) (Cls False [one_rune CHR '':'']))"
    by (simp add: contact_link_def lit_def)
  from assms obtain k1 g1 g2 where 1: "(k1, g1) \<in> set (ends w WordB n)"
    "(l, g2) \<in> set (ends w (Seq (Alt (lit_fold ''mailto'') (Alt (lit_fold ''tel'') (lit_fold ''sms''))) (Cls False [one_rune CHR '':''])) k1)"
    unfolding r by (rule ends_Seq)
  from 1(2) obtain k2 g3 g4 where 2: "(k2, g3) \<in> set (ends w (Alt (lit_fold ''mailto'') (Alt (lit_fold ''tel'') (lit_fold ''sms''))) k1)"
    "(l, g4) \<in> set (ends w (Cls False [one_rune CHR '':'']) k2)" by (rule ends_Seq)
  from 2(1) obtain s where s: "s \<in> {''mailto'', ''tel'', ''sms''}" "(k2, g3) \<in> set (ends w (lit_fold s) k1)" by auto
  from lit_fold_match [OF s(2)] ends_one [OF 2(2)] s(1) show ?thesis by (intro that [of k2 s]) auto
qed

lemma address_match:
  assumes "(l, g) \<in> set (ends w address_pattern n)"
  shows "64 \<in> set w"
proof -
  let ?a = "at_least 1 (Cls True (space_class @ map one_rune ''@<>()[]''))"
  obtain rest where r: "address_pattern = Seq ?a (Seq (Cls False [one_rune CHR ''@'']) rest)"
    by (simp add: address_pattern_def lit_def)
  from assms obtain k1 g2 where "(l, g2) \<in> set (ends w (Seq (Cls False [one_rune CHR ''@'']) rest) k1)"
    unfolding r using ends_Seq by metis
  then obtain k2 g3 where "(k2, g3) \<in> set (ends w (Cls False [one_rune CHR ''@'']) k1)" using ends_Seq by metis
  from ends_one [OF this] show ?thesis by (auto simp: in_set_conv_nth)
qed

text \<open>Printable ASCII of which no pattern matches anything is refused for nothing.\<close>

lemma cells_printable: "is_ascii s \<Longrightarrow> map fst (cells s) = map of_char s"
  by (induction s) (simp_all add: is_ascii_def cells_ascii cells.simps [of "[]"])

lemma match_string_None: "(\<And>k. ends (map fst (cells s)) r k = []) \<Longrightarrow> \<not> match_string r s"
  by (simp add: match_string_def find_from_None)

lemma runes_printable: "is_ascii s \<Longrightarrow> runes s = map of_char s"
  by (induction s) (simp_all add: is_ascii_def runes.simps decode_rune.simps runes.simps [of "[]"])

lemma check_half_printable:
  assumes "\<forall>c \<in> set s. 32 \<le> (of_char c :: nat) \<and> of_char c < (127 :: nat) \<and> of_char c \<noteq> (64 :: nat)"
    and "\<And>k. ends (map of_char s) scheme_link k = []" "\<And>k. ends (map of_char s) contact_link k = []"
  shows "check_half (half, s) = None"
proof -
  have ascii: "is_ascii s" using assms(1) by (auto simp: is_ascii_def list_all_iff)
  have "ends (map of_char s) address_pattern k = []" for k
  proof (rule ccontr)
    assume "ends (map of_char s) address_pattern k \<noteq> []"
    then obtain l g where "(l, g) \<in> set (ends (map of_char s) address_pattern k)" by (metis list.set_sel(1) surj_pair)
    from address_match [OF this] assms(1) show False by force
  qed
  then have "\<not> match_string scheme_link s" "\<not> match_string contact_link s" "\<not> match_string address_pattern s"
    using assms(2,3) by (simp_all add: match_string_None cells_printable [OF ascii])
  moreover have "find control_rune (runes s) = None" "\<not> list_ex dash_rune (runes s)"
    using assms(1) by (auto simp: runes_printable [OF ascii] find_None_iff control_rune_def list_ex_iff dash_rune_def)
  ultimately show ?thesis by (simp add: check_half_def)
qed

text \<open>A text with no colon has neither kind of link.\<close>

lemma no_colon:
  assumes "58 \<notin> set w"
  shows "ends w scheme_link k = []" "ends w contact_link k = []"
proof -
  show "ends w scheme_link k = []"
  proof (rule ccontr)
    assume "ends w scheme_link k \<noteq> []"
    then obtain l g where "(l, g) \<in> set (ends w scheme_link k)" by (metis list.set_sel(1) surj_pair)
    then obtain j where "j < length w" "w ! j = 58" by (rule scheme_match)
    with assms show False by (metis nth_mem)
  qed
  show "ends w contact_link k = []"
  proof (rule ccontr)
    assume "ends w contact_link k \<noteq> []"
    then obtain l g where "(l, g) \<in> set (ends w contact_link k)" by (metis list.set_sel(1) surj_pair)
    then obtain j where "j < length w" "w ! j = 58" by (rule contact_match)
    with assms show False by (metis nth_mem)
  qed
qed

text \<open>
  An address stuck to an underscore gets past the check of a draft: the patterns ask for a word
  boundary before the scheme, and an underscore is part of a word, so a draft whose body is
  such an address, whatever its host of letters and dots, is judged exactly like one without any.
\<close>

theorem stuck_address_is_accepted:
  assumes "\<forall>c \<in> set host. c = CHR ''.'' \<or> 97 \<le> (of_char c :: nat) \<and> of_char c \<le> (122 :: nat)"
    and "length host \<le> 600"
  shows "acceptable_draft subject (''_https://'' @ host) = acceptable_draft subject ''See the page''"
proof -
  let ?s = "''_https://'' @ host"
  have dot: "c = CHR ''.'' \<Longrightarrow> of_char c = (46 :: nat)" for c by simp
  have h: "32 \<le> (of_char c :: nat) \<and> of_char c < (127 :: nat) \<and> of_char c \<noteq> (64 :: nat) \<and> of_char c \<noteq> (58 :: nat)"
    if "c \<in> set host" for c
    using assms(1) [rule_format, OF that] dot [of c] by auto
  have w: "map of_char ?s = [95, 104, 116, 116, 112, 115, 58, 47, 47] @ map (of_char :: char \<Rightarrow> nat) host" by simp
  have colon: "j = 6" if "j < length (map (of_char :: char \<Rightarrow> nat) ?s)" "map of_char ?s ! j = (58 :: nat)" for j
  proof (cases "j < 9")
    case True
    then have "j = 0 \<or> j = 1 \<or> j = 2 \<or> j = 3 \<or> j = 4 \<or> j = 5 \<or> j = 6 \<or> j = 7 \<or> j = 8"
      by presburger
    with that(2) show ?thesis unfolding w by auto
  next
    case False
    have "map of_char ?s ! j = (map of_char host ! (j - 9) :: nat)"
      unfolding w by (subst nth_append) (use False in \<open>simp add: numeral_eq_Suc\<close>)
    moreover have "j - 9 < length host" using that(1) False by simp
    ultimately have "map of_char ?s ! j = (of_char (host ! (j - 9)) :: nat)" "host ! (j - 9) \<in> set host"
      by simp_all
    with h that(2) show ?thesis by force
  qed
  have scheme: "ends (map of_char ?s) scheme_link k = []" for k
  proof (rule ccontr)
    assume "ends (map of_char ?s) scheme_link k \<noteq> []"
    then obtain l g where "(l, g) \<in> set (ends (map of_char ?s) scheme_link k)" by (metis list.set_sel(1) surj_pair)
    then obtain j where j: "k + 2 \<le> j" "word_boundary (map of_char ?s) k" "in_class False fold_letters (map of_char ?s ! k)"
      "j < length (map (of_char :: char \<Rightarrow> nat) ?s)" "map of_char ?s ! j = (58 :: nat)" by (rule scheme_match)
    with colon have "k \<le> 4" by force
    then have "k = 0 \<or> k = 1 \<or> k = 2 \<or> k = 3 \<or> k = 4" by presburger
    then show False
    proof (elim disjE)
      assume k: "k = 0"
      from j(3) have "in_class False fold_letters 95" unfolding w k by simp
      then show False by code_simp
    qed (use j(2) in \<open>simp_all add: w word_boundary_def word_at_def word_rune_def\<close>)
  qed
  have contact: "ends (map of_char ?s) contact_link k = []" for k
  proof (rule ccontr)
    assume "ends (map of_char ?s) contact_link k \<noteq> []"
    then obtain l g where "(l, g) \<in> set (ends (map of_char ?s) contact_link k)" by (metis list.set_sel(1) surj_pair)
    then obtain j s where j: "j < length (map (of_char :: char \<Rightarrow> nat) ?s)" "map of_char ?s ! j = (58 :: nat)"
      "s \<in> {''mailto'', ''tel'', ''sms''}" "length s \<le> j"
      "\<forall>i < length s. in_class False (fold_char (s ! i)) (map of_char ?s ! (j - length s + i))" by (rule contact_match)
    have six: "j = 6" by (rule colon [OF j(1,2)])
    have at: "map of_char ?s ! 0 = (95 :: nat)" "map of_char ?s ! 3 = (116 :: nat)" "map of_char ?s ! 4 = (112 :: nat)"
      unfolding w by simp_all
    from j(3) consider "s = ''mailto''" | "s = ''tel''" | "s = ''sms''" by blast
    then show False
    proof cases
      case 1
      with j(5) [rule_format, of 0] six at(1) have "in_class False (fold_char CHR ''m'') 95" by simp
      then show False by code_simp
    next
      case 2
      with j(5) [rule_format, of 1] six at(3) have "in_class False (fold_char CHR ''e'') 112" by simp
      then show False by code_simp
    next
      case 3
      with j(5) [rule_format, of 0] six at(2) have "in_class False (fold_char CHR ''s'') 116" by simp
      then show False by code_simp
    qed
  qed
  have bad: "check_half (half, ?s) = None" for half
    by (rule check_half_printable [OF _ scheme contact]) (use h in auto)
  have fine: "check_half (half, ''See the page'') = None" for half
    by (rule check_half_printable) (auto intro: no_colon)
  have lead: "list_all (\<lambda>q. hd q \<noteq> CHR ''S'') space_seqs" "list_all (\<lambda>q. hd q \<noteq> CHR ''_'') space_seqs"
    by code_simp+
  have "trim_space ?s \<noteq> []" "trim_space ''See the page'' \<noteq> []"
    by (simp_all add: trim_space_nonempty lead_space_hd [OF lead(1)] lead_space_hd [OF lead(2)])
  then show ?thesis using assms(2)
    by (simp add: acceptable_draft_def MaxDraftBody_def bad [simplified] fine split: option.split)
qed

theorem stuck_address_is_accepted_witness:
  "acceptable_draft ''New finding'' ''_https://evil.example'' = acceptable_draft ''New finding'' ''See the page''"
  using stuck_address_is_accepted [of "''evil.example''" "''New finding''"] by simp

end
