(* ===== verification/Spec2Isabelle.thy ===== *)
theory Spec2Isabelle
  imports Agent_Signals Fetch_Claims Signal_Store Corpus_Pack Gateway Interceptors Act_Refinement Feed Memory_Claims Org_Claims Notify_Claims
begin

text \<open>
  Kindlast is a compliance product: it holds what a company knows about itself, watches it
  against a corpus of obligations, proposes what to do, and keeps the record of what people
  decided.  This development models the Go code that decides things, function by function,
  and proves what makes each part correct.  File names below are under \<open>apps/core-api/internal\<close>
  unless they start with \<open>libs\<close> or \<open>apps\<close>.

  The parts and how they meet.

  \<^item> The corpus.  \<open>Citations\<close> (\<open>domain/corpus/citation.go\<close>) renders a legal reference as a label
    and an address; \<open>Applicability\<close> (\<open>applieswhen.go\<close>, \<open>appliesbecause.go\<close>) is the vocabulary in
    which an obligation says whom it binds, and the sentences that explain it; \<open>Corpus_Pack\<close>
    (\<open>corpus.go\<close>) validates a pack before it is loaded.
  \<^item> The sweep.  \<open>Watcher\<close> (\<open>domain/sweep\<close>) raises signals from a profile, the obligations and the
    open requests, and converts a signal into a finding; \<open>Signal_Store\<close> (\<open>store/postgres/sweep.go\<close>)
    writes the signals under the partial unique index of \<open>watcher_findings\<close>.
  \<^item> The act path.  \<open>Registers\<close> (\<open>domain/records/registers.go\<close>, \<open>draft.go\<close>) has the columns a
    proposal fills; \<open>Posture\<close> (\<open>domain/findings/posture.go\<close>) the dashboard's band; \<open>Act_Path\<close>
    (\<open>domain/findings/findings.go\<close>, \<open>store/postgres/findings.go\<close>) approve, reject, snooze and the
    dashboard; \<open>Executor\<close> (\<open>store/postgres/executor.go\<close>, \<open>hands.go\<close>, \<open>sweep.go\<close>,
    \<open>service/executor\<close>, \<open>service/hands\<close>) the Analyst's writes, the Hands' proposals and the job
    that creates a record.  \<open>Act_Lifecycle\<close> makes one transition system of them and proves its
    invariant; \<open>Act_Claims\<close> states what follows and where the pipeline falls short;
    \<open>Act_Refinement\<close> shows the tables to refine an abstract ledger.
  \<^item> What the organisation told us.  \<open>Json_Value\<close> is decoded JSON as \<open>encoding/json\<close> reads it;
    \<open>Memory_Facts\<close> (\<open>domain/memory\<close>) the facts and the check each value passes.
  \<^item> Who may call.  \<open>Method_Options\<close> (\<open>libs/chassis/scope\<close>, \<open>httprule\<close>) reads the scope every
    method declares; \<open>Api_Key\<close> (\<open>domain/apikey\<close>, \<open>domain/delegation\<close>) credentials; \<open>Identity\<close>
    (\<open>libs/chassis/oidc\<close>, \<open>denylist\<close>, \<open>subject\<close>) verified claims and denied tokens;
    \<open>Interceptors\<close> (\<open>server/interceptor\<close>, \<open>server/server.go\<close>) composes them into the chain in
    front of every handler.  \<open>Go_Encoding\<close> has hex and base64.
  \<^item> The gateway (\<open>apps/workers/internal\<close>).  \<open>Go_Regexp\<close> and \<open>Redact\<close> clear what leaves;
    \<open>Net_IP\<close> and \<open>Egress\<close> decide which addresses may be dialled; \<open>Tool_Policy\<close>, \<open>Rate_Limit\<close> and
    \<open>Gateway\<close> decide which tool of which connection is called, how often, and how a call is
    retried.
  \<^item> \<open>KL_Prelude\<close> and \<open>Go_Time\<close> hold what all of them use of Go's library: strings as bytes,
    runes, numbers as text, loops over slices that may fail, instants, durations and dates, and
    the two locales the state machines share (an invariant of a transition system, and a
    refinement).

  How code becomes definitions.  A struct is a record and an enumeration a datatype or the
  strings the code compares; a function that returns an error is a function into a sum type
  whose left side lists the errors; a loop is a recursive function, and one that stops early is a
  fold that returns the first error.  A table is a list of rows inside a state record, and a
  transaction a function from one state to the next; a query under row level security filters
  by the session's organisation and membership as the policies in \<open>db/migrations\<close> do.  A handler
  or stage that reaches outside emits an event, so an order of effects is a list.  Instants and
  durations are integers of nanoseconds, durations clamped where Go saturates; \<open>float64\<close> is a
  rational in \<open>Rate_Limit\<close>, which leaves rounding out.

  Parameters.  Code that is not in this repository is an argument of the definitions that use
  it: the Unicode lower-casing of bytes outside ASCII (\<open>uni\<close>), the order of a map's iteration,
  DNS and the dialler, \<open>url.Parse\<close>, the JWT library's verdict on a token, Redis, SHA-1 and SHA-256,
  the random source, the MCP server's answers, the text of a JSON value and of a \<open>timestamptz\<close> in
  Postgres (\<open>jt\<close>, \<open>ts\<close>).  What a theorem needs of one is a hypothesis of the theorem.

  Locales are the contracts between parts: a signal sink and its table, a guard of addresses, a
  sender of requests, an option declared on a method, a stage that lets a request pass, a
  validation loop, an invariant, a refinement.  Each is interpreted on the model's definitions
  in the theory that provides it.

  Bounds.  Recursion is structural or has a measure; there is no fuel.  The constants are the
  code's: three attempts for a gateway request, thirty and ten days for a deadline, three
  rejections before a product review, one to 365 days for a snooze.

  Not modelled.  Generated code, command-line mains, TypeScript and Python; SQL except the
  statements quoted in Go and the functions, policies and constraints they lean on; handlers that
  only translate between protobuf and the store; concurrency inside one process.  Transactions
  run one after the other, except where a theorem splits one in two to show what interleaves.
\<close>

section \<open>Corpus and Watcher\<close>

lemma gap_unsatisfied_tokens:
  "(\<exists>p. \<not> gap_satisfied t p) \<longleftrightarrow> t \<in> {''ropa'', ''dpo'', ''ai_register'', ''transfer_safeguards''}"
proof
  assume "\<exists>p. \<not> gap_satisfied t p"
  then show "t \<in> {''ropa'', ''dpo'', ''ai_register'', ''transfer_safeguards''}"
    by (auto simp: gap_satisfied_def split: if_splits)
next
  let ?p = "\<lparr>pf_id = [], pf_org = [], has_dpo = ''no'', has_ropa = ''no'', transfers_outside_eu = [],
    ai_systems = [[]], transfer_destinations = [], data_categories = [], vendor_list = []\<rparr>"
  assume "t \<in> {''ropa'', ''dpo'', ''ai_register'', ''transfer_safeguards''}"
  then have "\<not> gap_satisfied t ?p" by (auto simp: gap_satisfied_def)
  then show "\<exists>p. \<not> gap_satisfied t p" ..
qed

text \<open>
  The corpus and the Watcher share one vocabulary of controls: a token passes the corpus's
  check of \<open>requires\<close> exactly when some profile can lack the control it names, so no
  accepted token is one whose gap can never be raised, and no evaluated token is refused.
\<close>

theorem gap_vocabulary_agrees:
  "flag gap_tokens t \<longleftrightarrow> (\<exists>p. \<not> gap_satisfied t p)"
  unfolding gap_unsatisfied_tokens by (simp add: flag_def gap_tokens_def)

text \<open>
  The reasons rendered for a finding can say of a control that is in place that the record
  does not show it: the Watcher raises a gap because the data protection officer is missing and
  the record of processing is there, and the reasons for that obligation deny both.
\<close>

theorem reasons_deny_control_in_place:
  "has_ropa example_profile = ''yes''
   \<and> validate_applies_when (Doc (JObj [(''requires'', JArr (map JStr (requires example_obligation)))])) = []
   \<and> map (metadata) (detect_gaps example_inputs)
       = [[(''missing'', MList [''dpo'']), (''recurring'', MBool False)]]
   \<and> ''your compliance record does not show a record of processing activities''
       \<in> set (applies_because (Doc (JObj [(''requires'', JArr (map JStr (requires example_obligation)))])))"
  by code_simp

text \<open>
  A finding made from a signal that cites an obligation of a valid pack always carries a
  label, a severity of the four bands, and an address whenever the regulation's CELEX number
  has the form EUR-Lex publishes regulations under.
\<close>

theorem finding_from_valid_pack_is_cited:
  assumes "validate_pack p = []" and "b \<in> set (pk_obligations p)" and "co_citation ob = po_citation b"
  shows "fd_regulatory_obligation (convert uni s ob cats) \<noteq> []
    \<and> fd_severity (convert uni s ob cats) \<in> set severity_bands
    \<and> (fd_citation_url (convert uni s ob cats) = [] \<longleftrightarrow> celex_regulation (cit_celex (po_citation b)) = None)"
proof -
  from assms(1,2) have "citation_ok (po_citation b)"
    by (auto simp: validate_pack_Nil pack_ok_def obligation_ok_def)
  then have "names_target (po_citation b)" "cit_celex (po_citation b) \<noteq> []"
    by (auto simp: citation_ok_names_target citation_ok_def blank_def)
  then show ?thesis
    by (simp add: convert_def assms(3) citation_label_empty citation_url_empty severity_in_bands)
qed

definition example_pack_obligation :: pack_obligation where
  "example_pack_obligation = \<lparr>po_slug = ''gdpr-art-30-ropa'', po_title = ''Keep a record'',
     po_summary = replicate 120 CHR ''x'', po_citation = example_citation, po_applies = BlankDoc,
     po_severity = ''high'', po_due_within = 0, po_recurrence = [], po_effective = [],
     po_tags = [], po_action = ''create_ropa''\<rparr>"

definition example_pack :: pack where
  "example_pack = \<lparr>pk_id = ''gdpr'', pk_document = None, pk_obligations = [example_pack_obligation],
     pk_guidelines = [], pk_decisions = []\<rparr>"

theorem finding_from_valid_pack_is_cited_witness:
  "\<exists>ob s. co_citation ob = example_citation
     \<and> fd_regulatory_obligation (convert id s ob []) \<noteq> [] \<and> fd_citation_url (convert id s ob []) \<noteq> []"
proof -
  have v: "validate_pack example_pack = []" by code_simp
  have c: "celex_regulation (cit_celex example_citation) \<noteq> None" by code_simp
  have m: "example_pack_obligation \<in> set (pk_obligations example_pack)"
    by (simp add: example_pack_def)
  define ob where "ob = \<lparr>co_id = [], co_slug = [], co_summary = [], co_severity = ''high'',
    co_action_type = [], co_citation = example_citation\<rparr>"
  have ob: "co_citation ob = po_citation example_pack_obligation"
    by (simp add: ob_def example_pack_obligation_def)
  then show ?thesis
    using finding_from_valid_pack_is_cited [OF v m ob, of id undefined "[]"] c
    by (intro exI [of _ ob] exI [of _ undefined]) (auto simp: example_pack_obligation_def)
qed

end
